(* ===== verification/Prelude.thy ===== *)
theory Prelude
  imports Main "HOL-Library.Word"
begin

unbundle bit_operations_syntax

text \<open>
  Vocabulary and automation the components share: the types of the model (bytes, texts, numbers
  and errors as values), big-endian fields as a \<open>DataView\<close> reads and writes them, the
  collections of rewrite rules the component proofs use, and the locale that lifts an invariant of
  one step to every sequence of steps.
\<close>

named_theorems byte_simps "rewrite rules for bytes and big-endian fields"
named_theorems result_simps "rewrite rules for results that are an error or a value"

section \<open>Types of the model\<close>

type_synonym byte = "8 word"
type_synonym bytes = "byte list"

text \<open>
  A JavaScript string as the sequence of its code points. A code point from 0xD800 to 0xDFFF is a
  lone surrogate. Header names, header values and other protocol text are ASCII or Latin-1 and use
  \<open>string\<close>.
\<close>

type_synonym code_points = "nat list"

text \<open>
  A JavaScript number as the guards \<open>Number.isInteger\<close> and \<open>Number.isSafeInteger\<close>
  see it: an integer, or anything else (a fraction, an infinity, NaN, or a value that is no number).
\<close>

datatype js_number = IntegerNumber int | OtherNumber

fun is_integer :: "js_number \<Rightarrow> bool" where
  "is_integer (IntegerNumber _) = True"
| "is_integer OtherNumber = False"

fun integer_value :: "js_number \<Rightarrow> int" where
  "integer_value (IntegerNumber n) = n"
| "integer_value OtherNumber = 0"

definition max_safe_integer :: nat where
  "max_safe_integer = 9007199254740991"

definition is_safe_integer :: "js_number \<Rightarrow> bool" where
  "is_safe_integer n \<longleftrightarrow> is_integer n \<and> \<bar>integer_value n\<bar> \<le> int max_safe_integer"

section \<open>Results: an error or a value\<close>

fun bind_result :: "'e + 'a \<Rightarrow> ('a \<Rightarrow> 'e + 'b) \<Rightarrow> 'e + 'b" where
  "bind_result (Inl e) f = Inl e"
| "bind_result (Inr x) f = f x"

text \<open>\<open>xs.map(f)\<close> for an \<open>f\<close> that may throw: the first error ends the loop.\<close>

fun map_result :: "('a \<Rightarrow> 'e + 'b) \<Rightarrow> 'a list \<Rightarrow> 'e + 'b list" where
  "map_result f [] = Inr []"
| "map_result f (x # xs) =
     bind_result (f x) (\<lambda>y. bind_result (map_result f xs) (\<lambda>ys. Inr (y # ys)))"

lemma bind_result_Inr_iff [result_simps]:
  "bind_result r f = Inr y \<longleftrightarrow> (\<exists>x. r = Inr x \<and> f x = Inr y)"
  by (cases r) auto

lemma bind_result_Inl_iff [result_simps]:
  "bind_result r f = Inl e \<longleftrightarrow> r = Inl e \<or> (\<exists>x. r = Inr x \<and> f x = Inl e)"
  by (cases r) auto

lemma map_result_Inr_iff [result_simps]:
  "map_result f xs = Inr ys \<longleftrightarrow> list_all2 (\<lambda>x y. f x = Inr y) xs ys"
  by (induction xs arbitrary: ys) (auto simp: result_simps list_all2_Cons1)

lemma map_result_length: "map_result f xs = Inr ys \<Longrightarrow> length ys = length xs"
  by (auto simp: result_simps dest: list_all2_lengthD)

section \<open>Big-endian fields\<close>

text \<open>\<open>be_val\<close> is what \<open>getUint16\<close> and \<open>getBigUint64\<close> return for the bytes of the
  field; \<open>be_bytes n v\<close> is the field of \<open>n\<close> bytes that \<open>setUint16\<close> and
  \<open>setBigUint64\<close> write for \<open>v\<close>, reduced modulo the width of the field.\<close>

definition be_val :: "bytes \<Rightarrow> nat" where
  "be_val bs = foldl (\<lambda>a b. a * 256 + unat b) 0 bs"

primrec be_bytes :: "nat \<Rightarrow> nat \<Rightarrow> bytes" where
  "be_bytes 0 v = []"
| "be_bytes (Suc n) v = be_bytes n (v div 256) @ [word_of_nat (v mod 256)]"

lemma be_val_Nil [byte_simps, simp]: "be_val [] = 0"
  by (simp add: be_val_def)

lemma be_val_snoc [byte_simps]: "be_val (bs @ [b]) = be_val bs * 256 + unat b"
  by (simp add: be_val_def)

lemma length_be_bytes [byte_simps, simp]: "length (be_bytes n v) = n"
  by (induction n arbitrary: v) auto

lemma unat_byte_lt [simp]: "unat (b :: byte) < 256"
  using unsigned_less [of b] by simp

lemma unat_byte_of_nat [byte_simps]: "n < 256 \<Longrightarrow> unat (word_of_nat n :: byte) = n"
  by (simp add: unat_of_nat)

lemma be_val_be_bytes [byte_simps]: "be_val (be_bytes n v) = v mod 256 ^ n"
proof (induction n arbitrary: v)
  case 0
  show ?case by simp
next
  case (Suc n)
  have "v mod 256 ^ Suc n = (v div 256) mod 256 ^ n * 256 + v mod 256"
    by (simp add: mod_mult2_eq)
  then show ?case by (simp add: be_val_snoc Suc.IH unat_byte_of_nat)
qed

lemma be_bytes_be_val [byte_simps]: "be_bytes (length bs) (be_val bs) = bs"
proof (induction bs rule: rev_induct)
  case Nil
  show ?case by simp
next
  case (snoc b bs)
  have "(be_val bs * 256 + unat b) div 256 = be_val bs"
    and "(be_val bs * 256 + unat b) mod 256 = unat b"
    by (simp_all add: div_mult_self3)
  then show ?case by (simp add: be_val_snoc snoc.IH)
qed

lemma be_val_lt: "be_val bs < 256 ^ length bs"
proof (induction bs rule: rev_induct)
  case Nil
  show ?case by simp
next
  case (snoc b bs)
  have "be_val bs * 256 + unat b < (be_val bs + 1) * 256" by simp
  also have "\<dots> \<le> 256 ^ length bs * 256" using snoc.IH by (intro mult_right_mono) auto
  finally show ?case by (simp add: be_val_snoc)
qed

section \<open>Statements about every byte\<close>

lemma all_bytes: "(\<forall>b :: byte. P b) \<longleftrightarrow> (\<forall>n < 256. P (word_of_nat n))"
proof
  assume *: "\<forall>n < 256. P (word_of_nat n)"
  show "\<forall>b :: byte. P b"
  proof
    fix b :: byte
    have "P (word_of_nat (unat b))" using * unat_byte_lt by blast
    then show "P b" by simp
  qed
qed simp

section \<open>The masks of a frame header\<close>

lemma byte_split: "(b :: byte) AND (m OR k) = (b AND m) OR (b AND k)"
  by (rule bit.conj_disj_distrib)

lemma byte_full: "(b :: byte) AND 0xFF = b"
proof -
  have "(0xFF :: byte) = - 1" by simp
  then show ?thesis by (simp only: and.right_neutral)
qed

lemma bit_80: "bit (0x80 :: byte) n \<longleftrightarrow> n = 7"
  using bit_exp_iff [where 'a = byte, of 7 n] by auto

lemma and_80: "(b :: byte) AND 0x80 = (if bit b 7 then 0x80 else 0)"
proof (rule bit_word_eqI)
  fix n
  show "bit (b AND 0x80) n \<longleftrightarrow> bit (if bit b 7 then 0x80 else 0 :: byte) n"
    by (cases "n = 7"; cases "bit b 7") (simp_all only: bit_and_iff bit_80 if_True if_False bit_0_eq bot_fun_def bot_bool_def simp_thms)
qed

lemma bit_7: "bit (b :: byte) 7 \<longleftrightarrow> odd (unat b div 128)"
proof -
  have "bit b 7 \<longleftrightarrow> bit (unat b) 7" by (simp add: bit_unsigned_iff)
  then show ?thesis by (simp add: bit_iff_odd)
qed

lemma low_and_80: "n < 128 \<Longrightarrow> (word_of_nat n :: byte) AND 0x80 = 0"
  by (simp add: and_80 bit_7 unat_byte_of_nat)

lemma and_7F: "(b :: byte) AND 0x80 = 0 \<Longrightarrow> b AND 0x7F = b"
  using byte_split [of b "0x80" "0x7F"] byte_full [of b] by simp

lemma first_byte:
  assumes "(b :: byte) AND 0x70 = 0"
  shows "(if b AND 0x80 \<noteq> 0 then 0x80 else 0) OR word_of_nat (unat (b AND 0x0F)) = b"
proof -
  have "b AND ((0x80 OR 0x0F) OR 0x70) = (b AND 0x80) OR (b AND 0x0F)"
    unfolding byte_split using assms by simp
  then have "b = (b AND 0x80) OR (b AND 0x0F)" by (simp add: byte_full)
  then show ?thesis by (simp add: and_80 split: if_splits)
qed

lemma second_byte:
  assumes "(b :: byte) AND 0x80 \<noteq> 0"
  shows "0x80 OR word_of_nat (unat (b AND 0x7F)) = b"
proof -
  have "b AND (0x80 OR 0x7F) = (b AND 0x80) OR (b AND 0x7F)" by (rule byte_split)
  with assms show ?thesis by (simp add: byte_full and_80 split: if_splits)
qed

lemma unat_and_7F: "unat ((b :: byte) AND 0x7F) < 128"
proof -
  have "b AND 0x7F \<le> 0x7F" by (rule word_and_le1)
  then show ?thesis by (simp add: word_le_nat_alt)
qed

lemma unat_and_0F: "unat ((b :: byte) AND 0x0F) < 16"
proof -
  have "b AND 0x0F \<le> 0x0F" by (rule word_and_le1)
  then show ?thesis by (simp add: word_le_nat_alt)
qed

lemma mask_4: "(b :: byte) AND 0x0F = take_bit 4 b"
  by (simp add: take_bit_eq_mask mask_eq_exp_minus_1)

lemma small_and:
  assumes "n < 16"
  shows "(word_of_nat n :: byte) AND 0x70 = 0"
  and "(word_of_nat n :: byte) AND 0x0F = word_of_nat n"
proof -
  have "unat (take_bit 4 (word_of_nat n :: byte)) = take_bit 4 (unat (word_of_nat n :: byte))"
    by (rule unsigned_take_bit_eq)
  also have "\<dots> = n"
    using assms by (simp add: unat_byte_of_nat take_bit_nat_eq_self)
  finally have "unat (take_bit 4 (word_of_nat n :: byte)) = n" .
  then show 2: "(word_of_nat n :: byte) AND 0x0F = word_of_nat n"
    unfolding mask_4 word_unat_eq_iff using assms by (simp only: unat_byte_of_nat)
  then have "(word_of_nat n :: byte) AND 0x70 = (word_of_nat n AND 0x0F) AND 0x70" by simp
  also have "\<dots> = word_of_nat n AND (0x0F AND 0x70)" by (rule and.assoc)
  finally show "(word_of_nat n :: byte) AND 0x70 = 0" by simp
qed

section \<open>Sequences of steps\<close>

text \<open>
  A component with state is a function from a state and an event to the next state; \<open>foldl\<close> runs
  it over a sequence of events, which is an arbitrary interleaving of what its callers, its peer
  and the event loop do. A client of this interface proves that one step keeps the invariant.
\<close>

locale invariant_machine =
  fixes step :: "'s \<Rightarrow> 'e \<Rightarrow> 's"
    and inv :: "'s \<Rightarrow> bool"
  assumes step_inv: "inv s \<Longrightarrow> inv (step s e)"
begin

lemma run_inv: "inv s \<Longrightarrow> inv (foldl step s es)"
  by (induction es arbitrary: s) (auto intro: step_inv)

lemma prefix_inv: "inv s \<Longrightarrow> inv (foldl step s (take n es))"
  by (rule run_inv)

end

text \<open>A quantity that no step decreases, such as a phase or a counter of reports.\<close>

locale monotone_machine =
  fixes step :: "'s \<Rightarrow> 'e \<Rightarrow> 's"
    and rank :: "'s \<Rightarrow> 'r :: preorder"
  assumes step_rank: "rank s \<le> rank (step s e)"
begin

lemma run_rank: "rank s \<le> rank (foldl step s es)"
proof (induction es arbitrary: s)
  case Nil
  show ?case by simp
next
  case (Cons e es)
  from step_rank have "rank s \<le> rank (step s e)" .
  also from Cons.IH have "\<dots> \<le> rank (foldl step (step s e) es)" .
  finally show ?case by simp
qed

lemma run_rank_append: "rank (foldl step s es) \<le> rank (foldl step s (es @ fs))"
  using run_rank [of "foldl step s es" fs] by simp

end

end
