(* ===== verification/Js_Map.thy ===== *)
theory Js_Map
  imports Prelude "HOL-Library.AList"
begin

text \<open>
  The built-in \<open>Map\<close> of JavaScript, and \<open>mapOf\<close> of packages/server/internal/mapOf.js,
  the class of maps that label a missing key. A map is its list of entries in insertion order:
  \<open>set\<close> on a key that is there keeps the entry's place, \<open>set\<close> on a new key appends,
  \<open>delete\<close> removes. The locale states what clients of a map rely on.
\<close>

type_synonym ('k, 'v) js_map = "('k \<times> 'v) list"

named_theorems map_simps "what a lookup returns after each map operation"

definition js_get :: "('k, 'v) js_map \<Rightarrow> 'k \<Rightarrow> 'v option" where
  "js_get m k = map_of m k"

definition js_has :: "('k, 'v) js_map \<Rightarrow> 'k \<Rightarrow> bool" where
  "js_has m k \<longleftrightarrow> js_get m k \<noteq> None"

definition js_set :: "('k, 'v) js_map \<Rightarrow> 'k \<Rightarrow> 'v \<Rightarrow> ('k, 'v) js_map" where
  "js_set m k v = AList.update k v m"

definition js_delete :: "('k, 'v) js_map \<Rightarrow> 'k \<Rightarrow> ('k, 'v) js_map" where
  "js_delete m k = AList.delete k m"

definition js_keys :: "('k, 'v) js_map \<Rightarrow> 'k list" where
  "js_keys m = map fst m"

definition js_values :: "('k, 'v) js_map \<Rightarrow> 'v list" where
  "js_values m = map snd m"

definition js_size :: "('k, 'v) js_map \<Rightarrow> nat" where
  "js_size m = length m"

text \<open>The keys of a \<open>Map\<close> are distinct.\<close>

definition js_wf :: "('k, 'v) js_map \<Rightarrow> bool" where
  "js_wf m \<longleftrightarrow> distinct (js_keys m)"

section \<open>The interface of a map\<close>

text \<open>What the server's bookkeeping relies on, for any representation of a map.\<close>

locale map_store =
  fixes empty :: 'm
    and get :: "'m \<Rightarrow> 'k \<Rightarrow> 'v option"
    and put :: "'m \<Rightarrow> 'k \<Rightarrow> 'v \<Rightarrow> 'm"
    and del :: "'m \<Rightarrow> 'k \<Rightarrow> 'm"
  assumes get_empty: "get empty k = None"
    and get_put: "get (put m k v) k' = (if k' = k then Some v else get m k')"
    and get_del: "get (del m k) k' = (if k' = k then None else get m k')"
begin

lemma get_put_same: "get (put m k v) k = Some v"
  by (simp add: get_put)

lemma get_del_same: "get (del m k) k = None"
  by (simp add: get_del)

lemma get_del_Some: "get (del m k) k' = Some v \<longleftrightarrow> k' \<noteq> k \<and> get m k' = Some v"
  by (simp add: get_del)

text \<open>A loop that deletes the keys of a list removes these and no other.\<close>

lemma get_del_all: "get (foldl del m ks) k = (if k \<in> set ks then None else get m k)"
  by (induction ks arbitrary: m) (auto simp: get_del)

lemma get_del_put: "k' \<noteq> k \<Longrightarrow> get (del (put m k v) k) k' = get m k'"
  by (simp add: get_del get_put)

end

interpretation js: map_store "[]" js_get js_set js_delete
  by unfold_locales (auto simp: js_get_def js_set_def js_delete_def update_conv' delete_conv')

lemmas js_lookup [map_simps, simp] = js.get_empty js.get_put js.get_del js.get_del_all

lemma js_has_simps [map_simps, simp]:
  "js_has m k \<longleftrightarrow> js_get m k \<noteq> None"
  by (simp add: js_has_def)

lemma js_wf_empty [simp]: "js_wf []"
  by (simp add: js_wf_def js_keys_def)

lemma js_wf_set [simp]: "js_wf m \<Longrightarrow> js_wf (js_set m k v)"
  by (simp add: js_wf_def js_keys_def js_set_def distinct_update)

lemma js_wf_delete [simp]: "js_wf m \<Longrightarrow> js_wf (js_delete m k)"
  by (simp add: js_wf_def js_keys_def js_delete_def distinct_delete)

lemma js_wf_delete_all [simp]: "js_wf m \<Longrightarrow> js_wf (foldl js_delete m ks)"
  by (induction ks arbitrary: m) auto

lemma js_keys_set_iff: "k \<in> set (js_keys m) \<longleftrightarrow> js_get m k \<noteq> None"
  by (auto simp: js_keys_def js_get_def map_of_eq_None_iff)

lemma js_values_iff: "js_wf m \<Longrightarrow> v \<in> set (js_values m) \<longleftrightarrow> (\<exists>k. js_get m k = Some v)"
  by (force simp: js_wf_def js_keys_def js_values_def js_get_def dest: map_of_SomeD)

lemma js_entry_get: "js_wf m \<Longrightarrow> (k, v) \<in> set m \<longleftrightarrow> js_get m k = Some v"
  by (simp add: js_wf_def js_keys_def js_get_def)

lemma js_size_0: "js_size m = 0 \<longleftrightarrow> m = []"
  by (simp add: js_size_def)

lemma js_size_set_new: "js_get m k = None \<Longrightarrow> js_size (js_set m k v) = Suc (js_size m)"
  by (induction m) (auto simp: js_size_def js_set_def js_get_def split: if_splits)

text \<open>A key keeps its place in the order of entries when its value is replaced.\<close>

lemma js_keys_set: "js_keys (js_set m k v) = (if js_has m k then js_keys m else js_keys m @ [k])"
  by (induction m) (auto simp: js_keys_def js_set_def js_get_def)

section \<open>Labelled maps\<close>

text \<open>
  \<open>mapOf(type)\<close>: the tag of the class, and \<open>require\<close>, which throws an error that names the
  type and the key where the built-in \<open>get\<close> would return \<open>undefined\<close>.
\<close>

record 'v labelled_map =
  map_type :: string
  map_server :: nat
  map_entries :: "(string, 'v) js_map"

definition mapOf :: "string \<Rightarrow> nat \<Rightarrow> 'v labelled_map" where
  "mapOf type server = \<lparr>map_type = type, map_server = server, map_entries = []\<rparr>"

definition toStringTag :: "'v labelled_map \<Rightarrow> string" where
  "toStringTag m = map_type m @ ''Map''"

definition require :: "'v labelled_map \<Rightarrow> string \<Rightarrow> string + 'v" where
  "require m key =
     (case js_get (map_entries m) key of
        None \<Rightarrow> Inl (map_type m @ '' '' @ key @ '' does not exist'')
      | Some value \<Rightarrow> Inr value)"

lemma require_Inr: "require m key = Inr value \<longleftrightarrow> js_get (map_entries m) key = Some value"
  by (simp add: require_def split: option.splits)

section \<open>Sets\<close>

text \<open>\<open>Set.prototype.add\<close> and \<open>delete\<close>.\<close>

definition set_add :: "'a list \<Rightarrow> 'a \<Rightarrow> 'a list" where
  "set_add xs x = (if x \<in> set xs then xs else xs @ [x])"

definition set_delete :: "'a list \<Rightarrow> 'a \<Rightarrow> 'a list" where
  "set_delete xs x = filter (\<lambda>y. y \<noteq> x) xs"

lemma set_set_ops [simp]:
  "set (set_add xs x) = insert x (set xs)" "set (set_delete xs x) = set xs - {x}"
  by (auto simp: set_add_def set_delete_def)

lemma delete_fresh: "x \<notin> set xs \<Longrightarrow> set_delete (set_add xs x) x = xs"
  by (auto simp: set_add_def set_delete_def filter_id_conv)

text \<open>\<open>[...new Set(xs)]\<close>: the first occurrences, in order.\<close>

definition unique :: "'a list \<Rightarrow> 'a list" where
  "unique xs = foldl set_add [] xs"

lemma distinct_set_add: "distinct xs \<Longrightarrow> distinct (set_add xs x)"
  by (simp add: set_add_def)

lemma foldl_set_add: "set (foldl set_add acc xs) = set acc \<union> set xs \<and> (distinct acc \<longrightarrow> distinct (foldl set_add acc xs))"
  by (induction xs arbitrary: acc) (auto simp: distinct_set_add)

lemma unique_set [simp]: "set (unique xs) = set xs" "distinct (unique xs)"
  using foldl_set_add [of "[]" xs] by (simp_all add: unique_def)

end
