(* ===== verification/H3_Receive.thy ===== *)
theory H3_Receive
  imports Js_Map
begin

text \<open>
  Delivery of received bytes to the application in packages/server/HTTP3Server.js:
  \<open>#deliverReceive\<close>, \<open>#finishReceive\<close> and \<open>#clearReceiveTimer\<close>. The native server holds the
  bytes back until \<open>completeReceive\<close> is called for them. Each delivery has a timer; the map
  \<open>#receiveTimers\<close> holds the timer of the delivery that is current for a stream. A delivery is named
  by the number of its timer, which is its place in \<open>deliveries\<close>.
\<close>

section \<open>State\<close>

record delivery =
  d_id :: string
  d_bytes :: nat
  d_operation :: string
  d_armed :: bool
  d_settled :: bool

datatype receive_report = ReceiveTimeout string nat | ReceiveRejected string nat

text \<open>\<open>completions\<close> is the list of calls of \<open>completeReceive\<close>, with the delivery that made it.\<close>

record receiving =
  receiveTimers :: "(string, nat) js_map"
  deliveries :: "delivery list"
  completions :: "(nat \<times> string \<times> nat \<times> bool) list"
  receiveTimeouts :: nat
  receiveReports :: "receive_report list"

definition no_deliveries :: receiving where
  "no_deliveries = \<lparr>receiveTimers = [], deliveries = [], completions = [], receiveTimeouts = 0, receiveReports = []\<rparr>"

definition update_delivery :: "nat \<Rightarrow> (delivery \<Rightarrow> delivery) \<Rightarrow> receiving \<Rightarrow> receiving" where
  "update_delivery n f s =
     (if n < length (deliveries s) then s\<lparr>deliveries := (deliveries s)[n := f (deliveries s ! n)]\<rparr> else s)"

definition clear_timeout :: "nat \<Rightarrow> receiving \<Rightarrow> receiving" where
  "clear_timeout n = update_delivery n (\<lambda>d. d\<lparr>d_armed := False\<rparr>)"

definition complete_receive :: "nat \<Rightarrow> bool \<Rightarrow> receiving \<Rightarrow> receiving" where
  "complete_receive n accepted s =
     s\<lparr>completions := completions s @ [(n, d_id (deliveries s ! n), d_bytes (deliveries s ! n), accepted)]\<rparr>"

section \<open>Operations\<close>

definition finishReceive :: "nat \<Rightarrow> bool \<Rightarrow> receiving \<Rightarrow> receiving" where
  "finishReceive n accepted s =
     (let d = deliveries s ! n
      in if js_get (receiveTimers s) (d_id d) \<noteq> Some n then s
         else let s1 = clear_timeout n s;
                  s2 = s1\<lparr>receiveTimers := js_delete (receiveTimers s1) (d_id d)\<rparr>;
                  s3 = complete_receive n accepted s2
              in if accepted then s3
                 else s3\<lparr>receiveReports := receiveReports s3 @ [ReceiveRejected (d_operation d) (d_bytes d)]\<rparr>)"

text \<open>The callback of the timer.\<close>

definition receive_timeout :: "nat \<Rightarrow> receiving \<Rightarrow> receiving" where
  "receive_timeout n s =
     (let d = deliveries s ! n; s0 = clear_timeout n s
      in if js_get (receiveTimers s) (d_id d) \<noteq> Some n then s0
         else let s1 = s0\<lparr>receiveTimers := js_delete (receiveTimers s0) (d_id d),
                         receiveTimeouts := receiveTimeouts s0 + 1\<rparr>;
                  s2 = complete_receive n False s1
              in s2\<lparr>receiveReports := receiveReports s2 @ [ReceiveTimeout (d_operation d) (d_bytes d)]\<rparr>)"

text \<open>\<open>throws\<close>: the call of \<open>deliver\<close> throws before it returns a promise.\<close>

definition deliverReceive :: "string \<Rightarrow> nat \<Rightarrow> string \<Rightarrow> bool \<Rightarrow> receiving \<Rightarrow> receiving" where
  "deliverReceive sid byteLength op throws s =
     (let n = length (deliveries s);
          s1 = s\<lparr>deliveries := deliveries s @ [\<lparr>d_id = sid, d_bytes = byteLength, d_operation = op,
                    d_armed = True, d_settled = throws\<rparr>],
                 receiveTimers := js_set (receiveTimers s) sid n\<rparr>
      in if throws then finishReceive n False s1 else s1)"

definition clearReceiveTimer :: "string \<Rightarrow> receiving \<Rightarrow> receiving" where
  "clearReceiveTimer sid s =
     (let s1 = (case js_get (receiveTimers s) sid of Some n \<Rightarrow> clear_timeout n s | None \<Rightarrow> s)
      in s1\<lparr>receiveTimers := js_delete (receiveTimers s1) sid\<rparr>)"

text \<open>The loop of \<open>handleStop\<close> over all timers.\<close>

definition clear_all_timers :: "receiving \<Rightarrow> receiving" where
  "clear_all_timers s =
     (foldl (\<lambda>t n. clear_timeout n t) s (js_values (receiveTimers s)))\<lparr>receiveTimers := []\<rparr>"

datatype receive_event =
    Deliver string nat string bool
  | DeliverySettles nat bool
  | DeliveryTimer nat
  | ClearTimer string
  | ClearAll

text \<open>A promise settles once; a timer fires once and only while it is armed.\<close>

fun receive_step :: "receiving \<Rightarrow> receive_event \<Rightarrow> receiving" where
  "receive_step s (Deliver sid n op throws) = deliverReceive sid n op throws s"
| "receive_step s (DeliverySettles n ok) =
     (if n < length (deliveries s) \<and> \<not> d_settled (deliveries s ! n)
      then finishReceive n ok (update_delivery n (\<lambda>d. d\<lparr>d_settled := True\<rparr>) s) else s)"
| "receive_step s (DeliveryTimer n) =
     (if n < length (deliveries s) \<and> d_armed (deliveries s ! n) then receive_timeout n s else s)"
| "receive_step s (ClearTimer sid) = clearReceiveTimer sid s"
| "receive_step s ClearAll = clear_all_timers s"

definition receive_run :: "receiving \<Rightarrow> receive_event list \<Rightarrow> receiving" where
  "receive_run = foldl receive_step"

section \<open>The invariant\<close>

definition completed :: "nat \<Rightarrow> receiving \<Rightarrow> (string \<times> nat \<times> bool) list" where
  "completed n s = map snd (filter (\<lambda>c. fst c = n) (completions s))"

text \<open>The current delivery of a stream is one of it, is not completed, and its timer is armed; no
  delivery completes twice.\<close>

definition receive_inv :: "receiving \<Rightarrow> bool" where
  "receive_inv s \<longleftrightarrow>
     (\<forall>sid n. js_get (receiveTimers s) sid = Some n \<longrightarrow>
        n < length (deliveries s) \<and> d_id (deliveries s ! n) = sid \<and> d_armed (deliveries s ! n)
        \<and> completed n s = [])
     \<and> (\<forall>n. length (completed n s) \<le> 1)
     \<and> (\<forall>n \<ge> length (deliveries s). completed n s = [])"

lemma update_delivery_simps [simp]:
  "length (deliveries (update_delivery n f s)) = length (deliveries s)"
  "receiveTimers (update_delivery n f s) = receiveTimers s"
  "completions (update_delivery n f s) = completions s"
  by (simp_all add: update_delivery_def)

lemma update_delivery_nth:
  "m < length (deliveries s) \<Longrightarrow>
   deliveries (update_delivery n f s) ! m = (if m = n then f (deliveries s ! n) else deliveries s ! m)"
  by (simp add: update_delivery_def nth_list_update)

lemma clear_timeout_simps [simp]:
  "length (deliveries (clear_timeout n s)) = length (deliveries s)"
  "receiveTimers (clear_timeout n s) = receiveTimers s"
  "completions (clear_timeout n s) = completions s"
  by (simp_all add: clear_timeout_def)

lemma clear_timeout_nth:
  "m < length (deliveries s) \<Longrightarrow> d_id (deliveries (clear_timeout n s) ! m) = d_id (deliveries s ! m)
     \<and> d_bytes (deliveries (clear_timeout n s) ! m) = d_bytes (deliveries s ! m)
     \<and> (m \<noteq> n \<longrightarrow> d_armed (deliveries (clear_timeout n s) ! m) = d_armed (deliveries s ! m))"
  by (simp add: clear_timeout_def update_delivery_nth)

lemma completed_complete:
  "completed m (complete_receive n ok s) = completed m s
     @ (if m = n then [(d_id (deliveries s ! n), d_bytes (deliveries s ! n), ok)] else [])"
  by (simp add: completed_def complete_receive_def)

lemma completed_cong: "completions t = completions s \<Longrightarrow> completed n t = completed n s"
  by (simp add: completed_def)

text \<open>Settling the current delivery, by its promise or by its timer, looks the same from outside.\<close>

definition settled_as :: "nat \<Rightarrow> bool \<Rightarrow> receiving \<Rightarrow> receiving \<Rightarrow> bool" where
  "settled_as n ok s t \<longleftrightarrow>
     receiveTimers t = js_delete (receiveTimers s) (d_id (deliveries s ! n))
     \<and> length (deliveries t) = length (deliveries s)
     \<and> (\<forall>m < length (deliveries s). d_id (deliveries t ! m) = d_id (deliveries s ! m)
          \<and> (m \<noteq> n \<longrightarrow> d_armed (deliveries t ! m) = d_armed (deliveries s ! m)))
     \<and> (\<forall>m. completed m t = completed m s
          @ (if m = n then [(d_id (deliveries s ! n), d_bytes (deliveries s ! n), ok)] else []))"

lemma finish_settles:
  assumes "n < length (deliveries s)" and "js_get (receiveTimers s) (d_id (deliveries s ! n)) = Some n"
  shows "settled_as n ok s (finishReceive n ok s)"
  using assms
  by (auto simp: settled_as_def finishReceive_def Let_def completed_def complete_receive_def clear_timeout_nth)

lemma timeout_settles:
  assumes "n < length (deliveries s)" and "js_get (receiveTimers s) (d_id (deliveries s ! n)) = Some n"
  shows "settled_as n False s (receive_timeout n s)"
  using assms
  by (auto simp: settled_as_def receive_timeout_def Let_def completed_def complete_receive_def clear_timeout_nth)

lemma currentD:
  assumes "receive_inv s" and "js_get (receiveTimers s) sid = Some n"
  shows "n < length (deliveries s)" and "d_id (deliveries s ! n) = sid"
    and "d_armed (deliveries s ! n)" and "completed n s = []"
  using assms unfolding receive_inv_def by blast+

lemma settled_as_inv:
  assumes "receive_inv s" and "n < length (deliveries s)"
    and "js_get (receiveTimers s) (d_id (deliveries s ! n)) = Some n" and t: "settled_as n ok s t"
  shows "receive_inv t"
  unfolding receive_inv_def
proof (intro conjI allI impI)
  fix sid m
  assume "js_get (receiveTimers t) sid = Some m"
  then have sid: "sid \<noteq> d_id (deliveries s ! n)" and cur: "js_get (receiveTimers s) sid = Some m"
    using t by (auto simp: settled_as_def split: if_splits)
  note m = currentD [OF assms(1) cur]
  then have "m \<noteq> n" using sid by auto
  then show "m < length (deliveries t)" and "d_id (deliveries t ! m) = sid"
    and "d_armed (deliveries t ! m)" and "completed m t = []"
    using m t unfolding settled_as_def by simp_all
next
  fix m
  show "length (completed m t) \<le> 1"
    using t assms(1) currentD(4) [OF assms(1,3)] unfolding settled_as_def receive_inv_def by simp
next
  fix m
  assume "length (deliveries t) \<le> m"
  then show "completed m t = []"
    using t assms(1,2) unfolding settled_as_def receive_inv_def by simp
qed

text \<open>What leaves the maps and the completed deliveries as they are.\<close>

lemma receive_inv_cong:
  assumes "receive_inv s" and "length (deliveries t) = length (deliveries s)"
    and "\<forall>sid. js_get (receiveTimers t) sid = js_get (receiveTimers s) sid \<or> js_get (receiveTimers t) sid = None"
    and "completions t = completions s"
    and "\<forall>sid m. js_get (receiveTimers t) sid = Some m \<longrightarrow>
      d_id (deliveries t ! m) = d_id (deliveries s ! m) \<and> d_armed (deliveries t ! m) = d_armed (deliveries s ! m)"
  shows "receive_inv t"
  unfolding receive_inv_def
proof (intro conjI allI impI)
  fix sid n
  assume t: "js_get (receiveTimers t) sid = Some n"
  then have s: "js_get (receiveTimers s) sid = Some n" using assms(3) by (metis option.distinct(1))
  have "n < length (deliveries s) \<and> d_id (deliveries s ! n) = sid \<and> d_armed (deliveries s ! n) \<and> completed n s = []"
    using assms(1) s unfolding receive_inv_def by blast
  then show "n < length (deliveries t)" and "d_id (deliveries t ! n) = sid"
    and "d_armed (deliveries t ! n)" and "completed n t = []"
    using assms(2,5) t completed_cong [OF assms(4), of n] by auto
next
  fix n
  show "length (completed n t) \<le> 1"
    using assms(1) completed_cong [OF assms(4), of n] by (simp add: receive_inv_def)
next
  fix n
  assume "length (deliveries t) \<le> n"
  then show "completed n t = []"
    using assms(1,2) completed_cong [OF assms(4), of n] by (simp add: receive_inv_def)
qed

lemma update_delivery_inv:
  assumes "receive_inv s" and "\<And>d. d_id (f d) = d_id d" and "\<And>d. d_armed (f d) = d_armed d"
  shows "receive_inv (update_delivery n f s)"
proof (rule receive_inv_cong [OF assms(1)])
  show "\<forall>sid m. js_get (receiveTimers (update_delivery n f s)) sid = Some m \<longrightarrow>
      d_id (deliveries (update_delivery n f s) ! m) = d_id (deliveries s ! m)
      \<and> d_armed (deliveries (update_delivery n f s) ! m) = d_armed (deliveries s ! m)"
    using assms unfolding receive_inv_def by (auto simp: update_delivery_nth)
qed simp_all

lemma added_inv:
  assumes "receive_inv s"
  shows "receive_inv (s\<lparr>deliveries := deliveries s @ [d\<lparr>d_id := sid, d_armed := True\<rparr>],
    receiveTimers := js_set (receiveTimers s) sid (length (deliveries s))\<rparr>)"
  using assms unfolding receive_inv_def completed_def
  by (auto simp: nth_append less_Suc_eq)

lemma finishReceive_inv:
  "receive_inv s \<Longrightarrow> n < length (deliveries s) \<Longrightarrow> receive_inv (finishReceive n ok s)"
  using finish_settles [of n s ok] settled_as_inv [of s n ok "finishReceive n ok s"]
  by (cases "js_get (receiveTimers s) (d_id (deliveries s ! n)) = Some n") (auto simp: finishReceive_def)

lemma clear_timeout_inv:
  assumes "receive_inv s" and "\<forall>sid. js_get (receiveTimers s) sid \<noteq> Some n"
  shows "receive_inv (clear_timeout n s)"
  by (rule receive_inv_cong [OF assms(1)])
    (use assms in \<open>auto simp: clear_timeout_def update_delivery_def nth_list_update\<close>)

lemma deliverReceive_inv:
  assumes "receive_inv s"
  shows "receive_inv (deliverReceive sid byteLength op throws s)"
proof -
  let ?d = "\<lparr>d_id = sid, d_bytes = byteLength, d_operation = op, d_armed = True, d_settled = throws\<rparr>"
  let ?s = "s\<lparr>deliveries := deliveries s @ [?d], receiveTimers := js_set (receiveTimers s) sid (length (deliveries s))\<rparr>"
  have "receive_inv ?s" using added_inv [OF assms, of sid ?d] by simp
  moreover from this have "receive_inv (finishReceive (length (deliveries s)) False ?s)"
    by (rule finishReceive_inv) simp
  ultimately show ?thesis by (cases throws) (simp_all add: deliverReceive_def Let_def)
qed

lemma receive_timeout_inv:
  assumes "receive_inv s" and "n < length (deliveries s)"
  shows "receive_inv (receive_timeout n s)"
proof (cases "js_get (receiveTimers s) (d_id (deliveries s ! n)) = Some n")
  case True
  show ?thesis by (rule settled_as_inv [OF assms True timeout_settles [OF assms(2) True]])
next
  case False
  moreover have "\<forall>sid. js_get (receiveTimers s) sid \<noteq> Some n"
    using False assms(1) unfolding receive_inv_def by metis
  ultimately show ?thesis using clear_timeout_inv [OF assms(1)] by (simp add: receive_timeout_def Let_def)
qed

lemma clear_id_inv:
  assumes "receive_inv s"
  shows "receive_inv (clearReceiveTimer sid s)"
proof (rule receive_inv_cong [OF assms])
  have other: "m \<noteq> n" if "js_get (receiveTimers s) sid = Some n" "js_get (receiveTimers s) i = Some m" "i \<noteq> sid" for i m n
    using currentD(2) [OF assms] that by metis
  show "\<forall>i m. js_get (receiveTimers (clearReceiveTimer sid s)) i = Some m \<longrightarrow>
      d_id (deliveries (clearReceiveTimer sid s) ! m) = d_id (deliveries s ! m)
      \<and> d_armed (deliveries (clearReceiveTimer sid s) ! m) = d_armed (deliveries s ! m)"
    using other currentD(1) [OF assms]
    by (auto simp: clearReceiveTimer_def Let_def clear_timeout_def update_delivery_nth split: option.splits if_splits)
qed (auto simp: clearReceiveTimer_def Let_def split: option.splits)

lemma clear_all_fold:
  "length (deliveries (foldl (\<lambda>t n. clear_timeout n t) s ns)) = length (deliveries s)
   \<and> completions (foldl (\<lambda>t n. clear_timeout n t) s ns) = completions s"
  by (induction ns arbitrary: s) auto

lemma clear_all_inv: "receive_inv s \<Longrightarrow> receive_inv (clear_all_timers s)"
  by (rule receive_inv_cong [of s]) (auto simp: clear_all_timers_def clear_all_fold)

lemma receive_step_inv: "receive_inv s \<Longrightarrow> receive_inv (receive_step s e)"
  by (cases e)
    (auto simp: deliverReceive_inv receive_timeout_inv clear_id_inv clear_all_inv
      intro!: finishReceive_inv update_delivery_inv)

interpretation receive: invariant_machine receive_step receive_inv
  by unfold_locales (rule receive_step_inv)

lemma receive_inv_new: "receive_inv no_deliveries"
  by (simp add: receive_inv_def no_deliveries_def completed_def)

lemma receive_reachable: "receive_inv (receive_run no_deliveries es)"
  unfolding receive_run_def by (rule receive.run_inv [OF receive_inv_new])

section \<open>Deliveries that are over\<close>

text \<open>A delivery that is known but not the current one of any stream never completes any more.\<close>

definition over :: "nat \<Rightarrow> receiving \<Rightarrow> bool" where
  "over n s \<longleftrightarrow> n < length (deliveries s) \<and> (\<forall>sid. js_get (receiveTimers s) sid \<noteq> Some n)"

lemma over_cong:
  assumes "over n s" and "length (deliveries s) \<le> length (deliveries t)" and "completed n t = completed n s"
    and "\<forall>sid. js_get (receiveTimers t) sid = js_get (receiveTimers s) sid \<or> js_get (receiveTimers t) sid = None
           \<or> js_get (receiveTimers t) sid = Some (length (deliveries s))"
  shows "over n t \<and> completed n t = completed n s"
  using assms unfolding over_def by (metis less_le_trans nat_neq_iff option.inject option.distinct(1))

lemma settled_as_over:
  assumes "over n s" and "settled_as m ok s t" and "m \<noteq> n"
  shows "over n t \<and> completed n t = completed n s"
  using assms by (intro over_cong) (auto simp: settled_as_def)

lemma finishReceive_over:
  assumes "over n s" and "m < length (deliveries s)"
  shows "over n (finishReceive m ok s) \<and> completed n (finishReceive m ok s) = completed n s"
proof (cases "js_get (receiveTimers s) (d_id (deliveries s ! m)) = Some m")
  case True
  then have "m \<noteq> n" using assms(1) by (auto simp: over_def)
  then show ?thesis by (rule settled_as_over [OF assms(1) finish_settles [OF assms(2) True]])
qed (use assms in \<open>simp add: finishReceive_def\<close>)

lemma receive_timeout_over:
  assumes "over n s" and "m < length (deliveries s)"
  shows "over n (receive_timeout m s) \<and> completed n (receive_timeout m s) = completed n s"
proof (cases "js_get (receiveTimers s) (d_id (deliveries s ! m)) = Some m")
  case True
  then have "m \<noteq> n" using assms(1) by (auto simp: over_def)
  then show ?thesis by (rule settled_as_over [OF assms(1) timeout_settles [OF assms(2) True]])
qed (use assms in \<open>simp add: receive_timeout_def Let_def over_def completed_def\<close>)

lemma added_over:
  assumes "over n s"
  shows "over n (s\<lparr>deliveries := deliveries s @ [d], receiveTimers := js_set (receiveTimers s) sid (length (deliveries s))\<rparr>)"
  using assms by (auto simp: over_def)

lemma deliverReceive_over:
  assumes "over n s"
  shows "over n (deliverReceive sid byteLength op throws s)
    \<and> completed n (deliverReceive sid byteLength op throws s) = completed n s"
proof -
  let ?d = "\<lparr>d_id = sid, d_bytes = byteLength, d_operation = op, d_armed = True, d_settled = throws\<rparr>"
  let ?s = "s\<lparr>deliveries := deliveries s @ [?d], receiveTimers := js_set (receiveTimers s) sid (length (deliveries s))\<rparr>"
  have "over n ?s" by (rule added_over [OF assms])
  moreover from finishReceive_over [OF this, of "length (deliveries s)" False]
  have "over n (finishReceive (length (deliveries s)) False ?s)
      \<and> completed n (finishReceive (length (deliveries s)) False ?s) = completed n s"
    by (simp add: completed_def)
  ultimately show ?thesis by (cases throws) (simp_all add: deliverReceive_def Let_def completed_def)
qed

lemma receive_step_over:
  assumes "over n s"
  shows "over n (receive_step s e) \<and> completed n (receive_step s e) = completed n s"
proof (cases e)
  case (DeliverySettles m ok)
  have "over n (update_delivery m f s)" for f using assms by (simp add: over_def)
  moreover have "completed n (update_delivery m f s) = completed n s" for f by (simp add: completed_def)
  ultimately show ?thesis
    using DeliverySettles assms finishReceive_over [of n "update_delivery m (\<lambda>d. d\<lparr>d_settled := True\<rparr>) s" m ok]
    by simp
next
  case (ClearTimer sid)
  show ?thesis unfolding ClearTimer receive_step.simps
    by (rule over_cong [OF assms]) (auto simp: clearReceiveTimer_def Let_def completed_def split: option.splits)
next
  case ClearAll
  show ?thesis unfolding ClearAll receive_step.simps
    by (rule over_cong [OF assms]) (auto simp: clear_all_timers_def clear_all_fold completed_def)
qed (use assms in \<open>auto simp: deliverReceive_over receive_timeout_over\<close>)

lemma receive_run_over:
  "over n s \<Longrightarrow> over n (receive_run s es) \<and> completed n (receive_run s es) = completed n s"
proof (induction es arbitrary: s)
  case Nil
  then show ?case by (simp add: receive_run_def)
next
  case (Cons e es)
  then show ?case using receive_step_over [of n s e] by (simp add: receive_run_def)
qed

lemma receive_run_append: "receive_run s (es @ fs) = receive_run (receive_run s es) fs"
  and receive_run_Cons: "receive_run s (e # es) = receive_run (receive_step s e) es"
  by (simp_all add: receive_run_def)

lemma settled_as_is_over:
  assumes "receive_inv s" and "js_get (receiveTimers s) sid = Some n" and "settled_as n ok s t"
  shows "over n t" and "completed n t = [(sid, d_bytes (deliveries s ! n), ok)]"
proof -
  note cur = currentD [OF assms(1,2)]
  show "over n t"
    using assms(3) cur currentD(2) [OF assms(1)] unfolding over_def settled_as_def by auto
  show "completed n t = [(sid, d_bytes (deliveries s ! n), ok)]"
    using assms(3) cur unfolding settled_as_def by simp
qed

section \<open>Properties\<close>

text \<open>C16: In every run, the native server is told at most once that a delivery completed.\<close>

theorem delivery_completes_at_most_once:
  "length (completed n (receive_run no_deliveries es)) \<le> 1"
  using receive_reachable [of es] by (simp add: receive_inv_def)

text \<open>The delivery that is current for a stream completes when its promise settles: exactly once, for
  the bytes it carried and with the outcome of the promise, whatever happens afterwards.\<close>

theorem settled_delivery_completes:
  assumes "js_get (receiveTimers (receive_run no_deliveries es)) sid = Some n"
    and "\<not> d_settled (deliveries (receive_run no_deliveries es) ! n)"
  shows "completed n (receive_run no_deliveries (es @ DeliverySettles n ok # fs))
    = [(sid, d_bytes (deliveries (receive_run no_deliveries es) ! n), ok)]"
proof -
  let ?s = "receive_run no_deliveries es"
  let ?u = "update_delivery n (\<lambda>d. d\<lparr>d_settled := True\<rparr>) ?s"
  note cur = currentD [OF receive_reachable assms(1)]
  have inv: "receive_inv ?u" by (rule update_delivery_inv [OF receive_reachable]) simp_all
  have u: "js_get (receiveTimers ?u) sid = Some n" "n < length (deliveries ?u)" "d_id (deliveries ?u ! n) = sid"
    "d_bytes (deliveries ?u ! n) = d_bytes (deliveries ?s ! n)"
    using assms(1) cur by (simp_all add: update_delivery_nth)
  have "settled_as n ok ?u (finishReceive n ok ?u)"
    using u by (intro finish_settles) simp_all
  note over = settled_as_is_over [OF inv u(1) this]
  have "receive_step ?s (DeliverySettles n ok) = finishReceive n ok ?u" using cur assms(2) by simp
  then show ?thesis
    using receive_run_over [OF over(1), of fs] over(2) u(4) by (simp add: receive_run_append receive_run_Cons)
qed

theorem settled_delivery_completes_witness:
  "completed 0 (receive_run no_deliveries ([Deliver ''4'' 10 ''request-body'' False] @ DeliverySettles 0 True
     # [DeliveryTimer 0, ClearTimer ''4''])) = [(''4'', 10, True)]"
  by (subst settled_delivery_completes [of _ "''4''"])
    (simp_all add: receive_run_def deliverReceive_def no_deliveries_def Let_def)

text \<open>C40: A delivery that is the current one of its stream when its timer fires, its promise not settled by then, completes there: exactly once,
  as not accepted, even if the promise settles later. (A delivery whose place a later one of the stream has taken never completes:
  \<open>overlapping_delivery_never_completes\<close>.)\<close>

theorem stalled_delivery_completes:
  assumes "js_get (receiveTimers (receive_run no_deliveries es)) sid = Some n"
  shows "completed n (receive_run no_deliveries (es @ DeliveryTimer n # fs))
    = [(sid, d_bytes (deliveries (receive_run no_deliveries es) ! n), False)]"
proof -
  let ?s = "receive_run no_deliveries es"
  note cur = currentD [OF receive_reachable assms]
  have "settled_as n False ?s (receive_timeout n ?s)"
    using cur assms by (intro timeout_settles) simp_all
  note over = settled_as_is_over [OF receive_reachable assms this]
  show ?thesis
    using receive_run_over [OF over(1), of fs] over(2) cur by (simp add: receive_run_append receive_run_Cons)
qed

theorem stalled_delivery_completes_witness:
  "completed 0 (receive_run no_deliveries ([Deliver ''4'' 10 ''request-body'' False] @ DeliveryTimer 0
     # [DeliverySettles 0 True])) = [(''4'', 10, False)]"
  by (subst stalled_delivery_completes [of _ "''4''"])
    (simp_all add: receive_run_def deliverReceive_def no_deliveries_def Let_def)

text \<open>Two deliveries of one stream must not overlap: when a second chunk is delivered while the first
  is pending, the native server is never told that the first completed, neither when its promise
  settles nor by its timer.\<close>

theorem overlapping_delivery_never_completes:
  assumes "js_get (receiveTimers (receive_run no_deliveries es)) sid = Some n"
  shows "completed n (receive_run no_deliveries (es @ Deliver sid k op throws # fs)) = []"
proof -
  let ?s = "receive_run no_deliveries es"
  let ?t = "?s\<lparr>deliveries := deliveries ?s @ [\<lparr>d_id = sid, d_bytes = k, d_operation = op, d_armed = True,
      d_settled = throws\<rparr>], receiveTimers := js_set (receiveTimers ?s) sid (length (deliveries ?s))\<rparr>"
  note cur = currentD [OF receive_reachable assms]
  have other: "i = sid" if "js_get (receiveTimers ?s) i = Some n" for i
    using currentD(2) [OF receive_reachable that] cur(2) by simp
  have t: "over n ?t" using cur(1) other by (auto simp: over_def)
  have "over n (finishReceive (length (deliveries ?s)) False ?t)
      \<and> completed n (finishReceive (length (deliveries ?s)) False ?t) = completed n ?t"
    by (rule finishReceive_over [OF t]) simp
  then have "over n (receive_step ?s (Deliver sid k op throws))
      \<and> completed n (receive_step ?s (Deliver sid k op throws)) = []"
    using t cur(4) by (cases throws) (simp_all add: deliverReceive_def Let_def completed_def)
  then show ?thesis
    using receive_run_over [of n "receive_step ?s (Deliver sid k op throws)" fs]
    by (simp add: receive_run_append receive_run_Cons)
qed

theorem overlapping_delivery_never_completes_witness:
  "completed 0 (receive_run no_deliveries ([Deliver ''4'' 10 ''request-body'' False]
     @ Deliver ''4'' 5 ''request-body'' False # [DeliverySettles 0 True, DeliveryTimer 0])) = []"
  by (rule overlapping_delivery_never_completes)
    (simp add: receive_run_def deliverReceive_def no_deliveries_def Let_def)

end
