(* ===== verification/Js_Text.thy ===== *)
theory Js_Text
  imports Prelude "HOL-Library.Char_ord"
begin

text \<open>
  The string operations of JavaScript that the components use, on characters up to 0xFF: splitting,
  joining, trimming, letter case, and decimal numbers written and read.
\<close>

named_theorems text_simps "splitting, joining and trimming"

section \<open>Strings\<close>

definition code :: "char \<Rightarrow> nat" where
  "code c = of_char c"

text \<open>\<open>String.prototype.trim\<close> on characters up to 0xFF.\<close>

definition white_space :: "char \<Rightarrow> bool" where
  "white_space c \<longleftrightarrow> code c \<in> {9, 10, 11, 12, 13, 32, 160}"

definition strip_with :: "(char \<Rightarrow> bool) \<Rightarrow> string \<Rightarrow> string" where
  "strip_with p s = rev (dropWhile p (rev (dropWhile p s)))"

definition trim :: "string \<Rightarrow> string" where
  "trim = strip_with white_space"

text \<open>\<open>value.split(separator)\<close> for a separator of one character: always at least one part.\<close>

fun split_on :: "char \<Rightarrow> string \<Rightarrow> string list" where
  "split_on sep [] = [[]]"
| "split_on sep (c # cs) =
     (if c = sep then [] # split_on sep cs
      else case split_on sep cs of part # parts \<Rightarrow> (c # part) # parts | [] \<Rightarrow> [[c]])"

fun join_with :: "string \<Rightarrow> string list \<Rightarrow> string" where
  "join_with sep [] = []"
| "join_with sep [s] = s"
| "join_with sep (s # t # ss) = s @ sep @ join_with sep (t # ss)"

definition lower_char :: "char \<Rightarrow> char" where
  "lower_char c =
     (if (65 \<le> code c \<and> code c \<le> 90) \<or> (192 \<le> code c \<and> code c \<le> 222 \<and> code c \<noteq> 215)
      then char_of (code c + 32) else c)"

definition toLowerCase :: "string \<Rightarrow> string" where
  "toLowerCase = map lower_char"

definition starts_with :: "string \<Rightarrow> string \<Rightarrow> bool" where
  "starts_with s prefix \<longleftrightarrow> take (length prefix) s = prefix"

definition digit :: "char \<Rightarrow> bool" where
  "digit c \<longleftrightarrow> 48 \<le> code c \<and> code c \<le> 57"

definition letter :: "char \<Rightarrow> bool" where
  "letter c \<longleftrightarrow> (65 \<le> code c \<and> code c \<le> 90) \<or> (97 \<le> code c \<and> code c \<le> 122)"

text \<open>The characters of a token of RFC 9110.\<close>

definition token_char :: "char \<Rightarrow> bool" where
  "token_char c \<longleftrightarrow> digit c \<or> letter c \<or> c \<in> set ''!#$%&'' \<or> c = CHR 0x27 \<or> c \<in> set ''*+-.^_`|~''"

definition is_token :: "string \<Rightarrow> bool" where
  "is_token s \<longleftrightarrow> s \<noteq> [] \<and> list_all token_char s"

lemma split_on_not_Nil [simp]: "split_on sep s \<noteq> []"
  by (induction s) (auto split: list.splits)

lemma split_on_append: "sep \<notin> set s \<Longrightarrow> split_on sep (s @ sep # t) = s # split_on sep t"
  by (induction s) (auto split: list.splits)

lemma split_on_none: "sep \<notin> set s \<Longrightarrow> split_on sep s = [s]"
  by (induction s) (auto split: list.splits)

lemma split_on_parts: "part \<in> set (split_on sep s) \<Longrightarrow> sep \<notin> set part"
  by (induction s arbitrary: part) (auto split: if_splits list.splits)

lemma join_split_on [text_simps]: "join_with [sep] (split_on sep s) = s"
proof (induction s)
  case Nil
  show ?case by simp
next
  case (Cons c s)
  obtain p ps where ps: "split_on sep s = p # ps" by (cases "split_on sep s") auto
  then show ?case using Cons.IH by (cases ps) auto
qed

lemma split_join [text_simps]:
  "ss \<noteq> [] \<Longrightarrow> \<forall>s \<in> set ss. sep \<notin> set s \<Longrightarrow> split_on sep (join_with [sep] ss) = ss"
proof (induction ss rule: induct_list012)
  case (3 s t ss)
  then show ?case by (simp add: split_on_append)
qed (simp_all add: split_on_none)

lemma trim_no_space [text_simps]: "list_all (\<lambda>c. \<not> white_space c) s \<Longrightarrow> trim s = s"
proof -
  assume *: "list_all (\<lambda>c. \<not> white_space c) s"
  then have no: "\<not> white_space (hd t)" if "t \<noteq> []" and "set t = set s" for t
    using that by (metis hd_in_set list_all_iff)
  have "dropWhile white_space s = s" and "dropWhile white_space (rev s) = rev s"
    using no [of s] no [of "rev s"] by (auto simp: dropWhile_eq_self_iff)
  then show ?thesis by (simp add: trim_def strip_with_def)
qed

lemma token_char_no_space: "token_char c \<Longrightarrow> \<not> white_space c"
  by (auto simp: token_char_def white_space_def digit_def letter_def code_def)

lemma comma_no_token [simp]: "\<not> token_char CHR '',''"
  by (simp add: token_char_def digit_def letter_def code_def)

section \<open>Decimal numbers\<close>

text \<open>\<open>String(n)\<close> of a natural number, and what \<open>Number(s)\<close> returns for decimal digits.\<close>

definition decimal_digit :: "nat \<Rightarrow> char" where
  "decimal_digit n = char_of (48 + n mod 10)"

fun decimal :: "nat \<Rightarrow> string" where
  "decimal n = (if n < 10 then [decimal_digit n] else decimal (n div 10) @ [decimal_digit n])"

declare decimal.simps [simp del]

definition digit_value :: "char \<Rightarrow> nat" where
  "digit_value c = code c - 48"

definition read_decimal :: "string \<Rightarrow> nat" where
  "read_decimal s = foldl (\<lambda>n c. n * 10 + digit_value c) 0 s"

lemma code_char_of [simp]: "n < 256 \<Longrightarrow> code (char_of n) = n"
  by (simp add: code_def)

lemma decimal_digit_simps [simp]: "code (decimal_digit n) = 48 + n mod 10" "digit (decimal_digit n)"
  "digit_value (decimal_digit n) = n mod 10"
  by (simp_all add: decimal_digit_def digit_def digit_value_def)

lemma read_decimal_snoc: "read_decimal (s @ [c]) = read_decimal s * 10 + digit_value c"
  by (simp add: read_decimal_def)

lemma read_decimal_decimal [text_simps]: "read_decimal (decimal n) = n"
proof (induction n rule: decimal.induct)
  case (1 n)
  then show ?case
    by (cases "n < 10") (simp_all add: decimal.simps [of n] read_decimal_snoc read_decimal_def)
qed

lemma decimal_digits: "list_all digit (decimal n)" "decimal n \<noteq> []"
proof (induction n rule: decimal.induct)
  case (1 n)
  { case 1 then show ?case using "1.IH" by (cases "n < 10") (simp_all add: decimal.simps [of n]) }
  { case 2 then show ?case by (simp add: decimal.simps [of n]) }
qed

end
