(* ===== verification/Http_Headers.thy ===== *)
theory Http_Headers
  imports Js_Map Js_Text
begin

text \<open>
  Header fields: the Fetch class \<open>Headers\<close> the server uses, and the functions that read header fields from a request: \<open>webSocketMetadata\<close>, \<open>parseProtocols\<close> and
  \<open>header\<close> of packages/server/WebSocketConnection.js, \<open>headerIncludes\<close> and
  \<open>validateH1Handshake\<close> of packages/server/HTTPServer.js. Node.js hands header values over as
  strings of characters up to 0xFF, which \<open>string\<close> holds exactly.
\<close>

section \<open>The class Headers\<close>

datatype header_error =
    InvalidHeader string
  | InvalidTarget
  | VersionRequired
  | InvalidProtocolHeader
  | RequiresGet
  | MissingUpgrade
  | MissingConnectionUpgrade
  | InvalidKey

text \<open>The fields in the order they are appended, names in lower case.\<close>

type_synonym headers = "(string \<times> string) list"

definition header_space :: "char \<Rightarrow> bool" where
  "header_space c \<longleftrightarrow> code c \<in> {9, 10, 13, 32}"

definition headers_append :: "headers \<Rightarrow> string \<Rightarrow> string \<Rightarrow> header_error + headers" where
  "headers_append hs name value =
     (let v = strip_with header_space value
      in if \<not> is_token name \<or> list_ex (\<lambda>c. code c \<in> {0, 10, 13}) v then Inl (InvalidHeader name)
         else Inr (hs @ [(toLowerCase name, v)]))"

definition headers_get :: "headers \<Rightarrow> string \<Rightarrow> string option" where
  "headers_get hs name =
     (case filter (\<lambda>(n, _). n = toLowerCase name) hs of
        [] \<Rightarrow> None
      | found \<Rightarrow> Some (join_with '', '' (map snd found)))"

fun headers_append_all :: "headers \<Rightarrow> string \<Rightarrow> string list \<Rightarrow> header_error + headers" where
  "headers_append_all hs name [] = Inr hs"
| "headers_append_all hs name (v # vs) =
     bind_result (headers_append hs name v) (\<lambda>hs'. headers_append_all hs' name vs)"

section \<open>Headers of a Node.js request\<close>

text \<open>A value is a string, or an array of strings; a field that is absent has no entry.\<close>

datatype node_value = One string | Many "string list"

type_synonym node_headers = "(string, node_value) js_map"

fun entries_of :: "node_value \<Rightarrow> string list" where
  "entries_of (One s) = [s]"
| "entries_of (Many ss) = ss"

definition header :: "node_headers \<Rightarrow> string \<Rightarrow> string option" where
  "header hs name =
     (case js_get hs name of
        None \<Rightarrow> None
      | Some (One s) \<Rightarrow> Some s
      | Some (Many ss) \<Rightarrow> (case ss of [] \<Rightarrow> None | s # _ \<Rightarrow> Some s))"

definition or_else :: "'a option \<Rightarrow> 'a option \<Rightarrow> 'a option" where
  "or_else a b = (case a of None \<Rightarrow> b | Some _ \<Rightarrow> a)"

text \<open>The loop that copies the fields which are no pseudo-headers.\<close>

fun regular_headers :: "(string \<Rightarrow> bool) \<Rightarrow> node_headers \<Rightarrow> headers \<Rightarrow> header_error + headers" where
  "regular_headers skip [] hs = Inr hs"
| "regular_headers skip ((name, value) # rest) hs =
     (if skip name then regular_headers skip rest hs
      else bind_result (headers_append_all hs name (entries_of value)) (regular_headers skip rest))"

definition pseudo_header :: "string \<Rightarrow> bool" where
  "pseudo_header name \<longleftrightarrow> starts_with name '':''"

section \<open>The metadata of a WebSocket request\<close>

definition parseProtocols :: "string option \<Rightarrow> header_error + string list" where
  "parseProtocols value =
     (case value of
        None \<Rightarrow> Inr []
      | Some [] \<Rightarrow> Inr []
      | Some v \<Rightarrow>
          let protocols = map trim (split_on (CHR '','') v)
          in if list_ex (\<lambda>p. \<not> is_token p) protocols \<or> length (remdups protocols) \<noteq> length protocols
             then Inl InvalidProtocolHeader else Inr protocols)"

record ws_metadata =
  wsHeaders :: headers
  wsOfferedProtocols :: "string list"
  wsUrl :: string

definition web_socket_scheme :: "string \<Rightarrow> string option" where
  "web_socket_scheme scheme =
     (if scheme = ''https'' then Some ''wss'' else if scheme = ''http'' then Some ''ws'' else None)"

definition webSocketMetadata :: "node_headers \<Rightarrow> header_error + ws_metadata" where
  "webSocketMetadata hs =
     (let scheme = (case header hs '':scheme'' of None \<Rightarrow> ''https'' | Some s \<Rightarrow> s);
          authority = or_else (header hs '':authority'') (header hs ''host'');
          path = (case header hs '':path'' of None \<Rightarrow> ''/'' | Some p \<Rightarrow> p)
      in case (web_socket_scheme scheme, authority) of
           (Some ws, Some a) \<Rightarrow>
             if a = [] \<or> \<not> starts_with path ''/'' then Inl InvalidTarget
             else bind_result (regular_headers pseudo_header hs []) (\<lambda>fields.
               if headers_get fields ''sec-websocket-version'' \<noteq> Some ''13'' then Inl VersionRequired
               else bind_result (parseProtocols (headers_get fields ''sec-websocket-protocol''))
                 (\<lambda>protocols. Inr \<lparr>wsHeaders = fields, wsOfferedProtocols = protocols,
                                  wsUrl = ws @ ''://'' @ a @ path\<rparr>))
         | _ \<Rightarrow> Inl InvalidTarget)"

section \<open>The HTTP/1.1 handshake\<close>

definition headerIncludes :: "node_value option \<Rightarrow> string \<Rightarrow> bool" where
  "headerIncludes value token =
     (case value of
        Some (One s) \<Rightarrow> list_ex (\<lambda>part. trim part = token) (split_on (CHR '','') (toLowerCase s))
      | _ \<Rightarrow> False)"

definition base64_char :: "char \<Rightarrow> bool" where
  "base64_char c \<longleftrightarrow> letter c \<or> digit c \<or> c = CHR ''+'' \<or> c = CHR ''/''"

text \<open>The test \<open>/^[A-Za-z0-9+/]{22}==$/\<close>.\<close>

definition key_pattern :: "string \<Rightarrow> bool" where
  "key_pattern key \<longleftrightarrow> length key = 24 \<and> list_all base64_char (take 22 key) \<and> drop 22 key = ''==''"

text \<open>The bytes \<open>Buffer.from(key, "base64")\<close> has for base64 characters and their padding.\<close>

definition base64_length :: "string \<Rightarrow> nat" where
  "base64_length key = length (takeWhile (\<lambda>c. c \<noteq> CHR ''='') key) * 6 div 8"

record h1_request =
  reqMethod :: string
  reqHeaders :: node_headers
  reqUrl :: string

definition validateH1Handshake :: "h1_request \<Rightarrow> header_error + unit" where
  "validateH1Handshake request =
     (let hs = reqHeaders request
      in if reqMethod request \<noteq> ''GET'' then Inl RequiresGet
         else if \<not> headerIncludes (js_get hs ''upgrade'') ''websocket'' then Inl MissingUpgrade
         else if \<not> headerIncludes (js_get hs ''connection'') ''upgrade'' then Inl MissingConnectionUpgrade
         else if js_get hs ''sec-websocket-version'' \<noteq> Some (One ''13'') then Inl VersionRequired
         else case js_get hs ''sec-websocket-key'' of
           Some (One key) \<Rightarrow>
             if \<not> key_pattern key \<or> base64_length key \<noteq> 16 then Inl InvalidKey else Inr ()
         | _ \<Rightarrow> Inl InvalidKey)"

section \<open>What they accept\<close>

lemma headers_get_append:
  "headers_append hs name value = Inr hs' \<Longrightarrow>
   headers_get hs' name = Some (case headers_get hs name of
      None \<Rightarrow> strip_with header_space value
    | Some old \<Rightarrow> old @ '', '' @ strip_with header_space value)"
proof -
  have join: "join_with '', '' (xs @ [v]) = join_with '', '' xs @ '', '' @ v" if "xs \<noteq> []" for xs v
    using that by (induction xs rule: induct_list012) auto
  assume "headers_append hs name value = Inr hs'"
  then have "hs' = hs @ [(toLowerCase name, strip_with header_space value)]"
    by (auto simp: headers_append_def Let_def split: if_splits)
  then show ?thesis
    using join [of "map snd (filter (\<lambda>(n, _). n = toLowerCase name) hs)"]
    by (cases "filter (\<lambda>(n, _). n = toLowerCase name) hs") (auto simp: headers_get_def)
qed

text \<open>A list of tokens, comma-separated, is parsed to these tokens in order.\<close>

lemma parseProtocols_join:
  assumes "protocols \<noteq> []" and "list_all is_token protocols" and "distinct protocols"
  shows "parseProtocols (Some (join_with '','' protocols)) = Inr protocols"
proof -
  have tokens: "\<forall>p \<in> set protocols. CHR '','' \<notin> set p \<and> trim p = p"
    using assms(2) by (metis comma_no_token is_token_def list_all_iff token_char_no_space trim_no_space)
  then have "map trim (split_on (CHR '','') (join_with '','' protocols)) = protocols"
    using assms(1) by (simp add: split_join map_idI)
  moreover obtain c cs where "join_with '','' protocols = c # cs"
    using assms(1,2) by (cases "join_with '','' protocols"; cases protocols; cases "tl protocols")
      (auto simp: is_token_def)
  moreover have "\<not> list_ex (\<lambda>p. \<not> is_token p) protocols"
    using assms(2) by (simp add: list_all_iff list_ex_iff)
  ultimately show ?thesis using assms(3)
    by (simp add: parseProtocols_def distinct_remdups_id del: split_on.simps)
qed


text \<open>What is parsed is a list of distinct tokens.\<close>

lemma parseProtocols_sound:
  assumes "parseProtocols value = Inr protocols"
  shows "list_all is_token protocols" and "distinct protocols"
proof -
  have "distinct ps" if "length (remdups ps) = length ps" for ps :: "string list"
    using that by (metis card_distinct length_remdups_card_conv)
  then show "list_all is_token protocols" and "distinct protocols"
    using assms by (auto simp: parseProtocols_def Let_def list_all_iff list_ex_iff split: option.splits list.splits if_splits)
qed

text \<open>The last test of the key is implied by the pattern.\<close>

lemma key_pattern_length:
  assumes "key_pattern key"
  shows "base64_length key = 16"
proof -
  have "takeWhile (\<lambda>c. c \<noteq> CHR ''='') key = takeWhile (\<lambda>c. c \<noteq> CHR ''='') (take 22 key @ drop 22 key)"
    by simp
  also have "\<dots> = take 22 key"
    using assms by (subst takeWhile_append2)
      (auto simp: key_pattern_def list_all_iff base64_char_def letter_def digit_def code_def)
  finally show ?thesis using assms by (simp add: base64_length_def key_pattern_def)
qed

lemma webSocketMetadata_sound:
  assumes "webSocketMetadata hs = Inr m"
  shows "list_all is_token (wsOfferedProtocols m)" and "distinct (wsOfferedProtocols m)"
    and "headers_get (wsHeaders m) ''sec-websocket-version'' = Some ''13''"
    and "starts_with (wsUrl m) ''ws''"
  using assms parseProtocols_sound
  by (auto simp: webSocketMetadata_def Let_def result_simps starts_with_def web_socket_scheme_def
      split: option.splits if_splits)

section \<open>Properties\<close>

text \<open>The offered subprotocols: a comma-separated list of distinct tokens is parsed to these tokens
  in order.\<close>

theorem offered_protocols_parsed:
  assumes "protocols \<noteq> []" and "list_all is_token protocols" and "distinct protocols"
  shows "parseProtocols (Some (join_with '','' protocols)) = Inr protocols"
  using assms by (rule parseProtocols_join)

theorem offered_protocols_parsed_witness:
  "parseProtocols (Some (join_with '','' [''chat'', ''v2.chat''])) = Inr [''chat'', ''v2.chat'']"
  by (rule offered_protocols_parsed)
    (simp_all add: is_token_def token_char_def letter_def digit_def code_def)

text \<open>C38: A WebSocket request that is accepted has version 13, distinct tokens as offered protocols, and
  a ws or wss URL.\<close>

theorem metadata_well_formed:
  assumes "webSocketMetadata hs = Inr m"
  shows "list_all is_token (wsOfferedProtocols m) \<and> distinct (wsOfferedProtocols m)
    \<and> headers_get (wsHeaders m) ''sec-websocket-version'' = Some ''13'' \<and> starts_with (wsUrl m) ''ws''"
  using webSocketMetadata_sound [OF assms] by simp

theorem metadata_well_formed_witness:
  "starts_with (wsUrl \<lparr>wsHeaders = [(''host'', ''h''), (''sec-websocket-version'', ''13'')],
     wsOfferedProtocols = [], wsUrl = ''wss://h/''\<rparr>) ''ws''"
proof -
  have "webSocketMetadata [(''host'', One ''h''), (''sec-websocket-version'', One ''13'')] =
    Inr \<lparr>wsHeaders = [(''host'', ''h''), (''sec-websocket-version'', ''13'')],
         wsOfferedProtocols = [], wsUrl = ''wss://h/''\<rparr>"
    by code_simp
  from metadata_well_formed [OF this] show ?thesis by simp
qed

end
