(* ===== verification/H3_Stream.thy ===== *)
theory H3_Stream
  imports Http_Headers
begin

text \<open>
  The class \<open>Stream\<close> of packages/server/Stream.js: a Fetch \<open>Request\<close> built from the
  pseudo-headers of an HTTP/3 request, whose body the server writes as DATA frames arrive; and the
  methods of packages/server/HTTP3Server.js that send on a stream. The URL parser of the platform
  and the conversion \<open>Number\<close> are parameters.
\<close>

section \<open>Building the request\<close>

datatype stream_error =
    MissingPseudoHeader string
  | BadHeader header_error
  | BadRequest
  | ClosedWriter
  | AbortedWriter

definition requirePseudoHeader :: "node_headers \<Rightarrow> string \<Rightarrow> stream_error + string" where
  "requirePseudoHeader hs name =
     (case js_get hs name of
        Some (One value) \<Rightarrow> if length value = 0 then Inl (MissingPseudoHeader name) else Inr value
      | _ \<Rightarrow> Inl (MissingPseudoHeader name))"

definition upper_char :: "char \<Rightarrow> char" where
  "upper_char c = (if 97 \<le> code c \<and> code c \<le> 122 then char_of (code c - 32) else c)"

definition standard_methods :: "string list" where
  "standard_methods = [''DELETE'', ''GET'', ''HEAD'', ''OPTIONS'', ''POST'', ''PUT'']"

text \<open>The constructor of \<open>Request\<close>: it refuses a method that is no token or is forbidden, a URL
  that does not parse, and a body on GET or HEAD; it normalizes the standard methods.\<close>

definition normalize_method :: "string \<Rightarrow> string" where
  "normalize_method m = (if map upper_char m \<in> set standard_methods then map upper_char m else m)"

definition request_allowed :: "(string \<Rightarrow> bool) \<Rightarrow> string \<Rightarrow> string \<Rightarrow> bool \<Rightarrow> bool" where
  "request_allowed valid_url method url body \<longleftrightarrow>
     is_token method \<and> map upper_char method \<notin> {''CONNECT'', ''TRACE'', ''TRACK''} \<and> valid_url url
     \<and> \<not> (body \<and> normalize_method method \<in> {''GET'', ''HEAD''})"

text \<open>The writer of the body, and the reason the request's signal is aborted with.\<close>

datatype writer_state = Writable | WriterClosed | WriterAborted

record h3_stream =
  st_id :: string
  st_connection :: nat
  st_method :: string
  st_url :: string
  st_headers :: headers
  st_has_body :: bool
  st_body :: "bytes list"
  st_writer :: writer_state
  st_receiveEnded :: bool
  st_aborted :: "nat option option"

definition new_stream ::
  "(string \<Rightarrow> bool) \<Rightarrow> nat \<Rightarrow> string \<Rightarrow> node_headers \<Rightarrow> stream_error + h3_stream" where
  "new_stream valid_url connection sid hs =
     bind_result (requirePseudoHeader hs '':scheme'') (\<lambda>scheme.
     bind_result (requirePseudoHeader hs '':authority'') (\<lambda>authority.
     bind_result (requirePseudoHeader hs '':path'') (\<lambda>path.
     bind_result (requirePseudoHeader hs '':method'') (\<lambda>method.
       let url = scheme @ ''://'' @ authority @ path;
           body = (method \<noteq> ''GET'' \<and> method \<noteq> ''HEAD'')
       in case regular_headers pseudo_header hs [] of
            Inl e \<Rightarrow> Inl (BadHeader e)
          | Inr regular \<Rightarrow>
              if \<not> request_allowed valid_url method url body then Inl BadRequest
              else Inr \<lparr>st_id = sid, st_connection = connection, st_method = normalize_method method,
                        st_url = url, st_headers = regular, st_has_body = body, st_body = [],
                        st_writer = Writable, st_receiveEnded = False, st_aborted = None\<rparr>))))"

section \<open>The request body\<close>

text \<open>\<open>receiveData\<close> writes to the body; a closed or aborted writer rejects.\<close>

definition stream_receiveData :: "bytes \<Rightarrow> h3_stream \<Rightarrow> h3_stream \<times> (stream_error + unit)" where
  "stream_receiveData bs s =
     (case st_writer s of
        Writable \<Rightarrow> (s\<lparr>st_body := st_body s @ [bs]\<rparr>, Inr ())
      | WriterClosed \<Rightarrow> (s, Inl ClosedWriter)
      | WriterAborted \<Rightarrow> (s, Inl AbortedWriter))"

datatype finish_reason = PeerFinished | PeerAborted "nat option"

definition stream_receiveEnd :: "finish_reason \<Rightarrow> h3_stream \<Rightarrow> h3_stream" where
  "stream_receiveEnd reason s =
     (if st_receiveEnded s then s
      else let s1 = s\<lparr>st_receiveEnded := True\<rparr>
           in case reason of
                PeerFinished \<Rightarrow> s1\<lparr>st_writer := WriterClosed\<rparr>
              | PeerAborted errorCode \<Rightarrow> s1\<lparr>st_aborted := Some errorCode, st_writer := WriterAborted\<rparr>)"

section \<open>Sending on a stream\<close>

datatype native_call =
    SendHeaders string js_number "(string \<times> string) list" bool
  | SendEarlyHints string "(string \<times> string) list"
  | SendData string "bytes option" bool

type_synonym outgoing = "(string, string) js_map"

text \<open>\<open>Object.assign({}, ...headers)\<close>: a later object wins, the first place is kept.\<close>

definition assign_headers :: "outgoing list \<Rightarrow> outgoing" where
  "assign_headers hss = foldl (\<lambda>m hs. foldl (\<lambda>m' (k, v). js_set m' k v) m hs) [] hss"

definition sendHeadersFrame :: "(string \<Rightarrow> js_number) \<Rightarrow> string \<Rightarrow> outgoing \<Rightarrow> native_call" where
  "sendHeadersFrame number streamId hs =
     (let status = (case js_get hs '':status'' of None \<Rightarrow> ''200'' | Some v \<Rightarrow> v);
          regular = js_delete hs '':status''
      in if number status = IntegerNumber 103 then SendEarlyHints streamId regular
         else SendHeaders streamId (number status) regular False)"

text \<open>The data of a stream: bytes, the symbol \<open>fin\<close>, or another symbol.\<close>

datatype stream_data = Payload bytes | Fin | OtherSymbol

text \<open>Without a call of the native server the result is the promise of \<open>false\<close>.\<close>

fun sendDataFrame :: "string \<Rightarrow> stream_data \<Rightarrow> native_call option" where
  "sendDataFrame streamId Fin = Some (SendData streamId None True)"
| "sendDataFrame streamId OtherSymbol = None"
| "sendDataFrame streamId (Payload bs) = Some (SendData streamId (Some bs) False)"

definition stream_sendHeaders :: "(string \<Rightarrow> js_number) \<Rightarrow> h3_stream \<Rightarrow> outgoing list \<Rightarrow> native_call" where
  "stream_sendHeaders number s hss = sendHeadersFrame number (st_id s) (assign_headers hss)"

text \<open>\<open>Stream.sendData\<close> turns every symbol into \<open>fin\<close>.\<close>

definition stream_sendData :: "h3_stream \<Rightarrow> stream_data list \<Rightarrow> native_call list" where
  "stream_sendData s body =
     concat (map (\<lambda>d. case sendDataFrame (st_id s) (case d of Payload bs \<Rightarrow> Payload bs | _ \<Rightarrow> Fin) of
                        None \<Rightarrow> [] | Some c \<Rightarrow> [c]) body)"

section \<open>Facts\<close>

lemma requirePseudoHeader_Inr:
  "requirePseudoHeader hs name = Inr v \<longleftrightarrow> js_get hs name = Some (One v) \<and> v \<noteq> []"
  by (auto simp: requirePseudoHeader_def split: option.splits node_value.splits)

lemma stream_receiveEnd_again: "stream_receiveEnd r' (stream_receiveEnd r s) = stream_receiveEnd r s"
  by (simp add: stream_receiveEnd_def Let_def split: finish_reason.splits)

lemma stream_writer_ended:
  "st_receiveEnded (stream_receiveEnd r s)"
  by (simp add: stream_receiveEnd_def Let_def split: finish_reason.splits)

text \<open>A stream that was built accepts data until its receiving side ends.\<close>

definition stream_wf :: "h3_stream \<Rightarrow> bool" where
  "stream_wf s \<longleftrightarrow> (st_receiveEnded s \<longleftrightarrow> st_writer s \<noteq> Writable)
     \<and> (st_aborted s \<noteq> None \<longleftrightarrow> st_writer s = WriterAborted)"

lemma new_stream_cases:
  assumes "new_stream valid_url c sid hs = Inr s"
  obtains scheme authority path verb regular
  where "js_get hs '':scheme'' = Some (One scheme)" and "js_get hs '':method'' = Some (One verb)"
    and "regular_headers pseudo_header hs [] = Inr regular"
    and "request_allowed valid_url verb (scheme @ ''://'' @ authority @ path) (verb \<noteq> ''GET'' \<and> verb \<noteq> ''HEAD'')"
    and "s = \<lparr>st_id = sid, st_connection = c, st_method = normalize_method verb,
              st_url = scheme @ ''://'' @ authority @ path, st_headers = regular,
              st_has_body = (verb \<noteq> ''GET'' \<and> verb \<noteq> ''HEAD''), st_body = [],
              st_writer = Writable, st_receiveEnded = False, st_aborted = None\<rparr>"
  using assms unfolding new_stream_def bind_result_Inr_iff Let_def requirePseudoHeader_Inr
  by (elim exE conjE) (auto split: sum.split_asm if_split_asm)

lemma normalize_get: "normalize_method ''GET'' = ''GET''" "normalize_method ''HEAD'' = ''HEAD''"
  by code_simp+

lemma new_stream_Inr:
  assumes "new_stream valid_url c sid hs = Inr s"
  shows "st_id s = sid" and "st_connection s = c" and "stream_wf s" and "\<not> st_receiveEnded s"
    and "st_body s = []" and "st_has_body s \<longleftrightarrow> st_method s \<notin> {''GET'', ''HEAD''}"
proof -
  from assms show "st_id s = sid" and "st_connection s = c" and "stream_wf s" and "\<not> st_receiveEnded s"
    and "st_body s = []"
    by (auto elim!: new_stream_cases simp: stream_wf_def)
  from assms show "st_has_body s \<longleftrightarrow> st_method s \<notin> {''GET'', ''HEAD''}"
    by (rule new_stream_cases) (auto simp: request_allowed_def normalize_get)
qed

lemma stream_wf_receive:
  "stream_wf s \<Longrightarrow> stream_wf (fst (stream_receiveData bs s))"
  "stream_wf s \<Longrightarrow> stream_wf (stream_receiveEnd r s)"
  by (auto simp: stream_wf_def stream_receiveData_def stream_receiveEnd_def Let_def
      split: writer_state.splits finish_reason.splits)

lemma stream_receive_ids [simp]:
  "st_id (fst (stream_receiveData bs s)) = st_id s"
  "st_connection (fst (stream_receiveData bs s)) = st_connection s"
  "st_id (stream_receiveEnd r s) = st_id s"
  "st_connection (stream_receiveEnd r s) = st_connection s"
  by (auto simp: stream_receiveData_def stream_receiveEnd_def Let_def
      split: writer_state.splits finish_reason.splits)

section \<open>Properties\<close>

text \<open>Events of a request body: data, and the end the peer signals.\<close>

datatype body_event = BodyData bytes | BodyEnd finish_reason

fun body_step :: "h3_stream \<Rightarrow> body_event \<Rightarrow> h3_stream" where
  "body_step s (BodyData bs) = fst (stream_receiveData bs s)"
| "body_step s (BodyEnd r) = stream_receiveEnd r s"

text \<open>The data that comes before the first end.\<close>

fun body_before_end :: "body_event list \<Rightarrow> bytes list" where
  "body_before_end [] = []"
| "body_before_end (BodyData bs # es) = bs # body_before_end es"
| "body_before_end (BodyEnd _ # es) = []"

fun first_end :: "body_event list \<Rightarrow> finish_reason option" where
  "first_end [] = None"
| "first_end (BodyData _ # es) = first_end es"
| "first_end (BodyEnd r # es) = Some r"

lemma body_ended_run:
  assumes "stream_wf s" and "st_receiveEnded s"
  shows "foldl body_step s es = s"
proof (induction es)
  case Nil
  show ?case by simp
next
  case (Cons e es)
  have "body_step s e = s"
    using assms by (cases e) (auto simp: stream_wf_def stream_receiveData_def stream_receiveEnd_def
        split: writer_state.splits)
  then show ?case using Cons.IH by simp
qed

lemma body_run:
  assumes "stream_wf s" and "\<not> st_receiveEnded s"
  shows "st_body (foldl body_step s es) = st_body s @ body_before_end es
    \<and> st_writer (foldl body_step s es) = (case first_end es of
          None \<Rightarrow> Writable | Some PeerFinished \<Rightarrow> WriterClosed | Some (PeerAborted _) \<Rightarrow> WriterAborted)
    \<and> st_aborted (foldl body_step s es) = (case first_end es of Some (PeerAborted c) \<Rightarrow> Some c | _ \<Rightarrow> None)"
  using assms
proof (induction es arbitrary: s)
  case Nil
  then show ?case by (auto simp: stream_wf_def)
next
  case (Cons e es)
  show ?case
  proof (cases e)
    case (BodyData bs)
    let ?t = "s\<lparr>st_body := st_body s @ [bs]\<rparr>"
    have "body_step s e = ?t"
      using Cons.prems BodyData by (simp add: stream_wf_def stream_receiveData_def)
    moreover have "stream_wf ?t" and "\<not> st_receiveEnded ?t"
      using Cons.prems by (auto simp: stream_wf_def)
    ultimately show ?thesis using Cons.IH [of ?t] BodyData by simp
  next
    case (BodyEnd r)
    have "stream_wf (stream_receiveEnd r s)" by (rule stream_wf_receive(2) [OF Cons.prems(1)])
    from body_ended_run [OF this stream_writer_ended] Cons.prems show ?thesis
      by (auto simp: BodyEnd stream_receiveEnd_def stream_wf_def Let_def split: finish_reason.splits)
  qed
qed

text \<open>The body of a request holds the data that arrived before the first end, in order; the first
  end decides whether it is closed or aborted, and whether the signal of the request is aborted.\<close>

theorem request_body_first_end:
  assumes "new_stream valid_url c sid hs = Inr s"
  shows "st_body (foldl body_step s es) = body_before_end es
    \<and> st_writer (foldl body_step s es) = (case first_end es of
          None \<Rightarrow> Writable | Some PeerFinished \<Rightarrow> WriterClosed | Some (PeerAborted _) \<Rightarrow> WriterAborted)
    \<and> st_aborted (foldl body_step s es) = (case first_end es of Some (PeerAborted e) \<Rightarrow> Some e | _ \<Rightarrow> None)"
  using body_run [OF new_stream_Inr(3,4) [OF assms], of es] new_stream_Inr(5) [OF assms] by simp

lemma example_stream:
  "new_stream (\<lambda>u. True) 0 ''4'' [('':scheme'', One ''https''), ('':authority'', One ''h''),
     ('':path'', One ''/''), ('':method'', One ''POST'')]
   = Inr \<lparr>st_id = ''4'', st_connection = 0, st_method = ''POST'', st_url = ''https://h/'', st_headers = [],
          st_has_body = True, st_body = [], st_writer = Writable, st_receiveEnded = False, st_aborted = None\<rparr>"
  by code_simp

theorem request_body_first_end_witness:
  "st_writer (foldl body_step \<lparr>st_id = ''4'', st_connection = 0, st_method = ''POST'', st_url = ''https://h/'',
     st_headers = [], st_has_body = True, st_body = [], st_writer = Writable, st_receiveEnded = False,
     st_aborted = None\<rparr> [BodyData [1], BodyEnd PeerFinished, BodyEnd (PeerAborted None)]) = WriterClosed"
  by (subst request_body_first_end [OF example_stream, THEN conjunct2, THEN conjunct1]) simp

end
