(* ===== verification/H3_Response.thy ===== *)
theory H3_Response
  imports H3_Stream
begin

text \<open>
  Responses in packages/server/HTTP3Server.js: \<open>#handleRequest\<close>, \<open>#sendResponse\<close>,
  \<open>#handleSession\<close>, \<open>#applySessionDecision\<close>, \<open>#rejectSession\<close> and the cancellation of
  responses. Each request and each session runs one async call; it is cut at its awaits and named
  by its number. What is awaited (a handler, the native server, the reader of the body) answers by
  an event, so the calls of different streams interleave in any way.
\<close>

section \<open>State\<close>

record response =
  rp_status :: nat
  rp_headers :: "(string \<times> string) list"
  rp_body :: bool
  rp_locked :: bool

text \<open>\<open>rp_body\<close>: the body is not null; \<open>rp_locked\<close>: it has a reader already, so that
  \<open>getReader\<close> throws.\<close>

datatype owner = ForRequest | ForSession

text \<open>What a call waits for: the handler; \<open>sendHeaders\<close> without a body, or before the body; a read;
  \<open>sendData\<close> of a chunk or of the FIN; the cancellation of the reader after an error; the best-effort
  response after an error; \<open>sendHeaders\<close> that refuses or accepts a session.\<close>

datatype call_phase =
    AwaitHandler
  | AwaitOnlyHeaders
  | AwaitHeaders
  | AwaitRead
  | AwaitChunk
  | AwaitFin
  | AwaitCancel
  | AwaitBestEffort
  | AwaitRefusal
  | AwaitAcceptance
  | Done

record call_state =
  c_owner :: owner
  c_id :: string
  c_connection :: string
  c_negotiation :: "(string \<times> string) list"
  c_phase :: call_phase

text \<open>\<open>forgottenSessions\<close> is ghost state: the ids \<open>#deleteSession\<close> was called for. Native calls and reader actions carry the number of the call that makes them. A reader is named
  by its call as well.\<close>

datatype reader_action = CancelReader | ReleaseLock

record responding =
  responseReaders :: "(string, string \<times> nat) js_map"
  responseCommitted :: "string set"
  calls :: "call_state list"
  nativeLog :: "(nat \<times> native_call) list"
  readerLog :: "(nat \<times> reader_action) list"
  failureReports :: "(owner \<times> string) list"
  forgottenSessions :: "string set"

definition no_responses :: responding where
  "no_responses = \<lparr>responseReaders = [], responseCommitted = {}, calls = [], nativeLog = [], readerLog = [],
     failureReports = [], forgottenSessions = {}\<rparr>"

definition native :: "nat \<Rightarrow> native_call \<Rightarrow> responding \<Rightarrow> responding" where
  "native i c s = s\<lparr>nativeLog := nativeLog s @ [(i, c)]\<rparr>"

definition wait :: "nat \<Rightarrow> call_phase \<Rightarrow> responding \<Rightarrow> responding" where
  "wait i p s = s\<lparr>calls := (calls s)[i := (calls s ! i)\<lparr>c_phase := p\<rparr>]\<rparr>"

abbreviation status_number :: "nat \<Rightarrow> js_number" where
  "status_number n \<equiv> IntegerNumber (int n)"

section \<open>Ends of a call\<close>

text \<open>The flag tells whether the call ended in \<open>#deleteSession\<close>.\<close>

definition forget :: "nat \<Rightarrow> responding \<Rightarrow> responding" where
  "forget i s = (wait i Done s)\<lparr>responseCommitted := responseCommitted s - {c_id (calls s ! i)}\<rparr>"

text \<open>\<open>#sendResponse\<close> returned: the \<open>finally\<close> of a request, or \<open>#deleteSession\<close>.\<close>

definition call_returned :: "nat \<Rightarrow> responding \<Rightarrow> responding \<times> bool" where
  "call_returned i s = (forget i s, c_owner (calls s ! i) = ForSession)"

text \<open>After the best-effort response: a session is deleted, then reported.\<close>

definition failure_answered :: "nat \<Rightarrow> responding \<Rightarrow> responding \<times> bool" where
  "failure_answered i s =
     (case c_owner (calls s ! i) of
        ForRequest \<Rightarrow> (forget i s, False)
      | ForSession \<Rightarrow>
          ((forget i s)\<lparr>failureReports := failureReports s @ [(ForSession, c_id (calls s ! i))]\<rparr>, True))"

text \<open>An error reached the handler call: a request is reported first.\<close>

definition call_failed :: "nat \<Rightarrow> responding \<Rightarrow> responding \<times> bool" where
  "call_failed i s =
     (let c = calls s ! i;
          s1 = (case c_owner c of
                  ForRequest \<Rightarrow> s\<lparr>failureReports := failureReports s @ [(ForRequest, c_id c)]\<rparr>
                | ForSession \<Rightarrow> s)
      in if c_id c \<notin> responseCommitted s
         then (wait i AwaitBestEffort (native i (SendHeaders (c_id c) (status_number 500) [] True) s1), False)
         else failure_answered i s1)"

text \<open>The \<open>finally\<close> of \<open>#sendResponse\<close>.\<close>

definition release_reader :: "nat \<Rightarrow> responding \<Rightarrow> responding" where
  "release_reader i s =
     (let sid = c_id (calls s ! i);
          s1 = (if map_option snd (js_get (responseReaders s) sid) = Some i
                then s\<lparr>responseReaders := js_delete (responseReaders s) sid\<rparr> else s)
      in s1\<lparr>readerLog := readerLog s1 @ [(i, ReleaseLock)]\<rparr>)"

text \<open>The \<open>catch\<close> of \<open>#sendResponse\<close> cancels the reader and throws again.\<close>

definition body_failed :: "nat \<Rightarrow> responding \<Rightarrow> responding \<times> bool" where
  "body_failed i s = (wait i AwaitCancel (s\<lparr>readerLog := readerLog s @ [(i, CancelReader)]\<rparr>), False)"

definition commit :: "nat \<Rightarrow> responding \<Rightarrow> responding" where
  "commit i s = s\<lparr>responseCommitted := insert (c_id (calls s ! i)) (responseCommitted s)\<rparr>"

section \<open>Steps\<close>

definition sendResponse :: "nat \<Rightarrow> response \<Rightarrow> responding \<Rightarrow> responding \<times> bool" where
  "sendResponse i r s =
     (let c = calls s ! i
      in if \<not> rp_body r
         then (wait i AwaitOnlyHeaders
                (native i (SendHeaders (c_id c) (status_number (rp_status r)) (rp_headers r) True) s), False)
         else if rp_locked r then call_failed i s
         else (wait i AwaitHeaders
                (native i (SendHeaders (c_id c) (status_number (rp_status r)) (rp_headers r) False)
                  (s\<lparr>responseReaders := js_set (responseReaders s) (c_id c) (c_connection c, i)\<rparr>)), False))"

datatype decision = NoDecision | Refused | Decided response | HandlerThrows

definition response_ok :: "response \<Rightarrow> bool" where
  "response_ok r \<longleftrightarrow> 200 \<le> rp_status r \<and> rp_status r \<le> 299"

text \<open>The handler of a request answers; only a response makes it send something.\<close>

definition handleRequest :: "nat \<Rightarrow> decision \<Rightarrow> responding \<Rightarrow> responding \<times> bool" where
  "handleRequest i d s =
     (case d of
        HandlerThrows \<Rightarrow> call_failed i s
      | Decided r \<Rightarrow> sendResponse i r s
      | _ \<Rightarrow> call_returned i s)"

definition applySessionDecision :: "nat \<Rightarrow> decision \<Rightarrow> responding \<Rightarrow> responding \<times> bool" where
  "applySessionDecision i d s =
     (let c = calls s ! i; sid = c_id c
      in case d of
           HandlerThrows \<Rightarrow> call_failed i s
         | Refused \<Rightarrow> (wait i AwaitRefusal (native i (SendHeaders sid (status_number 403) [] True) s), False)
         | Decided r \<Rightarrow>
             if \<not> response_ok r then sendResponse i r s
             else (wait i AwaitAcceptance
                     (native i (SendHeaders sid (status_number (rp_status r)) (c_negotiation c @ rp_headers r) False) s),
                   False)
         | NoDecision \<Rightarrow>
             (wait i AwaitAcceptance (native i (SendHeaders sid (status_number 200) (c_negotiation c) False) s), False))"

datatype answer =
    Handler decision
  | Native bool
  | NativeThrows
  | Chunk bytes
  | EndOfBody
  | NotBytes
  | ReadThrows
  | Cancelled

text \<open>The code of a call after the await it stands at; an answer that does not fit is no answer.\<close>

definition headers_answered :: "nat \<Rightarrow> bool \<Rightarrow> responding \<Rightarrow> responding \<times> bool" where
  "headers_answered i accepted s =
     (if \<not> accepted then body_failed i s else (wait i AwaitRead (commit i s), False))"

definition value_read :: "nat \<Rightarrow> bytes \<Rightarrow> responding \<Rightarrow> responding \<times> bool" where
  "value_read i value s =
     (if length value > 0
      then (wait i AwaitChunk (native i (SendData (c_id (calls s ! i)) (Some value) False) s), False)
      else (s, False))"

fun resume_call :: "nat \<Rightarrow> call_phase \<Rightarrow> answer \<Rightarrow> responding \<Rightarrow> responding \<times> bool" where
  "resume_call i AwaitHandler a s =
     (case a of
        Handler d \<Rightarrow> (case c_owner (calls s ! i) of
            ForRequest \<Rightarrow> handleRequest i d s
          | ForSession \<Rightarrow> applySessionDecision i d s)
      | _ \<Rightarrow> (s, False))"
| "resume_call i AwaitOnlyHeaders a s =
     (case a of
        Native accepted \<Rightarrow> if \<not> accepted then call_failed i s else call_returned i (commit i s)
      | NativeThrows \<Rightarrow> call_failed i s
      | _ \<Rightarrow> (s, False))"
| "resume_call i AwaitHeaders a s =
     (case a of
        Native accepted \<Rightarrow> headers_answered i accepted s
      | NativeThrows \<Rightarrow> body_failed i s
      | _ \<Rightarrow> (s, False))"
| "resume_call i AwaitRead a s =
     (case a of
        Chunk value \<Rightarrow> value_read i value s
      | EndOfBody \<Rightarrow> (wait i AwaitFin (native i (SendData (c_id (calls s ! i)) None True) s), False)
      | NotBytes \<Rightarrow> body_failed i s
      | ReadThrows \<Rightarrow> body_failed i s
      | _ \<Rightarrow> (s, False))"
| "resume_call i AwaitChunk a s =
     (case a of
        Native accepted \<Rightarrow> if \<not> accepted then body_failed i s else (wait i AwaitRead s, False)
      | NativeThrows \<Rightarrow> body_failed i s
      | _ \<Rightarrow> (s, False))"
| "resume_call i AwaitFin a s =
     (case a of
        Native accepted \<Rightarrow> if \<not> accepted then body_failed i s else call_returned i (release_reader i s)
      | NativeThrows \<Rightarrow> body_failed i s
      | _ \<Rightarrow> (s, False))"
| "resume_call i AwaitCancel a s =
     (case a of Cancelled \<Rightarrow> call_failed i (release_reader i s) | _ \<Rightarrow> (s, False))"
| "resume_call i AwaitBestEffort a s =
     (case a of Native _ \<Rightarrow> failure_answered i s | NativeThrows \<Rightarrow> failure_answered i s | _ \<Rightarrow> (s, False))"
| "resume_call i AwaitRefusal a s =
     (case a of Native _ \<Rightarrow> call_returned i s | NativeThrows \<Rightarrow> call_failed i s | _ \<Rightarrow> (s, False))"
| "resume_call i AwaitAcceptance a s =
     (case a of
        Native accepted \<Rightarrow> if \<not> accepted then call_failed i s else (wait i Done (commit i s), False)
      | NativeThrows \<Rightarrow> call_failed i s
      | _ \<Rightarrow> (s, False))"
| "resume_call i Done a s = (s, False)"

definition start_call ::
  "owner \<Rightarrow> string \<Rightarrow> string \<Rightarrow> (string \<times> string) list \<Rightarrow> responding \<Rightarrow> responding" where
  "start_call ow sid connection negotiation s =
     s\<lparr>calls := calls s @ [\<lparr>c_owner = ow, c_id = sid, c_connection = connection,
         c_negotiation = negotiation, c_phase = AwaitHandler\<rparr>]\<rparr>"

definition cancelResponse :: "string \<Rightarrow> responding \<Rightarrow> responding" where
  "cancelResponse sid s =
     (case js_get (responseReaders s) sid of
        None \<Rightarrow> s
      | Some (_, i) \<Rightarrow>
          s\<lparr>responseReaders := js_delete (responseReaders s) sid,
            readerLog := readerLog s @ [(i, CancelReader)]\<rparr>)"

definition cancelResponsesForConnection :: "string \<Rightarrow> responding \<Rightarrow> responding" where
  "cancelResponsesForConnection cid s =
     foldl (\<lambda>t (sid, c, _). if c = cid then cancelResponse sid t else t) s (responseReaders s)"

definition cancelAllResponses :: "responding \<Rightarrow> responding" where
  "cancelAllResponses s = foldl (\<lambda>t sid. cancelResponse sid t) s (js_keys (responseReaders s))"

text \<open>\<open>#deleteSession\<close> when the request of a session ends: the id is no longer marked, whatever its call does.\<close>

definition unmark_session :: "string \<Rightarrow> responding \<Rightarrow> responding" where
  "unmark_session sid s = s\<lparr>responseCommitted := responseCommitted s - {sid}, forgottenSessions := insert sid (forgottenSessions s)\<rparr>"

datatype response_event =
    StartCall owner string string "(string \<times> string) list"
  | AnswerCall nat answer
  | CancelResponse string
  | CancelConnection string
  | CancelAll
  | DeleteSession string

fun response_step :: "responding \<Rightarrow> response_event \<Rightarrow> responding" where
  "response_step s (StartCall ow sid cid neg) = start_call ow sid cid neg s"
| "response_step s (AnswerCall i a) =
     (if i < length (calls s) then fst (resume_call i (c_phase (calls s ! i)) a s) else s)"
| "response_step s (CancelResponse sid) = cancelResponse sid s"
| "response_step s (CancelConnection cid) = cancelResponsesForConnection cid s"
| "response_step s CancelAll = cancelAllResponses s"
| "response_step s (DeleteSession sid) = unmark_session sid s"

definition response_run :: "responding \<Rightarrow> response_event list \<Rightarrow> responding" where
  "response_run = foldl response_step"

section \<open>What a call does to the others\<close>

text \<open>A step of call \<open>i\<close> changes the phase of this call, appends native calls of its own, and adds or
  removes its own id in \<open>#responseCommitted\<close>.\<close>

definition calls_of :: "nat \<Rightarrow> responding \<Rightarrow> native_call list" where
  "calls_of i s = map snd (filter (\<lambda>c. fst c = i) (nativeLog s))"

definition local_step :: "nat \<Rightarrow> responding \<Rightarrow> responding \<Rightarrow> bool" where
  "local_step i s t \<longleftrightarrow>
     (\<exists>p. calls t = (calls s)[i := (calls s ! i)\<lparr>c_phase := p\<rparr>])
     \<and> (\<exists>new. nativeLog t = nativeLog s @ map (Pair i) new)
     \<and> (\<forall>sid. sid \<noteq> c_id (calls s ! i) \<longrightarrow> (sid \<in> responseCommitted t \<longleftrightarrow> sid \<in> responseCommitted s))
     \<and> forgottenSessions t = forgottenSessions s"

lemma local_step_refl [simp]: "local_step i s s"
  by (auto simp: local_step_def intro!: exI [of _ "c_phase (calls s ! i)"] exI [of _ "[]"])

lemmas response_code = native_def wait_def forget_def call_returned_def failure_answered_def call_failed_def
  release_reader_def body_failed_def commit_def sendResponse_def handleRequest_def applySessionDecision_def
  headers_answered_def value_read_def Let_def

lemma failed_local:
  assumes "i < length (calls s)"
  shows "local_step i s (fst (call_failed i s))" "local_step i s (fst (call_failed i (release_reader i s)))"
    "local_step i s (fst (failure_answered i s))" "local_step i s (fst (body_failed i s))"
    "local_step i s (fst (call_returned i s))" "local_step i s (fst (call_returned i (release_reader i s)))"
    "local_step i s (fst (call_returned i (commit i s)))"
  using assms
  by (auto simp: local_step_def response_code split: owner.splits intro: exI [of _ "[]"] exI [of _ "[_]"])

lemma sent_local:
  assumes "i < length (calls s)"
  shows "local_step i s (wait i p (native i c s))"
    and "local_step i s (wait i p s)" and "local_step i s (wait i p (commit i s))"
    and "local_step i s (wait i p (native i c (s\<lparr>responseReaders := m\<rparr>)))"
  using assms by (auto simp: local_step_def response_code intro: exI [of _ "[]"] exI [of _ "[_]"])

lemma resume_local:
  assumes "i < length (calls s)"
  shows "local_step i s (fst (resume_call i p a s))"
  by (cases p)
    (simp_all add: failed_local [OF assms] sent_local [OF assms] handleRequest_def applySessionDecision_def
      sendResponse_def headers_answered_def value_read_def Let_def
      split: answer.split owner.split decision.split)

section \<open>The invariants\<close>

text \<open>The native calls of a response: nothing, a head that ends the stream, or a head, the chunks in
  order, and the FIN once.\<close>

definition body_log :: "string \<Rightarrow> native_call list \<Rightarrow> bool" where
  "body_log sid log \<longleftrightarrow> (\<exists>st hs chunks. [] \<notin> set chunks
     \<and> log = SendHeaders sid st hs False # map (\<lambda>b. SendData sid (Some b) False) chunks)"

definition finished_log :: "string \<Rightarrow> native_call list \<Rightarrow> bool" where
  "finished_log sid log \<longleftrightarrow> (\<exists>front. body_log sid front \<and> log = front @ [SendData sid None True])"

definition response_log :: "string \<Rightarrow> native_call list \<Rightarrow> bool" where
  "response_log sid log \<longleftrightarrow>
     log = [] \<or> (\<exists>st hs. log = [SendHeaders sid st hs True]) \<or> body_log sid log \<or> finished_log sid log"

text \<open>After a response that got no further than its head, the best-effort response may follow; \<open>late\<close> allows it
  after more.\<close>

definition call_log :: "bool \<Rightarrow> string \<Rightarrow> native_call list \<Rightarrow> bool" where
  "call_log late sid log \<longleftrightarrow> response_log sid log
     \<or> (\<exists>main. response_log sid main \<and> (length main \<le> 1 \<or> late)
          \<and> log = main @ [SendHeaders sid (IntegerNumber 500) [] True])"

text \<open>The session of the call was deleted by something else than the call.\<close>

definition unmarked :: "call_state \<Rightarrow> string set \<Rightarrow> bool" where
  "unmarked c forgotten \<longleftrightarrow> c_id c \<in> forgotten"

definition marked :: "call_state \<Rightarrow> string set \<Rightarrow> string set \<Rightarrow> bool" where
  "marked c com forgotten \<longleftrightarrow> c_id c \<in> com \<or> unmarked c forgotten"

definition phase_ok :: "call_state \<Rightarrow> native_call list \<Rightarrow> string set \<Rightarrow> string set \<Rightarrow> bool" where
  "phase_ok c log com forgotten \<longleftrightarrow>
     (case c_phase c of
        AwaitHandler \<Rightarrow> log = []
      | AwaitOnlyHeaders \<Rightarrow> response_log (c_id c) log \<and> length log \<le> 1
      | AwaitHeaders \<Rightarrow> body_log (c_id c) log \<and> length log \<le> 1
      | AwaitRead \<Rightarrow> body_log (c_id c) log \<and> marked c com forgotten
      | AwaitChunk \<Rightarrow> body_log (c_id c) log \<and> marked c com forgotten
      | AwaitFin \<Rightarrow> finished_log (c_id c) log \<and> marked c com forgotten
      | AwaitCancel \<Rightarrow> response_log (c_id c) log \<and> (length log \<le> 1 \<or> marked c com forgotten)
      | AwaitBestEffort \<Rightarrow> call_log (unmarked c forgotten) (c_id c) log
      | AwaitRefusal \<Rightarrow> response_log (c_id c) log \<and> length log \<le> 1
      | AwaitAcceptance \<Rightarrow> response_log (c_id c) log \<and> length log \<le> 1
      | Done \<Rightarrow> call_log (unmarked c forgotten) (c_id c) log)"

definition distinct_ids :: "responding \<Rightarrow> bool" where
  "distinct_ids s \<longleftrightarrow> distinct (map c_id (calls s))"

definition logs_ok :: "responding \<Rightarrow> bool" where
  "logs_ok s \<longleftrightarrow> (\<forall>i < length (calls s). phase_ok (calls s ! i) (calls_of i s) (responseCommitted s) (forgottenSessions s))
     \<and> (\<forall>i \<ge> length (calls s). calls_of i s = [])"

lemma calls_of_local:
  "nativeLog t = nativeLog s @ map (Pair i) new \<Longrightarrow> calls_of j t = calls_of j s @ (if j = i then new else [])"
  by (simp add: calls_of_def filter_map o_def)

lemma body_log_simps:
  "body_log sid [SendHeaders sid st hs False]"
  "body_log sid log \<Longrightarrow> b \<noteq> [] \<Longrightarrow> body_log sid (log @ [SendData sid (Some b) False])"
  "body_log sid log \<Longrightarrow> finished_log sid (log @ [SendData sid None True])"
  "body_log sid log \<Longrightarrow> response_log sid log"
  "finished_log sid log \<Longrightarrow> response_log sid log"
  "response_log sid []" "response_log sid [SendHeaders sid st hs fin]"
proof -
  show head: "body_log sid [SendHeaders sid st hs False]" for st hs
    by (auto simp: body_log_def intro: exI [of _ "[]"])
  show "body_log sid log \<Longrightarrow> b \<noteq> [] \<Longrightarrow> body_log sid (log @ [SendData sid (Some b) False])"
  proof -
    assume "body_log sid log" and b: "b \<noteq> []"
    then obtain st hs chunks where "[] \<notin> set chunks"
      "log = SendHeaders sid st hs False # map (\<lambda>b. SendData sid (Some b) False) chunks"
      by (auto simp: body_log_def)
    with b show ?thesis unfolding body_log_def
      by (intro exI [of _ st] exI [of _ hs] exI [of _ "chunks @ [b]"]) auto
  qed
  show "response_log sid [SendHeaders sid st hs fin]"
    using head by (cases fin) (auto simp: response_log_def)
qed (auto simp: finished_log_def response_log_def)

lemma call_log_intros:
  "response_log sid log \<Longrightarrow> call_log late sid log"
  "response_log sid log \<Longrightarrow> length log \<le> 1 \<or> late \<Longrightarrow> call_log late sid (log @ [SendHeaders sid (IntegerNumber 500) [] True])"
  by (auto simp: call_log_def)

definition step_ok :: "nat \<Rightarrow> responding \<Rightarrow> bool" where
  "step_ok i t \<longleftrightarrow> phase_ok (calls t ! i) (calls_of i t) (responseCommitted t) (forgottenSessions t)"

lemma call_failed_ok:
  assumes "i < length (calls s)" and "response_log (c_id (calls s ! i)) (calls_of i s)"
    and "length (calls_of i s) \<le> 1 \<or> marked (calls s ! i) (responseCommitted s) (forgottenSessions s)"
  shows "step_ok i (fst (call_failed i s))"
  using assms
  by (auto simp: step_ok_def response_code phase_ok_def marked_def unmarked_def calls_of_def call_log_intros split: owner.splits)

lemma body_failed_ok:
  assumes "i < length (calls s)" and "response_log (c_id (calls s ! i)) (calls_of i s)"
    and "length (calls_of i s) \<le> 1 \<or> marked (calls s ! i) (responseCommitted s) (forgottenSessions s)"
  shows "step_ok i (fst (body_failed i s))"
  using assms by (auto simp: step_ok_def response_code phase_ok_def marked_def unmarked_def calls_of_def)

lemma done_ok:
  assumes "i < length (calls s)" and "call_log (unmarked (calls s ! i) (forgottenSessions s)) (c_id (calls s ! i)) (calls_of i s)"
  shows "step_ok i (fst (call_returned i s))" "step_ok i (fst (failure_answered i s))"
    "step_ok i (wait i Done s)"
  using assms by (auto simp: step_ok_def response_code phase_ok_def marked_def unmarked_def calls_of_def split: owner.splits)

lemma log_simps [simp]:
  "calls_of i (release_reader j s) = calls_of i s" "calls (release_reader j s) = calls s"
  "responseCommitted (release_reader j s) = responseCommitted s"
  "calls_of i (commit j s) = calls_of i s" "calls (commit j s) = calls s"
  "responseCommitted (commit j s) = insert (c_id (calls s ! j)) (responseCommitted s)"
  "calls_of i (wait j p s) = calls_of i s" "responseCommitted (wait j p s) = responseCommitted s"
  "responseCommitted (native j c s) = responseCommitted s" "calls (native j c s) = calls s"
  "calls_of i (native i c s) = calls_of i s @ [c]"
  "calls_of i (s\<lparr>responseReaders := m\<rparr>) = calls_of i s"
  "forgottenSessions (release_reader j s) = forgottenSessions s" "forgottenSessions (commit j s) = forgottenSessions s"
  "forgottenSessions (wait j p s) = forgottenSessions s" "forgottenSessions (native j c s) = forgottenSessions s"
  by (simp_all add: response_code calls_of_def)

lemma wait_ok:
  assumes "i < length (calls s)"
  shows "step_ok i (wait i p s) \<longleftrightarrow> phase_ok ((calls s ! i)\<lparr>c_phase := p\<rparr>) (calls_of i s) (responseCommitted s) (forgottenSessions s)"
  using assms by (simp add: step_ok_def) (simp add: wait_def)

lemma own_phase_ok:
  assumes "i < length (calls s)" and "phase_ok (calls s ! i) (calls_of i s) (responseCommitted s) (forgottenSessions s)"
  shows "step_ok i (fst (resume_call i (c_phase (calls s ! i)) a s))"
proof -
  note ok = assms(2) [unfolded phase_ok_def]
  have same: "step_ok i s" using assms(2) by (simp add: step_ok_def)
  show ?thesis
    using assms(1) ok same
    by (cases "c_phase (calls s ! i)")
      (auto simp: call_failed_ok body_failed_ok done_ok wait_ok phase_ok_def marked_def unmarked_def body_log_simps call_log_intros
        handleRequest_def applySessionDecision_def sendResponse_def headers_answered_def value_read_def Let_def
        split: answer.split owner.split decision.split)
qed

lemma other_phase_ok:
  assumes "phase_ok (calls s ! j) (calls_of j s) (responseCommitted s) (forgottenSessions s)" and "local_step i s t"
    and "j \<noteq> i" and "c_id (calls s ! j) \<noteq> c_id (calls s ! i)"
  shows "phase_ok (calls t ! j) (calls_of j t) (responseCommitted t) (forgottenSessions t)"
proof -
  obtain p new where "calls t = (calls s)[i := (calls s ! i)\<lparr>c_phase := p\<rparr>]"
    and "nativeLog t = nativeLog s @ map (Pair i) new"
    using assms(2) by (auto simp: local_step_def)
  then have "calls t ! j = calls s ! j" and "calls_of j t = calls_of j s"
    using assms(3) by (simp_all add: calls_of_local)
  moreover have "c_id (calls s ! j) \<in> responseCommitted t \<longleftrightarrow> c_id (calls s ! j) \<in> responseCommitted s"
    using assms(2,4) by (simp add: local_step_def)
  moreover have "forgottenSessions t = forgottenSessions s" using assms(2) by (simp add: local_step_def)
  ultimately show ?thesis using assms(1) by (simp add: phase_ok_def marked_def split: call_phase.splits)
qed

lemma local_step_calls:
  assumes "local_step i s t"
  shows "length (calls t) = length (calls s)" and "map c_id (calls t) = map c_id (calls s)"
    and "map c_owner (calls t) = map c_owner (calls s)" and "j \<noteq> i \<Longrightarrow> calls_of j t = calls_of j s"
proof -
  obtain p new where t: "calls t = (calls s)[i := (calls s ! i)\<lparr>c_phase := p\<rparr>]"
    and "nativeLog t = nativeLog s @ map (Pair i) new"
    using assms by (auto simp: local_step_def)
  then show "length (calls t) = length (calls s)" and "j \<noteq> i \<Longrightarrow> calls_of j t = calls_of j s"
    by (simp_all add: calls_of_local)
  show "map c_id (calls t) = map c_id (calls s)" and "map c_owner (calls t) = map c_owner (calls s)"
    unfolding t by (rule nth_equalityI; cases "i < length (calls s)"; simp add: nth_list_update)+
qed

lemma distinct_idsD:
  assumes "distinct_ids s" and "i < length (calls s)" and "j < length (calls s)" and "i \<noteq> j"
  shows "c_id (calls s ! j) \<noteq> c_id (calls s ! i)"
  using assms unfolding distinct_ids_def by (metis length_map nth_eq_iff_index_eq nth_map)

lemma answer_logs_ok:
  assumes "logs_ok s" and "distinct_ids s" and "i < length (calls s)"
  shows "logs_ok (fst (resume_call i (c_phase (calls s ! i)) a s))"
proof -
  let ?t = "fst (resume_call i (c_phase (calls s ! i)) a s)"
  have local: "local_step i s ?t" by (rule resume_local [OF assms(3)])
  have "phase_ok (calls ?t ! j) (calls_of j ?t) (responseCommitted ?t) (forgottenSessions ?t)" if "j < length (calls s)" for j
  proof (cases "j = i")
    case True
    then show ?thesis using own_phase_ok [OF assms(3)] assms(1,3) by (simp add: logs_ok_def step_ok_def)
  next
    case False
    then show ?thesis
      using other_phase_ok [OF _ local False] distinct_idsD [OF assms(2,3) that] assms(1) that
      by (simp add: logs_ok_def)
  qed
  moreover have "calls_of j ?t = []" if "j \<ge> length (calls s)" for j
    using local_step_calls(4) [OF local, of j] assms(1,3) that by (auto simp: logs_ok_def)
  ultimately show ?thesis by (simp add: logs_ok_def local_step_calls(1) [OF local])
qed

text \<open>Cancelling a response touches the readers only.\<close>

definition same_calls :: "responding \<Rightarrow> responding \<Rightarrow> bool" where
  "same_calls s t \<longleftrightarrow> calls t = calls s \<and> nativeLog t = nativeLog s
     \<and> responseCommitted t = responseCommitted s \<and> failureReports t = failureReports s
     \<and> forgottenSessions t = forgottenSessions s"

lemma cancel_same: "same_calls s (cancelResponse sid s)"
  by (simp add: same_calls_def cancelResponse_def split: option.splits prod.splits)

lemma fold_same: "(\<And>x t. same_calls t (f t x)) \<Longrightarrow> same_calls s (foldl f s xs)"
proof (induction xs arbitrary: s)
  case Nil
  show ?case by (simp add: same_calls_def)
next
  case (Cons x xs)
  then show ?case by (simp add: same_calls_def)
qed

lemma cancels_same:
  "same_calls s (cancelResponsesForConnection cid s)" "same_calls s (cancelAllResponses s)"
proof -
  have "same_calls t t" for t by (simp add: same_calls_def)
  then show "same_calls s (cancelResponsesForConnection cid s)"
    unfolding cancelResponsesForConnection_def by (intro fold_same) (simp add: cancel_same split: prod.split)
  show "same_calls s (cancelAllResponses s)"
    unfolding cancelAllResponses_def by (intro fold_same cancel_same)
qed

lemma same_calls_logs: "same_calls s t \<Longrightarrow> logs_ok s \<Longrightarrow> logs_ok t"
  by (simp add: same_calls_def logs_ok_def calls_of_def)

lemma start_logs_ok: "logs_ok s \<Longrightarrow> logs_ok (start_call ow sid cid neg s)"
  by (auto simp: logs_ok_def start_call_def calls_of_def nth_append phase_ok_def less_Suc_eq split: call_phase.splits)

lemma unmark_phase_ok:
  assumes "phase_ok c log com forgotten"
  shows "phase_ok c log (com - {sid}) (insert sid forgotten)"
proof -
  have m: "marked c com forgotten \<Longrightarrow> marked c (com - {sid}) (insert sid forgotten)" by (auto simp: marked_def unmarked_def)
  have u: "call_log (unmarked c forgotten) i l \<Longrightarrow> call_log (unmarked c (insert sid forgotten)) i l" for i l
    by (auto simp: call_log_def unmarked_def)
  show ?thesis using assms m u by (auto simp: phase_ok_def split: call_phase.splits)
qed

lemma unmark_logs_ok: "logs_ok s \<Longrightarrow> logs_ok (unmark_session sid s)"
  by (simp add: logs_ok_def unmark_session_def calls_of_def unmark_phase_ok)

section \<open>Runs\<close>

text \<open>The sessions that are deleted from outside their calls.\<close>

fun deleted_sessions :: "response_event list \<Rightarrow> string set" where
  "deleted_sessions [] = {}"
| "deleted_sessions (DeleteSession sid # es) = insert sid (deleted_sessions es)"
| "deleted_sessions (_ # es) = deleted_sessions es"

fun started :: "response_event list \<Rightarrow> string list" where
  "started [] = []"
| "started (StartCall _ sid _ _ # es) = sid # started es"
| "started (_ # es) = started es"

lemma step_ids: "map c_id (calls (response_step s e)) = map c_id (calls s) @ started [e]"
proof (cases e)
  case (AnswerCall i a)
  then show ?thesis using local_step_calls(2) [OF resume_local] by simp
qed (use cancels_same cancel_same in \<open>simp_all add: same_calls_def start_call_def unmark_session_def\<close>)

lemma step_forgotten: "forgottenSessions (response_step s e) = forgottenSessions s \<union> deleted_sessions [e]"
proof (cases e)
  case (AnswerCall i a)
  then show ?thesis using resume_local [of i s] by (simp add: local_step_def)
qed (use cancels_same cancel_same in \<open>auto simp: same_calls_def start_call_def unmark_session_def\<close>)

lemma deleted_sessions_Cons: "deleted_sessions (e # es) = deleted_sessions [e] \<union> deleted_sessions es"
  by (cases e) auto

lemma run_forgotten: "forgottenSessions (response_run s es) = forgottenSessions s \<union> deleted_sessions es"
proof (induction es arbitrary: s)
  case Nil
  show ?case by (simp add: response_run_def)
next
  case (Cons e es)
  then show ?case using step_forgotten [of s e] deleted_sessions_Cons [of e es] by (simp add: response_run_def Un_assoc)
qed

lemma started_Cons: "started (e # es) = started [e] @ started es"
  by (cases e) simp_all

lemma run_ids: "map c_id (calls (response_run s es)) = map c_id (calls s) @ started es"
proof (induction es arbitrary: s)
  case Nil
  show ?case by (simp add: response_run_def)
next
  case (Cons e es)
  then show ?case by (simp add: response_run_def step_ids started_Cons [of e es])
qed

lemma step_logs_ok:
  assumes "logs_ok s" and "distinct_ids s"
  shows "logs_ok (response_step s e)"
proof (cases e)
  case (AnswerCall i a)
  then show ?thesis using answer_logs_ok [OF assms] assms(1) by simp
qed (use assms in \<open>auto simp: start_logs_ok unmark_logs_ok intro: same_calls_logs [OF cancel_same]
    same_calls_logs [OF cancels_same(1)] same_calls_logs [OF cancels_same(2)]\<close>)

lemma logs_ok_new: "logs_ok no_responses"
  by (simp add: logs_ok_def no_responses_def calls_of_def)

lemma phase_ok_call_log: "phase_ok c log com forgotten \<Longrightarrow> call_log (unmarked c forgotten) (c_id c) log"
  by (cases "c_phase c") (auto simp: phase_ok_def body_log_simps call_log_intros)

section \<open>Readers and committed responses\<close>

definition body_phase :: "call_phase \<Rightarrow> bool" where
  "body_phase p \<longleftrightarrow> p \<in> {AwaitHeaders, AwaitRead, AwaitChunk, AwaitFin, AwaitCancel}"

text \<open>A registered reader belongs to a call that is sending a body.\<close>

definition readers_ok :: "responding \<Rightarrow> bool" where
  "readers_ok s \<longleftrightarrow> (\<forall>sid cid i. js_get (responseReaders s) sid = Some (cid, i) \<longrightarrow>
     i < length (calls s) \<and> c_id (calls s ! i) = sid \<and> c_connection (calls s ! i) = cid
     \<and> body_phase (c_phase (calls s ! i)))"

text \<open>An id is committed while its call sends the response, and for good when a session is accepted.\<close>

definition committed_ok :: "responding \<Rightarrow> bool" where
  "committed_ok s \<longleftrightarrow> (\<forall>sid \<in> responseCommitted s. \<exists>i < length (calls s). c_id (calls s ! i) = sid
     \<and> (c_phase (calls s ! i) \<in> {AwaitRead, AwaitChunk, AwaitFin, AwaitCancel, AwaitBestEffort}
        \<or> (c_phase (calls s ! i) = Done \<and> c_owner (calls s ! i) = ForSession)))"

definition unregistered :: "nat \<Rightarrow> responding \<Rightarrow> bool" where
  "unregistered i s \<longleftrightarrow> map_option snd (js_get (responseReaders s) (c_id (calls s ! i))) \<noteq> Some i"

definition moved :: "nat \<Rightarrow> responding \<Rightarrow> responding \<Rightarrow> bool" where
  "moved i s t \<longleftrightarrow> responseReaders t = responseReaders s
     \<and> (\<exists>p. calls t = (calls s)[i := (calls s ! i)\<lparr>c_phase := p\<rparr>] \<and> (unregistered i s \<or> body_phase p))"

lemma moved_readers:
  assumes "readers_ok s" and "i < length (calls s)" and "moved i s t"
  shows "readers_ok t"
  using assms unfolding readers_ok_def moved_def unregistered_def
  by (auto simp: nth_list_update)

lemma ends_moved:
  assumes "unregistered i s"
  shows "moved i s (fst (call_failed i s))" "moved i s (fst (call_returned i s))"
    "moved i s (fst (failure_answered i s))" "moved i s (wait i p (native i c s))"
    "moved i s (wait i p s)" "moved i s (fst (call_returned i (commit i s)))" "moved i s (wait i p (commit i s))"
  using assms by (auto simp: moved_def response_code split: owner.splits)

lemma body_moved:
  assumes "body_phase p"
  shows "moved i s (wait i p s)" "moved i s (wait i p (native i c s))" "moved i s (wait i p (commit i s))"
    "moved i s (fst (body_failed i s))"
  using assms by (auto simp: moved_def response_code body_phase_def)

lemma released:
  assumes "readers_ok s" and "i < length (calls s)"
  shows "readers_ok (release_reader i s)" and "unregistered i (release_reader i s)"
  using assms by (auto simp: readers_ok_def unregistered_def release_reader_def Let_def)

lemma not_body_unregistered:
  "readers_ok s \<Longrightarrow> \<not> body_phase (c_phase (calls s ! i)) \<Longrightarrow> unregistered i s"
  by (auto simp: readers_ok_def unregistered_def)

lemma readers_sendResponse:
  assumes "readers_ok s" and "i < length (calls s)" and "unregistered i s"
  shows "readers_ok (fst (sendResponse i r s))"
  using moved_readers [OF assms(1,2)] ends_moved [OF assms(3)] assms
  by (auto simp: sendResponse_def Let_def) (auto simp: readers_ok_def response_code nth_list_update body_phase_def)

lemma resume_readers:
  assumes "readers_ok s" and "i < length (calls s)"
  shows "readers_ok (fst (resume_call i (c_phase (calls s ! i)) a s))"
proof -
  note m = moved_readers [OF assms]
  note b = body_moved [of AwaitRead] body_moved [of AwaitChunk] body_moved [of AwaitFin] body_moved(4)
  note rel = released [OF assms]
  have r: "readers_ok (fst (call_failed i (release_reader i s)))" "readers_ok (fst (call_returned i (release_reader i s)))"
    using moved_readers [OF rel(1)] ends_moved [OF rel(2)] assms(2) by simp_all
  show ?thesis
  proof (cases "body_phase (c_phase (calls s ! i))")
    case True
    then show ?thesis using r assms
      by (cases "c_phase (calls s ! i)")
        (auto simp: body_phase_def headers_answered_def value_read_def intro!: m b split: answer.split)
  next
    case False
    note u = not_body_unregistered [OF assms(1) False]
    show ?thesis
      using False assms readers_sendResponse [OF assms u]
      by (cases "c_phase (calls s ! i)")
        (auto simp: body_phase_def handleRequest_def applySessionDecision_def Let_def intro!: m ends_moved [OF u]
          split: answer.split owner.split decision.split)
  qed
qed

text \<open>The commitment of ids: what one call does.\<close>

definition commitment_moved :: "nat \<Rightarrow> responding \<Rightarrow> responding \<Rightarrow> bool" where
  "commitment_moved i s t \<longleftrightarrow>
     (\<exists>p. calls t = (calls s)[i := (calls s ! i)\<lparr>c_phase := p\<rparr>]
        \<and> responseCommitted t - {c_id (calls s ! i)} \<subseteq> responseCommitted s
        \<and> (c_id (calls s ! i) \<notin> responseCommitted t
           \<or> p \<in> {AwaitRead, AwaitChunk, AwaitFin, AwaitCancel, AwaitBestEffort}
           \<or> (p = Done \<and> c_owner (calls s ! i) = ForSession)))"

lemma commitment_moved_ok:
  assumes "committed_ok s" and "i < length (calls s)" and "commitment_moved i s t"
  shows "committed_ok t"
  unfolding committed_ok_def
proof
  fix sid
  assume sid: "sid \<in> responseCommitted t"
  obtain p where t: "calls t = (calls s)[i := (calls s ! i)\<lparr>c_phase := p\<rparr>]"
    and com: "responseCommitted t - {c_id (calls s ! i)} \<subseteq> responseCommitted s"
    and own: "c_id (calls s ! i) \<notin> responseCommitted t
      \<or> p \<in> {AwaitRead, AwaitChunk, AwaitFin, AwaitCancel, AwaitBestEffort}
      \<or> (p = Done \<and> c_owner (calls s ! i) = ForSession)"
    using assms(3) by (auto simp: commitment_moved_def)
  show "\<exists>j < length (calls t). c_id (calls t ! j) = sid
     \<and> (c_phase (calls t ! j) \<in> {AwaitRead, AwaitChunk, AwaitFin, AwaitCancel, AwaitBestEffort}
        \<or> (c_phase (calls t ! j) = Done \<and> c_owner (calls t ! j) = ForSession))"
  proof (cases "sid = c_id (calls s ! i)")
    case True
    then show ?thesis using own sid assms(2) by (intro exI [of _ i]) (auto simp: t)
  next
    case False
    with sid com have "sid \<in> responseCommitted s" by auto
    then obtain j where j: "j < length (calls s)" "c_id (calls s ! j) = sid"
      "c_phase (calls s ! j) \<in> {AwaitRead, AwaitChunk, AwaitFin, AwaitCancel, AwaitBestEffort}
        \<or> (c_phase (calls s ! j) = Done \<and> c_owner (calls s ! j) = ForSession)"
      using assms(1) unfolding committed_ok_def by blast
    then have "j \<noteq> i" using False by auto
    then show ?thesis using j by (intro exI [of _ j]) (auto simp: t)
  qed
qed

lemma ends_commitment:
  "commitment_moved i s (fst (call_failed i s))" "commitment_moved i s (fst (call_returned i s))"
  "commitment_moved i s (fst (failure_answered i s))" "commitment_moved i s (fst (body_failed i s))"
  "commitment_moved i s (fst (call_returned i (commit i s)))"
  "commitment_moved i s (fst (call_failed i (release_reader i s)))"
  "commitment_moved i s (fst (call_returned i (release_reader i s)))"
  by (auto simp: commitment_moved_def response_code split: owner.splits)

lemma waits_commitment:
  "p \<in> {AwaitRead, AwaitChunk, AwaitFin, AwaitCancel, AwaitBestEffort} \<Longrightarrow> commitment_moved i s (wait i p s)"
  "p \<in> {AwaitRead, AwaitChunk, AwaitFin, AwaitCancel, AwaitBestEffort} \<Longrightarrow> commitment_moved i s (wait i p (commit i s))"
  "p \<in> {AwaitRead, AwaitChunk, AwaitFin, AwaitCancel, AwaitBestEffort} \<Longrightarrow> commitment_moved i s (wait i p (native i c s))"
  by (auto simp: commitment_moved_def response_code)

text \<open>Before the head of a call is answered, its id is not committed, when ids are not reused.\<close>

lemma early_commitment:
  assumes "committed_ok s" and "distinct_ids s" and "i < length (calls s)"
    and "c_phase (calls s ! i) \<in> {AwaitHandler, AwaitOnlyHeaders, AwaitHeaders, AwaitRefusal, AwaitAcceptance}"
  shows "c_id (calls s ! i) \<notin> responseCommitted s"
proof
  assume "c_id (calls s ! i) \<in> responseCommitted s"
  then obtain j where "j < length (calls s)" "c_id (calls s ! j) = c_id (calls s ! i)"
    "c_phase (calls s ! j) \<in> {AwaitRead, AwaitChunk, AwaitFin, AwaitCancel, AwaitBestEffort, Done}"
    using assms(1) unfolding committed_ok_def by blast
  moreover from this have "j = i" using distinct_idsD [OF assms(2)] assms(3) by metis
  ultimately show False using assms(4) by auto
qed

lemma early_moved:
  assumes "c_id (calls s ! i) \<notin> responseCommitted s"
  shows "commitment_moved i s (wait i p (native i c s))" "commitment_moved i s (fst (sendResponse i r s))"
  using assms ends_commitment(1) [of i s]
  by (auto simp: commitment_moved_def sendResponse_def wait_def native_def Let_def)

lemma accepted_moved: "c_owner (calls s ! i) = ForSession \<Longrightarrow> commitment_moved i s (wait i Done (commit i s))"
  by (auto simp: commitment_moved_def response_code)

text \<open>Only a session waits for its acceptance or refusal.\<close>

definition owners_ok :: "responding \<Rightarrow> bool" where
  "owners_ok s \<longleftrightarrow> (\<forall>i < length (calls s). c_phase (calls s ! i) \<in> {AwaitRefusal, AwaitAcceptance} \<longrightarrow>
     c_owner (calls s ! i) = ForSession)"

lemma resume_committed:
  assumes "committed_ok s" and "distinct_ids s" and "owners_ok s" and i: "i < length (calls s)"
  shows "committed_ok (fst (resume_call i (c_phase (calls s ! i)) a s))"
proof -
  note m = commitment_moved_ok [OF assms(1) i]
  note early = early_commitment [OF assms(1,2) i]
  have acc: "c_phase (calls s ! i) = AwaitAcceptance \<Longrightarrow> c_owner (calls s ! i) = ForSession"
    using assms(3) i by (simp add: owners_ok_def)
  show ?thesis
  proof (cases "c_phase (calls s ! i) = AwaitRead")
    case True
    then show ?thesis using assms(1)
      by (auto simp: value_read_def intro!: m ends_commitment waits_commitment split: answer.split)
  next
    case False
    then show ?thesis
      using assms(1) early acc
      by (cases "c_phase (calls s ! i)")
        (auto simp: handleRequest_def applySessionDecision_def headers_answered_def Let_def
          intro!: m ends_commitment waits_commitment early_moved accepted_moved
          split: answer.split owner.split decision.split)
  qed
qed

lemma resume_call_phase:
  assumes "i < length (calls s)" and "c_owner (calls s ! i) \<noteq> ForSession"
    and "c_phase (calls s ! i) \<notin> {AwaitRefusal, AwaitAcceptance}"
  shows "c_phase (calls (fst (resume_call i (c_phase (calls s ! i)) a s)) ! i) \<notin> {AwaitRefusal, AwaitAcceptance}"
  using assms
  by (cases "c_phase (calls s ! i)"; cases "c_owner (calls s ! i)")
    (auto simp: response_code split: answer.split decision.split)

lemma resume_owners:
  assumes "owners_ok s" and "i < length (calls s)"
  shows "owners_ok (fst (resume_call i (c_phase (calls s ! i)) a s))"
proof -
  let ?t = "fst (resume_call i (c_phase (calls s ! i)) a s)"
  obtain p where t: "calls ?t = (calls s)[i := (calls s ! i)\<lparr>c_phase := p\<rparr>]"
    using resume_local [OF assms(2)] unfolding local_step_def by blast
  have "p = c_phase (calls ?t ! i)" using assms(2) by (simp add: t)
  then have "p \<in> {AwaitRefusal, AwaitAcceptance} \<longrightarrow> c_owner (calls s ! i) = ForSession"
    using resume_call_phase [OF assms(2), of a] assms by (auto simp: owners_ok_def)
  then show ?thesis using assms by (auto simp: owners_ok_def t nth_list_update)
qed

text \<open>All of it in one invariant, for runs that do not reuse an id.\<close>

definition response_inv :: "responding \<Rightarrow> bool" where
  "response_inv s \<longleftrightarrow> logs_ok s \<and> readers_ok s \<and> committed_ok s \<and> owners_ok s"

lemma cancel_readers:
  "readers_ok s \<Longrightarrow> readers_ok (cancelResponse sid s)"
  by (auto simp: readers_ok_def cancelResponse_def split: option.splits)

lemma fold_readers: "readers_ok s \<Longrightarrow> (\<And>x t. readers_ok t \<Longrightarrow> readers_ok (f t x)) \<Longrightarrow> readers_ok (foldl f s xs)"
  by (induction xs arbitrary: s) auto

lemma cancels_readers:
  assumes "readers_ok s"
  shows "readers_ok (cancelResponsesForConnection cid s)" "readers_ok (cancelAllResponses s)"
  unfolding cancelResponsesForConnection_def cancelAllResponses_def
  by (rule fold_readers [OF assms]; auto simp: cancel_readers)+

lemma same_calls_inv: "same_calls s t \<Longrightarrow> readers_ok t \<Longrightarrow> response_inv s \<Longrightarrow> response_inv t"
  using same_calls_logs [of s t] by (simp add: response_inv_def same_calls_def committed_ok_def owners_ok_def)

lemma start_call_inv:
  assumes "response_inv s"
  shows "response_inv (start_call ow sid cid neg s)"
proof -
  let ?t = "start_call ow sid cid neg s"
  have "readers_ok ?t" and "owners_ok ?t"
    using assms by (auto simp: response_inv_def readers_ok_def owners_ok_def start_call_def nth_append less_Suc_eq)
  moreover have "committed_ok ?t"
    unfolding committed_ok_def
  proof
    fix x
    assume "x \<in> responseCommitted ?t"
    then have "x \<in> responseCommitted s" by (simp add: start_call_def)
    then obtain i where "i < length (calls s) \<and> c_id (calls s ! i) = x
      \<and> (c_phase (calls s ! i) \<in> {AwaitRead, AwaitChunk, AwaitFin, AwaitCancel, AwaitBestEffort}
        \<or> (c_phase (calls s ! i) = Done \<and> c_owner (calls s ! i) = ForSession))"
      using assms unfolding response_inv_def committed_ok_def by blast
    then show "\<exists>i < length (calls ?t). c_id (calls ?t ! i) = x
      \<and> (c_phase (calls ?t ! i) \<in> {AwaitRead, AwaitChunk, AwaitFin, AwaitCancel, AwaitBestEffort}
        \<or> (c_phase (calls ?t ! i) = Done \<and> c_owner (calls ?t ! i) = ForSession))"
      by (intro exI [of _ i]) (simp add: start_call_def nth_append)
  qed
  ultimately show ?thesis using assms start_logs_ok by (simp add: response_inv_def)
qed

lemma response_step_inv:
  assumes "distinct_ids s" and "response_inv s"
  shows "response_inv (response_step s e)"
proof (cases e)
  case (StartCall ow sid cid neg)
  then show ?thesis using start_call_inv [OF assms(2)] by simp
next
  case (AnswerCall i a)
  then show ?thesis
    using assms answer_logs_ok resume_readers resume_committed resume_owners by (simp add: response_inv_def)
next
  case (CancelResponse sid)
  then show ?thesis
    using same_calls_inv [OF cancel_same _ assms(2)] cancel_readers assms(2) by (simp add: response_inv_def)
next
  case (CancelConnection cid)
  then show ?thesis
    using same_calls_inv [OF cancels_same(1) _ assms(2)] cancels_readers(1) assms(2) by (simp add: response_inv_def)
next
  case CancelAll
  then show ?thesis
    using same_calls_inv [OF cancels_same(2) _ assms(2)] cancels_readers(2) assms(2) by (simp add: response_inv_def)
next
  case (DeleteSession sid)
  have "readers_ok (unmark_session sid s)" "committed_ok (unmark_session sid s)" "owners_ok (unmark_session sid s)"
    using assms(2) by (auto simp: response_inv_def readers_ok_def committed_ok_def owners_ok_def unmark_session_def)
  then show ?thesis using DeleteSession assms(2) unmark_logs_ok by (simp add: response_inv_def)
qed

interpretation responses: invariant_machine response_step "\<lambda>s. distinct_ids s \<longrightarrow> response_inv s"
  by unfold_locales (auto simp: distinct_ids_def step_ids intro: response_step_inv)

lemma response_reachable:
  assumes "distinct (started es)"
  shows "response_inv (response_run no_responses es)"
proof -
  have "distinct_ids no_responses \<longrightarrow> response_inv no_responses"
    by (simp add: response_inv_def logs_ok_new) (simp add: no_responses_def readers_ok_def committed_ok_def owners_ok_def)
  from responses.run_inv [OF this, of es] assms show ?thesis
    using run_ids [of no_responses es]
    by (simp add: response_run_def distinct_ids_def no_responses_def)
qed

section \<open>Properties\<close>


definition example_run :: "response_event list" where
  "example_run = [StartCall ForRequest ''4'' ''1'' [],
     AnswerCall 0 (Handler (Decided \<lparr>rp_status = 200, rp_headers = [], rp_body = True, rp_locked = False\<rparr>)),
     AnswerCall 0 (Native True), AnswerCall 0 (Chunk [1, 2]), AnswerCall 0 (Native True), AnswerCall 0 EndOfBody,
     AnswerCall 0 (Native True)]"


text \<open>C10: Nothing is kept of calls that are over: when every call is done, no reader is registered, and
  the only ids still marked as committed are those of sessions.\<close>

theorem responses_leave_nothing:
  assumes "distinct (started es)"
    and "list_all (\<lambda>c. c_phase c = Done) (calls (response_run no_responses es))"
  shows "(let s = response_run no_responses es in
     (\<forall>sid. js_get (responseReaders s) sid = None)
     \<and> responseCommitted s \<subseteq> c_id ` {c \<in> set (calls s). c_owner c = ForSession})"
proof -
  let ?s = "response_run no_responses es"
  note inv = response_reachable [OF assms(1), unfolded response_inv_def]
  have finished: "c_phase (calls ?s ! i) = Done" if "i < length (calls ?s)" for i
    using assms(2) that by (simp add: list_all_length)
  have "js_get (responseReaders ?s) sid = None" for sid
  proof (rule ccontr)
    assume "js_get (responseReaders ?s) sid \<noteq> None"
    then obtain cid i where "js_get (responseReaders ?s) sid = Some (cid, i)" by auto
    then have "i < length (calls ?s)" and "body_phase (c_phase (calls ?s ! i))"
      using inv unfolding readers_ok_def by blast+
    then show False using finished [of i] by (simp add: body_phase_def)
  qed
  moreover have "responseCommitted ?s \<subseteq> c_id ` {c \<in> set (calls ?s). c_owner c = ForSession}"
  proof
    fix sid
    assume "sid \<in> responseCommitted ?s"
    then obtain i where "i < length (calls ?s)" "c_id (calls ?s ! i) = sid" "c_owner (calls ?s ! i) = ForSession"
      using inv finished unfolding committed_ok_def by fastforce
    then show "sid \<in> c_id ` {c \<in> set (calls ?s). c_owner c = ForSession}" by auto
  qed
  ultimately show ?thesis by (simp add: Let_def)
qed

theorem responses_leave_nothing_witness:
  "responseCommitted (response_run no_responses example_run) = {}"
  using responses_leave_nothing [of example_run]
  by (simp add: example_run_def response_run_def no_responses_def start_call_def response_code)

text \<open>The request of a session ends while the response that refuses the session is sent: its mark is gone, so a rejected FIN is answered
  with a second head.\<close>

theorem second_head_after_deletion:
  "calls_of 0 (response_run no_responses
     [StartCall ForSession ''4'' ''1'' [],
      AnswerCall 0 (Handler (Decided \<lparr>rp_status = 404, rp_headers = [], rp_body = True, rp_locked = False\<rparr>)),
      AnswerCall 0 (Native True), AnswerCall 0 (Chunk [1]), AnswerCall 0 (Native True), DeleteSession ''4'', AnswerCall 0 EndOfBody,
      AnswerCall 0 (Native False), AnswerCall 0 Cancelled])
   = [SendHeaders ''4'' (IntegerNumber 404) [] False, SendData ''4'' (Some [1]) False, SendData ''4'' None True,
      SendHeaders ''4'' (IntegerNumber 500) [] True]"
  by (simp add: response_run_def no_responses_def start_call_def response_code calls_of_def unmark_session_def response_ok_def)

end
