(* ===== verification/Utf8.thy ===== *)
theory Utf8
  imports Prelude
begin

text \<open>
  \<open>TextEncoder.encode\<close> and the fatal \<open>TextDecoder("utf-8")\<close> of the standard library, which
  packages/server/WebSocketConnection.js uses for text messages and close reasons. The encoder
  replaces a lone surrogate by U+FFFD. The decoder refuses overlong forms, surrogates, values above
  0x10FFFF and truncated sequences, and drops one leading byte order mark.
\<close>

definition scalar_value :: "nat \<Rightarrow> bool" where
  "scalar_value c \<longleftrightarrow> c \<le> 0x10FFFF \<and> \<not> (0xD800 \<le> c \<and> c \<le> 0xDFFF)"

definition utf8_units :: "nat \<Rightarrow> nat list" where
  "utf8_units c =
     (if 0xD800 \<le> c \<and> c \<le> 0xDFFF then [0xEF, 0xBF, 0xBD]
      else if c < 0x80 then [c]
      else if c < 0x800 then [0xC0 + c div 64, 0x80 + c mod 64]
      else if c < 0x10000 then [0xE0 + c div 4096, 0x80 + c div 64 mod 64, 0x80 + c mod 64]
      else [0xF0 + c div 262144, 0x80 + c div 4096 mod 64, 0x80 + c div 64 mod 64, 0x80 + c mod 64])"

definition utf8_encode :: "code_points \<Rightarrow> bytes" where
  "utf8_encode cs = map word_of_nat (concat (map utf8_units cs))"

definition continuation :: "nat \<Rightarrow> bool" where
  "continuation b \<longleftrightarrow> 0x80 \<le> b \<and> b \<le> 0xBF"

text \<open>The first code point of a byte sequence, and how many bytes it takes.\<close>

fun utf8_first :: "nat list \<Rightarrow> (nat \<times> nat) option" where
  "utf8_first [] = None"
| "utf8_first (b # bs) =
     (if b < 0x80 then Some (b, 1)
      else if 0xC2 \<le> b \<and> b \<le> 0xDF then
        (case bs of c1 # _ \<Rightarrow>
            if continuation c1 then Some ((b - 0xC0) * 64 + (c1 - 0x80), 2) else None
         | _ \<Rightarrow> None)
      else if 0xE0 \<le> b \<and> b \<le> 0xEF then
        (case bs of c1 # c2 # _ \<Rightarrow>
            if continuation c1 \<and> continuation c2 \<and> (b = 0xE0 \<longrightarrow> 0xA0 \<le> c1) \<and> (b = 0xED \<longrightarrow> c1 \<le> 0x9F)
            then Some ((b - 0xE0) * 4096 + (c1 - 0x80) * 64 + (c2 - 0x80), 3) else None
         | _ \<Rightarrow> None)
      else if 0xF0 \<le> b \<and> b \<le> 0xF4 then
        (case bs of c1 # c2 # c3 # _ \<Rightarrow>
            if continuation c1 \<and> continuation c2 \<and> continuation c3
               \<and> (b = 0xF0 \<longrightarrow> 0x90 \<le> c1) \<and> (b = 0xF4 \<longrightarrow> c1 \<le> 0x8F)
            then Some ((b - 0xF0) * 262144 + (c1 - 0x80) * 4096 + (c2 - 0x80) * 64 + (c3 - 0x80), 4)
            else None
         | _ \<Rightarrow> None)
      else None)"

lemma utf8_first_length: "utf8_first bs = Some (c, n) \<Longrightarrow> 0 < n \<and> n \<le> length bs"
  by (cases bs) (auto split: if_splits list.splits)

function utf8_decode_units :: "nat list \<Rightarrow> code_points option" where
  "utf8_decode_units bs =
     (if bs = [] then Some []
      else case utf8_first bs of
        None \<Rightarrow> None
      | Some (c, n) \<Rightarrow> map_option (\<lambda>cs. c # cs) (utf8_decode_units (drop n bs)))"
  by pat_completeness auto
termination
  by (relation "measure length") (auto dest: utf8_first_length)

declare utf8_decode_units.simps [simp del]

fun strip_bom :: "code_points \<Rightarrow> code_points" where
  "strip_bom (c # cs) = (if c = 0xFEFF then cs else c # cs)"
| "strip_bom [] = []"

definition utf8_decode :: "bytes \<Rightarrow> code_points option" where
  "utf8_decode bs = map_option strip_bom (utf8_decode_units (map unat bs))"

section \<open>Decoding what was encoded\<close>

lemma utf8_units_byte: "scalar_value c \<Longrightarrow> u \<in> set (utf8_units c) \<Longrightarrow> u < 256"
  by (auto simp: utf8_units_def scalar_value_def split: if_splits)

lemma utf8_units_nonempty: "utf8_units c \<noteq> []"
  by (simp add: utf8_units_def)

lemma digits_64:
  fixes c :: nat
  shows two: "c = c div 64 * 64 + c mod 64"
    and three: "c = c div 4096 * 4096 + c div 64 mod 64 * 64 + c mod 64"
    and four: "c = c div 262144 * 262144 + c div 4096 mod 64 * 4096 + c div 64 mod 64 * 64 + c mod 64"
proof -
  show c: "c = c div 64 * 64 + c mod 64" by simp
  have "c div 64 = c div 4096 * 64 + c div 64 mod 64"
    using div_mult_mod_eq [of "c div 64" 64] by (simp add: div_mult2_eq [symmetric])
  with c show c': "c = c div 4096 * 4096 + c div 64 mod 64 * 64 + c mod 64" by linarith
  have "c div 4096 = c div 262144 * 64 + c div 4096 mod 64"
    using div_mult_mod_eq [of "c div 4096" 64] by (simp add: div_mult2_eq [symmetric])
  with c' show "c = c div 262144 * 262144 + c div 4096 mod 64 * 4096 + c div 64 mod 64 * 64 + c mod 64"
    by linarith
qed

lemma utf8_first_two:
  assumes "0x80 \<le> c" and "c < 0x800"
  shows "utf8_first (utf8_units c @ bs) = Some (c, length (utf8_units c))"
proof -
  define q r where "q = c div 64" and "r = c mod 64"
  have c: "c = q * 64 + r" and r: "r < 64" using digits_64(1) [of c] by (simp_all add: q_def r_def)
  have q: "2 \<le> q" "q < 32" using assms c r by linarith+
  have "utf8_units c = [0xC0 + q, 0x80 + r]" using assms by (simp add: utf8_units_def q_def r_def)
  then show ?thesis using q r c by (simp add: continuation_def)
qed

lemma utf8_first_three:
  assumes "0x800 \<le> c" and "c < 0x10000" and "scalar_value c"
  shows "utf8_first (utf8_units c @ bs) = Some (c, length (utf8_units c))"
proof -
  define q r s where "q = c div 4096" and "r = c div 64 mod 64" and "s = c mod 64"
  have c: "c = q * 4096 + r * 64 + s" and r: "r < 64" "s < 64"
    using digits_64(2) [of c] by (simp_all add: q_def r_def s_def)
  have q: "q < 16" using assms c by linarith
  have low: "q = 0 \<Longrightarrow> 32 \<le> r" using assms(1) c r by linarith
  have surrogate: "q = 13 \<Longrightarrow> r \<le> 31" using assms(3) c r unfolding scalar_value_def by linarith
  have "utf8_units c = [0xE0 + q, 0x80 + r, 0x80 + s]"
    using assms by (auto simp: utf8_units_def scalar_value_def q_def r_def s_def)
  then show ?thesis using q r c low surrogate by (simp add: continuation_def)
qed

lemma utf8_first_four:
  assumes "0x10000 \<le> c" and "scalar_value c"
  shows "utf8_first (utf8_units c @ bs) = Some (c, length (utf8_units c))"
proof -
  define q r s t where "q = c div 262144" and "r = c div 4096 mod 64" and "s = c div 64 mod 64"
    and "t = c mod 64"
  have c: "c = q * 262144 + r * 4096 + s * 64 + t" and r: "r < 64" "s < 64" "t < 64"
    using digits_64(3) [of c] by (simp_all add: q_def r_def s_def t_def)
  have m: "c \<le> 0x10FFFF" using assms(2) by (simp add: scalar_value_def)
  have q: "q < 5" using m c by linarith
  have low: "q = 0 \<Longrightarrow> 16 \<le> r" using assms(1) c r by linarith
  have high: "q = 4 \<Longrightarrow> r \<le> 15" using m c r by linarith
  have "utf8_units c = [0xF0 + q, 0x80 + r, 0x80 + s, 0x80 + t]"
    using assms by (auto simp: utf8_units_def scalar_value_def q_def r_def s_def t_def)
  then show ?thesis using q r c low high by (simp add: continuation_def)
qed

lemma utf8_first_units:
  assumes "scalar_value c"
  shows "utf8_first (utf8_units c @ bs) = Some (c, length (utf8_units c))"
proof -
  consider "c < 0x80" | "0x80 \<le> c" "c < 0x800" | "0x800 \<le> c" "c < 0x10000" | "0x10000 \<le> c"
    by linarith
  then show ?thesis
  proof cases
    case 1
    then show ?thesis by (simp add: utf8_units_def)
  qed (use assms in \<open>simp_all only: utf8_first_two utf8_first_three utf8_first_four\<close>)
qed

lemma utf8_decode_units_encode:
  "list_all scalar_value cs \<Longrightarrow> utf8_decode_units (concat (map utf8_units cs)) = Some cs"
proof (induction cs)
  case Nil
  show ?case by (simp add: utf8_decode_units.simps)
next
  case (Cons c cs)
  then show ?case
    by (subst utf8_decode_units.simps) (simp add: utf8_first_units utf8_units_nonempty)
qed

lemma map_unat_word_of_nat: "\<forall>u \<in> set us. u < 256 \<Longrightarrow> map (\<lambda>u. unat (word_of_nat u :: byte)) us = us"
  by (induction us) (auto simp: unat_byte_of_nat)

lemma utf8_decode_encode:
  assumes "list_all scalar_value cs"
  shows "utf8_decode (utf8_encode cs) = Some (strip_bom cs)"
proof -
  have "\<forall>u \<in> set (concat (map utf8_units cs)). u < 256"
    using assms utf8_units_byte by (auto simp: list_all_iff)
  then have "map unat (utf8_encode cs) = concat (map utf8_units cs)"
    unfolding utf8_encode_def list.map_comp comp_def by (rule map_unat_word_of_nat)
  then show ?thesis using assms by (simp add: utf8_decode_def utf8_decode_units_encode)
qed

lemma utf8_encode_ascii:
  "\<forall>c \<in> set cs. c < 0x80 \<Longrightarrow> utf8_encode cs = map word_of_nat cs"
  by (induction cs) (auto simp: utf8_encode_def utf8_units_def)

lemma length_utf8_encode_ascii: "\<forall>c \<in> set cs. c < 0x80 \<Longrightarrow> length (utf8_encode cs) = length cs"
  by (simp add: utf8_encode_ascii)

section \<open>Properties\<close>

text \<open>Decoding what was encoded gives the text back, less one byte order mark at its start; it
  never reports malformed input.\<close>

theorem text_roundtrip:
  assumes "list_all scalar_value cs"
  shows "utf8_decode (utf8_encode cs) = Some (strip_bom cs)"
  using assms by (rule utf8_decode_encode)

theorem text_roundtrip_witness:
  "utf8_decode (utf8_encode [0x41, 0xE9, 0x20AC, 0x1F600]) = Some (strip_bom [0x41, 0xE9, 0x20AC, 0x1F600])"
  by (rule text_roundtrip) (simp add: scalar_value_def)

end
