(* ===== verification/Ws_Frame.thy ===== *)
theory Ws_Frame
  imports Prelude Utf8
begin

unbundle bit_operations_syntax

text \<open>
  The wire format of packages/server/WebSocketConnection.js: \<open>encodeFrame\<close>, the parsing half of
  \<open>#readFrame\<close> (everything up to its call of \<open>#handleFrame\<close>), \<open>validateCloseCode\<close>,
  \<open>toUint8Array\<close> and \<open>concat\<close>. The parser is characterised by the frames of a client as RFC
  6455 lays them out (\<open>client_frame\<close>): it returns a frame exactly on such bytes, and its answer
  does not depend on how the transport cuts the bytes into chunks.
\<close>

section \<open>Errors and close codes\<close>

text \<open>The errors the class throws or reports, by message; \<open>External\<close> is one thrown by a
  callback or by the transport.\<close>

datatype ws_error =
    NotOpen
  | MessageOverLimit nat
  | InvalidCloseCode
  | ReasonNotString
  | ReasonTooLong
  | ProtocolNotOffered string
  | InputExceeded
  | EndedInsideFrame
  | UnsupportedRsv
  | FrameNotMasked
  | NonMinimalLength
  | InvalidLength
  | LengthTooLarge
  | InvalidControlFrame
  | FrameTooLarge
  | UnsupportedOpcode nat
  | UnexpectedContinuation
  | IncompleteFragments
  | MessageTooLarge
  | InvalidClosePayload
  | InvalidUtf8
  | NotBinaryData
  | External nat

definition validateCloseCode :: "js_number \<Rightarrow> bool" where
  "validateCloseCode code \<longleftrightarrow>
     \<not> (\<not> is_integer code
        \<or> integer_value code < 1000
        \<or> integer_value code \<ge> 5000
        \<or> (integer_value code \<ge> 1016 \<and> integer_value code < 3000)
        \<or> integer_value code \<in> {1004, 1005, 1006, 1015})"

text \<open>\<open>close\<close> and \<open>#receiveClose\<close> treat a code the check throws on as an error.\<close>

definition close_code_ok :: "nat \<Rightarrow> bool" where
  "close_code_ok code \<longleftrightarrow> validateCloseCode (IntegerNumber (int code))"

section \<open>Byte helpers\<close>

text \<open>\<open>toUint8Array\<close>: a view on the bytes of the three binary kinds, an error otherwise.\<close>

datatype binary_data =
    Uint8Array bytes
  | ArrayBuffer bytes
  | ArrayBufferView bytes nat nat
  | NotBinary

fun toUint8Array :: "binary_data \<Rightarrow> ws_error + bytes" where
  "toUint8Array (Uint8Array bs) = Inr bs"
| "toUint8Array (ArrayBuffer bs) = Inr bs"
| "toUint8Array (ArrayBufferView buf byteOffset byteLength) = Inr (take byteLength (drop byteOffset buf))"
| "toUint8Array NotBinary = Inl NotBinaryData"

text \<open>\<open>concat(...parts)\<close>: an output of the total length, each part copied at the running
  offset.\<close>

definition set_at :: "bytes \<Rightarrow> nat \<Rightarrow> bytes \<Rightarrow> bytes" where
  "set_at output offset part = take offset output @ part @ drop (offset + length part) output"

fun concat_loop :: "bytes list \<Rightarrow> bytes \<Rightarrow> nat \<Rightarrow> bytes" where
  "concat_loop [] output offset = output"
| "concat_loop (part # parts) output offset =
     concat_loop parts (set_at output offset part) (offset + length part)"

definition concat_bytes :: "bytes list \<Rightarrow> bytes" where
  "concat_bytes parts =
     concat_loop parts (replicate (foldl (\<lambda>total part. total + length part) 0 parts) 0) 0"

lemma foldl_length: "foldl (\<lambda>total part. total + length part) n parts = n + length (concat parts)"
  by (induction parts arbitrary: n) auto

lemma concat_loop_fill:
  "concat_loop parts (acc @ replicate (length (concat parts)) 0) (length acc) = acc @ concat parts"
proof (induction parts arbitrary: acc)
  case Nil
  show ?case by simp
next
  case (Cons part parts)
  have "set_at (acc @ replicate (length (concat (part # parts))) 0) (length acc) part
      = (acc @ part) @ replicate (length (concat parts)) 0"
    by (simp add: set_at_def)
  then show ?case using Cons.IH [of "acc @ part"] by simp
qed

lemma concat_bytes_eq [byte_simps, simp]: "concat_bytes parts = concat parts"
  using concat_loop_fill [of parts "[]"] by (simp add: concat_bytes_def foldl_length)

section \<open>Frames the server sends\<close>

definition encodeFrame :: "nat \<Rightarrow> bytes \<Rightarrow> bytes" where
  "encodeFrame opcode payload =
     (let headerLength =
            (if length payload \<ge> 126 \<and> length payload \<le> 0xFFFF then 4
             else if length payload > 0xFFFF then 10 else 2 :: nat);
          first = 0x80 OR word_of_nat opcode
      in if headerLength = 2 then [first, word_of_nat (length payload)] @ payload
         else if headerLength = 4 then [first, 126] @ be_bytes 2 (length payload) @ payload
         else [first, 127] @ be_bytes 8 (length payload) @ payload)"

section \<open>Frames the server reads\<close>

definition unmask :: "bytes \<Rightarrow> bytes \<Rightarrow> bytes" where
  "unmask key payload = map (\<lambda>index. payload ! index XOR key ! (index mod 4)) [0..<length payload]"

datatype length_result = LengthMore | LengthFail ws_error nat | LengthOk nat nat

definition read_length :: "bytes \<Rightarrow> nat \<Rightarrow> length_result" where
  "read_length buf payloadLength =
     (if payloadLength = 126 then
        (if length buf < 4 then LengthMore
         else let n = be_val (take 2 (drop 2 buf))
              in if n < 126 then LengthFail NonMinimalLength 1002 else LengthOk 4 n)
      else if payloadLength = 127 then
        (if length buf < 10 then LengthMore
         else if buf ! 2 AND 0x80 \<noteq> 0 then LengthFail InvalidLength 1002
         else let n = be_val (take 8 (drop 2 buf))
              in if n > max_safe_integer then LengthFail LengthTooLarge 1009
                 else if n \<le> 0xFFFF then LengthFail NonMinimalLength 1002
                 else LengthOk 10 n)
      else LengthOk 2 payloadLength)"

datatype frame_result =
    FrameMore
  | FrameFail ws_error nat
  | Frame bool nat bytes bytes

definition parse_frame :: "nat \<Rightarrow> bytes \<Rightarrow> frame_result" where
  "parse_frame maxMessageBytes buf =
     (if length buf < 2 then FrameMore
      else let first = buf ! 0; second = buf ! 1;
               fin = (first AND 0x80 \<noteq> 0);
               opcode = unat (first AND 0x0F)
      in if first AND 0x70 \<noteq> 0 then FrameFail UnsupportedRsv 1002
         else if second AND 0x80 = 0 then FrameFail FrameNotMasked 1002
         else case read_length buf (unat (second AND 0x7F)) of
           LengthMore \<Rightarrow> FrameMore
         | LengthFail e code \<Rightarrow> FrameFail e code
         | LengthOk offset payloadLength \<Rightarrow>
             let control = (opcode \<ge> 8)
             in if (control \<and> (\<not> fin \<or> payloadLength > 125)) \<or> payloadLength > maxMessageBytes
                then FrameFail (if control then InvalidControlFrame else FrameTooLarge)
                               (if control then 1002 else 1009)
                else if length buf < offset + 4 + payloadLength then FrameMore
                else Frame fin opcode
                       (unmask (take 4 (drop offset buf)) (take payloadLength (drop (offset + 4) buf)))
                       (drop (offset + 4 + payloadLength) buf))"

section \<open>Frames of a client\<close>

text \<open>The layout RFC 6455 gives a masked client frame, with the shortest length field.\<close>

definition length_field :: "nat \<Rightarrow> bytes" where
  "length_field n =
     (if n < 126 then [word_of_nat n] else if n \<le> 0xFFFF then 126 # be_bytes 2 n else 127 # be_bytes 8 n)"

definition client_frame :: "bool \<Rightarrow> nat \<Rightarrow> bytes \<Rightarrow> bytes \<Rightarrow> bytes" where
  "client_frame fin opcode key payload =
     [(if fin then 0x80 else 0) OR word_of_nat opcode]
     @ (0x80 OR hd (length_field (length payload))) # tl (length_field (length payload))
     @ key @ unmask key payload"

text \<open>What the reader accepts: a 4-bit opcode, unfragmented short control frames, the limit.\<close>

definition acceptable :: "nat \<Rightarrow> bool \<Rightarrow> nat \<Rightarrow> bytes \<Rightarrow> bool" where
  "acceptable maxMessageBytes fin opcode payload \<longleftrightarrow>
     opcode < 16 \<and> length payload \<le> maxMessageBytes \<and> length payload \<le> max_safe_integer
     \<and> (opcode \<ge> 8 \<longrightarrow> fin \<and> length payload \<le> 125)"

section \<open>Facts about the layout\<close>

lemma length_unmask [byte_simps, simp]: "length (unmask key payload) = length payload"
  by (simp add: unmask_def)

lemma unmask_unmask [byte_simps, simp]: "unmask key (unmask key payload) = payload"
  by (rule nth_equalityI) (simp_all add: unmask_def xor.assoc)

lemma length_field_length: "length (length_field n) = (if n < 126 then 1 else if n \<le> 0xFFFF then 3 else 9)"
  by (simp add: length_field_def)

lemma length_field_hd_tl: "hd (length_field n) # tl (length_field n) = length_field n"
  by (simp add: length_field_def)

lemma length_field_hd: "unat (hd (length_field n)) = (if n < 126 then n else if n \<le> 0xFFFF then 126 else 127)"
  by (simp add: length_field_def unat_byte_of_nat)

lemma length_field_tl:
  "tl (length_field n) = (if n < 126 then [] else if n \<le> 0xFFFF then be_bytes 2 n else be_bytes 8 n)"
  by (simp add: length_field_def)

lemma small_safe_integer: "n \<le> 0xFFFF \<Longrightarrow> n \<le> max_safe_integer"
  unfolding max_safe_integer_def by (erule order_trans) simp

lemma be_bytes_2: "n \<le> 0xFFFF \<Longrightarrow> be_val (be_bytes 2 n) = n"
  by (simp add: be_val_be_bytes)

lemma be_bytes_8: "n \<le> max_safe_integer \<Longrightarrow> be_val (be_bytes 8 n) = n"
  by (simp add: be_val_be_bytes max_safe_integer_def)

lemma hd_be_bytes: "hd (be_bytes (Suc m) n) = word_of_nat (n div 256 ^ m mod 256)"
proof (induction m arbitrary: n)
  case 0
  show ?case by simp
next
  case (Suc m)
  have "hd (be_bytes (Suc (Suc m)) n) = hd (be_bytes (Suc m) (n div 256))"
    by (metis be_bytes.simps(2) hd_append2 length_be_bytes list.size(3) nat.distinct(1))
  also have "\<dots> = word_of_nat (n div 256 ^ Suc m mod 256)"
    unfolding Suc.IH by (simp add: div_mult2_eq)
  finally show ?case .
qed

lemma be_bytes_8_hd:
  assumes "n \<le> max_safe_integer"
  shows "hd (be_bytes 8 n) AND 0x80 = 0"
proof -
  have "hd (be_bytes 8 n) = word_of_nat (n div 256 ^ 7 mod 256)"
    using hd_be_bytes [of 7 n] by simp
  moreover have "n div 256 ^ 7 mod 256 < 128"
    using assms by (simp add: max_safe_integer_def less_mult_imp_div_less)
  ultimately show ?thesis by (simp add: low_and_80)
qed

lemma read_length_field:
  assumes "n \<le> max_safe_integer"
  shows "read_length (b0 # b1 # tl (length_field n) @ rest) (unat (hd (length_field n)))
    = LengthOk (Suc (length (length_field n))) n"
proof -
  consider "n < 126" | "126 \<le> n" "n \<le> 0xFFFF" | "0xFFFF < n" by linarith
  then show ?thesis
  proof cases
    case 1
    then show ?thesis by (simp add: read_length_def length_field_hd length_field_length)
  next
    case 2
    then show ?thesis
      by (simp add: read_length_def length_field_hd length_field_length length_field_tl be_bytes_2 Let_def)
  next
    case 3
    moreover have "(be_bytes 8 n @ rest) ! 0 = hd (be_bytes 8 n)"
      by (simp add: nth_append hd_conv_nth flip: length_greater_0_conv)
    ultimately show ?thesis
      using assms be_bytes_8_hd [OF assms]
      by (simp add: read_length_def length_field_hd length_field_length length_field_tl be_bytes_8 Let_def)
  qed
qed

lemma read_length_OkD:
  assumes "read_length (b0 # b1 # rest) l = LengthOk offset n" and "l < 128"
  shows "n \<le> max_safe_integer" and "l = unat (hd (length_field n))"
    and "offset = Suc (length (length_field n))"
    and "take (offset - 2) rest = tl (length_field n)" and "offset \<le> length rest + 2"
proof -
  consider "l = 126" | "l = 127" | "l < 126" using assms(2) by linarith
  then have "n \<le> max_safe_integer \<and> l = unat (hd (length_field n))
    \<and> offset = Suc (length (length_field n)) \<and> take (offset - 2) rest = tl (length_field n)
    \<and> offset \<le> length rest + 2"
  proof cases
    case 1
    with assms have r: "2 \<le> length rest" "offset = 4" "n = be_val (take 2 rest)" "126 \<le> n"
      by (auto simp: read_length_def Let_def split: if_splits)
    then have "n < 256 ^ 2" using be_val_lt [of "take 2 rest"] by simp
    moreover from this have "n \<le> max_safe_integer" by (intro small_safe_integer) simp
    moreover have "be_bytes 2 n = take 2 rest"
      using r(1,3) be_bytes_be_val [of "take 2 rest"] by simp
    ultimately show ?thesis
      using 1 r(1,2,4) by (simp add: length_field_hd length_field_length length_field_tl)
  next
    case 2
    with assms have r: "8 \<le> length rest" "offset = 10" "n = be_val (take 8 rest)" "0xFFFF < n"
      "n \<le> max_safe_integer"
      by (auto simp: read_length_def Let_def split: if_splits)
    have "be_bytes 8 n = take 8 rest"
      using r(1,3) be_bytes_be_val [of "take 8 rest"] by simp
    then show ?thesis
      using 2 r(1,2,4,5) by (simp add: length_field_hd length_field_length length_field_tl)
  next
    case 3
    with assms have "offset = 2" and "n = l" by (simp_all add: read_length_def)
    moreover have "l \<le> max_safe_integer" using 3 small_safe_integer [of l] by simp
    ultimately show ?thesis
      using 3 by (simp only: length_field_hd length_field_length length_field_tl if_True) simp
  qed
  then show "n \<le> max_safe_integer" and "l = unat (hd (length_field n))"
    and "offset = Suc (length (length_field n))"
    and "take (offset - 2) rest = tl (length_field n)" and "offset \<le> length rest + 2"
    by blast+
qed

section \<open>The reader accepts exactly the frames of a client\<close>

lemma client_first_byte:
  fixes first :: byte
  assumes "opcode < 16" and "first = (if fin then 0x80 else 0) OR word_of_nat opcode"
  shows "first AND 0x70 = 0" and "(first AND 0x80 \<noteq> 0) = fin" and "unat (first AND 0x0F) = opcode"
  using assms small_and [OF assms(1)] low_and_80 [of opcode]
  by (auto simp: bit.conj_disj_distrib2 unat_byte_of_nat)

lemma client_second_byte:
  assumes "l < 128"
  shows "(0x80 OR word_of_nat l :: byte) AND 0x80 \<noteq> 0"
    and "unat ((0x80 OR word_of_nat l :: byte) AND 0x7F) = l"
  using assms low_and_80 [of l] and_7F [of "word_of_nat l"]
  by (auto simp: bit.conj_disj_distrib2 unat_byte_of_nat)

lemma length_field_hd_lt: "unat (hd (length_field n)) < 128"
  by (simp add: length_field_hd)

lemma parse_frame_Frame:
  assumes "b0 AND 0x70 = 0" and "b1 AND 0x80 \<noteq> 0"
    and "read_length (b0 # b1 # tail) (unat (b1 AND 0x7F)) = LengthOk offset n"
    and "opcode = unat (b0 AND 0x0F)" and "fin = (b0 AND 0x80 \<noteq> 0)"
    and "opcode \<ge> 8 \<Longrightarrow> fin \<and> n \<le> 125" and "n \<le> m"
    and "offset + 4 + n \<le> length (b0 # b1 # tail)"
  shows "parse_frame m (b0 # b1 # tail) =
    Frame fin opcode
      (unmask (take 4 (drop offset (b0 # b1 # tail))) (take n (drop (offset + 4) (b0 # b1 # tail))))
      (drop (offset + 4 + n) (b0 # b1 # tail))"
proof -
  have "\<not> length (b0 # b1 # tail) < 2" by simp
  moreover have "\<not> ((opcode \<ge> 8 \<and> (\<not> fin \<or> n > 125)) \<or> n > m)" using assms(6,7) by auto
  moreover have "\<not> length (b0 # b1 # tail) < offset + 4 + n" using assms(8) by simp
  ultimately show ?thesis
    using assms(1,2) unfolding parse_frame_def Let_def
    by (simp only: assms(3) assms(4) [symmetric] assms(5) [symmetric] nth_Cons_0 nth_Cons_Suc
        One_nat_def length_result.case if_False if_True simp_thms)
qed

lemma parse_client_frame:
  assumes "acceptable m fin opcode payload" and key: "length key = 4"
  shows "parse_frame m (client_frame fin opcode key payload @ rest) = Frame fin opcode payload rest"
proof -
  let ?n = "length payload" and ?f = "length_field (length payload)"
  let ?b0 = "(if fin then 0x80 else 0) OR word_of_nat opcode :: byte" and ?b1 = "0x80 OR hd ?f"
  let ?tail = "tl ?f @ key @ unmask key payload @ rest"
  from assms have op: "opcode < 16" and n: "?n \<le> max_safe_integer" "?n \<le> m"
    and control: "opcode \<ge> 8 \<Longrightarrow> fin \<and> ?n \<le> 125"
    by (auto simp: acceptable_def)
  have b1: "?b1 AND 0x80 \<noteq> 0" "unat (?b1 AND 0x7F) = unat (hd ?f)"
    using client_second_byte [OF length_field_hd_lt, of ?n] by simp_all
  have len: "read_length (?b0 # ?b1 # ?tail) (unat (?b1 AND 0x7F)) = LengthOk (Suc (length ?f)) ?n"
    unfolding b1(2) using read_length_field [OF n(1)] by simp
  obtain x g where g: "?f = x # g" using length_field_hd_tl by metis
  have f: "length ?f = Suc (length g)" "tl ?f = g"
    by (simp_all add: g)
  have buf: "client_frame fin opcode key payload @ rest = ?b0 # ?b1 # ?tail"
    by (simp add: client_frame_def)
  have whole: "Suc (length ?f) + 4 + ?n \<le> length (?b0 # ?b1 # ?tail)"
    using key by (simp add: f)
  have cut: "drop (Suc (length ?f) + k) (?b0 # ?b1 # ?tail) = drop k (key @ unmask key payload @ rest)" for k
    by (simp add: f)
  note first = client_first_byte [OF op refl, of fin]
  have "parse_frame m (?b0 # ?b1 # ?tail) =
    Frame fin opcode
      (unmask (take 4 (drop (Suc (length ?f)) (?b0 # ?b1 # ?tail)))
        (take ?n (drop (Suc (length ?f) + 4) (?b0 # ?b1 # ?tail))))
      (drop (Suc (length ?f) + 4 + ?n) (?b0 # ?b1 # ?tail))"
    by (rule parse_frame_Frame [OF first(1) b1(1) len first(3) [symmetric] first(2) [symmetric] control n(2) whole])
  also have "\<dots> = Frame fin opcode payload rest"
    using key cut [of 0] cut [of 4] cut [of "4 + ?n"] by (simp add: add.assoc)
  finally show ?thesis unfolding buf .
qed

lemma parse_frame_sound:
  assumes "parse_frame m buf = Frame fin opcode payload rest"
  shows "acceptable m fin opcode payload"
    and "\<exists>key. length key = 4 \<and> buf = client_frame fin opcode key payload @ rest"
proof -
  from assms obtain b0 b1 tail where buf: "buf = b0 # b1 # tail"
    by (cases buf; cases "tl buf") (auto simp: parse_frame_def)
  let ?l = "unat (b1 AND 0x7F)"
  from assms obtain offset n where len: "read_length (b0 # b1 # tail) ?l = LengthOk offset n"
    unfolding buf parse_frame_def
    by (auto simp: Let_def split: if_splits length_result.splits)
  note field = read_length_OkD [OF len unat_and_7F]
  define t where "t = drop (offset - 2) tail"
  from assms len have b: "b0 AND 0x70 = 0" "b1 AND 0x80 \<noteq> 0"
    and fin: "fin = (b0 AND 0x80 \<noteq> 0)" and op: "opcode = unat (b0 AND 0x0F)"
    and lim: "n \<le> m" "opcode \<ge> 8 \<Longrightarrow> fin \<and> n \<le> 125"
    and more: "offset + 4 + n \<le> length tail + 2"
    and payload: "payload = unmask (take 4 (drop offset (b0 # b1 # tail))) (take n (drop (offset + 4) (b0 # b1 # tail)))"
    and rest: "rest = drop (offset + 4 + n) (b0 # b1 # tail)"
    unfolding buf parse_frame_def
    by (auto simp: Let_def split: if_splits)
  have off: "2 \<le> offset" using field(3) length_field_length [of n] by simp
  then obtain k where k: "offset = Suc (Suc k)" by (metis add_2_eq_Suc le_Suc_ex)
  let ?key = "take 4 t"
  have cut: "drop (offset + m) (b0 # b1 # tail) = drop m t" for m
    unfolding t_def k by (simp add: add.commute)
  have shape: "drop offset (b0 # b1 # tail) = t" "drop (offset + 4) (b0 # b1 # tail) = drop 4 t"
    "rest = drop n (drop 4 t)"
    using cut [of 0] cut [of 4] cut [of "4 + n"] by (simp_all add: rest add.assoc add.commute [of n])
  have tlen: "4 + n \<le> length t" using more off by (simp add: t_def)
  have pl: "length payload = n" using tlen by (simp add: payload shape)
  have masked: "take n (drop 4 t) = unmask ?key payload"
    by (simp add: payload shape)
  have "tail = tl (length_field n) @ t"
    using field(4) append_take_drop_id [of "offset - 2" tail] by (simp add: t_def)
  also have "t = ?key @ unmask ?key payload @ rest"
    unfolding masked [symmetric] shape(3) by (simp only: append_take_drop_id)
  finally have tail: "tail = tl (length_field n) @ ?key @ unmask ?key payload @ rest" .
  have "hd (length_field n) = word_of_nat ?l" using field(2) by simp
  then have "b1 = 0x80 OR hd (length_field n)" using second_byte [OF b(2)] by simp
  moreover have "b0 = (if fin then 0x80 else 0) OR word_of_nat opcode"
    using first_byte [OF b(1)] fin op by simp
  ultimately have "buf = client_frame fin opcode ?key payload @ rest"
    unfolding buf client_frame_def pl using tail by simp
  then show "\<exists>key. length key = 4 \<and> buf = client_frame fin opcode key payload @ rest"
    using tlen by (intro exI [of _ ?key]) simp
  show "acceptable m fin opcode payload"
    using lim op unat_and_0F [of b0] pl field(1) by (simp add: acceptable_def)
qed

lemma parse_frame_Frame_iff:
  "parse_frame m buf = Frame fin opcode payload rest \<longleftrightarrow>
   acceptable m fin opcode payload
   \<and> (\<exists>key. length key = 4 \<and> buf = client_frame fin opcode key payload @ rest)"
  using parse_client_frame parse_frame_sound by blast

section \<open>More bytes do not change an answer\<close>

lemma read_length_append:
  "read_length buf l \<noteq> LengthMore \<Longrightarrow> 2 \<le> length buf \<Longrightarrow> read_length (buf @ more) l = read_length buf l"
  by (auto simp: read_length_def Let_def nth_append split: if_splits)

lemma parse_frame_Frame_append:
  "parse_frame m buf = Frame fin opcode payload rest \<Longrightarrow>
   parse_frame m (buf @ more) = Frame fin opcode payload (rest @ more)"
  unfolding parse_frame_Frame_iff by force

lemma parse_frame_Fail_append:
  assumes "parse_frame m buf = FrameFail e code"
  shows "parse_frame m (buf @ more) = FrameFail e code"
proof -
  from assms have len: "2 \<le> length buf"
    by (auto simp: parse_frame_def split: if_splits)
  then have nth: "(buf @ more) ! 0 = buf ! 0" "(buf @ more) ! 1 = buf ! 1"
    by (auto simp: nth_append)
  show ?thesis
  proof (cases "read_length buf (unat (buf ! 1 AND 0x7F)) = LengthMore")
    case True
    with assms len nth show ?thesis
      by (auto simp: parse_frame_def Let_def split: if_splits)
  next
    case False
    from read_length_append [OF this len] assms len nth show ?thesis
      by (auto simp: parse_frame_def Let_def split: if_splits length_result.splits)
  qed
qed

lemma parse_frame_progress:
  "parse_frame m buf = Frame fin opcode payload rest \<Longrightarrow> length rest < length buf"
  by (auto simp: parse_frame_Frame_iff client_frame_def)

lemma read_length_More: "read_length buf l = LengthMore \<Longrightarrow> length buf < 10"
  by (auto simp: read_length_def Let_def split: if_splits)

lemma read_length_offset: "read_length buf l = LengthOk offset n \<Longrightarrow> offset \<le> 10"
  by (auto simp: read_length_def Let_def split: if_splits)

lemma parse_frame_More_bound:
  assumes "parse_frame m buf = FrameMore"
  shows "length buf < m + 14"
proof (cases "read_length buf (unat (buf ! 1 AND 0x7F))")
  case LengthMore
  then show ?thesis using read_length_More by fastforce
next
  case (LengthFail e c)
  with assms show ?thesis by (auto simp: parse_frame_def Let_def split: if_splits)
next
  case (LengthOk offset n)
  with assms have "length buf < 2 \<or> (length buf < offset + 4 + n \<and> n \<le> m)"
    by (auto simp: parse_frame_def Let_def split: if_splits)
  with read_length_offset [OF LengthOk] show ?thesis by auto
qed

lemma parse_frame_payload:
  assumes "parse_frame m buf = Frame fin opcode payload rest"
  shows "opcode < 16" and "length payload \<le> m"
    and "opcode \<ge> 8 \<Longrightarrow> fin" and "opcode \<ge> 8 \<Longrightarrow> length payload \<le> 125"
  using assms by (auto simp: parse_frame_Frame_iff acceptable_def)

section \<open>Reading a stream of chunks\<close>

text \<open>
  The loop \<open>while (await this.#readFrame())\<close> of \<open>receiveData\<close>, for frames whose handling leaves
  the connection open: the frames it takes off the buffer, how it stops, and what it leaves.
\<close>

datatype drain_stop = AwaitMore | Failed ws_error nat

function drain_frames :: "nat \<Rightarrow> bytes \<Rightarrow> (bool \<times> nat \<times> bytes) list \<times> drain_stop \<times> bytes" where
  "drain_frames m buf =
     (case parse_frame m buf of
        FrameMore \<Rightarrow> ([], AwaitMore, buf)
      | FrameFail e code \<Rightarrow> ([], Failed e code, buf)
      | Frame fin opcode payload rest \<Rightarrow>
          (case drain_frames m rest of (fs, stop, left) \<Rightarrow> ((fin, opcode, payload) # fs, stop, left)))"
  by pat_completeness auto
termination
  by (relation "measure (\<lambda>(m, buf). length buf)") (auto dest: parse_frame_progress)

declare drain_frames.simps [simp del]

text \<open>
  Any reader of a prefix code has this shape: what it answers on a buffer stays its answer when
  more bytes follow. A client that feeds it chunks gets what it would get for all bytes at once.
\<close>

locale segmented_reader =
  fixes parse :: "'b list \<Rightarrow> ('e + 'f \<times> 'b list) option"
    and drain :: "'b list \<Rightarrow> 'f list \<times> 'e option \<times> 'b list"
  assumes frame_stable: "parse bs = Some (Inr (f, rest)) \<Longrightarrow> parse (bs @ cs) = Some (Inr (f, rest @ cs))"
    and fail_stable: "parse bs = Some (Inl e) \<Longrightarrow> parse (bs @ cs) = Some (Inl e)"
    and progress: "parse bs = Some (Inr (f, rest)) \<Longrightarrow> length rest < length bs"
    and drain_more: "parse bs = None \<Longrightarrow> drain bs = ([], None, bs)"
    and drain_fail: "parse bs = Some (Inl e) \<Longrightarrow> drain bs = ([], Some e, bs)"
    and drain_frame: "parse bs = Some (Inr (f, rest)) \<Longrightarrow>
      drain bs = (case drain rest of (fs, stop, left) \<Rightarrow> (f # fs, stop, left))"
begin

lemma drain_append:
  "drain (bs @ cs) = (case drain bs of
     (fs, Some e, left) \<Rightarrow> (fs, Some e, left @ cs)
   | (fs, None, left) \<Rightarrow> (case drain (left @ cs) of (gs, stop, left') \<Rightarrow> (fs @ gs, stop, left')))"
proof (induction bs rule: length_induct)
  case (1 bs)
  consider "parse bs = None" | e where "parse bs = Some (Inl e)"
    | f rest where "parse bs = Some (Inr (f, rest))"
    by (metis not_None_eq sum.exhaust surj_pair)
  then show ?case
  proof cases
    case 1
    then show ?thesis by (simp add: drain_more split: prod.splits)
  next
    case (2 e)
    then show ?thesis by (simp add: drain_fail fail_stable)
  next
    case (3 f rest)
    from "1.IH" progress [OF 3] have "drain (rest @ cs) = (case drain rest of
       (fs, Some e, left) \<Rightarrow> (fs, Some e, left @ cs)
     | (fs, None, left) \<Rightarrow> (case drain (left @ cs) of (gs, stop, left') \<Rightarrow> (fs @ gs, stop, left')))"
      by blast
    then show ?thesis
      using drain_frame [OF 3] drain_frame [OF frame_stable [OF 3]]
      by (simp split: prod.splits option.splits)
  qed
qed

end

text \<open>The frame reader in this shape.\<close>

definition frame_view :: "frame_result \<Rightarrow> (ws_error \<times> nat + (bool \<times> nat \<times> bytes) \<times> bytes) option" where
  "frame_view r = (case r of
     FrameMore \<Rightarrow> None
   | FrameFail e code \<Rightarrow> Some (Inl (e, code))
   | Frame fin opcode payload rest \<Rightarrow> Some (Inr ((fin, opcode, payload), rest)))"

definition stop_view :: "drain_stop \<Rightarrow> (ws_error \<times> nat) option" where
  "stop_view s = (case s of AwaitMore \<Rightarrow> None | Failed e code \<Rightarrow> Some (e, code))"

definition drain_view ::
  "nat \<Rightarrow> bytes \<Rightarrow> (bool \<times> nat \<times> bytes) list \<times> (ws_error \<times> nat) option \<times> bytes" where
  "drain_view m buf = (case drain_frames m buf of (fs, stop, left) \<Rightarrow> (fs, stop_view stop, left))"

lemma frame_view_simps:
  "frame_view r = None \<longleftrightarrow> r = FrameMore"
  "frame_view r = Some (Inl x) \<longleftrightarrow> r = FrameFail (fst x) (snd x)"
  "frame_view r = Some (Inr (f, rest)) \<longleftrightarrow> r = Frame (fst f) (fst (snd f)) (snd (snd f)) rest"
  by (auto simp: frame_view_def split: frame_result.splits)

interpretation frames: segmented_reader "\<lambda>buf. frame_view (parse_frame m buf)" "drain_view m"
  by unfold_locales
    (auto simp: frame_view_simps drain_view_def stop_view_def drain_frames.simps
      parse_frame_Frame_append parse_frame_Fail_append dest: parse_frame_progress split: prod.splits)

lemma drain_frames_append:
  "drain_frames m (bs @ cs) = (case drain_frames m bs of
     (fs, Failed e code, left) \<Rightarrow> (fs, Failed e code, left @ cs)
   | (fs, AwaitMore, left) \<Rightarrow> (case drain_frames m (left @ cs) of (gs, stop, left') \<Rightarrow> (fs @ gs, stop, left')))"
proof -
  have inj: "stop_view s = stop_view t \<longleftrightarrow> s = t" for s t
    by (auto simp: stop_view_def split: drain_stop.splits)
  have "drain_view m (bs @ cs) = (case drain_frames m bs of
     (fs, Failed e code, left) \<Rightarrow> (fs, Some (e, code), left @ cs)
   | (fs, AwaitMore, left) \<Rightarrow>
       (case drain_frames m (left @ cs) of (gs, stop, left') \<Rightarrow> (fs @ gs, stop_view stop, left')))"
    unfolding frames.drain_append [of m bs cs]
    by (auto simp: drain_view_def stop_view_def split: prod.splits drain_stop.splits)
  then show ?thesis
    by (auto simp: drain_view_def inj stop_view_def split: prod.splits drain_stop.splits)
qed

lemma drain_left_more: "drain_frames m buf = (fs, AwaitMore, left) \<Longrightarrow> parse_frame m left = FrameMore"
proof (induction m buf arbitrary: fs rule: drain_frames.induct)
  case (1 m buf)
  then show ?case
    by (subst (asm) (2) drain_frames.simps) (auto split: frame_result.splits prod.splits)
qed

section \<open>A client can read the frames of the server\<close>

lemma server_first_byte:
  assumes "opcode < 16"
  shows "(0x80 OR word_of_nat opcode :: byte) AND 0x70 = 0"
    and "(0x80 OR word_of_nat opcode :: byte) AND 0x80 \<noteq> 0"
    and "unat ((0x80 OR word_of_nat opcode :: byte) AND 0x0F) = opcode"
  using client_first_byte [OF assms refl, of True] by simp_all

lemma encodeFrame_layout: "encodeFrame opcode payload =
  (0x80 OR word_of_nat opcode) # length_field (length payload) @ payload"
  by (simp add: encodeFrame_def length_field_def Let_def)

definition frame_opcode :: "bytes \<Rightarrow> nat" where
  "frame_opcode frame = unat (hd frame AND 0x0F)"

lemma frame_opcode_encodeFrame [simp]: "opcode < 16 \<Longrightarrow> frame_opcode (encodeFrame opcode payload) = opcode"
  by (simp add: frame_opcode_def encodeFrame_layout server_first_byte)

lemma encodeFrame_readable:
  assumes "length payload \<le> max_safe_integer"
  shows "\<exists>second tail. encodeFrame opcode payload = (0x80 OR word_of_nat opcode) # second # tail
    \<and> second AND 0x80 = 0
    \<and> (\<exists>offset. read_length (encodeFrame opcode payload) (unat second) = LengthOk offset (length payload)
        \<and> drop offset (encodeFrame opcode payload) = payload)"
proof -
  let ?n = "length payload"
  obtain x g where g: "length_field ?n = x # g" using length_field_hd_tl by metis
  have frame: "encodeFrame opcode payload = (0x80 OR word_of_nat opcode) # x # g @ payload"
    by (simp add: encodeFrame_layout g)
  have x: "unat x < 128" using length_field_hd_lt [of ?n] by (simp add: g)
  have "read_length (encodeFrame opcode payload) (unat x) = LengthOk (Suc (Suc (length g))) ?n"
    using read_length_field [OF assms, of "0x80 OR word_of_nat opcode" x payload] by (simp add: frame g)
  moreover have "x AND 0x80 = 0" using low_and_80 [OF x] by simp
  moreover have "drop (Suc (Suc (length g))) (encodeFrame opcode payload) = payload" by (simp add: frame)
  ultimately show ?thesis using frame by blast
qed

lemma close_code_ok_iff:
  "close_code_ok code \<longleftrightarrow> code \<in> {1000..1003} \<union> {1007..1014} \<union> {3000..4999}"
  by (auto simp: close_code_ok_def validateCloseCode_def)

section \<open>Properties\<close>

text \<open>C5: The frame reader accepts a buffer exactly when it starts with a complete, masked client
  frame in the layout of RFC 6455 (shortest length field, legal control frame, payload within the
  limit), and it returns that frame unmasked, with its opcode and what follows it.\<close>

theorem frame_reader_exact:
  "parse_frame m buf = Frame fin opcode payload rest \<longleftrightarrow>
     acceptable m fin opcode payload
     \<and> (\<exists>key. length key = 4 \<and> buf = client_frame fin opcode key payload @ rest)"
  by (rule parse_frame_Frame_iff)

text \<open>The reader asks for more input only while less than the message limit and one header (14
  bytes) is buffered, so the peer cannot make the buffer grow without end.\<close>

theorem waiting_buffer_bounded: "parse_frame m buf = FrameMore \<Longrightarrow> length buf < m + 14"
  by (rule parse_frame_More_bound)

theorem waiting_buffer_bounded_witness: "length [0x81 :: byte, 0x85, 1, 2, 3, 4, 9] < 5 + 14"
proof (rule waiting_buffer_bounded)
  show "parse_frame 5 [0x81, 0x85, 1, 2, 3, 4, 9] = FrameMore"
    by (simp add: parse_frame_def read_length_def Let_def)
qed

text \<open>A frame of the server starts with the final bit and its opcode, is not masked, and a reader
  of the length field finds the whole payload behind it, whatever its length.\<close>

theorem server_frame_readable:
  assumes "opcode < 16" and "length payload \<le> max_safe_integer"
  shows "frame_opcode (encodeFrame opcode payload) = opcode
    \<and> hd (encodeFrame opcode payload) AND 0x80 \<noteq> 0
    \<and> encodeFrame opcode payload ! 1 AND 0x80 = 0
    \<and> (\<exists>offset. read_length (encodeFrame opcode payload) (unat (encodeFrame opcode payload ! 1))
           = LengthOk offset (length payload)
        \<and> drop offset (encodeFrame opcode payload) = payload)"
  using encodeFrame_readable [OF assms(2), of opcode] assms(1)
  by (auto simp: server_first_byte)

theorem server_frame_readable_witness: "frame_opcode (encodeFrame 2 (replicate 130 7)) = 2"
  by (rule server_frame_readable [THEN conjunct1]) (simp_all add: max_safe_integer_def)

text \<open>Exactly the close codes 1000 to 1003, 1007 to 1014 and 3000 to 4999 pass the check; every
  other number, and what is no integer, throws.\<close>

theorem close_codes:
  "validateCloseCode code \<longleftrightarrow>
     (\<exists>n. code = IntegerNumber n \<and> n \<in> {1000..1003} \<union> {1007..1014} \<union> {3000..4999})"
  by (cases code) (auto simp: validateCloseCode_def)

end
