(* ===== verification/Ws_Connection.thy ===== *)
theory Ws_Connection
  imports Ws_Frame
begin

unbundle bit_operations_syntax

text \<open>
  The class \<open>WebSocketConnection\<close> of packages/server/WebSocketConnection.js. Its methods are
  async: each is cut at its awaits. The code up to the first await is a \<open>start_\<close> function, which
  returns the new state, what is awaited and the stack of continuations; the code after an await is
  a case of \<open>resume\<close>. The event loop may run the continuations of different calls in any order, so
  every statement about sequences of events holds for every interleaving of the callers (\<open>send\<close>,
  \<open>close\<close>, \<open>accept\<close>), the transport, the callbacks and the close timer.

  Ghost state: \<open>frames\<close> holds every frame given to \<open>#writeFrame\<close> in order, \<open>settled\<close> the results
  of the first of them. The promise chain \<open>#writeQueue\<close> makes the transport see the frames in that
  order and one at a time, so the frame being written is number \<open>length settled\<close>. \<open>effects\<close> holds
  the calls of callbacks and of the transport's \<open>end\<close> and \<open>abort\<close> in order. \<open>arrived\<close> holds the bytes that
  have joined the buffer, \<open>framesRead\<close> the frames that \<open>#readFrame\<close> has given to \<open>#handleFrame\<close>.

  Where the code after an await only returns, the return is not a step of its own: the task that goes on may be run at any later time.
\<close>

named_theorems ws_starts "the code of each method up to its first await"

section \<open>State\<close>

datatype ready_state = CONNECTING | OPEN | CLOSING | CLOSED

text \<open>The numbers the class gives the states; they order the life of a connection.\<close>

fun ready_code :: "ready_state \<Rightarrow> nat" where
  "ready_code CONNECTING = 0"
| "ready_code OPEN = 1"
| "ready_code CLOSING = 2"
| "ready_code CLOSED = 3"

lemma ready_code_inj: "ready_code a = ready_code b \<longleftrightarrow> a = b"
  by (cases a; cases b) auto

instantiation ready_state :: linorder
begin
definition less_eq_ready_state :: "ready_state \<Rightarrow> ready_state \<Rightarrow> bool" where
  "a \<le> b \<longleftrightarrow> ready_code a \<le> ready_code b"
definition less_ready_state :: "ready_state \<Rightarrow> ready_state \<Rightarrow> bool" where
  "a < b \<longleftrightarrow> ready_code a < ready_code b"
instance
  by standard (auto simp: less_eq_ready_state_def less_ready_state_def ready_code_inj)
end

datatype ws_message = TextMessage code_points | BinaryMessage bytes

datatype ws_effect =
    OnMessage ws_message
  | OnError ws_error
  | OnClose nat code_points
  | TransportEnd
  | TransportAbort

datatype rval = Undefined | Boolean bool

text \<open>How a promise settles: with a value, or with the error it is rejected with.\<close>

datatype outcome = Fulfilled rval | Rejected ws_error

record ws_connection =
  maxMessageBytes :: nat
  offeredProtocols :: "string list"
  readyState :: ready_state
  protocol :: string
  buffer :: bytes
  pendingInput :: bytes
  fragments :: "bytes list"
  fragmentOpcode :: nat
  fragmentBytes :: nat
  sentClose :: bool
  receivedClose :: bool
  closeCode :: nat
  closeReason :: code_points
  closeTimer :: bool
  frames :: "bytes list"
  settled :: "outcome list"
  effects :: "ws_effect list"
  arrived :: bytes
  framesRead :: "(bool \<times> nat \<times> bytes) list"

definition new_connection :: "nat \<Rightarrow> string list \<Rightarrow> ws_connection" where
  "new_connection limit offered =
     \<lparr>maxMessageBytes = limit, offeredProtocols = offered, readyState = CONNECTING, protocol = '''',
      buffer = [], pendingInput = [], fragments = [], fragmentOpcode = 0, fragmentBytes = 0,
      sentClose = False, receivedClose = False, closeCode = 1006, closeReason = [],
      closeTimer = False, frames = [], settled = [], effects = [],
      arrived = [], framesRead = []\<rparr>"

text \<open>What a suspended call waits for.\<close>

datatype pending =
    AwaitCallback
  | AwaitWrite nat
  | AwaitQueue nat
  | AwaitEnd
  | Ready outcome

text \<open>
  The code after each await that does more than return: in \<open>close\<close> after \<open>#writeFrame\<close> and after
  \<open>#finishTransport\<close>; in \<open>#finishTransport\<close> after the queue and after \<open>end()\<close>; in
  \<open>#protocolFailure\<close> after \<open>#onError\<close>, after \<open>close\<close> and after \<open>#finishTransport\<close>; in
  \<open>#receiveClose\<close> after the reply and after \<open>#finishTransport\<close>; in \<open>#handleFrame\<close> after
  \<open>#onMessage\<close> and after \<open>#onError\<close>; in \<open>#readFrame\<close> after \<open>#protocolFailure\<close> and after \<open>#handleFrame\<close>; in the loop of
  \<open>receiveData\<close> after \<open>#readFrame\<close>.
\<close>

datatype continuation_point =
    AfterCloseWrite
  | AfterCloseTransport rval
  | AfterQueue
  | AfterEnd
  | AfterFailureReport nat
  | AfterFailureClose
  | AfterFailureTransport
  | AfterCloseReply nat code_points
  | AfterPeerTransport nat code_points
  | AfterMessage
  | AfterMessageError
  | AfterInvalidFrame
  | AfterFrame
  | AfterRead

type_synonym suspended = "pending \<times> continuation_point list"

definition ascii :: "string \<Rightarrow> code_points" where
  "ascii s = map of_char s"

abbreviation returns :: "rval \<Rightarrow> suspended" where
  "returns v \<equiv> (Ready (Fulfilled v), [])"

abbreviation throws :: "ws_error \<Rightarrow> suspended" where
  "throws e \<equiv> (Ready (Rejected e), [])"

text \<open>A call that is awaited: its caller goes on at a continuation point.\<close>

definition awaited :: "ws_connection \<times> suspended \<Rightarrow> continuation_point \<Rightarrow> ws_connection \<times> suspended" where
  "awaited call k = (case call of (s, p, ks) \<Rightarrow> (s, p, ks @ [k]))"

lemma awaited_simps [simp]:
  "fst (awaited call k) = fst call"
  "fst (snd (awaited call k)) = fst (snd call)"
  "snd (snd (awaited call k)) = snd (snd call) @ [k]"
  "awaited (s, p, ks) k = (s, p, ks @ [k])"
  by (simp_all add: awaited_def split: prod.splits)

section \<open>The methods up to their first await\<close>

definition effect :: "ws_effect \<Rightarrow> ws_connection \<Rightarrow> ws_connection" where
  "effect x s = s\<lparr>effects := effects s @ [x]\<rparr>"

text \<open>\<open>#writeFrame\<close>: the frame joins the queue; the caller awaits this write.\<close>

definition writeFrame :: "nat \<Rightarrow> bytes \<Rightarrow> ws_connection \<Rightarrow> ws_connection \<times> pending" where
  "writeFrame opcode payload s =
     (s\<lparr>frames := frames s @ [encodeFrame opcode payload]\<rparr>, AwaitWrite (length (frames s)))"

datatype send_data = SendString code_points | SendBinary binary_data

definition start_send :: "send_data \<Rightarrow> ws_connection \<Rightarrow> ws_connection \<times> suspended" where
  "start_send data s =
     (if readyState s \<noteq> OPEN then (s, throws NotOpen)
      else case (case data of SendBinary b \<Rightarrow> toUint8Array b | SendString t \<Rightarrow> Inr (utf8_encode t)) of
        Inl e \<Rightarrow> (s, throws e)
      | Inr bs \<Rightarrow>
          if length bs > maxMessageBytes s then (s, throws (MessageOverLimit (maxMessageBytes s)))
          else case writeFrame (case data of SendBinary _ \<Rightarrow> 2 | SendString _ \<Rightarrow> 1) bs s of
            (s', p) \<Rightarrow> (s', p, []))"

definition start_finish :: "nat \<Rightarrow> code_points \<Rightarrow> ws_connection \<Rightarrow> ws_connection \<times> suspended" where
  "start_finish code reason s =
     (if readyState s = CLOSED then (s, returns Undefined)
      else (effect (OnClose code reason) (s\<lparr>closeTimer := False, readyState := CLOSED\<rparr>),
            AwaitCallback, []))"

definition start_finishTransport :: "ws_connection \<Rightarrow> ws_connection \<times> suspended" where
  "start_finishTransport s = (s\<lparr>closeTimer := False\<rparr>, AwaitQueue (length (frames s)), [AfterQueue])"

text \<open>The reason of a call that is no string is \<open>None\<close>.\<close>

definition start_close :: "js_number \<Rightarrow> code_points option \<Rightarrow> ws_connection \<Rightarrow> ws_connection \<times> suspended" where
  "start_close code reason s =
     (if readyState s = CLOSED \<or> sentClose s then (s, returns (Boolean False))
      else if \<not> validateCloseCode code then (s, throws InvalidCloseCode)
      else case reason of
        None \<Rightarrow> (s, throws ReasonNotString)
      | Some text \<Rightarrow>
          if length (utf8_encode text) > 123 then (s, throws ReasonTooLong)
          else case writeFrame 8 (be_bytes 2 (nat (integer_value code)) @ utf8_encode text)
                      (s\<lparr>sentClose := True, readyState := CLOSING\<rparr>) of
            (s', p) \<Rightarrow> (s', p, [AfterCloseWrite]))"

definition armCloseTimer :: "ws_connection \<Rightarrow> ws_connection" where
  "armCloseTimer s = s\<lparr>closeTimer := True\<rparr>"

definition start_protocolFailure :: "ws_error \<Rightarrow> nat \<Rightarrow> ws_connection \<Rightarrow> ws_connection \<times> suspended" where
  "start_protocolFailure cause code s = (effect (OnError cause) s, AwaitCallback, [AfterFailureReport code])"

text \<open>The \<open>try\<close> block of \<open>#receiveClose\<close>: the code and reason of the peer, or the error.\<close>

definition close_payload :: "bytes \<Rightarrow> ws_error + nat \<times> code_points" where
  "close_payload payload =
     (if length payload = 1 then Inl InvalidClosePayload
      else if length payload \<ge> 2 then
        (let code = be_val (take 2 payload)
         in if \<not> validateCloseCode (IntegerNumber (int code)) then Inl InvalidCloseCode
            else case utf8_decode (drop 2 payload) of
              None \<Rightarrow> Inl InvalidUtf8
            | Some reason \<Rightarrow> Inr (code, reason))
      else Inr (1005, []))"

definition start_receiveClose :: "bytes \<Rightarrow> ws_connection \<Rightarrow> ws_connection \<times> suspended" where
  "start_receiveClose payload s =
     (case close_payload payload of
        Inl cause \<Rightarrow> start_protocolFailure cause 1002 s
      | Inr (code, reason) \<Rightarrow>
          let s1 = s\<lparr>receivedClose := True, closeCode := code, closeReason := reason\<rparr>
          in if \<not> sentClose s1 then
               (case writeFrame 8 payload (s1\<lparr>sentClose := True, readyState := CLOSING\<rparr>) of
                  (s2, p) \<Rightarrow> (s2, p, [AfterCloseReply code reason]))
             else
               awaited (start_finishTransport s1) (AfterPeerTransport code reason))"

text \<open>The argument of \<open>#onMessage\<close>; decoding a text message may throw.\<close>

definition message_of :: "nat \<Rightarrow> bytes \<Rightarrow> ws_error + ws_message" where
  "message_of opcode message =
     (if opcode = 1 then
        (case utf8_decode message of None \<Rightarrow> Inl InvalidUtf8 | Some text \<Rightarrow> Inr (TextMessage text))
      else Inr (BinaryMessage message))"

definition start_handleFrame :: "bool \<Rightarrow> nat \<Rightarrow> bytes \<Rightarrow> ws_connection \<Rightarrow> ws_connection \<times> suspended" where
  "start_handleFrame fin opcode payload s =
     (if opcode = 8 then start_receiveClose payload s
      else if opcode = 9 then (case writeFrame 10 payload s of (s', p) \<Rightarrow> (s', p, []))
      else if opcode = 10 then (s, returns Undefined)
      else if opcode \<noteq> 0 \<and> opcode \<noteq> 1 \<and> opcode \<noteq> 2 then
        start_protocolFailure (UnsupportedOpcode opcode) 1002 s
      else if opcode = 0 \<and> fragmentOpcode s = 0 then start_protocolFailure UnexpectedContinuation 1002 s
      else if opcode \<noteq> 0 \<and> fragmentOpcode s \<noteq> 0 then start_protocolFailure IncompleteFragments 1002 s
      else if \<not> fin then
        (let s1 = (if opcode \<noteq> 0 then s\<lparr>fragmentOpcode := opcode\<rparr> else s);
             s2 = s1\<lparr>fragmentBytes := fragmentBytes s1 + length payload\<rparr>
         in if fragmentBytes s2 > maxMessageBytes s2 then start_protocolFailure MessageTooLarge 1009 s2
            else (s2\<lparr>fragments := fragments s2 @ [payload]\<rparr>, returns Undefined))
      else
        (let messageOpcode = (if opcode = 0 then fragmentOpcode s else opcode)
         in if fragmentBytes s + length payload > maxMessageBytes s then
              start_protocolFailure MessageTooLarge 1009 s
            else
              let message = (if fragments s = [] then payload else concat_bytes (fragments s @ [payload]));
                  s1 = s\<lparr>fragments := [], fragmentOpcode := 0, fragmentBytes := 0\<rparr>
              in case message_of messageOpcode message of
                   Inr m \<Rightarrow> (effect (OnMessage m) s1, AwaitCallback, [AfterMessage])
                 | Inl cause \<Rightarrow> (effect (OnError cause) s1, AwaitCallback, [AfterMessageError])))"

text \<open>\<open>#readFrame\<close>: its boolean decides whether the loop of \<open>receiveData\<close> goes on.\<close>

definition start_readFrame :: "ws_connection \<Rightarrow> ws_connection \<times> suspended" where
  "start_readFrame s =
     (case parse_frame (maxMessageBytes s) (buffer s) of
        FrameMore \<Rightarrow> (s, returns (Boolean False))
      | FrameFail cause code \<Rightarrow> awaited (start_protocolFailure cause code s) AfterInvalidFrame
      | Frame fin opcode payload rest \<Rightarrow>
          awaited (start_handleFrame fin opcode payload
            (s\<lparr>buffer := rest, framesRead := framesRead s @ [(fin, opcode, payload)]\<rparr>)) AfterFrame)"

text \<open>One round of the loop of \<open>receiveData\<close>.\<close>

definition start_round :: "ws_connection \<Rightarrow> ws_connection \<times> suspended" where
  "start_round s = awaited (start_readFrame s) AfterRead"

definition start_receiveData :: "bytes \<Rightarrow> ws_connection \<Rightarrow> ws_connection \<times> suspended" where
  "start_receiveData bs s =
     (if readyState s = CLOSED then (s, returns Undefined)
      else if readyState s = CONNECTING then
        (let s1 = s\<lparr>pendingInput := concat_bytes [pendingInput s, bs]\<rparr>
         in if length (pendingInput s1) > maxMessageBytes s1 + 14
            then start_protocolFailure InputExceeded 1009 s1
            else (s1, returns Undefined))
      else start_round (s\<lparr>buffer := concat_bytes [buffer s, bs], arrived := arrived s @ bs\<rparr>))"

definition selectProtocol :: "string \<Rightarrow> ws_connection \<Rightarrow> ws_error + ws_connection" where
  "selectProtocol proto s =
     (if proto \<noteq> '''' \<and> proto \<notin> set (offeredProtocols s) then Inl (ProtocolNotOffered proto)
      else Inr (s\<lparr>protocol := proto\<rparr>))"

text \<open>Without an argument \<open>accept\<close> keeps the protocol selected before.\<close>

definition start_accept :: "string option \<Rightarrow> ws_connection \<Rightarrow> ws_connection \<times> suspended" where
  "start_accept proto s =
     (if readyState s \<noteq> CONNECTING then (s, returns Undefined)
      else case selectProtocol (case proto of None \<Rightarrow> protocol s | Some p \<Rightarrow> p) s of
        Inl e \<Rightarrow> (s, throws e)
      | Inr s1 \<Rightarrow>
          let s2 = s1\<lparr>readyState := OPEN\<rparr>
          in if length (pendingInput s2) > 0
             then start_receiveData (pendingInput s2) (s2\<lparr>pendingInput := []\<rparr>)
             else (s2, returns Undefined))"

datatype end_reason = Finished | Aborted

definition start_receiveEnd :: "end_reason \<Rightarrow> ws_connection \<Rightarrow> ws_connection \<times> suspended" where
  "start_receiveEnd reason s =
     (if readyState s = CLOSED then (s, returns Undefined)
      else if length (buffer s) > 0 then start_protocolFailure EndedInsideFrame 1002 s
      else let clean = (reason = Finished \<and> receivedClose s);
               s1 = (if clean then s else effect TransportAbort s)
           in start_finish (if clean then closeCode s1 else 1006) (closeReason s1) s1)"

section \<open>The code after each await\<close>

fun resume :: "continuation_point \<Rightarrow> outcome \<Rightarrow> ws_connection \<Rightarrow> ws_connection \<times> suspended" where
  "resume AfterCloseWrite (Fulfilled sent) s =
     (if receivedClose s then
        awaited (start_finishTransport s) (AfterCloseTransport sent)
      else (armCloseTimer s, returns sent))"
| "resume AfterCloseWrite (Rejected e) s = (s, throws e)"
| "resume (AfterCloseTransport sent) (Fulfilled _) s = (s, returns sent)"
| "resume (AfterCloseTransport sent) (Rejected e) s = (s, throws e)"
| "resume AfterQueue (Fulfilled _) s = (effect TransportEnd s, AwaitEnd, [AfterEnd])"
| "resume AfterQueue (Rejected _) s = (effect TransportAbort s, returns Undefined)"
| "resume AfterEnd (Fulfilled _) s = (s, returns Undefined)"
| "resume AfterEnd (Rejected _) s = (effect TransportAbort s, returns Undefined)"
| "resume (AfterFailureReport code) (Fulfilled _) s =
     (if \<not> sentClose s \<and> readyState s \<noteq> CLOSED then
        awaited
          (start_close (IntegerNumber (int code))
            (Some (ascii (if code = 1009 then ''Message too large'' else ''Protocol error''))) s)
          AfterFailureClose
      else awaited (start_finishTransport s) AfterFailureTransport)"
| "resume (AfterFailureReport code) (Rejected e) s = (s, throws e)"
| "resume AfterFailureClose _ s =
     awaited (start_finishTransport s) AfterFailureTransport"
| "resume AfterFailureTransport (Fulfilled _) s = start_finish 1006 [] s"
| "resume AfterFailureTransport (Rejected e) s = (s, throws e)"
| "resume (AfterCloseReply code reason) (Fulfilled _) s =
     awaited (start_finishTransport s) (AfterPeerTransport code reason)"
| "resume (AfterCloseReply code reason) (Rejected e) s = (s, throws e)"
| "resume (AfterPeerTransport code reason) (Fulfilled _) s = start_finish code reason s"
| "resume (AfterPeerTransport code reason) (Rejected e) s = (s, throws e)"
| "resume AfterMessage (Fulfilled _) s = (s, returns Undefined)"
| "resume AfterMessage (Rejected e) s = (effect (OnError e) s, AwaitCallback, [AfterMessageError])"
| "resume AfterMessageError (Fulfilled _) s =
     start_close (IntegerNumber 1011) (Some (ascii ''Handler failed'')) s"
| "resume AfterMessageError (Rejected e) s = (s, throws e)"
| "resume AfterInvalidFrame (Fulfilled _) s = (s, returns (Boolean False))"
| "resume AfterInvalidFrame (Rejected e) s = (s, throws e)"
| "resume AfterFrame (Fulfilled _) s = (s, returns (Boolean (readyState s \<noteq> CLOSED)))"
| "resume AfterFrame (Rejected e) s = (s, throws e)"
| "resume AfterRead (Fulfilled v) s = (if v = Boolean True then start_round s else (s, returns Undefined))"
| "resume AfterRead (Rejected e) s = (s, throws e)"

section \<open>The event loop\<close>

record ws_system =
  conn :: ws_connection
  tasks :: "suspended list"

definition new_system :: "nat \<Rightarrow> string list \<Rightarrow> ws_system" where
  "new_system limit offered = \<lparr>conn = new_connection limit offered, tasks = []\<rparr>"

datatype ws_event =
    CallSend send_data
  | CallClose js_number "code_points option"
  | CallAccept "string option"
  | DataArrives bytes
  | EndArrives end_reason
  | TimerFires
  | WriteSettles outcome
  | CallbackSettles nat outcome
  | EndSettles nat outcome
  | RunTask nat

text \<open>How the awaited thing of a task has settled, if it has.\<close>

fun settled_outcome :: "ws_connection \<Rightarrow> pending \<Rightarrow> outcome option" where
  "settled_outcome s (Ready r) = Some r"
| "settled_outcome s (AwaitWrite i) = (if i < length (settled s) then Some (settled s ! i) else None)"
| "settled_outcome s (AwaitQueue n) = (if n \<le> length (settled s) then Some (Fulfilled Undefined) else None)"
| "settled_outcome s AwaitCallback = None"
| "settled_outcome s AwaitEnd = None"

text \<open>One microtask: the innermost continuation of a task whose await has settled.\<close>

fun run_task :: "ws_connection \<Rightarrow> suspended \<Rightarrow> ws_connection \<times> suspended" where
  "run_task s (p, ks) =
     (case settled_outcome s p of
        None \<Rightarrow> (s, p, ks)
      | Some r \<Rightarrow>
          (case ks of
             [] \<Rightarrow> (s, Ready r, [])
           | k # ks' \<Rightarrow> (case resume k r s of (s', p', new) \<Rightarrow> (s', p', new @ ks'))))"

definition spawn :: "(ws_connection \<Rightarrow> ws_connection \<times> suspended) \<Rightarrow> ws_system \<Rightarrow> ws_system" where
  "spawn start sys = (case start (conn sys) of (s, t) \<Rightarrow> \<lparr>conn = s, tasks = tasks sys @ [t]\<rparr>)"

definition settle_task :: "nat \<Rightarrow> pending \<Rightarrow> outcome \<Rightarrow> ws_system \<Rightarrow> ws_system" where
  "settle_task i what r sys =
     (if i < length (tasks sys) \<and> fst (tasks sys ! i) = what
      then sys\<lparr>tasks := (tasks sys)[i := (Ready r, snd (tasks sys ! i))]\<rparr> else sys)"

text \<open>The timer of \<open>#armCloseTimer\<close> aborts the transport and finishes with 1006.\<close>

definition start_timer :: "ws_connection \<Rightarrow> ws_connection \<times> suspended" where
  "start_timer s = start_finish 1006 [] (effect TransportAbort (s\<lparr>closeTimer := False\<rparr>))"

fun ws_step :: "ws_system \<Rightarrow> ws_event \<Rightarrow> ws_system" where
  "ws_step sys (CallSend data) = spawn (start_send data) sys"
| "ws_step sys (CallClose code reason) = spawn (start_close code reason) sys"
| "ws_step sys (CallAccept proto) = spawn (start_accept proto) sys"
| "ws_step sys (DataArrives bs) = spawn (start_receiveData bs) sys"
| "ws_step sys (EndArrives reason) = spawn (start_receiveEnd reason) sys"
| "ws_step sys TimerFires = (if closeTimer (conn sys) then spawn start_timer sys else sys)"
| "ws_step sys (WriteSettles r) =
     (if length (settled (conn sys)) < length (frames (conn sys))
      then sys\<lparr>conn := (conn sys)\<lparr>settled := settled (conn sys) @ [r]\<rparr>\<rparr> else sys)"
| "ws_step sys (CallbackSettles i r) = settle_task i AwaitCallback r sys"
| "ws_step sys (EndSettles i r) = settle_task i AwaitEnd r sys"
| "ws_step sys (RunTask i) =
     (if i < length (tasks sys)
      then (case run_task (conn sys) (tasks sys ! i) of
              (s, t) \<Rightarrow> \<lparr>conn = s, tasks = (tasks sys)[i := t]\<rparr>)
      else sys)"

definition ws_run :: "ws_system \<Rightarrow> ws_event list \<Rightarrow> ws_system" where
  "ws_run = foldl ws_step"

end
