(* ===== verification/Ws_Safety.thy ===== *)
theory Ws_Safety
  imports Ws_Connection
begin

text \<open>
  What holds of a WebSocket connection whatever its callers, its peer, its transport and the event
  loop do: one close frame at most and no data frame after it, one report of the close, frames that
  are legal on the wire, messages within the limit. One invariant carries these; each method and
  each continuation keeps it, so every sequence of events does.
\<close>

section \<open>The invariant\<close>

definition is_close_report :: "ws_effect \<Rightarrow> bool" where
  "is_close_report x \<longleftrightarrow> (case x of OnClose _ _ \<Rightarrow> True | _ \<Rightarrow> False)"

definition close_reports :: "ws_connection \<Rightarrow> nat" where
  "close_reports s = length (filter is_close_report (effects s))"

definition close_frames :: "bytes list \<Rightarrow> nat" where
  "close_frames fs = length (filter (\<lambda>f. frame_opcode f = 8) fs)"

definition is_data_frame :: "bytes \<Rightarrow> bool" where
  "is_data_frame f \<longleftrightarrow> frame_opcode f \<in> {1, 2}"

text \<open>Data frames come before the close frame.\<close>

definition no_data_after_close :: "bytes list \<Rightarrow> bool" where
  "no_data_after_close fs \<longleftrightarrow>
     list_all (\<lambda>f. \<not> is_data_frame f) (dropWhile (\<lambda>f. frame_opcode f \<noteq> 8) fs)"

text \<open>A final, unmasked frame: a message within the limit, or a close or pong of a control frame's
  size; the payload of a close is empty or starts with a legal code.\<close>

definition legal_close_payload :: "bytes \<Rightarrow> bool" where
  "legal_close_payload p \<longleftrightarrow>
     length p \<le> 125 \<and> (p = [] \<or> (2 \<le> length p \<and> close_code_ok (be_val (take 2 p))))"

definition legal_frame :: "nat \<Rightarrow> bytes \<Rightarrow> bool" where
  "legal_frame limit f \<longleftrightarrow>
     (\<exists>opcode payload. f = encodeFrame opcode payload
        \<and> (opcode \<in> {1, 2} \<and> length payload \<le> limit
           \<or> opcode = 8 \<and> legal_close_payload payload
           \<or> opcode = 10 \<and> length payload \<le> 125))"

definition utf8_length_ok :: "nat \<Rightarrow> code_points \<Rightarrow> bool" where
  "utf8_length_ok limit t \<longleftrightarrow> (\<exists>bs. length bs \<le> limit \<and> utf8_decode bs = Some t)"

fun legal_effect :: "nat \<Rightarrow> ws_effect \<Rightarrow> bool" where
  "legal_effect limit (OnMessage (BinaryMessage bs)) = (length bs \<le> limit)"
| "legal_effect limit (OnMessage (TextMessage t)) = utf8_length_ok limit t"
| "legal_effect limit _ = True"

definition ws_inv :: "ws_connection \<Rightarrow> bool" where
  "ws_inv s \<longleftrightarrow>
     (sentClose s \<longrightarrow> readyState s \<in> {CLOSING, CLOSED})
     \<and> (readyState s = CLOSING \<longrightarrow> sentClose s)
     \<and> close_reports s = (if readyState s = CLOSED then 1 else 0)
     \<and> close_frames (frames s) = (if sentClose s then 1 else 0)
     \<and> no_data_after_close (frames s)
     \<and> list_all (legal_frame (maxMessageBytes s)) (frames s)
     \<and> length (concat (fragments s)) \<le> fragmentBytes s
     \<and> length (concat (fragments s)) \<le> maxMessageBytes s
     \<and> list_all (legal_effect (maxMessageBytes s)) (effects s)
     \<and> length (settled s) \<le> length (frames s)"

lemma ws_inv_new: "ws_inv (new_connection limit offered)"
  by (simp add: ws_inv_def new_connection_def close_reports_def close_frames_def no_data_after_close_def)

section \<open>Adding a frame or an effect\<close>

lemma close_frames_snoc:
  "opcode < 16 \<Longrightarrow> close_frames (fs @ [encodeFrame opcode p]) = close_frames fs + (if opcode = 8 then 1 else 0)"
  by (simp add: close_frames_def)

lemma close_frames_0: "close_frames fs = 0 \<longleftrightarrow> (\<forall>f \<in> set fs. frame_opcode f \<noteq> 8)"
  by (simp add: close_frames_def filter_empty_conv)

lemma no_data_after_close_control:
  "no_data_after_close fs \<Longrightarrow> opcode < 16 \<Longrightarrow> opcode \<notin> {1, 2} \<Longrightarrow>
   no_data_after_close (fs @ [encodeFrame opcode p])"
  by (auto simp: no_data_after_close_def dropWhile_append is_data_frame_def list_all_iff)

lemma no_data_after_close_data:
  "close_frames fs = 0 \<Longrightarrow> opcode < 16 \<Longrightarrow> opcode \<noteq> 8 \<Longrightarrow>
   no_data_after_close (fs @ [encodeFrame opcode p])"
  by (simp add: no_data_after_close_def close_frames_0 dropWhile_append)

lemma close_reports_effect:
  "close_reports (effect x s) = close_reports s + (if is_close_report x then 1 else 0)"
  by (simp add: close_reports_def effect_def)

text \<open>The invariant looks at these components only.\<close>

lemma ws_inv_cong:
  assumes "ws_inv s"
    and "sentClose t = sentClose s" "readyState t = readyState s" "effects t = effects s"
    "frames t = frames s" "maxMessageBytes t = maxMessageBytes s" "settled t = settled s"
    "fragments t = fragments s" "fragmentBytes s \<le> fragmentBytes t"
  shows "ws_inv t"
  using assms by (auto simp: ws_inv_def close_reports_def)

lemma ws_inv_effect:
  "ws_inv s \<Longrightarrow> \<not> is_close_report x \<Longrightarrow> legal_effect (maxMessageBytes s) x \<Longrightarrow> ws_inv (effect x s)"
  by (auto simp: ws_inv_def close_reports_def effect_def)

lemma ws_inv_control_frame:
  "ws_inv s \<Longrightarrow> opcode = 10 \<Longrightarrow> length p \<le> 125 \<Longrightarrow> ws_inv (fst (writeFrame opcode p s))"
  by (auto simp: ws_inv_def writeFrame_def close_reports_def close_frames_snoc
      no_data_after_close_control legal_frame_def)

lemma ws_inv_close_frame:
  assumes "ws_inv s" and "\<not> sentClose s" and "readyState s \<noteq> CLOSED" and "legal_close_payload p"
  shows "ws_inv (fst (writeFrame 8 p (s\<lparr>sentClose := True, readyState := CLOSING\<rparr>)))"
  using assms
  by (auto simp: ws_inv_def writeFrame_def close_reports_def close_frames_snoc
      no_data_after_close_control legal_frame_def)

lemma ws_inv_data_frame:
  assumes "ws_inv s" and "readyState s = OPEN" and "opcode \<in> {1, 2}" and "length p \<le> maxMessageBytes s"
  shows "ws_inv (fst (writeFrame opcode p s))"
  using assms
  by (auto simp: ws_inv_def writeFrame_def close_reports_def close_frames_snoc
      no_data_after_close_data legal_frame_def)

section \<open>Every method keeps it\<close>

lemma start_finish_inv: "ws_inv s \<Longrightarrow> ws_inv (fst (start_finish code reason s))"
  by (auto simp: start_finish_def effect_def ws_inv_def close_reports_def is_close_report_def)

lemma start_finishTransport_inv: "ws_inv s \<Longrightarrow> ws_inv (fst (start_finishTransport s))"
  by (auto simp: start_finishTransport_def intro: ws_inv_cong)

lemma legal_close_call:
  assumes "validateCloseCode code" and "length (utf8_encode text) \<le> 123"
  shows "legal_close_payload (be_bytes 2 (nat (integer_value code)) @ utf8_encode text)"
proof -
  from assms(1) have code: "code = IntegerNumber (int (nat (integer_value code)))"
    "nat (integer_value code) < 5000"
    by (cases code; auto simp: validateCloseCode_def)+
  then have "close_code_ok (nat (integer_value code))"
    using assms(1) unfolding close_code_ok_def by metis
  then show ?thesis
    using assms(2) code(2) by (simp add: legal_close_payload_def be_val_be_bytes)
qed

lemma start_close_inv: "ws_inv s \<Longrightarrow> ws_inv (fst (start_close code reason s))"
  using ws_inv_close_frame [OF _ _ _ legal_close_call]
  by (auto simp: start_close_def writeFrame_def split: option.splits)

lemma start_send_inv: "ws_inv s \<Longrightarrow> ws_inv (fst (start_send data s))"
  using ws_inv_data_frame [of s]
  by (auto simp: start_send_def writeFrame_def split: sum.splits send_data.splits)

lemma start_protocolFailure_inv: "ws_inv s \<Longrightarrow> ws_inv (fst (start_protocolFailure cause code s))"
  by (auto simp: start_protocolFailure_def is_close_report_def intro: ws_inv_effect)

lemma length_0_1: "length p \<noteq> Suc 0 \<Longrightarrow> \<not> 2 \<le> length p \<Longrightarrow> p = []"
  by (cases p; cases "tl p") auto

lemma close_payload_legal:
  assumes "close_payload p = Inr (code, reason)" and "length p \<le> 125"
  shows "legal_close_payload p"
  using assms
  by (auto simp: close_payload_def legal_close_payload_def close_code_ok_def Let_def
      dest: length_0_1 split: if_splits option.splits)

lemma start_receiveClose_inv:
  assumes "ws_inv s" and "readyState s = CLOSED \<Longrightarrow> sentClose s" and "length p \<le> 125"
  shows "ws_inv (fst (start_receiveClose p s))"
proof (cases "close_payload p")
  case (Inl cause)
  then show ?thesis using assms(1) by (simp add: start_receiveClose_def start_protocolFailure_inv)
next
  case (Inr cr)
  then obtain code reason where cr: "close_payload p = Inr (code, reason)" by (cases cr) auto
  let ?s = "s\<lparr>receivedClose := True, closeCode := code, closeReason := reason\<rparr>"
  have inv: "ws_inv ?s" using assms(1) by (auto intro: ws_inv_cong)
  show ?thesis
    using cr start_finishTransport_inv [OF inv]
      ws_inv_close_frame [OF inv _ _ close_payload_legal [OF cr assms(3)]] assms(2)
    by (auto simp: start_receiveClose_def writeFrame_def Let_def split: prod.splits)
qed

lemma message_of_legal: "message_of opcode p = Inr m \<Longrightarrow> length p \<le> limit \<Longrightarrow> legal_effect limit (OnMessage m)"
  by (auto simp: message_of_def utf8_length_ok_def split: if_splits option.splits)

text \<open>The part of \<open>#handleFrame\<close> for the data opcodes.\<close>

lemma start_handleFrame_inv:
  assumes inv: "ws_inv s" and "readyState s = CLOSED \<Longrightarrow> sentClose s" and control: "opcode \<ge> 8 \<Longrightarrow> length p \<le> 125"
  shows "ws_inv (fst (start_handleFrame fin opcode p s))"
proof -
  let ?append = "\<lambda>s. s\<lparr>fragmentBytes := fragmentBytes s + length p\<rparr>"
  have grow: "ws_inv (?append t)" if "ws_inv t" for t
    using that by (auto intro: ws_inv_cong)
  have store: "ws_inv (t\<lparr>fragments := fragments t @ [p]\<rparr>)"
    if "ws_inv t" "fragmentBytes t = fragmentBytes u + length p" "fragments t = fragments u"
      "ws_inv u" "fragmentBytes t \<le> maxMessageBytes t" for t u
    using that by (auto simp: ws_inv_def close_reports_def)
  have op: "ws_inv (s\<lparr>fragmentOpcode := n\<rparr>)" for n
    using inv by (auto intro: ws_inv_cong)
  have reset: "ws_inv (s\<lparr>fragments := [], fragmentOpcode := 0, fragmentBytes := 0\<rparr>)"
    using inv by (auto simp: ws_inv_def close_reports_def)
  have len: "length (concat (fragments s @ [p])) \<le> maxMessageBytes s"
    if "fragmentBytes s + length p \<le> maxMessageBytes s"
    using that inv by (simp add: ws_inv_def)
  have deliver: "ws_inv (effect x (s\<lparr>fragments := [], fragmentOpcode := 0, fragmentBytes := 0\<rparr>))"
    if "\<not> is_close_report x" "legal_effect (maxMessageBytes s) x" for x
    using that by (intro ws_inv_effect reset) auto
  consider "opcode = 8" | "opcode = 9" | "opcode \<notin> {8, 9}" "\<not> fin" | "opcode \<notin> {8, 9}" "fin" by blast
  then show ?thesis
  proof cases
    case 1
    then show ?thesis
      using assms by (simp add: start_handleFrame_def start_receiveClose_inv)
  next
    case 2
    then show ?thesis
      using inv control ws_inv_control_frame [of s 10 p] by (simp add: start_handleFrame_def writeFrame_def)
  next
    case 3
    then show ?thesis
      using inv op grow [OF inv] grow [OF op] store [OF grow [OF inv] _ _ inv] store [OF grow [OF op] _ _ op]
      by (auto simp: start_handleFrame_def Let_def start_protocolFailure_inv)
  next
    case 4
    let ?m = "if fragments s = [] then p else concat_bytes (fragments s @ [p])"
    have m: "length ?m \<le> maxMessageBytes s" if "fragmentBytes s + length p \<le> maxMessageBytes s"
      using len [OF that] by auto
    from 4 show ?thesis
      using inv deliver message_of_legal [OF _ m]
      by (auto simp: start_handleFrame_def Let_def start_protocolFailure_inv is_close_report_def
          split: sum.splits)
  qed
qed

text \<open>A connection that is closed without a close frame has no input left to read.\<close>

definition calm :: "ws_connection \<Rightarrow> bool" where
  "calm s \<longleftrightarrow> (readyState s = CLOSED \<and> \<not> sentClose s \<longrightarrow> buffer s = []) \<and> (closeTimer s \<longrightarrow> sentClose s)"

lemma parse_frame_Nil [simp]: "parse_frame m [] = FrameMore"
  by (simp add: parse_frame_def)

lemma start_readFrame_inv:
  assumes "ws_inv s" and "calm s"
  shows "ws_inv (fst (start_readFrame s))"
proof (cases "parse_frame (maxMessageBytes s) (buffer s)")
  case (Frame fin opcode payload rest)
  let ?s = "s\<lparr>buffer := rest, framesRead := framesRead s @ [(fin, opcode, payload)]\<rparr>"
  have "buffer s \<noteq> []" using Frame by auto
  then have closed: "readyState ?s = CLOSED \<Longrightarrow> sentClose ?s" using assms(2) by (auto simp: calm_def)
  have "ws_inv ?s" using assms(1) by (auto intro: ws_inv_cong)
  then have "ws_inv (fst (start_handleFrame fin opcode payload ?s))"
    using closed parse_frame_payload(4) [OF Frame] by (intro start_handleFrame_inv) auto
  then show ?thesis using Frame by (auto simp: start_readFrame_def split: prod.splits)
qed (use assms in \<open>auto simp: start_readFrame_def start_protocolFailure_inv\<close>)

lemma start_round_inv: "ws_inv s \<Longrightarrow> calm s \<Longrightarrow> ws_inv (fst (start_round s))"
  by (simp add: start_round_def start_readFrame_inv)

lemma start_receiveData_inv:
  assumes "ws_inv s" and "calm s"
  shows "ws_inv (fst (start_receiveData bs s))"
proof -
  let ?joined = "s\<lparr>buffer := buffer s @ bs, arrived := arrived s @ bs\<rparr>"
  have "ws_inv (fst (start_round ?joined))" if "readyState s \<noteq> CLOSED"
    using assms that by (intro start_round_inv) (auto simp: calm_def intro: ws_inv_cong)
  moreover have "ws_inv (s\<lparr>pendingInput := pendingInput s @ bs\<rparr>)" using assms(1) by (auto intro: ws_inv_cong)
  ultimately show ?thesis using assms(1) by (auto simp: start_receiveData_def Let_def start_protocolFailure_inv)
qed

lemma start_accept_inv:
  assumes "ws_inv s" and "calm s"
  shows "ws_inv (fst (start_accept proto s))"
proof (cases "readyState s = CONNECTING")
  case True
  have opened: "ws_inv (s\<lparr>protocol := q, readyState := OPEN\<rparr>)"
    and empty: "ws_inv (s\<lparr>protocol := q, readyState := OPEN, pendingInput := []\<rparr>)"
    and quiet: "calm (s\<lparr>protocol := q, readyState := OPEN, pendingInput := []\<rparr>)" for q
    using assms True by (auto simp: ws_inv_def close_reports_def calm_def)
  show ?thesis
    using assms True opened start_receiveData_inv [OF empty quiet]
    by (auto simp: start_accept_def selectProtocol_def Let_def split: sum.splits option.splits)
qed (use assms in \<open>simp add: start_accept_def\<close>)

lemma start_receiveEnd_inv: "ws_inv s \<Longrightarrow> ws_inv (fst (start_receiveEnd reason s))"
  using ws_inv_effect [of s TransportAbort]
  by (auto simp: start_receiveEnd_def Let_def start_protocolFailure_inv is_close_report_def
      intro!: start_finish_inv)

lemma start_timer_inv: "ws_inv s \<Longrightarrow> ws_inv (fst (start_timer s))"
  unfolding start_timer_def
  by (intro start_finish_inv ws_inv_effect) (auto simp: is_close_report_def intro: ws_inv_cong)

lemma resume_inv: "ws_inv s \<Longrightarrow> calm s \<Longrightarrow> ws_inv (fst (resume k r s))"
  using start_finishTransport_inv [of s] start_close_inv [of s] ws_inv_cong [of s "armCloseTimer s"]
  by (cases "(k, r, s)" rule: resume.cases)
    (auto simp: armCloseTimer_def is_close_report_def start_round_inv
      intro!: ws_inv_effect start_finish_inv split: prod.splits)

lemma run_task_conn: "fst (run_task s t) = s \<or> (\<exists>k r. fst (run_task s t) = fst (resume k r s))"
  by (cases t; cases "settled_outcome s (fst t)"; cases "snd t") (auto split: prod.splits, metis fst_conv)

lemma run_task_inv: "ws_inv s \<Longrightarrow> calm s \<Longrightarrow> ws_inv (fst (run_task s t))"
  using run_task_conn [of s t] resume_inv [of s] by auto

lemmas start_invs = start_send_inv start_close_inv start_accept_inv start_receiveData_inv
  start_receiveEnd_inv start_timer_inv

lemma conn_spawn: "conn (spawn start sys) = fst (start (conn sys))"
  by (simp add: spawn_def split: prod.splits)

lemma conn_settle_task [simp]: "conn (settle_task i p r sys) = conn sys"
  by (simp add: settle_task_def)

lemma settle_inv: "ws_inv s \<Longrightarrow> length (settled s) < length (frames s) \<Longrightarrow> ws_inv (s\<lparr>settled := settled s @ [r]\<rparr>)"
  by (auto simp: ws_inv_def close_reports_def)

section \<open>What suspended calls rely on\<close>

text \<open>The codes \<open>#protocolFailure\<close> is called with can be sent.\<close>

lemma read_length_fail_code: "read_length buf l = LengthFail cause code \<Longrightarrow> code \<in> {1002, 1009}"
  by (auto simp: read_length_def Let_def split: if_splits)

lemma parse_frame_fail_code: "parse_frame m buf = FrameFail cause code \<Longrightarrow> code \<in> {1002, 1009}"
  by (auto simp: parse_frame_def Let_def dest: read_length_fail_code split: if_splits length_result.splits)

lemma failure_code_valid: "code \<in> {1002, 1009} \<Longrightarrow> validateCloseCode (IntegerNumber (int code))"
  by (auto simp: validateCloseCode_def)

definition failure_text :: "nat \<Rightarrow> code_points" where
  "failure_text code = ascii (if code = 1009 then ''Message too large'' else ''Protocol error'')"

lemma failure_text_short: "length (utf8_encode (failure_text code)) \<le> 123"
  by (simp add: failure_text_def ascii_def utf8_encode_def utf8_units_def)

text \<open>A continuation that finishes the connection runs after the close frame, or after another call has finished it.\<close>

fun point_ok :: "ws_connection \<Rightarrow> continuation_point \<Rightarrow> bool" where
  "point_ok s AfterCloseWrite = sentClose s"
| "point_ok s (AfterFailureReport code) = (code \<in> {1002, 1009})"
| "point_ok s AfterFailureClose = (sentClose s \<or> readyState s = CLOSED)"
| "point_ok s AfterFailureTransport = (sentClose s \<or> readyState s = CLOSED)"
| "point_ok s (AfterCloseReply _ _) = (sentClose s \<or> readyState s = CLOSED)"
| "point_ok s (AfterPeerTransport _ _) = (sentClose s \<or> readyState s = CLOSED)"
| "point_ok s _ = True"

definition later :: "ws_connection \<Rightarrow> ws_connection \<Rightarrow> bool" where
  "later s t \<longleftrightarrow> (sentClose s \<longrightarrow> sentClose t) \<and> (readyState s = CLOSED \<longrightarrow> readyState t = CLOSED)"

lemma point_ok_later: "later s t \<Longrightarrow> point_ok s k \<Longrightarrow> point_ok t k"
  by (cases k) (auto simp: later_def)

lemma later_trans: "later s t \<Longrightarrow> later t u \<Longrightarrow> later s u"
  by (simp add: later_def)

text \<open>What a piece of code leaves: the connection, and the continuations of its caller.\<close>

definition keeps :: "ws_connection \<Rightarrow> ws_connection \<times> suspended \<Rightarrow> bool" where
  "keeps s r \<longleftrightarrow> later s (fst r) \<and> calm (fst r) \<and> list_all (point_ok (fst r)) (snd (snd r))"

lemma keeps_awaited: "keeps s r \<Longrightarrow> point_ok (fst r) k \<Longrightarrow> keeps s (awaited r k)"
  by (simp add: keeps_def)

lemma keeps_later: "later s t \<Longrightarrow> keeps t r \<Longrightarrow> keeps s r"
  using later_trans by (auto simp: keeps_def)

lemmas keeps_defs = keeps_def later_def calm_def writeFrame_def effect_def start_finishTransport_def start_protocolFailure_def

lemma finish_keeps: "calm s \<Longrightarrow> sentClose s \<or> readyState s = CLOSED \<or> buffer s = [] \<Longrightarrow> keeps s (start_finish code reason s)"
  by (auto simp: start_finish_def keeps_defs)

lemma transport_keeps: "calm s \<Longrightarrow> keeps s (start_finishTransport s)"
  by (simp add: keeps_defs)

lemma failure_keeps: "calm s \<Longrightarrow> code \<in> {1002, 1009} \<Longrightarrow> keeps s (start_protocolFailure cause code s)"
  by (auto simp: keeps_defs)

lemma close_keeps: "calm s \<Longrightarrow> keeps s (start_close code reason s)"
  by (auto simp: start_close_def keeps_defs split: option.split)

lemma close_sends:
  "code \<in> {1002, 1009} \<Longrightarrow> sentClose (fst (start_close (IntegerNumber (int code)) (Some (failure_text code)) s)) \<or> readyState s = CLOSED"
  using failure_text_short [of code] failure_code_valid [of code] by (auto simp: start_close_def writeFrame_def)

lemma send_keeps: "calm s \<Longrightarrow> keeps s (start_send data s)"
  by (auto simp: start_send_def keeps_defs split: sum.split send_data.split)

lemma receiveClose_keeps: "calm s \<Longrightarrow> readyState s = CLOSED \<longrightarrow> sentClose s \<Longrightarrow> keeps s (start_receiveClose p s)"
  by (cases "readyState s = CLOSED") (auto simp: start_receiveClose_def Let_def keeps_defs split: sum.split)

lemma handleFrame_keeps:
  assumes "calm s" and "readyState s = CLOSED \<longrightarrow> sentClose s"
  shows "keeps s (start_handleFrame fin opcode p s)"
proof (cases "opcode = 8")
  case True
  then show ?thesis using receiveClose_keeps [OF assms] by (simp add: start_handleFrame_def)
next
  case False
  then show ?thesis using assms
    by (auto simp: start_handleFrame_def Let_def keeps_defs split: sum.split)
qed

lemma readFrame_keeps:
  assumes "calm s"
  shows "keeps s (start_readFrame s)"
proof (cases "parse_frame (maxMessageBytes s) (buffer s)")
  case FrameMore
  then show ?thesis using assms by (simp add: start_readFrame_def keeps_def later_def)
next
  case (FrameFail cause code)
  then show ?thesis
    using keeps_awaited [OF failure_keeps [OF assms parse_frame_fail_code [OF FrameFail]], where k = AfterInvalidFrame]
    by (simp add: start_readFrame_def)
next
  case (Frame fin opcode payload rest)
  let ?s = "s\<lparr>buffer := rest, framesRead := framesRead s @ [(fin, opcode, payload)]\<rparr>"
  have "buffer s \<noteq> []" using Frame by auto
  then have closed: "readyState ?s = CLOSED \<longrightarrow> sentClose ?s" and "calm ?s" using assms by (auto simp: calm_def)
  then have "keeps ?s (start_handleFrame fin opcode payload ?s)" by (intro handleFrame_keeps)
  then have "keeps s (start_handleFrame fin opcode payload ?s)" by (rule keeps_later [rotated]) (simp add: later_def)
  then show ?thesis by (simp add: start_readFrame_def Frame keeps_awaited)
qed

lemma round_keeps: "calm s \<Longrightarrow> keeps s (start_round s)"
  by (simp add: start_round_def readFrame_keeps keeps_awaited)

lemma receiveData_keeps:
  assumes "calm s"
  shows "keeps s (start_receiveData bs s)"
proof -
  let ?joined = "s\<lparr>buffer := buffer s @ bs, arrived := arrived s @ bs\<rparr>"
  have "keeps s (start_round ?joined)" if "readyState s \<noteq> CLOSED"
    using assms that by (intro keeps_later [OF _ round_keeps]) (auto simp: later_def calm_def)
  then show ?thesis using assms by (auto simp: start_receiveData_def Let_def keeps_defs)
qed

lemma accept_keeps:
  assumes "calm s"
  shows "keeps s (start_accept proto s)"
proof (cases "readyState s = CONNECTING")
  case True
  have "keeps s (start_receiveData bs (s\<lparr>protocol := q, readyState := OPEN, pendingInput := []\<rparr>))" for q bs
    using assms True by (intro keeps_later [OF _ receiveData_keeps]) (auto simp: later_def calm_def)
  then show ?thesis
    using assms True by (auto simp: start_accept_def selectProtocol_def Let_def keeps_def later_def calm_def split: sum.split option.split)
qed (use assms in \<open>simp add: start_accept_def keeps_def later_def\<close>)

lemma receiveEnd_keeps: "calm s \<Longrightarrow> keeps s (start_receiveEnd reason s)"
  using failure_keeps [of s 1002 EndedInsideFrame]
  by (auto simp: start_receiveEnd_def Let_def start_finish_def keeps_defs)

lemma timer_keeps: "calm s \<Longrightarrow> closeTimer s \<Longrightarrow> keeps s (start_timer s)"
  by (auto simp: start_timer_def start_finish_def keeps_defs)

lemma resume_keeps: "calm s \<Longrightarrow> point_ok s k \<Longrightarrow> keeps s (resume k r s)"
proof -
  assume calm: "calm s" and ok: "point_ok s k"
  show ?thesis
  proof (cases "(k, r, s)" rule: resume.cases)
    case (9 code v)
    then have "code \<in> {1002, 1009}" using ok by simp
    note close = close_sends [OF this, of s] close_keeps [OF calm, of "IntegerNumber (int code)" "Some (failure_text code)"]
    show ?thesis
    proof (cases "\<not> sentClose s \<and> readyState s \<noteq> CLOSED")
      case True
      then show ?thesis using 9 close by (simp add: failure_text_def [symmetric] keeps_awaited)
    next
      case False
      then show ?thesis using 9 calm by (auto simp: keeps_defs)
    qed
  qed (use calm ok finish_keeps close_keeps transport_keeps round_keeps in
      \<open>auto simp: keeps_def later_def armCloseTimer_def effect_def calm_def start_finishTransport_def\<close>)
qed

lemma run_task_keeps:
  assumes "calm s" and "list_all (point_ok s) (snd t)"
  shows "keeps s (run_task s t)"
proof -
  obtain p ks where t: "t = (p, ks)" by (cases t)
  have still: "keeps s (s, q)" if "list_all (point_ok s) (snd q)" for q using that assms(1) by (simp add: keeps_def later_def)
  show ?thesis
  proof (cases "settled_outcome s p")
    case None
    then show ?thesis using assms(2) still by (simp add: t)
  next
    case (Some r)
    show ?thesis
    proof (cases ks)
      case Nil
      then show ?thesis using Some still by (simp add: t)
    next
      case (Cons k ks')
      have rest: "list_all (point_ok s) ks'" and "point_ok s k" using assms(2) by (simp_all add: t Cons)
      have k: "keeps s (resume k r s)" by (rule resume_keeps [OF assms(1) \<open>point_ok s k\<close>])
      then have "list_all (point_ok (fst (resume k r s))) ks'"
        using rest point_ok_later by (auto simp: keeps_def list_all_iff)
      moreover obtain s' p' new where "resume k r s = (s', p', new)" by (cases "resume k r s") auto
      ultimately show ?thesis using k Some by (simp add: t Cons keeps_def)
    qed
  qed
qed

section \<open>Every run\<close>

definition ws_ok :: "ws_system \<Rightarrow> bool" where
  "ws_ok sys \<longleftrightarrow> ws_inv (conn sys) \<and> calm (conn sys) \<and> list_all (\<lambda>t. list_all (point_ok (conn sys)) (snd t)) (tasks sys)"

lemma list_all_update: "list_all P xs \<Longrightarrow> P x \<Longrightarrow> list_all P (xs[i := x])"
  using set_update_subset_insert [of xs i x] by (auto simp: list_all_iff)

lemma later_tasks: "later s s' \<Longrightarrow> list_all (\<lambda>t. list_all (point_ok s) (snd t)) ts \<Longrightarrow> list_all (\<lambda>t. list_all (point_ok s') (snd t)) ts"
  using point_ok_later by (auto simp: list_all_iff)

lemma spawn_ok:
  assumes "ws_ok sys" and "ws_inv (fst (start (conn sys)))" and "keeps (conn sys) (start (conn sys))"
  shows "ws_ok (spawn start sys)"
  using assms later_tasks [of "conn sys" "fst (start (conn sys))" "tasks sys"]
  by (auto simp: ws_ok_def spawn_def keeps_def split: prod.split)

lemma same_stage_ok:
  assumes "ws_ok sys" and "ws_inv s" and "calm s" and "sentClose s = sentClose (conn sys)" and "readyState s = readyState (conn sys)"
  shows "ws_ok (sys\<lparr>conn := s\<rparr>)"
  using assms later_tasks [of "conn sys" s "tasks sys"] by (simp add: ws_ok_def later_def)

lemma settle_task_ok: "ws_ok sys \<Longrightarrow> ws_ok (settle_task i p r sys)"
  by (auto simp: ws_ok_def settle_task_def list_all_length nth_list_update)

lemma ws_step_ok:
  assumes "ws_ok sys"
  shows "ws_ok (ws_step sys e)"
proof -
  have inv: "ws_inv (conn sys)" and calm: "calm (conn sys)" using assms by (simp_all add: ws_ok_def)
  show ?thesis
  proof (cases e)
    case (RunTask i)
    show ?thesis
    proof (cases "i < length (tasks sys)")
      case True
      let ?t = "tasks sys ! i"
      obtain s t where st: "run_task (conn sys) ?t = (s, t)" by (cases "run_task (conn sys) ?t")
      have "list_all (point_ok (conn sys)) (snd ?t)" using assms True by (simp add: ws_ok_def list_all_length)
      from run_task_keeps [OF calm this] have k: "keeps (conn sys) (s, t)" by (simp add: st)
      then have "list_all (\<lambda>t. list_all (point_ok s) (snd t)) (tasks sys)"
        using assms later_tasks by (auto simp: ws_ok_def keeps_def)
      then have "list_all (\<lambda>t. list_all (point_ok s) (snd t)) ((tasks sys)[i := t])"
        using k by (intro list_all_update) (simp_all add: keeps_def)
      moreover have "ws_inv s" using run_task_inv [OF inv calm, of ?t] by (simp add: st)
      ultimately show ?thesis using k True by (simp add: RunTask st ws_ok_def keeps_def)
    qed (use assms in \<open>simp add: RunTask\<close>)
  next
    case (WriteSettles r)
    have "calm ((conn sys)\<lparr>settled := settled (conn sys) @ [r]\<rparr>)" using calm by (simp add: calm_def)
    then show ?thesis using assms inv by (auto simp: WriteSettles settle_inv intro!: same_stage_ok)
  qed (use assms inv calm in \<open>auto intro!: spawn_ok start_invs settle_task_ok intro: send_keeps close_keeps accept_keeps receiveData_keeps
      receiveEnd_keeps timer_keeps\<close>)
qed

lemma ws_ok_new: "ws_ok (new_system limit offered)"
  by (simp add: ws_ok_def new_system_def ws_inv_new) (simp add: calm_def new_connection_def)

lemma ws_ok_inv: "ws_ok sys \<Longrightarrow> ws_inv (conn sys)"
  by (simp add: ws_ok_def)

interpretation ws: invariant_machine ws_step ws_ok
  by unfold_locales (rule ws_step_ok)

lemma ws_run_ok: "ws_ok sys \<Longrightarrow> ws_ok (ws_run sys es)"
  unfolding ws_run_def by (rule ws.run_inv)

lemma reachable_inv: "ws_inv (conn (ws_run (new_system limit offered) es))"
  by (rule ws_ok_inv [OF ws_run_ok [OF ws_ok_new]])

section \<open>Properties\<close>

text \<open>C1: Whatever the application, the peer, the transport and the event loop do, and in whatever
  order: a connection writes at most one close frame, exactly when it has decided to close; no data
  frame follows it; every frame it writes is final, unmasked and of legal size, and a close frame
  carries a legal code; the application gets no message above the limit, and one close report
  exactly when the connection is closed.\<close>

theorem every_run_safe:
  "(let s = conn (ws_run (new_system limit offered) es) in
     close_frames (frames s) = (if sentClose s then 1 else 0)
     \<and> no_data_after_close (frames s)
     \<and> list_all (legal_frame (maxMessageBytes s)) (frames s)
     \<and> list_all (legal_effect (maxMessageBytes s)) (effects s)
     \<and> close_reports s = (if readyState s = CLOSED then 1 else 0))"
  using reachable_inv [of limit offered es] by (simp add: ws_inv_def Let_def)

text \<open>C39: The buffered fragments of an unfinished message never exceed the message limit, in any run.\<close>

theorem fragments_bounded:
  "(let s = conn (ws_run (new_system limit offered) es) in
     length (concat (fragments s)) \<le> maxMessageBytes s)"
  using reachable_inv [of limit offered es] by (simp add: ws_inv_def Let_def)

end
