(* ===== verification/Ws_Handshake.thy ===== *)
theory Ws_Handshake
  imports Ws_Safety
begin

text \<open>
  What the class promises of the life of a connection, as an abstract machine over the ready state
  and the two close flags, and that the model refines it: every event is a sequence of steps of that
  machine; and that the ready state never moves back.
\<close>

section \<open>The abstract handshake\<close>

text \<open>The close frame of the peer may also be read just after the connection was closed: the loop of \<open>receiveData\<close> looks at the state
  one microtask before it reads the next frame.\<close>

type_synonym phase = "ready_state \<times> bool \<times> bool"

definition phase :: "ws_connection \<Rightarrow> phase" where
  "phase s = (readyState s, sentClose s, receivedClose s)"

inductive handshake :: "phase \<Rightarrow> phase \<Rightarrow> bool" where
  accepted: "handshake (CONNECTING, False, r) (OPEN, False, r)"
| close_sent: "st < CLOSING \<Longrightarrow> handshake (st, False, r) (CLOSING, True, r)"
| close_answered: "st < CLOSING \<Longrightarrow> handshake (st, False, r) (CLOSING, True, True)"
| answer_received: "CLOSING \<le> st \<Longrightarrow> handshake (st, True, r) (st, True, True)"
| finished: "st < CLOSED \<Longrightarrow> handshake (st, sc, r) (CLOSED, sc, r)"

inductive_cases handshake_from_CLOSED: "handshake (CLOSED, sc, r) q"
inductive_simps handshake_to_OPEN: "handshake p (OPEN, sc, r)"

lemma not_closed_less: "st \<noteq> CLOSED \<longleftrightarrow> st < CLOSED"
  by (cases st) (auto simp: less_ready_state_def)

lemma less_closing: "st < CLOSING \<longleftrightarrow> st = CONNECTING \<or> st = OPEN"
  by (cases st) (auto simp: less_ready_state_def)

lemma closed_is_final: "handshake\<^sup>*\<^sup>* p q \<Longrightarrow> fst p = CLOSED \<Longrightarrow> fst q = CLOSED \<and> fst (snd q) = fst (snd p)"
  by (induction rule: rtranclp_induct) (auto elim!: handshake_from_CLOSED simp: less_ready_state_def less_eq_ready_state_def)

section \<open>Every event is a sequence of abstract steps\<close>

abbreviation reaches :: "ws_connection \<Rightarrow> ws_connection \<Rightarrow> bool" where
  "reaches s t \<equiv> handshake\<^sup>*\<^sup>* (phase s) (phase t)"

lemma phase_effect [simp]: "phase (effect x s) = phase s"
  by (simp add: phase_def effect_def)

lemma phase_fields [simp]:
  "phase (s\<lparr>closeTimer := b\<rparr>) = phase s"
  "phase (s\<lparr>settled := rs\<rparr>) = phase s"
  by (simp_all add: phase_def)

lemma phase_frames [simp]: "phase (fst (writeFrame opcode p s)) = phase s"
  by (simp add: phase_def writeFrame_def)

lemma start_finish_phase: "reaches s (fst (start_finish code reason s))"
  by (cases "readyState s = CLOSED")
    (auto simp: start_finish_def phase_def effect_def not_closed_less intro: r_into_rtranclp handshake.finished)

lemma start_close_phase: "ws_inv s \<Longrightarrow> reaches s (fst (start_close code reason s))"
  by (cases "readyState s")
    (auto simp: start_close_def phase_def writeFrame_def ws_inv_def less_ready_state_def
      intro!: r_into_rtranclp handshake.close_sent split: option.splits)

lemma start_send_phase: "reaches s (fst (start_send data s))"
  by (auto simp: start_send_def phase_def writeFrame_def split: sum.splits send_data.splits)

lemma start_finishTransport_phase [simp]: "phase (fst (start_finishTransport s)) = phase s"
  by (simp add: start_finishTransport_def phase_def)

lemma start_protocolFailure_phase [simp]: "phase (fst (start_protocolFailure cause code s)) = phase s"
  by (simp add: start_protocolFailure_def)

lemma start_receiveClose_phase:
  assumes "ws_inv s" and "readyState s = CLOSED \<Longrightarrow> sentClose s"
  shows "reaches s (fst (start_receiveClose p s))"
  using assms
  by (cases "readyState s"; cases "sentClose s")
    (auto simp: start_receiveClose_def phase_def writeFrame_def start_finishTransport_def Let_def
      ws_inv_def less_ready_state_def less_eq_ready_state_def start_protocolFailure_def effect_def
      intro!: r_into_rtranclp handshake.close_answered handshake.answer_received
      split: sum.splits prod.splits)

lemma start_handleFrame_phase:
  assumes "ws_inv s" and "readyState s = CLOSED \<Longrightarrow> sentClose s"
  shows "reaches s (fst (start_handleFrame fin opcode p s))"
proof (cases "opcode = 8")
  case True
  then show ?thesis using start_receiveClose_phase [OF assms] by (simp add: start_handleFrame_def)
next
  case False
  then have "phase (fst (start_handleFrame fin opcode p s)) = phase s"
    by (auto simp: start_handleFrame_def phase_def writeFrame_def start_protocolFailure_def effect_def Let_def
        split: sum.splits)
  then show ?thesis by simp
qed

lemma start_round_phase:
  assumes "ws_inv s" and "calm s"
  shows "reaches s (fst (start_round s))"
proof (cases "parse_frame (maxMessageBytes s) (buffer s)")
  case (Frame fin opcode payload rest)
  let ?s = "s\<lparr>buffer := rest, framesRead := framesRead s @ [(fin, opcode, payload)]\<rparr>"
  have "buffer s \<noteq> []" using Frame by auto
  then have closed: "readyState ?s = CLOSED \<Longrightarrow> sentClose ?s" using assms(2) by (auto simp: calm_def)
  have "ws_inv ?s" using assms(1) by (auto intro: ws_inv_cong)
  from start_handleFrame_phase [OF this closed, of fin opcode payload]
  show ?thesis using Frame by (simp add: start_round_def start_readFrame_def phase_def)
qed (simp_all add: start_round_def start_readFrame_def)

lemma start_receiveData_phase:
  assumes "ws_inv s" and "calm s"
  shows "reaches s (fst (start_receiveData bs s))"
proof -
  let ?joined = "s\<lparr>buffer := buffer s @ bs, arrived := arrived s @ bs\<rparr>"
  have "reaches s (fst (start_round ?joined))" if "readyState s \<noteq> CLOSED"
  proof -
    have "ws_inv ?joined" "calm ?joined" using assms that by (auto simp: calm_def intro: ws_inv_cong)
    from start_round_phase [OF this] show ?thesis by (simp add: phase_def)
  qed
  then show ?thesis
    by (auto simp: start_receiveData_def phase_def Let_def start_protocolFailure_def effect_def)
qed

lemma opened_phase:
  assumes "ws_inv s" and "calm s" and "readyState s = CONNECTING"
  shows "reaches s (s\<lparr>readyState := OPEN\<rparr>)"
    and "reaches s (fst (start_receiveData bs (s\<lparr>readyState := OPEN, pendingInput := []\<rparr>)))"
proof -
  let ?open = "s\<lparr>readyState := OPEN, pendingInput := []\<rparr>"
  have step: "handshake (phase s) (phase ?open)"
    using assms by (auto simp: phase_def ws_inv_def intro: handshake.accepted)
  then show "reaches s (s\<lparr>readyState := OPEN\<rparr>)" by (auto simp: phase_def)
  have "ws_inv ?open" "calm ?open" using assms by (auto simp: ws_inv_def close_reports_def calm_def)
  from start_receiveData_phase [OF this] step
  show "reaches s (fst (start_receiveData bs ?open))"
    by (rule converse_rtranclp_into_rtranclp [rotated])
qed

lemma selectProtocol_inv:
  "selectProtocol proto s = Inr t \<Longrightarrow> ws_inv s \<Longrightarrow> calm s \<Longrightarrow> ws_inv t \<and> calm t \<and> phase t = phase s \<and> readyState t = readyState s"
  by (auto simp: selectProtocol_def phase_def calm_def split: if_splits intro: ws_inv_cong)

lemma start_accept_phase:
  assumes "ws_inv s" and "calm s"
  shows "reaches s (fst (start_accept proto s))"
proof (cases "readyState s = CONNECTING")
  case True
  let ?q = "case proto of None \<Rightarrow> protocol s | Some p \<Rightarrow> p"
  show ?thesis
  proof (cases "selectProtocol ?q s")
    case (Inl e)
    then show ?thesis using True by (simp add: start_accept_def)
  next
    case (Inr t)
    from selectProtocol_inv [OF Inr assms] True opened_phase [of t] show ?thesis
      by (auto simp: start_accept_def Inr Let_def)
  qed
qed (simp add: start_accept_def)

lemma start_receiveEnd_phase: "reaches s (fst (start_receiveEnd reason s))"
  using start_finish_phase [of s] start_finish_phase [of "effect TransportAbort s"]
  by (auto simp: start_receiveEnd_def Let_def)

lemma start_timer_phase: "reaches s (fst (start_timer s))"
  using start_finish_phase [of "effect TransportAbort (s\<lparr>closeTimer := False\<rparr>)" 1006 "[]"]
  by (simp add: start_timer_def)

lemmas start_phases = start_send_phase start_close_phase start_accept_phase start_receiveData_phase
  start_receiveEnd_phase start_timer_phase

lemma resume_phase: "ws_inv s \<Longrightarrow> calm s \<Longrightarrow> reaches s (fst (resume k r s))"
  by (cases "(k, r, s)" rule: resume.cases)
    (auto simp: start_finish_phase start_close_phase start_round_phase armCloseTimer_def)

lemma run_task_phase: "ws_inv s \<Longrightarrow> calm s \<Longrightarrow> reaches s (fst (run_task s t))"
  using run_task_conn [of s t] resume_phase [of s] by auto

lemma ws_step_phase:
  assumes "ws_ok sys"
  shows "reaches (conn sys) (conn (ws_step sys e))"
proof -
  have ok: "ws_inv (conn sys)" "calm (conn sys)" using assms by (simp_all add: ws_ok_def)
  show ?thesis
  proof (cases e)
    case (RunTask i)
    then have "conn (ws_step sys e) \<in> {conn sys, fst (run_task (conn sys) (tasks sys ! i))}"
      by (simp split: prod.splits)
    then show ?thesis using run_task_phase [OF ok] by (metis insertE rtranclp.rtrancl_refl singletonD)
  qed (use ok in \<open>auto simp: conn_spawn intro: start_phases\<close>)
qed

lemma ws_run_phase: "ws_ok sys \<Longrightarrow> reaches (conn sys) (conn (ws_run sys es))"
proof (induction es arbitrary: sys)
  case Nil
  show ?case by (simp add: ws_run_def)
next
  case (Cons e es)
  then show ?case
    using ws_step_phase [of sys e] ws_step_ok [of sys e]
    by (auto simp: ws_run_def intro: rtranclp_trans)
qed

section \<open>The ready state only moves forward\<close>

lemma start_ranks:
  "readyState s \<le> readyState (fst (start_send data s))"
  "readyState s \<le> readyState (fst (start_finish n reason s))"
  "readyState s \<le> readyState (fst (start_finishTransport s))"
  "readyState s \<le> readyState (fst (start_close code text s))"
  "readyState s \<le> readyState (fst (start_protocolFailure cause n s))"
  "readyState s \<le> readyState (fst (start_timer s))"
  "readyState s \<le> readyState (fst (start_receiveEnd end_reason s))"
  by (cases "readyState s";
      auto simp: start_send_def start_finish_def start_finishTransport_def start_close_def
        start_protocolFailure_def start_timer_def start_receiveEnd_def writeFrame_def effect_def
        less_eq_ready_state_def Let_def split: sum.splits send_data.splits option.splits)+

lemma start_receiveClose_rank:
  "readyState s = CLOSED \<longrightarrow> sentClose s \<Longrightarrow> readyState s \<le> readyState (fst (start_receiveClose p s))"
  by (cases "readyState s"; cases "sentClose s")
    (auto simp: start_receiveClose_def start_finishTransport_def start_protocolFailure_def writeFrame_def
      effect_def less_eq_ready_state_def Let_def split: sum.splits)

lemma start_handleFrame_rank:
  assumes "readyState s = CLOSED \<longrightarrow> sentClose s"
  shows "readyState s \<le> readyState (fst (start_handleFrame fin opcode p s))"
proof (cases "opcode = 8")
  case True
  then show ?thesis using assms by (simp add: start_handleFrame_def start_receiveClose_rank)
next
  case False
  then have "readyState (fst (start_handleFrame fin opcode p s)) = readyState s"
    by (auto simp: start_handleFrame_def writeFrame_def start_protocolFailure_def effect_def Let_def
        split: sum.splits)
  then show ?thesis by simp
qed

lemma start_round_rank: "calm s \<Longrightarrow> readyState s \<le> readyState (fst (start_round s))"
proof (cases "parse_frame (maxMessageBytes s) (buffer s)")
  case (Frame fin opcode payload rest)
  assume "calm s"
  moreover have "buffer s \<noteq> []" using Frame by auto
  ultimately show ?thesis
    using start_handleFrame_rank [of "s\<lparr>buffer := rest, framesRead := framesRead s @ [(fin, opcode, payload)]\<rparr>" fin opcode payload] Frame
    by (auto simp: start_round_def start_readFrame_def calm_def)
qed (simp_all add: start_round_def start_readFrame_def start_ranks)

lemma start_receiveData_rank: "calm s \<Longrightarrow> readyState s \<le> readyState (fst (start_receiveData bs s))"
  using start_round_rank [of "s\<lparr>buffer := buffer s @ bs, arrived := arrived s @ bs\<rparr>"]
  by (auto simp: start_receiveData_def Let_def start_protocolFailure_def effect_def calm_def)

lemma start_accept_rank: "readyState s \<le> readyState (fst (start_accept proto s))"
proof (cases "readyState s = CONNECTING")
  case True
  then show ?thesis
    by (cases "readyState (fst (start_accept proto s))") (auto simp: less_eq_ready_state_def)
qed (simp add: start_accept_def)

lemmas start_all_ranks = start_ranks start_accept_rank start_receiveData_rank

lemma resume_rank: "calm s \<Longrightarrow> readyState s \<le> readyState (fst (resume k r s))"
  by (cases "(k, r, s)" rule: resume.cases)
    (auto simp: start_ranks start_round_rank armCloseTimer_def effect_def)

lemma run_task_rank: "calm s \<Longrightarrow> readyState s \<le> readyState (fst (run_task s t))"
  using run_task_conn [of s t] resume_rank [of s] by auto

lemma ws_step_rank:
  assumes "ws_ok sys"
  shows "readyState (conn sys) \<le> readyState (conn (ws_step sys e))"
proof -
  have calm: "calm (conn sys)" using assms by (simp add: ws_ok_def)
  show ?thesis
  proof (cases e)
    case (RunTask i)
    then show ?thesis
      using run_task_rank [OF calm, of "tasks sys ! i"] by (cases "run_task (conn sys) (tasks sys ! i)") simp
  qed (use calm in \<open>simp_all add: conn_spawn start_all_ranks\<close>)
qed

text \<open>The states that runs reach, with the steps among them.\<close>

definition ok_step :: "ws_system \<Rightarrow> ws_event \<Rightarrow> ws_system" where
  "ok_step sys e = (if ws_ok sys then ws_step sys e else sys)"

interpretation life: monotone_machine ok_step "\<lambda>sys. readyState (conn sys)"
  by unfold_locales (simp add: ok_step_def ws_step_rank)

lemma ok_steps: "ws_ok sys \<Longrightarrow> foldl ok_step sys es = ws_run sys es"
  by (induction es arbitrary: sys) (simp_all add: ws_run_def ok_step_def ws_step_ok)

section \<open>Properties\<close>

text \<open>C6: The connection implements the closing handshake of the abstract machine: from every state
  that a run can reach, every further sequence of events is a path of that machine. A close frame that is in the buffer when the transport ends may still
  be processed after the close: the machine takes \<open>answer_received\<close> in CLOSED too, and nothing else there.\<close>

theorem runs_refine_handshake:
  "handshake\<^sup>*\<^sup>* (phase (conn (ws_run (new_system limit offered) es)))
                 (phase (conn (ws_run (new_system limit offered) (es @ fs))))"
  using ws_run_phase [OF ws_run_ok [OF ws_ok_new], of limit offered es fs] by (simp add: ws_run_def)

text \<open>The ready state only moves forward, and a closed connection stays closed: it writes no
  further frame.\<close>

theorem ready_state_forward:
  "readyState (conn (ws_run (new_system limit offered) es)) \<le> readyState (conn (ws_run (new_system limit offered) (es @ fs)))"
  unfolding ok_steps [OF ws_ok_new, symmetric] by (rule life.run_rank_append)

end
