(* ===== verification/Ws_Input.thy ===== *)
theory Ws_Input
  imports Ws_Safety
begin

text \<open>
  What a connection of packages/server/WebSocketConnection.js reads, against the frames that its input holds: however
  the transport cuts the input and whatever else the connection does between two frames, the frames it handles are
  the first frames of the bytes that have arrived, in order.
\<close>

section \<open>The reader of a connection\<close>

text \<open>The frames that were read and those the buffer still holds are the frames of all that arrived.\<close>

definition reads_input :: "ws_connection \<Rightarrow> bool" where
  "reads_input s \<longleftrightarrow> drain_frames (maxMessageBytes s) (arrived s)
     = (case drain_frames (maxMessageBytes s) (buffer s) of (fs, stop, left) \<Rightarrow> (framesRead s @ fs, stop, left))"

definition untouched :: "ws_connection \<Rightarrow> ws_connection \<Rightarrow> bool" where
  "untouched s t \<longleftrightarrow> arrived t = arrived s \<and> pendingInput t = pendingInput s \<and> maxMessageBytes t = maxMessageBytes s
     \<and> (readyState t = CONNECTING \<longrightarrow> readyState s = CONNECTING) \<and> (readyState s = CLOSED \<longrightarrow> readyState t = CLOSED)"

definition same_input :: "ws_connection \<Rightarrow> ws_connection \<Rightarrow> bool" where
  "same_input s t \<longleftrightarrow> untouched s t \<and> buffer t = buffer s \<and> framesRead t = framesRead s"

lemma same_input_reads: "same_input s t \<Longrightarrow> reads_input s \<Longrightarrow> reads_input t"
  by (simp add: same_input_def untouched_def reads_input_def)

lemmas same_input_defs = same_input_def untouched_def writeFrame_def effect_def

lemma same_input_refl [simp]: "same_input s s"
  by (simp add: same_input_defs)

lemma start_same_input:
  "same_input s (fst (start_send data s))" "same_input s (fst (start_finish n reason s))"
  "same_input s (fst (start_finishTransport s))" "same_input s (fst (start_close code text s))"
  "same_input s (fst (start_protocolFailure cause n s))" "same_input s (fst (start_timer s))"
  "same_input s (fst (start_receiveEnd end_reason s))"
  by (auto simp: start_send_def start_finish_def start_finishTransport_def start_close_def
      start_protocolFailure_def start_timer_def start_receiveEnd_def same_input_defs Let_def
      split: sum.splits send_data.splits option.splits)

lemma same_input_update [simp]: "same_input s (effect x s)" "same_input s (armCloseTimer s)"
  by (simp_all add: same_input_defs armCloseTimer_def)

lemma receiveClose_same_input: "readyState s = CLOSED \<longrightarrow> sentClose s \<Longrightarrow> same_input s (fst (start_receiveClose p s))"
  by (cases "close_payload p"; cases "sentClose s")
    (auto simp: start_receiveClose_def start_protocolFailure_def start_finishTransport_def same_input_defs Let_def)

lemma handleFrame_same_input:
  assumes "readyState s = CLOSED \<longrightarrow> sentClose s"
  shows "same_input s (fst (start_handleFrame fin opcode p s))"
proof (cases "opcode = 8")
  case True
  then show ?thesis using receiveClose_same_input [OF assms] by (simp add: start_handleFrame_def)
next
  case False
  let ?t = "fst (start_handleFrame fin opcode p s)"
  note code = False start_handleFrame_def start_protocolFailure_def writeFrame_def effect_def Let_def
  have "arrived ?t = arrived s" using False by (auto simp: code split: sum.splits)
  moreover have "pendingInput ?t = pendingInput s" using False by (auto simp: code split: sum.splits)
  moreover have "maxMessageBytes ?t = maxMessageBytes s" using False by (auto simp: code split: sum.splits)
  moreover have "readyState ?t = readyState s" using False by (auto simp: code split: sum.splits)
  moreover have "buffer ?t = buffer s" using False by (auto simp: code split: sum.splits)
  moreover have "framesRead ?t = framesRead s" using False by (auto simp: code split: sum.splits)
  ultimately show ?thesis by (simp add: same_input_def untouched_def)
qed

lemma readFrame_reads:
  assumes "calm s" and "reads_input s"
  shows "untouched s (fst (start_readFrame s)) \<and> reads_input (fst (start_readFrame s))"
proof (cases "parse_frame (maxMessageBytes s) (buffer s)")
  case FrameMore
  then show ?thesis using assms(2) by (simp add: start_readFrame_def untouched_def)
next
  case (FrameFail cause code)
  then show ?thesis
    using same_input_reads [OF start_same_input(5) assms(2)] start_same_input(5) [of s cause code]
    by (simp add: start_readFrame_def same_input_def)
next
  case (Frame fin opcode payload rest)
  let ?s = "s\<lparr>buffer := rest, framesRead := framesRead s @ [(fin, opcode, payload)]\<rparr>"
  have "buffer s \<noteq> []" using Frame by auto
  then have "readyState ?s = CLOSED \<longrightarrow> sentClose ?s" using assms(1) by (auto simp: calm_def)
  note same = handleFrame_same_input [OF this, of fin opcode payload]
  have "reads_input ?s"
    using assms(2) drain_frames.simps [of "maxMessageBytes s" "buffer s"] Frame
    by (auto simp: reads_input_def split: prod.split prod.split_asm)
  then have "reads_input (fst (start_handleFrame fin opcode payload ?s))" by (rule same_input_reads [OF same])
  moreover have "untouched s (fst (start_handleFrame fin opcode payload ?s))"
    using same by (simp add: same_input_def untouched_def)
  ultimately show ?thesis by (simp add: start_readFrame_def Frame)
qed

lemma joined_reads:
  "reads_input s \<Longrightarrow> reads_input (s\<lparr>buffer := buffer s @ bs, arrived := arrived s @ bs\<rparr>)"
proof -
  assume reads: "reads_input s"
  obtain fs stop left where b: "drain_frames (maxMessageBytes s) (buffer s) = (fs, stop, left)" by (metis prod_cases3)
  then have "drain_frames (maxMessageBytes s) (arrived s) = (framesRead s @ fs, stop, left)" using reads by (simp add: reads_input_def)
  then show ?thesis using b by (simp add: reads_input_def drain_frames_append split: drain_stop.split prod.split)
qed

section \<open>The input of a run\<close>

definition input_of :: "ws_event list \<Rightarrow> bytes" where
  "input_of es = concat (map (\<lambda>e. case e of DataArrives bs \<Rightarrow> bs | _ \<Rightarrow> []) es)"

text \<open>Where the input of the events so far is: in the input that waits for \<open>accept\<close>, or joined to the buffer in order; what comes
  after the close is dropped.\<close>

definition input_kept :: "ws_connection \<Rightarrow> bytes \<Rightarrow> bool" where
  "input_kept s input \<longleftrightarrow>
     (readyState s = CONNECTING \<longrightarrow> arrived s = [] \<and> pendingInput s = input)
     \<and> (pendingInput s = [] \<longrightarrow> (\<exists>dropped. input = arrived s @ dropped \<and> (readyState s = CLOSED \<or> dropped = [])))"

definition input_ok :: "ws_connection \<Rightarrow> bytes \<Rightarrow> bool" where
  "input_ok s input \<longleftrightarrow> calm s \<and> reads_input s \<and> input_kept s input"

lemma untouched_kept: "untouched s t \<Longrightarrow> input_kept s input \<Longrightarrow> input_kept t input"
  by (auto simp: untouched_def input_kept_def)

lemma untouched_ok: "untouched s t \<Longrightarrow> calm t \<Longrightarrow> reads_input t \<Longrightarrow> input_ok s input \<Longrightarrow> input_ok t input"
  using untouched_kept by (simp add: input_ok_def)

lemma same_input_ok: "same_input s t \<Longrightarrow> calm t \<Longrightarrow> input_ok s input \<Longrightarrow> input_ok t input"
  using untouched_ok same_input_reads by (auto simp: input_ok_def same_input_def)

lemma round_ok: "input_ok s input \<Longrightarrow> input_ok (fst (start_round s)) input"
  using untouched_ok [of s "fst (start_round s)" input] readFrame_reads [of s] round_keeps [of s]
  by (auto simp: input_ok_def start_round_def keeps_def)

lemma receiveData_ok:
  assumes "input_ok s input"
  shows "input_ok (fst (start_receiveData bs s)) (input @ bs)"
proof -
  let ?joined = "s\<lparr>buffer := buffer s @ bs, arrived := arrived s @ bs\<rparr>"
  have "input_ok ?joined (input @ bs)" if "readyState s \<noteq> CLOSED" "readyState s \<noteq> CONNECTING"
    using assms that joined_reads [of s bs] by (auto simp: input_ok_def input_kept_def calm_def)
  then have "input_ok (fst (start_round ?joined)) (input @ bs)" if "readyState s \<noteq> CLOSED" "readyState s \<noteq> CONNECTING"
    using that round_ok by blast
  moreover have "input_ok (s\<lparr>pendingInput := pendingInput s @ bs\<rparr>) (input @ bs)" if "readyState s = CONNECTING"
    using assms that by (auto simp: input_ok_def input_kept_def calm_def reads_input_def)
  moreover have "input_ok (effect x (s\<lparr>pendingInput := pendingInput s @ bs\<rparr>)) (input @ bs)" if "readyState s = CONNECTING" for x
    using assms that by (auto simp: input_ok_def input_kept_def calm_def reads_input_def effect_def)
  moreover have "input_ok s (input @ bs)" if "readyState s = CLOSED"
    using assms that by (auto simp: input_ok_def input_kept_def)
  ultimately show ?thesis by (auto simp: start_receiveData_def start_protocolFailure_def Let_def)
qed

lemma accept_ok:
  assumes "input_ok s input"
  shows "input_ok (fst (start_accept proto s)) input"
proof (cases "readyState s = CONNECTING")
  case True
  have "input_ok (s\<lparr>protocol := q, readyState := OPEN, pendingInput := []\<rparr>) []" for q
    using assms True by (auto simp: input_ok_def input_kept_def calm_def reads_input_def)
  from receiveData_ok [OF this] have "input_ok (fst (start_receiveData input (s\<lparr>protocol := q, readyState := OPEN, pendingInput := []\<rparr>))) input" for q
    by simp
  moreover have "input_ok (s\<lparr>protocol := q, readyState := OPEN\<rparr>) input" if "input = []" for q
    using assms True that by (auto simp: input_ok_def input_kept_def calm_def reads_input_def)
  moreover have "pendingInput s = input" using assms True by (simp add: input_ok_def input_kept_def)
  ultimately show ?thesis
    using assms True by (auto simp: start_accept_def selectProtocol_def Let_def split: sum.split option.split)
qed (use assms in \<open>simp add: start_accept_def\<close>)

lemma resume_ok:
  assumes "input_ok s input" and "point_ok s k"
  shows "input_ok (fst (resume k r s)) input"
proof -
  have calm: "calm (fst (resume k r s))"
    using resume_keeps [of s k r] assms by (simp add: input_ok_def keeps_def)
  have "same_input s (fst (resume k r s)) \<or> fst (resume k r s) = fst (start_round s)"
    by (cases "(k, r, s)" rule: resume.cases) (simp_all add: start_same_input)
  then show ?thesis using same_input_ok [OF _ calm assms(1)] round_ok [OF assms(1)] by auto
qed

lemma run_task_ok:
  assumes "input_ok s input" and "list_all (point_ok s) (snd t)"
  shows "input_ok (fst (run_task s t)) input"
proof -
  have "fst (run_task s t) = s \<or> (\<exists>k \<in> set (snd t). \<exists>r. fst (run_task s t) = fst (resume k r s))"
    by (cases t; cases "settled_outcome s (fst t)"; cases "snd t") (auto split: prod.splits, metis fst_conv)
  then show ?thesis using assms resume_ok by (auto simp: list_all_iff)
qed

lemma step_input:
  assumes "ws_ok sys" and "input_ok (conn sys) input"
  shows "input_ok (conn (ws_step sys e)) (input @ input_of [e])"
proof -
  have calm: "calm (conn (ws_step sys e))" using ws_step_ok [OF assms(1), of e] by (simp add: ws_ok_def)
  note same = same_input_ok [OF _ calm assms(2)]
  have settle: "same_input s (s\<lparr>settled := rs\<rparr>)" for s rs by (simp add: same_input_defs)
  show ?thesis
  proof (cases e)
    case (WriteSettles r)
    then show ?thesis using same assms(2) settle by (auto simp: input_of_def)
  next
    case (RunTask i)
    show ?thesis
    proof (cases "i < length (tasks sys)")
      case True
      then have "list_all (point_ok (conn sys)) (snd (tasks sys ! i))" using assms(1) by (simp add: ws_ok_def list_all_length)
      moreover obtain s t where "run_task (conn sys) (tasks sys ! i) = (s, t)" by (cases "run_task (conn sys) (tasks sys ! i)")
      ultimately show ?thesis using run_task_ok [OF assms(2), of "tasks sys ! i"] True by (simp add: RunTask input_of_def)
    qed (use assms(2) in \<open>simp add: RunTask input_of_def\<close>)
  next
    case (DataArrives bs)
    then show ?thesis using receiveData_ok [OF assms(2)] by (simp add: conn_spawn input_of_def)
  next
    case (CallAccept proto)
    then show ?thesis using accept_ok [OF assms(2)] by (simp add: conn_spawn input_of_def)
  qed (use same assms(2) in \<open>auto simp: conn_spawn input_of_def start_same_input\<close>)
qed

lemma run_input:
  "ws_ok sys \<Longrightarrow> input_ok (conn sys) input \<Longrightarrow> input_ok (conn (ws_run sys es)) (input @ input_of es)"
proof (induction es arbitrary: sys input)
  case Nil
  then show ?case by (simp add: ws_run_def input_of_def)
next
  case (Cons e es)
  have "input_of (e # es) = input_of [e] @ input_of es" by (simp add: input_of_def)
  then show ?case using Cons.IH [OF ws_step_ok [OF Cons.prems(1)] step_input [OF Cons.prems]] by (simp add: ws_run_def)
qed

section \<open>Properties\<close>

text \<open>C26: In every run of a connection, however its input is cut into chunks and whatever happens between two frames, the frames it has
  handled and those left in its buffer are, in order, the frames of the bytes that have joined the buffer, as read in one go. These bytes
  are all the input so far when no input waits for \<open>accept\<close> and the connection is not closed, and else a first part of it.
\<close>

theorem chunking_irrelevant:
  "(let s = conn (ws_run (new_system limit offered) es) in
     drain_frames (maxMessageBytes s) (arrived s)
       = (case drain_frames (maxMessageBytes s) (buffer s) of (fs, stop, left) \<Rightarrow> (framesRead s @ fs, stop, left))
     \<and> (pendingInput s = [] \<and> readyState s \<noteq> CLOSED \<longrightarrow> arrived s = input_of es)
     \<and> (pendingInput s = [] \<longrightarrow> (\<exists>dropped. input_of es = arrived s @ dropped)))"
proof -
  have "input_ok (conn (new_system limit offered)) []"
    by (auto simp: input_ok_def new_system_def new_connection_def calm_def reads_input_def input_kept_def split: prod.split)
  from run_input [OF ws_ok_new this, of es] show ?thesis
    by (auto simp: input_ok_def reads_input_def input_kept_def Let_def)
qed

theorem chunking_irrelevant_witness:
  "arrived (conn (ws_run (new_system 9 []) [CallAccept None, DataArrives [0x82, 0x81, 1], DataArrives [2, 3, 4, 8]])) = [0x82, 0x81, 1, 2, 3, 4, 8]"
proof -
  let ?es = "[CallAccept None, DataArrives [0x82, 0x81, 1], DataArrives [2, 3, 4, 8]]"
  have "pendingInput (conn (ws_run (new_system 9 []) ?es)) = []" "readyState (conn (ws_run (new_system 9 []) ?es)) \<noteq> CLOSED"
    by code_simp+
  then have "arrived (conn (ws_run (new_system 9 []) ?es)) = input_of ?es"
    using chunking_irrelevant [of 9 "[]" ?es] unfolding Let_def by blast
  then show ?thesis by (simp add: input_of_def)
qed

end
