(* ===== verification/Ws_Runs.thy ===== *)
theory Ws_Runs
  imports Ws_Handshake Ws_Input
begin

text \<open>
  The runs of a connection that matter one by one, from an open connection with nothing in flight:
  the close handshake started by the peer, the one started here, the close the peer never answers,
  a protocol failure, a ping, and a message in fragments.
\<close>

section \<open>Driving one task\<close>

text \<open>The tasks that are there stay suspended; the task under study is the one behind them.\<close>

lemma spawn_last: "start (conn sys) = (s, t) \<Longrightarrow> spawn start sys = \<lparr>conn = s, tasks = tasks sys @ [t]\<rparr>"
  by (simp add: spawn_def)

lemma run_last [simp]:
  "ws_step \<lparr>conn = s, tasks = ts @ [t]\<rparr> (RunTask (length ts))
   = (case run_task s t of (s', t') \<Rightarrow> \<lparr>conn = s', tasks = ts @ [t']\<rparr>)"
  by (simp split: prod.splits)

lemma settle_last [simp]:
  "settle_task (length ts) p r \<lparr>conn = s, tasks = ts @ [(p, ks)]\<rparr> = \<lparr>conn = s, tasks = ts @ [(Ready r, ks)]\<rparr>"
  by (simp add: settle_task_def)

lemma ws_run_Cons [simp]: "ws_run sys (e # es) = ws_run (ws_step sys e) es"
  and ws_run_Nil [simp]: "ws_run sys [] = sys"
  by (simp_all add: ws_run_def)

declare ws_step.simps(10) [simp del]

lemmas ws_code = start_send_def start_close_def start_receiveData_def start_round_def start_readFrame_def
  start_handleFrame_def start_receiveClose_def start_protocolFailure_def start_finishTransport_def
  start_finish_def start_timer_def start_receiveEnd_def writeFrame_def armCloseTimer_def effect_def
  spawn_def Let_def

text \<open>An open connection between two messages, all of whose writes have settled.\<close>

definition idle :: "ws_connection \<Rightarrow> bool" where
  "idle s \<longleftrightarrow> readyState s = OPEN \<and> \<not> sentClose s \<and> \<not> receivedClose s \<and> buffer s = []
     \<and> fragments s = [] \<and> fragmentOpcode s = 0 \<and> fragmentBytes s = 0
     \<and> length (settled s) = length (frames s)"

abbreviation written :: outcome where
  "written \<equiv> Fulfilled (Boolean True)"

section \<open>The close handshake\<close>

definition peer_close_events :: "nat \<Rightarrow> bytes \<Rightarrow> ws_event list" where
  "peer_close_events n bs =
     [DataArrives bs, WriteSettles written, RunTask n, RunTask n, EndSettles n (Fulfilled Undefined),
      RunTask n, RunTask n]"

lemma peer_close:
  assumes "idle (conn sys)" and "length key = 4" and "length payload \<le> 125"
    and "length payload \<le> maxMessageBytes (conn sys)"
    and "close_payload payload = Inr (code, reason)"
  defines "s \<equiv> conn (ws_run sys (peer_close_events (length (tasks sys)) (client_frame True 8 key payload)))"
  shows "readyState s = CLOSED" and "frames s = frames (conn sys) @ [encodeFrame 8 payload]"
    and "effects s = effects (conn sys) @ [TransportEnd, OnClose code reason]"
proof -
  have "length payload \<le> max_safe_integer" using assms(3) small_safe_integer [of "length payload"] by simp
  then have "acceptable (maxMessageBytes (conn sys)) True 8 payload"
    using assms by (simp add: acceptable_def)
  from parse_client_frame [OF this assms(2), of "[]"]
  have "parse_frame (maxMessageBytes (conn sys)) (client_frame True 8 key payload) = Frame True 8 payload []"
    by simp
  then show "readyState s = CLOSED" and "frames s = frames (conn sys) @ [encodeFrame 8 payload]"
    and "effects s = effects (conn sys) @ [TransportEnd, OnClose code reason]"
    using assms(1,5)
    by (simp_all add: s_def peer_close_events_def idle_def ws_code nth_append)
qed

definition close_timeout_events :: "nat \<Rightarrow> js_number \<Rightarrow> code_points \<Rightarrow> ws_event list" where
  "close_timeout_events n code reason =
     [CallClose code (Some reason), WriteSettles written, RunTask n, TimerFires]"

lemma close_timeout:
  assumes "idle (conn sys)" and "validateCloseCode code" and "length (utf8_encode reason) \<le> 123"
  defines "s \<equiv> conn (ws_run sys (close_timeout_events (length (tasks sys)) code reason))"
  shows "readyState s = CLOSED"
    and "frames s = frames (conn sys)
           @ [encodeFrame 8 (be_bytes 2 (nat (integer_value code)) @ utf8_encode reason)]"
    and "effects s = effects (conn sys) @ [TransportAbort, OnClose 1006 []]"
  using assms
  by (simp_all add: s_def close_timeout_events_def idle_def ws_code nth_append)

definition answered_close_events :: "nat \<Rightarrow> js_number \<Rightarrow> code_points \<Rightarrow> bytes \<Rightarrow> ws_event list" where
  "answered_close_events n code reason reply =
     [CallClose code (Some reason), WriteSettles written, RunTask n, DataArrives reply, RunTask (Suc n),
      EndSettles (Suc n) (Fulfilled Undefined), RunTask (Suc n), RunTask (Suc n)]"

text \<open>The promise of \<open>close\<close> resolves to true, the timer is off, and the reply is not answered.\<close>

lemma close_answered_run:
  assumes "idle (conn sys)" and "validateCloseCode code" and "length (utf8_encode reason) \<le> 123"
    and "parse_frame (maxMessageBytes (conn sys)) reply = Frame True 8 payload []"
    and "close_payload payload = Inr (peer_code, peer_reason)"
  defines "sys' \<equiv> ws_run sys (answered_close_events (length (tasks sys)) code reason reply)"
  shows "readyState (conn sys') = CLOSED"
    and "frames (conn sys') = frames (conn sys)
           @ [encodeFrame 8 (be_bytes 2 (nat (integer_value code)) @ utf8_encode reason)]"
    and "effects (conn sys') = effects (conn sys) @ [TransportEnd, OnClose peer_code peer_reason]"
    and "\<not> closeTimer (conn sys')"
    and "tasks sys' ! length (tasks sys) = (Ready written, [])"
proof -
  let ?n = "length (tasks sys)"
  let ?mid = "ws_run sys [CallClose code (Some reason), WriteSettles written, RunTask ?n]"
  have "tasks ?mid = tasks sys @ [(Ready written, [])]"
    and "conn ?mid = (conn sys)\<lparr>sentClose := True, readyState := CLOSING,
      frames := frames (conn sys)
        @ [encodeFrame 8 (be_bytes 2 (nat (integer_value code)) @ utf8_encode reason)],
      settled := settled (conn sys) @ [written], closeTimer := True\<rparr>"
    using assms(1-3) by (simp_all add: idle_def ws_code nth_append)
  then have mid: "?mid = \<lparr>conn = (conn sys)\<lparr>sentClose := True, readyState := CLOSING,
      frames := frames (conn sys)
        @ [encodeFrame 8 (be_bytes 2 (nat (integer_value code)) @ utf8_encode reason)],
      settled := settled (conn sys) @ [written], closeTimer := True\<rparr>,
      tasks = tasks sys @ [(Ready written, [])]\<rparr>"
    by simp
  have "sys' = ws_run ?mid [DataArrives reply, RunTask (Suc ?n),
      EndSettles (Suc ?n) (Fulfilled Undefined), RunTask (Suc ?n), RunTask (Suc ?n)]"
    by (simp add: sys'_def answered_close_events_def)
  note final = this [unfolded mid]
  have last: "Suc ?n = length (tasks sys @ [(Ready written, [])])" by simp
  show "readyState (conn sys') = CLOSED"
    and "frames (conn sys') = frames (conn sys)
           @ [encodeFrame 8 (be_bytes 2 (nat (integer_value code)) @ utf8_encode reason)]"
    and "effects (conn sys') = effects (conn sys) @ [TransportEnd, OnClose peer_code peer_reason]"
    and "\<not> closeTimer (conn sys')"
    and "tasks sys' ! length (tasks sys) = (Ready written, [])"
    using assms(1,4,5) unfolding final last
    by (simp_all del: length_append append_assoc add: idle_def ws_code)
       (simp_all add: nth_append)
qed

section \<open>A protocol failure\<close>

definition failure_events :: "nat \<Rightarrow> bytes \<Rightarrow> ws_event list" where
  "failure_events n bs =
     [DataArrives bs, CallbackSettles n (Fulfilled Undefined), RunTask n, WriteSettles written, RunTask n,
      RunTask n, RunTask n, EndSettles n (Fulfilled Undefined), RunTask n, RunTask n]"

lemma failure_run:
  assumes "idle (conn sys)" and "parse_frame (maxMessageBytes (conn sys)) bs = FrameFail cause code"
  defines "s \<equiv> conn (ws_run sys (failure_events (length (tasks sys)) bs))"
  shows "readyState s = CLOSED"
    and "frames s = frames (conn sys) @ [encodeFrame 8 (be_bytes 2 code @ utf8_encode (failure_text code))]"
    and "effects s = effects (conn sys) @ [OnError cause, TransportEnd, OnClose 1006 []]"
proof -
  have "validateCloseCode (IntegerNumber (int code))"
    using parse_frame_fail_code [OF assms(2)] by (auto simp: validateCloseCode_def)
  then show "readyState s = CLOSED"
    and "frames s = frames (conn sys) @ [encodeFrame 8 (be_bytes 2 code @ utf8_encode (failure_text code))]"
    and "effects s = effects (conn sys) @ [OnError cause, TransportEnd, OnClose 1006 []]"
    using assms(1,2) failure_text_short [of code]
    by (simp_all add: s_def failure_events_def idle_def ws_code nth_append flip: failure_text_def)
qed

section \<open>Messages\<close>

lemma ping_run:
  assumes "idle (conn sys)" and "parse_frame (maxMessageBytes (conn sys)) bs = Frame True 9 payload []"
  defines "s \<equiv> conn (ws_run sys [DataArrives bs, WriteSettles written, RunTask (length (tasks sys))])"
  shows "frames s = frames (conn sys) @ [encodeFrame 10 payload]" and "idle s"
    and "effects s = effects (conn sys)"
  using assms by (simp_all add: s_def idle_def ws_code nth_append parse_frame_def)

text \<open>The frames of a message: the first carries the opcode, the last the final bit.\<close>

fun message_frames :: "nat \<Rightarrow> bytes \<Rightarrow> bytes list \<Rightarrow> bytes" where
  "message_frames opcode key [] = []"
| "message_frames opcode key [p] = client_frame True opcode key p"
| "message_frames opcode key (p # q # ps) = client_frame False opcode key p @ message_frames 0 key (q # ps)"

text \<open>The state while a message arrives: the part that is there, and the opcode it began with.\<close>

definition mid_message :: "nat \<Rightarrow> bytes list \<Rightarrow> ws_connection \<Rightarrow> bool" where
  "mid_message opcode ps s \<longleftrightarrow> readyState s \<noteq> CLOSED \<and> fragments s = ps
     \<and> fragmentBytes s = length (concat ps) \<and> fragmentOpcode s = (if ps = [] then 0 else opcode)"

lemma handle_first_fragment:
  assumes "opcode \<in> {1, 2}" and "fragmentOpcode s = 0" and "fragmentBytes s + length p \<le> maxMessageBytes s"
  shows "start_handleFrame False opcode p s =
    (s\<lparr>fragmentOpcode := opcode, fragmentBytes := fragmentBytes s + length p, fragments := fragments s @ [p]\<rparr>,
     returns Undefined)"
  using assms unfolding start_handleFrame_def Let_def by (elim insertE) simp_all

lemma handle_next_fragment:
  assumes "fragmentOpcode s \<noteq> 0" and "fragmentBytes s + length p \<le> maxMessageBytes s"
  shows "start_handleFrame False 0 p s =
    (s\<lparr>fragmentBytes := fragmentBytes s + length p, fragments := fragments s @ [p]\<rparr>, returns Undefined)"
  using assms by (simp add: start_handleFrame_def Let_def)

lemma handle_last_fragment:
  assumes "opcode \<in> {0, 1, 2}" and "opcode = 0 \<longleftrightarrow> fragmentOpcode s \<noteq> 0"
    and "fragmentBytes s + length p \<le> maxMessageBytes s"
    and "message_of (if opcode = 0 then fragmentOpcode s else opcode) (concat (fragments s @ [p])) = Inr m"
  shows "start_handleFrame True opcode p s =
    (effect (OnMessage m) (s\<lparr>fragments := [], fragmentOpcode := 0, fragmentBytes := 0\<rparr>),
     AwaitCallback, [AfterMessage])"
proof -
  have "(if fragments s = [] then p else concat_bytes (fragments s @ [p])) = concat (fragments s @ [p])"
    by simp
  then show ?thesis
    using assms unfolding start_handleFrame_def Let_def by (elim insertE) simp_all
qed

text \<open>Reading the frames of a message one after another, each in a run of the task.\<close>

definition reading :: "ws_connection \<Rightarrow> suspended list \<Rightarrow> ws_system" where
  "reading s ts = (case start_round s of (s', t) \<Rightarrow> \<lparr>conn = s', tasks = ts @ [t]\<rparr>)"

lemma read_acceptable:
  assumes "acceptable (maxMessageBytes s) fin opcode p" and "length key = 4"
    and "buffer s = client_frame fin opcode key p @ rest"
  shows "start_round s = awaited (awaited (start_handleFrame fin opcode p
    (s\<lparr>buffer := rest, framesRead := framesRead s @ [(fin, opcode, p)]\<rparr>)) AfterFrame) AfterRead"
  using parse_client_frame [OF assms(1,2), of rest] by (simp add: start_round_def start_readFrame_def assms(3))

definition delivered :: "ws_message \<Rightarrow> ws_connection \<Rightarrow> suspended list \<Rightarrow> ws_system \<Rightarrow> bool" where
  "delivered m s ts sys \<longleftrightarrow> tasks sys = ts @ [(AwaitCallback, [AfterMessage, AfterFrame, AfterRead])]
     \<and> conn sys = effect (OnMessage m) (s\<lparr>buffer := [], fragments := [], fragmentOpcode := 0, fragmentBytes := 0,
         framesRead := framesRead (conn sys)\<rparr>)"

lemma delivered_cong:
  "delivered m (s\<lparr>buffer := b, fragments := fs, fragmentOpcode := n, fragmentBytes := k, framesRead := rs\<rparr>) ts sys = delivered m s ts sys"
  "delivered m (s\<lparr>buffer := b, fragments := fs, fragmentBytes := k, framesRead := rs\<rparr>) ts sys = delivered m s ts sys"
  by (simp_all add: delivered_def effect_def)

text \<open>A fragment that leaves nothing to wait for: two microtasks later the next frame is read.\<close>

lemma next_round:
  assumes "start_round s = (t, Ready (Fulfilled Undefined), [AfterFrame, AfterRead])" and "readyState t \<noteq> CLOSED"
  shows "ws_run (reading s ts) [RunTask (length ts), RunTask (length ts)] = reading t ts"
  using assms by (simp add: reading_def split: prod.split)

lemma reading_message:
  assumes "mid_message opcode parts s" and "opcode \<in> {1, 2}" and "ps \<noteq> []" and "length key = 4"
    and "buffer s = message_frames (if parts = [] then opcode else 0) key ps"
    and "length (concat (parts @ ps)) \<le> maxMessageBytes s" and "maxMessageBytes s \<le> max_safe_integer"
    and "message_of opcode (concat (parts @ ps)) = Inr m"
  shows "delivered m s ts (ws_run (reading s ts) (replicate (2 * (length ps - 1)) (RunTask (length ts))))"
  using assms
proof (induction ps arbitrary: parts s)
  case Nil
  then show ?case by simp
next
  case (Cons p ps)
  let ?op = "if parts = [] then opcode else 0"
  have acc: "acceptable (maxMessageBytes s) fin ?op p" for fin
    using Cons.prems by (auto simp: acceptable_def)
  show ?case
  proof (cases ps)
    case Nil
    let ?s = "s\<lparr>buffer := [], framesRead := framesRead s @ [(True, ?op, p)]\<rparr>"
    have "buffer s = client_frame True ?op key p @ []" using Nil Cons.prems(5) by simp
    note read = read_acceptable [OF acc Cons.prems(4) this]
    have "start_handleFrame True ?op p ?s =
      (effect (OnMessage m) (?s\<lparr>fragments := [], fragmentOpcode := 0, fragmentBytes := 0\<rparr>),
       AwaitCallback, [AfterMessage])"
      using Cons.prems Nil by (subst handle_last_fragment [where m = m]) (auto simp: mid_message_def)
    then show ?thesis by (simp add: Nil reading_def read delivered_def effect_def)
  next
    case (Cons q qs)
    then have "buffer s = client_frame False ?op key p @ message_frames 0 key ps"
      using Cons.prems(5) by simp
    note read = read_acceptable [OF acc Cons.prems(4) this]
    have nonzero: "opcode \<noteq> 0" using Cons.prems(2) by auto
    let ?read = "framesRead s @ [(False, ?op, p)]"
    define s1 where "s1 = (if parts = []
      then s\<lparr>buffer := message_frames 0 key ps, fragments := [p], fragmentOpcode := opcode,
             fragmentBytes := length p, framesRead := ?read\<rparr>
      else s\<lparr>buffer := message_frames 0 key ps, fragments := parts @ [p],
             fragmentBytes := length (concat parts) + length p, framesRead := ?read\<rparr>)"
    have "start_handleFrame False ?op p (s\<lparr>buffer := message_frames 0 key ps, framesRead := ?read\<rparr>) = (s1, returns Undefined)"
      using Cons.prems(1,2,6) nonzero
      by (cases "parts = []")
        (simp_all add: mid_message_def s1_def handle_first_fragment handle_next_fragment)
    then have round: "start_round s = (s1, Ready (Fulfilled Undefined), [AfterFrame, AfterRead])"
      by (simp add: read)
    have mid: "mid_message opcode (parts @ [p]) s1"
      using Cons.prems(1) by (simp add: mid_message_def s1_def)
    then have "ws_run (reading s ts) [RunTask (length ts), RunTask (length ts)] = reading s1 ts"
      by (intro next_round round) (simp add: mid_message_def)
    moreover have "replicate (2 * (length (p # ps) - 1)) (RunTask (length ts))
        = [RunTask (length ts), RunTask (length ts)] @ replicate (2 * (length ps - 1)) (RunTask (length ts))"
      by (simp add: \<open>ps = q # qs\<close>)
    ultimately have "ws_run (reading s ts) (replicate (2 * (length (p # ps) - 1)) (RunTask (length ts)))
        = ws_run (reading s1 ts) (replicate (2 * (length ps - 1)) (RunTask (length ts)))"
      by (simp add: ws_run_def)
    moreover have "delivered m s1 ts (ws_run (reading s1 ts) (replicate (2 * (length ps - 1)) (RunTask (length ts))))"
      using Cons.prems mid \<open>ps = q # qs\<close> by (intro Cons.IH [of "parts @ [p]"]) (auto simp: s1_def)
    ultimately show ?thesis by (simp add: s1_def delivered_cong split: if_splits)
  qed
qed

text \<open>A message that arrives in one chunk, cut into frames in any way.\<close>

lemma message_run:
  assumes "idle (conn sys)" and "opcode \<in> {1, 2}" and "ps \<noteq> []" and "length key = 4"
    and "length (concat ps) \<le> maxMessageBytes (conn sys)"
    and "maxMessageBytes (conn sys) \<le> max_safe_integer"
    and "message_of opcode (concat ps) = Inr m"
  defines "s \<equiv> conn (ws_run sys (DataArrives (message_frames opcode key ps)
                     # replicate (2 * (length ps - 1)) (RunTask (length (tasks sys)))))"
  shows "effects s = effects (conn sys) @ [OnMessage m]" and "idle s"
proof -
  let ?bytes = "message_frames opcode key ps"
  let ?s = "(conn sys)\<lparr>buffer := ?bytes, arrived := arrived (conn sys) @ ?bytes\<rparr>"
  have "ws_step sys (DataArrives ?bytes) = reading ?s (tasks sys)"
    using assms(1) by (simp add: spawn_def start_receiveData_def reading_def idle_def)
  moreover have "delivered m ?s (tasks sys) (ws_run (reading ?s (tasks sys)) (replicate (2 * (length ps - 1)) (RunTask (length (tasks sys)))))"
    using assms(1-7) by (intro reading_message [of opcode "[]"]) (auto simp: mid_message_def idle_def)
  ultimately have "s = effect (OnMessage m) (?s\<lparr>buffer := [], fragments := [], fragmentOpcode := 0, fragmentBytes := 0,
      framesRead := framesRead s\<rparr>)"
    unfolding s_def delivered_def ws_run_Cons by metis
  then obtain t where "s = effect (OnMessage m) (?s\<lparr>buffer := [], fragments := [], fragmentOpcode := 0, fragmentBytes := 0,
      framesRead := t\<rparr>)" by blast
  then show "effects s = effects (conn sys) @ [OnMessage m]" and "idle s"
    using assms(1) by (simp_all add: effect_def idle_def)
qed

text \<open>A text message that is no UTF-8 is reported and closes the connection; it is not delivered.\<close>

definition bad_text_events :: "nat \<Rightarrow> bytes \<Rightarrow> ws_event list" where
  "bad_text_events n bs =
     [DataArrives bs, CallbackSettles n (Fulfilled Undefined), RunTask n, WriteSettles written, RunTask n]"

lemma bad_text_run:
  assumes "idle (conn sys)" and "parse_frame (maxMessageBytes (conn sys)) bs = Frame True 1 payload []"
    and "utf8_decode payload = None"
  defines "s \<equiv> conn (ws_run sys (bad_text_events (length (tasks sys)) bs))"
  shows "effects s = effects (conn sys) @ [OnError InvalidUtf8]"
    and "frames s = frames (conn sys) @ [encodeFrame 8 (be_bytes 2 1011 @ utf8_encode (ascii ''Handler failed''))]"
    and "readyState s = CLOSING" and "closeTimer s"
proof -
  have short: "length (utf8_encode (ascii ''Handler failed'')) \<le> 123"
    by (simp add: ascii_def utf8_encode_def utf8_units_def)
  have "length payload \<le> maxMessageBytes (conn sys)" using parse_frame_payload [OF assms(2)] by simp
  with assms(1-3) short
  show "effects s = effects (conn sys) @ [OnError InvalidUtf8]"
    and "frames s = frames (conn sys) @ [encodeFrame 8 (be_bytes 2 1011 @ utf8_encode (ascii ''Handler failed''))]"
    and "readyState s = CLOSING" and "closeTimer s"
    by (simp_all add: s_def bad_text_events_def idle_def ws_code nth_append message_of_def validateCloseCode_def
        del: be_bytes.simps)
qed

section \<open>Properties\<close>

text \<open>An open connection for the witnesses: accepted, nothing received.\<close>

definition opened :: "nat \<Rightarrow> ws_system" where
  "opened limit = ws_step (new_system limit []) (CallAccept None)"

lemma opened_idle:
  "idle (conn (opened limit))" "maxMessageBytes (conn (opened limit)) = limit"
  "frames (conn (opened limit)) = []" "effects (conn (opened limit)) = []"
  "tasks (opened limit) = [returns Undefined]"
  by (simp_all add: opened_def new_system_def new_connection_def spawn_def start_accept_def
      selectProtocol_def idle_def)

text \<open>A close started by the peer: its frame is answered with a close frame of the same payload,
  the transport is ended after the answer is written, and the application is told the peer's code
  and reason, once.\<close>

theorem peer_close_completes:
  assumes "idle (conn sys)" and "length key = 4" and "length payload \<le> 125"
    and "length payload \<le> maxMessageBytes (conn sys)"
    and "close_payload payload = Inr (code, reason)"
  shows "(let s = conn (ws_run sys (peer_close_events (length (tasks sys)) (client_frame True 8 key payload)))
          in readyState s = CLOSED \<and> frames s = frames (conn sys) @ [encodeFrame 8 payload]
             \<and> effects s = effects (conn sys) @ [TransportEnd, OnClose code reason])"
  using peer_close [OF assms] by (simp add: Let_def)

theorem peer_close_completes_witness:
  "readyState (conn (ws_run (opened 100) (peer_close_events 1 (client_frame True 8 [1, 2, 3, 4] [3, 232])))) = CLOSED"
proof -
  have "close_payload [3, 232] = Inr (1000, [])"
    by (simp add: close_payload_def be_val_def validateCloseCode_def utf8_decode_def
        utf8_decode_units.simps Let_def)
  from peer_close_completes [OF opened_idle(1) _ _ _ this, of "[1, 2, 3, 4]" 100]
  show ?thesis by (simp add: opened_idle Let_def)
qed

text \<open>A close started here and answered by the peer: one close frame is written, the promise of
  \<open>close\<close> resolves to true, the timer is cleared, the reply is not answered, and the application is
  told the code and reason of the reply.\<close>

theorem own_close_completes:
  assumes "idle (conn sys)" and "validateCloseCode code" and "length (utf8_encode reason) \<le> 123"
    and "parse_frame (maxMessageBytes (conn sys)) reply = Frame True 8 payload []"
    and "close_payload payload = Inr (peer_code, peer_reason)"
  shows "(let sys' = ws_run sys (answered_close_events (length (tasks sys)) code reason reply);
              s = conn sys'
          in readyState s = CLOSED
             \<and> frames s = frames (conn sys)
                 @ [encodeFrame 8 (be_bytes 2 (nat (integer_value code)) @ utf8_encode reason)]
             \<and> effects s = effects (conn sys) @ [TransportEnd, OnClose peer_code peer_reason]
             \<and> \<not> closeTimer s \<and> tasks sys' ! length (tasks sys) = (Ready written, []))"
  using close_answered_run [OF assms] by (simp add: Let_def)

theorem own_close_completes_witness:
  "readyState (conn (ws_run (opened 100)
     (answered_close_events 1 (IntegerNumber 1000) [] (client_frame True 8 [1, 2, 3, 4] [])))) = CLOSED"
proof -
  have "parse_frame (maxMessageBytes (conn (opened 100))) (client_frame True 8 [1, 2, 3, 4] []) = Frame True 8 [] []"
    using parse_client_frame [of 100 True 8 "[]" "[1, 2, 3, 4]" "[]"] by (simp add: opened_idle acceptable_def)
  from own_close_completes [OF opened_idle(1) _ _ this, of "IntegerNumber 1000" "[]" 1005 "[]"]
  show ?thesis
    by (simp add: opened_idle validateCloseCode_def close_payload_def utf8_encode_def Let_def)
qed

text \<open>A close the peer never answers ends: when the timer fires the transport is aborted and the
  application is told 1006.\<close>

theorem unanswered_close_times_out:
  assumes "idle (conn sys)" and "validateCloseCode code" and "length (utf8_encode reason) \<le> 123"
  shows "(let s = conn (ws_run sys (close_timeout_events (length (tasks sys)) code reason))
          in readyState s = CLOSED
             \<and> frames s = frames (conn sys)
                 @ [encodeFrame 8 (be_bytes 2 (nat (integer_value code)) @ utf8_encode reason)]
             \<and> effects s = effects (conn sys) @ [TransportAbort, OnClose 1006 []])"
  using close_timeout [OF assms] by (simp add: Let_def)

theorem unanswered_close_times_out_witness:
  "readyState (conn (ws_run (opened 100) (close_timeout_events 1 (IntegerNumber 4000) []))) = CLOSED"
  using unanswered_close_times_out [OF opened_idle(1), of "IntegerNumber 4000" "[]" 100]
  by (simp add: opened_idle validateCloseCode_def utf8_encode_def Let_def)

text \<open>Malformed input closes the connection: the cause is reported, a close frame with the code of
  the violation is written, the transport is ended, and the application is told 1006.\<close>

theorem malformed_input_closes:
  assumes "idle (conn sys)" and "parse_frame (maxMessageBytes (conn sys)) bs = FrameFail cause code"
  shows "(let s = conn (ws_run sys (failure_events (length (tasks sys)) bs))
          in readyState s = CLOSED
             \<and> frames s = frames (conn sys)
                 @ [encodeFrame 8 (be_bytes 2 code @ utf8_encode (failure_text code))]
             \<and> effects s = effects (conn sys) @ [OnError cause, TransportEnd, OnClose 1006 []])"
  using failure_run [OF assms] by (simp add: Let_def)

theorem malformed_input_closes_witness:
  "readyState (conn (ws_run (opened 100) (failure_events 1 [0x81, 0x00]))) = CLOSED"
proof -
  have "parse_frame (maxMessageBytes (conn (opened 100))) [0x81, 0x00] = FrameFail FrameNotMasked 1002"
    by (simp add: parse_frame_def Let_def)
  from malformed_input_closes [OF opened_idle(1) this] show ?thesis by (simp add: opened_idle Let_def)
qed

text \<open>C9: A message that arrives in any number of fragments is delivered once, as the concatenation of
  their payloads (decoded when it is text), and leaves the connection idle.\<close>

theorem fragments_delivered_whole:
  assumes "idle (conn sys)" and "opcode \<in> {1, 2}" and "ps \<noteq> []" and "length key = 4"
    and "length (concat ps) \<le> maxMessageBytes (conn sys)"
    and "maxMessageBytes (conn sys) \<le> max_safe_integer"
    and "message_of opcode (concat ps) = Inr m"
  shows "(let s = conn (ws_run sys (DataArrives (message_frames opcode key ps)
                    # replicate (2 * (length ps - 1)) (RunTask (length (tasks sys)))))
          in effects s = effects (conn sys) @ [OnMessage m] \<and> idle s)"
  using message_run [OF assms] by (simp add: Let_def)

theorem fragments_delivered_whole_witness:
  "effects (conn (ws_run (opened 100)
     [DataArrives (message_frames 2 [1, 2, 3, 4] [[5, 6], [], [7]]), RunTask 1, RunTask 1, RunTask 1, RunTask 1]))
   = [OnMessage (BinaryMessage [5, 6, 7])]"
  using fragments_delivered_whole [OF opened_idle(1), of 2 "[[5, 6], [], [7]]" "[1, 2, 3, 4]" 100 "BinaryMessage [5, 6, 7]"]
  by (simp add: opened_idle message_of_def max_safe_integer_def Let_def numeral_2_eq_2 del: ws_run_Cons)

text \<open>A text message that is no UTF-8 is never delivered: the error is reported, the connection
  writes a close frame with code 1011 and waits for the peer's answer under the timer.\<close>

theorem invalid_text_not_delivered:
  assumes "idle (conn sys)" and "parse_frame (maxMessageBytes (conn sys)) bs = Frame True 1 payload []"
    and "utf8_decode payload = None"
  shows "(let s = conn (ws_run sys (bad_text_events (length (tasks sys)) bs))
          in effects s = effects (conn sys) @ [OnError InvalidUtf8]
             \<and> frames s = frames (conn sys)
                 @ [encodeFrame 8 (be_bytes 2 1011 @ utf8_encode (ascii ''Handler failed''))]
             \<and> readyState s = CLOSING \<and> closeTimer s)"
  using bad_text_run [OF assms] by (simp add: Let_def)

theorem invalid_text_not_delivered_witness:
  "effects (conn (ws_run (opened 100) (bad_text_events 1 (client_frame True 1 [1, 2, 3, 4] [0xFF]))))
   = [OnError InvalidUtf8]"
proof -
  have "parse_frame (maxMessageBytes (conn (opened 100))) (client_frame True 1 [1, 2, 3, 4] [0xFF])
      = Frame True 1 [0xFF] []"
    using parse_client_frame [of 100 True 1 "[0xFF]" "[1, 2, 3, 4]" "[]"]
    by (simp add: opened_idle acceptable_def max_safe_integer_def)
  from invalid_text_not_delivered [OF opened_idle(1) this] show ?thesis
    by (simp add: opened_idle utf8_decode_def utf8_decode_units.simps Let_def)
qed

text \<open>The application may get a message after the close was reported: over HTTP/3 the end of the stream is handled while a message
  handler runs, and when the connection is closed between the look at its state and the next round of the loop, the next frame is
  still delivered.\<close>

definition late_message_events :: "ws_event list" where
  "late_message_events =
     [DataArrives (client_frame True 2 [1, 2, 3, 4] [5] @ client_frame True 2 [1, 2, 3, 4] [6] @ [0x82]),
      EndArrives Aborted, CallbackSettles 2 (Fulfilled Undefined), RunTask 2, WriteSettles (Rejected (External 0)), RunTask 2, RunTask 2,
      RunTask 2, EndSettles 2 (Fulfilled Undefined), RunTask 2,
      CallbackSettles 1 (Fulfilled Undefined), RunTask 1, RunTask 1, RunTask 2, RunTask 1]"

theorem message_after_close:
  "effects (conn (ws_run (opened 100) late_message_events))
    = [OnMessage (BinaryMessage [5]), OnError EndedInsideFrame, TransportEnd, OnClose 1006 [], OnMessage (BinaryMessage [6])]"
proof -
  let ?k = "[1, 2, 3, 4] :: bytes"
  have more: "parse_frame 100 [0x82] = FrameMore" by (simp add: parse_frame_def)
  have second: "parse_frame 100 (client_frame True 2 ?k [6] @ [0x82]) = Frame True 2 [6] [0x82]"
    by (rule parse_client_frame) (simp_all add: acceptable_def max_safe_integer_def)
  have first: "parse_frame 100 (client_frame True 2 ?k [5] @ client_frame True 2 ?k [6] @ [0x82])
      = Frame True 2 [5] (client_frame True 2 ?k [6] @ [0x82])"
    by (rule parse_client_frame) (simp_all add: acceptable_def max_safe_integer_def)
  have start: "opened 100 = \<lparr>conn = (new_connection 100 [])\<lparr>protocol := '''', readyState := OPEN\<rparr>, tasks = [returns Undefined]\<rparr>"
    by (simp add: opened_def new_system_def spawn_def start_accept_def selectProtocol_def new_connection_def)
  have short: "length (utf8_encode (ascii ''Protocol error'')) \<le> 123"
    using failure_text_short [of 1002] by (simp add: failure_text_def)
  have valid: "validateCloseCode (IntegerNumber 1002)" by (simp add: validateCloseCode_def)
  show ?thesis
    using first second more short valid
    by (simp add: late_message_events_def start ws_code new_connection_def ws_step.simps(10) settle_task_def message_of_def numeral_2_eq_2
        del: be_bytes.simps)
qed

end
