(* ===== verification/Ws_Attach.thy ===== *)
theory Ws_Attach
  imports Ws_Runs
begin

text \<open>
  \<open>attachWebSocketStream\<close> of packages/server/HTTPServer.js: a Node.js stream (an HTTP/2 stream or an
  HTTP/1.1 socket) drives a connection. The listeners append operations to a promise chain, so one
  call of \<open>receiveData\<close> or \<open>receiveEnd\<close> runs at a time; an operation that rejects sets
  \<open>failed\<close>, is reported, and destroys the stream, and from then on the listeners drop what they get.
\<close>

section \<open>The chain\<close>

datatype operation = ReceiveData bytes | ReceiveEnd end_reason

record attachment =
  system :: ws_system
  chain :: "operation list"
  running :: "nat option"
  failed :: bool
  failures :: "ws_error list"
  destroyed :: bool
  endSeen :: bool
  abortSeen :: bool

definition attachWebSocketStream :: "ws_system \<Rightarrow> attachment" where
  "attachWebSocketStream sys =
     \<lparr>system = sys, chain = [], running = None, failed = False, failures = [], destroyed = False,
      endSeen = False, abortSeen = False\<rparr>"

definition deliver :: "operation \<Rightarrow> attachment \<Rightarrow> attachment" where
  "deliver op a = (if failed a then a else a\<lparr>chain := chain a @ [op]\<rparr>)"

fun start_operation :: "operation \<Rightarrow> ws_system \<Rightarrow> ws_system" where
  "start_operation (ReceiveData bs) sys = ws_step sys (DataArrives bs)"
| "start_operation (ReceiveEnd reason) sys = ws_step sys (EndArrives reason)"

text \<open>One turn of the chain: the next operation starts when the one before it has settled.\<close>

definition turn :: "attachment \<Rightarrow> attachment" where
  "turn a =
     (case running a of
        None \<Rightarrow>
          (case chain a of
             [] \<Rightarrow> a
           | op # ops \<Rightarrow> a\<lparr>system := start_operation op (system a), chain := ops,
                            running := Some (length (tasks (system a)))\<rparr>)
      | Some i \<Rightarrow>
          (case tasks (system a) ! i of
             (Ready (Fulfilled _), []) \<Rightarrow> a\<lparr>running := None\<rparr>
           | (Ready (Rejected cause), []) \<Rightarrow>
               a\<lparr>running := None, failed := True, failures := failures a @ [cause], destroyed := True\<rparr>
           | _ \<Rightarrow> a))"

text \<open>
  The events of an attached connection. \<open>StreamEnd\<close> and \<open>StreamAborted\<close> are listened to once.
  Of the events of the connection, arriving data and its end only come through the chain.
\<close>

datatype stream_event =
    StreamData bytes
  | StreamEnd
  | StreamAborted
  | Turn
  | Connection ws_event

fun from_stream :: "ws_event \<Rightarrow> bool" where
  "from_stream (DataArrives _) = True"
| "from_stream (EndArrives _) = True"
| "from_stream _ = False"

fun attached_step :: "attachment \<Rightarrow> stream_event \<Rightarrow> attachment" where
  "attached_step a (StreamData bs) = deliver (ReceiveData bs) a"
| "attached_step a StreamEnd =
     (if endSeen a then a else deliver (ReceiveEnd Finished) (a\<lparr>endSeen := True\<rparr>))"
| "attached_step a StreamAborted =
     (if abortSeen a then a else deliver (ReceiveEnd Aborted) (a\<lparr>abortSeen := True\<rparr>))"
| "attached_step a Turn = turn a"
| "attached_step a (Connection e) =
     (if from_stream e then a else a\<lparr>system := ws_step (system a) e\<rparr>)"

definition attached_run :: "attachment \<Rightarrow> stream_event list \<Rightarrow> attachment" where
  "attached_run = foldl attached_step"

section \<open>The chain drives the connection within its own events\<close>

lemma ws_run_snoc: "ws_run sys [e] = ws_step sys e"
  by simp

lemma start_operation_run: "\<exists>es. start_operation op sys = ws_run sys es"
  by (cases op) (auto intro: exI [of _ "[DataArrives _]"] exI [of _ "[EndArrives _]"])

lemma system_deliver [simp]: "system (deliver op a) = system a"
  by (simp add: deliver_def)

lemma system_turn: "system (turn a) = system a \<or> (\<exists>op. system (turn a) = start_operation op (system a))"
  by (simp add: turn_def split: option.splits list.splits prod.splits pending.splits outcome.splits) blast

lemma ws_run_self: "\<exists>es. sys = ws_run sys es"
  by (rule exI [of _ "[]"]) simp

lemma attached_step_run: "\<exists>es. system (attached_step a e) = ws_run (system a) es"
proof (cases e)
  case Turn
  from system_turn [of a] show ?thesis
  proof
    assume "system (turn a) = system a"
    then show ?thesis using Turn ws_run_self by simp
  next
    assume "\<exists>op. system (turn a) = start_operation op (system a)"
    then obtain op where "system (turn a) = start_operation op (system a)" ..
    then show ?thesis using Turn start_operation_run by simp
  qed
next
  case (Connection x)
  then show ?thesis using ws_run_self by (auto intro: exI [of _ "[x]"])
qed (use ws_run_self in auto)

lemma attached_run_run: "\<exists>es. system (attached_run a xs) = ws_run (system a) es"
proof (induction xs arbitrary: a)
  case Nil
  show ?case by (auto simp: attached_run_def intro: exI [of _ "[]"])
next
  case (Cons x xs)
  from attached_step_run obtain es where es: "system (attached_step a x) = ws_run (system a) es" by blast
  from Cons.IH obtain es' where "system (attached_run (attached_step a x) xs) = ws_run (system (attached_step a x)) es'"
    by blast
  with es show ?case
    by (auto simp: attached_run_def ws_run_def foldl_append [symmetric] simp del: foldl_append)
qed

text \<open>Hence everything proved of every run of a connection holds of an attached one.\<close>

lemma attached_inv:
  assumes "ws_ok (system a)"
  shows "ws_ok (system (attached_run a xs))"
proof -
  from attached_run_run obtain es where "system (attached_run a xs) = ws_run (system a) es" by blast
  then show ?thesis using ws_run_ok [OF assms, of es] by simp
qed

section \<open>A failed operation cuts the stream off\<close>

definition finished_task :: "suspended \<Rightarrow> bool" where
  "finished_task t \<longleftrightarrow> (\<exists>r. t = (Ready r, []))"

text \<open>Nothing runs, nothing will be started by the stream, and the connection waits to be closed.\<close>

definition cut_off :: "attachment \<Rightarrow> bool" where
  "cut_off a \<longleftrightarrow> failed a \<and> chain a = [] \<and> running a = None
     \<and> list_all finished_task (tasks (system a))
     \<and> readyState (conn (system a)) = CLOSING \<and> sentClose (conn (system a))
     \<and> \<not> closeTimer (conn (system a))"

lemma finished_run [simp]: "finished_task t \<Longrightarrow> run_task s t = (s, t)"
  by (auto simp: finished_task_def)

lemma cut_off_step:
  assumes "cut_off a"
  shows "cut_off (attached_step a e) \<and> effects (conn (system (attached_step a e))) = effects (conn (system a))"
proof (cases e)
  case Turn
  then show ?thesis using assms by (simp add: turn_def cut_off_def)
next
  case (Connection x)
  then show ?thesis using assms
    by (cases x)
      (auto simp: cut_off_def spawn_def start_send_def start_close_def start_accept_def settle_task_def
        finished_task_def list_all_length nth_list_update nth_append less_Suc_eq ws_step.simps(10) split: prod.splits)
qed (use assms in \<open>auto simp: cut_off_def deliver_def\<close>)

lemma cut_off_run:
  "cut_off a \<Longrightarrow> cut_off (attached_run a xs)
     \<and> effects (conn (system (attached_run a xs))) = effects (conn (system a))"
proof (induction xs arbitrary: a)
  case Nil
  then show ?case by (simp add: attached_run_def)
next
  case (Cons x xs)
  then show ?case using cut_off_step [of a x] by (simp add: attached_run_def)
qed

text \<open>The peer closes, and the transport rejects the write of the reply.\<close>

definition attached_idle :: "attachment \<Rightarrow> bool" where
  "attached_idle a \<longleftrightarrow> \<not> failed a \<and> chain a = [] \<and> running a = None \<and> idle (conn (system a))
     \<and> \<not> closeTimer (conn (system a)) \<and> list_all finished_task (tasks (system a))"

definition lost_reply_events :: "nat \<Rightarrow> bytes \<Rightarrow> ws_error \<Rightarrow> stream_event list" where
  "lost_reply_events n bs cause =
     [StreamData bs, Turn, Connection (WriteSettles (Rejected cause)), Connection (RunTask n),
      Connection (RunTask n), Connection (RunTask n), Turn]"

lemma lost_reply_cut_off:
  fixes cause :: ws_error
  assumes "attached_idle a"
    and "parse_frame (maxMessageBytes (conn (system a))) bs = Frame True 8 payload []"
    and "close_payload payload = Inr (code, reason)"
  defines "a' \<equiv> attached_run a (lost_reply_events (length (tasks (system a))) bs cause)"
  shows "cut_off a'" and "effects (conn (system a')) = effects (conn (system a))"
    and "failures a' = failures a @ [cause]" and "destroyed a'"
  using assms
  by (simp_all add: a'_def attached_run_def lost_reply_events_def deliver_def turn_def attached_idle_def
      cut_off_def idle_def ws_code nth_append finished_task_def)

section \<open>Properties\<close>

text \<open>C4: Over TCP, when the close frame of the peer arrives on an idle connection with an empty chain, and the write of the answer is
  rejected before the stream delivers anything else, the connection is lost to the application: whatever the stream, the application,
  the timer or the event loop do afterwards (the end and the abort of the stream included), it stays CLOSING and its close is
  never reported.\<close>

theorem lost_reply_never_closes:
  fixes cause :: ws_error
  assumes "attached_idle a"
    and "parse_frame (maxMessageBytes (conn (system a))) bs = Frame True 8 payload []"
    and "close_payload payload = Inr (code, reason)"
  shows "(let s = conn (system (attached_run a (lost_reply_events (length (tasks (system a))) bs cause @ es)))
          in readyState s = CLOSING \<and> effects s = effects (conn (system a)))"
proof -
  note lost = lost_reply_cut_off [OF assms, of cause]
  from cut_off_run [OF lost(1), of es] lost(2) show ?thesis
    by (simp add: attached_run_def cut_off_def Let_def)
qed

theorem lost_reply_never_closes_witness:
  "readyState (conn (system (attached_run (attachWebSocketStream (opened 100))
     (lost_reply_events 1 (client_frame True 8 [1, 2, 3, 4] []) (External 0) @ [StreamEnd, Turn, StreamAborted, Turn]))))
   = CLOSING"
proof -
  let ?a = "attachWebSocketStream (opened 100)"
  have timer: "\<not> closeTimer (conn (opened 100))"
    by (simp add: opened_def new_system_def new_connection_def spawn_def start_accept_def selectProtocol_def)
  then have a: "attached_idle ?a"
    by (simp add: attached_idle_def attachWebSocketStream_def opened_idle finished_task_def)
  have "parse_frame (maxMessageBytes (conn (system ?a))) (client_frame True 8 [1, 2, 3, 4] []) = Frame True 8 [] []"
    using parse_client_frame [of 100 True 8 "[]" "[1, 2, 3, 4]" "[]"]
    by (simp add: attachWebSocketStream_def opened_idle acceptable_def)
  from lost_reply_never_closes [OF a this, of 1005 "[]"] show ?thesis
    by (simp add: attachWebSocketStream_def opened_idle close_payload_def Let_def)
qed

text \<open>When the end of the stream is queued before the write is rejected, it still runs, and the close is reported with the code of the peer.\<close>

definition queued_end_events :: "nat \<Rightarrow> bytes \<Rightarrow> ws_error \<Rightarrow> stream_event list" where
  "queued_end_events n bs cause =
     [StreamData bs, Turn, StreamEnd, Connection (WriteSettles (Rejected cause)), Connection (RunTask n),
      Connection (RunTask n), Connection (RunTask n), Turn, Turn]"

theorem queued_end_still_closes:
  fixes cause :: ws_error
  assumes "attached_idle a" and "\<not> endSeen a"
    and "parse_frame (maxMessageBytes (conn (system a))) bs = Frame True 8 payload []"
    and "close_payload payload = Inr (code, reason)"
  shows "(let s = conn (system (attached_run a (queued_end_events (length (tasks (system a))) bs cause)))
          in readyState s = CLOSED \<and> effects s = effects (conn (system a)) @ [OnClose code reason])"
  using assms
  by (simp add: attached_run_def queued_end_events_def deliver_def turn_def attached_idle_def idle_def ws_code nth_append finished_task_def)

end
