(* ===== verification/Fetch_Adapter.thy ===== *)
theory Fetch_Adapter
  imports H3_Stream "HOL-Library.List_Lexorder"
begin

text \<open>
  Between the HTTP server of Node.js and the Fetch API: \<open>requestFromNode\<close> and
  \<open>writeResponseToNode\<close> of packages/server/internal/fetch-adapter.js, and
  \<open>responseHeaderTuples\<close> of packages/server/HTTP3Server.js, the same walk over the headers of a
  response for the native server.
\<close>

section \<open>Requests\<close>

definition hopByHopHeaders :: "string list" where
  "hopByHopHeaders = [''connection'', ''keep-alive'', ''proxy-connection'', ''transfer-encoding'', ''upgrade'']"

definition nullBodyStatuses :: "nat list" where
  "nullBodyStatuses = [101, 204, 205, 304]"

datatype adapter_error =
    BadField header_error
  | MissingAuthority
  | MissingMethod
  | MissingPath
  | RequestRefused
  | NotAResponse

record node_request =
  nrHeaders :: node_headers
  nrMethod :: "string option"
  nrUrl :: "string option"
  nrHttpVersion :: string
  nrAborted :: bool

record fetch_request =
  frUrl :: string
  frMethod :: string
  frHeaders :: headers
  frBody :: bool
  frProtocol :: string
  frSignalAborted :: bool

definition skipped_field :: "string \<Rightarrow> bool" where
  "skipped_field name \<longleftrightarrow> starts_with name '':'' \<or> name \<in> set hopByHopHeaders"

definition requestFromNode :: "(string \<Rightarrow> bool) \<Rightarrow> node_request \<Rightarrow> adapter_error + fetch_request" where
  "requestFromNode valid_url r =
     (case regular_headers skipped_field (nrHeaders r) [] of
        Inl e \<Rightarrow> Inl (BadField e)
      | Inr hs \<Rightarrow>
          (case or_else (js_get (nrHeaders r) '':authority'') (js_get (nrHeaders r) ''host'') of
             Some (One authority) \<Rightarrow>
               if length authority = 0 then Inl MissingAuthority
               else (case nrMethod r of
                 None \<Rightarrow> Inl MissingMethod
               | Some method \<Rightarrow>
                   if length method = 0 then Inl MissingMethod
                   else (case nrUrl r of
                     None \<Rightarrow> Inl MissingPath
                   | Some path \<Rightarrow>
                       if \<not> starts_with path ''/'' then Inl MissingPath
                       else let url = ''https://'' @ authority @ path;
                                body = (method \<noteq> ''GET'' \<and> method \<noteq> ''HEAD'')
                            in if \<not> request_allowed valid_url method url body then Inl RequestRefused
                               else Inr \<lparr>frUrl = url, frMethod = normalize_method method, frHeaders = hs,
                                 frBody = body,
                                 frProtocol = (if nrHttpVersion r = ''2.0'' then ''HTTP/2'' else ''HTTP/1.1''),
                                 frSignalAborted = nrAborted r\<rparr>))
           | _ \<Rightarrow> Inl MissingAuthority))"

section \<open>Headers of a response\<close>

definition values_of :: "headers \<Rightarrow> string \<Rightarrow> string list" where
  "values_of hs name = map snd (filter (\<lambda>(n, _). n = name) hs)"

definition getSetCookie :: "headers \<Rightarrow> string list" where
  "getSetCookie hs = values_of hs ''set-cookie''"

text \<open>The iterator of \<open>Headers\<close>: names in order, the values of a name joined, cookies one by one.\<close>

definition headers_entries :: "headers \<Rightarrow> (string \<times> string) list" where
  "headers_entries hs =
     concat (map (\<lambda>name. if name = ''set-cookie'' then map (Pair name) (values_of hs name)
                         else [(name, join_with '', '' (values_of hs name))])
               (sort (remdups (map fst hs))))"

fun tuples_loop :: "bool \<Rightarrow> (string \<times> string) list \<Rightarrow> (string \<times> string) list" where
  "tuples_loop cookies [] = []"
| "tuples_loop cookies ((name, value) # rest) =
     (if name = ''set-cookie'' \<and> cookies then tuples_loop cookies rest
      else (name, value) # tuples_loop cookies rest)"

definition responseHeaderTuples :: "headers \<Rightarrow> (string \<times> string) list" where
  "responseHeaderTuples hs =
     tuples_loop (length (getSetCookie hs) > 0) (headers_entries hs)
     @ map (Pair ''set-cookie'') (getSetCookie hs)"

section \<open>Responses\<close>

record fetch_response =
  rsStatus :: nat
  rsHeaders :: headers
  rsBody :: "bytes list option"

datatype node_action =
    WriteHead nat node_headers
  | CancelBody
  | EndResponse
  | PipeBody "bytes list"

fun node_fields :: "bool \<Rightarrow> (string \<times> string) list \<Rightarrow> node_headers \<Rightarrow> node_headers" where
  "node_fields cookies [] out = out"
| "node_fields cookies ((name, value) # rest) out =
     (if name \<in> set hopByHopHeaders \<or> (name = ''set-cookie'' \<and> cookies)
      then node_fields cookies rest out
      else node_fields cookies rest (js_set out name (One value)))"

definition responseFields :: "fetch_response \<Rightarrow> string option \<Rightarrow> node_headers" where
  "responseFields response altSvc =
     (let cookies = getSetCookie (rsHeaders response);
          hs = node_fields (length cookies > 0) (headers_entries (rsHeaders response)) [];
          hs1 = (if length cookies > 0 then js_set hs ''set-cookie'' (Many cookies) else hs)
      in case altSvc of Some v \<Rightarrow> (if v = [] then hs1 else js_set hs1 ''alt-svc'' (One v)) | None \<Rightarrow> hs1)"

text \<open>What the handler returned is a response, or something else.\<close>

definition writeResponseToNode ::
  "fetch_response option \<Rightarrow> string option \<Rightarrow> string option \<Rightarrow> adapter_error + node_action list" where
  "writeResponseToNode value altSvc method =
     (case value of
        None \<Rightarrow> Inl NotAResponse
      | Some response \<Rightarrow>
          let head = WriteHead (rsStatus response) (responseFields response altSvc)
          in case rsBody response of
               None \<Rightarrow> Inr [head, EndResponse]
             | Some chunks \<Rightarrow>
                 if method = Some ''HEAD'' \<or> rsStatus response \<in> set nullBodyStatuses
                 then Inr [head, CancelBody, EndResponse]
                 else Inr [head, PipeBody chunks])"

section \<open>Facts\<close>

lemma tuples_loop_filter:
  "tuples_loop cookies es = filter (\<lambda>(n, _). \<not> (n = ''set-cookie'' \<and> cookies)) es"
  by (induction es) auto

lemma entries_names: "(n, v) \<in> set (headers_entries hs) \<Longrightarrow> n \<in> fst ` set hs"
  by (auto simp: headers_entries_def split: if_splits)

lemma entries_values:
  assumes "n \<noteq> ''set-cookie''"
  shows "(n, v) \<in> set (headers_entries hs) \<longleftrightarrow> n \<in> fst ` set hs \<and> v = join_with '', '' (values_of hs n)"
  using assms by (auto simp: headers_entries_def split: if_splits)

lemma entries_cookies: "(''set-cookie'', v) \<in> set (headers_entries hs) \<longleftrightarrow> v \<in> set (getSetCookie hs)"
  by (auto simp: headers_entries_def getSetCookie_def values_of_def image_iff split: if_splits)
    force

lemma cookies_empty: "getSetCookie hs = [] \<Longrightarrow> (''set-cookie'', v) \<notin> set (headers_entries hs)"
  by (simp add: entries_cookies)

lemma tuples_without_cookies:
  "tuples_loop (length (getSetCookie hs) > 0) (headers_entries hs)
   = filter (\<lambda>(n, _). n \<noteq> ''set-cookie'') (headers_entries hs)"
  unfolding tuples_loop_filter using cookies_empty [of hs] by (intro filter_cong) auto

lemma node_fields_get:
  "js_get (node_fields cookies es out) n =
     (case map_of (rev es) n of
        Some v \<Rightarrow> if n \<in> set hopByHopHeaders \<or> (n = ''set-cookie'' \<and> cookies) then js_get out n else Some (One v)
      | None \<Rightarrow> js_get out n)"
proof (induction es arbitrary: out)
  case Nil
  show ?case by simp
next
  case (Cons e es)
  obtain m v where e: "e = (m, v)" by force
  show ?case
    by (simp add: e Cons.IH map_add_def split: option.splits)
qed

lemma hop_dropped:
  assumes "n \<in> set hopByHopHeaders"
  shows "js_get (responseFields response altSvc) n = None"
proof -
  have "n \<noteq> ''set-cookie''" and "n \<noteq> ''alt-svc''" using assms by (auto simp: hopByHopHeaders_def)
  then show ?thesis
    using assms by (simp add: responseFields_def node_fields_get Let_def split: option.splits)
qed

section \<open>Properties\<close>

text \<open>The native server is given every header of the response: each name other than set-cookie once,
  with its values joined, and each cookie as a field of its own, in order.\<close>

theorem response_headers_complete:
  "filter (\<lambda>(n, _). n = ''set-cookie'') (responseHeaderTuples hs) = map (Pair ''set-cookie'') (getSetCookie hs)
   \<and> (n \<noteq> ''set-cookie'' \<and> (n, v) \<in> set (responseHeaderTuples hs) \<longleftrightarrow>
       n \<noteq> ''set-cookie'' \<and> n \<in> fst ` set hs \<and> v = join_with '', '' (values_of hs n))"
proof
  show "filter (\<lambda>(n, _). n = ''set-cookie'') (responseHeaderTuples hs) = map (Pair ''set-cookie'') (getSetCookie hs)"
    unfolding responseHeaderTuples_def tuples_without_cookies
    by (auto simp: filter_empty_conv filter_id_conv)
  show "n \<noteq> ''set-cookie'' \<and> (n, v) \<in> set (responseHeaderTuples hs) \<longleftrightarrow>
       n \<noteq> ''set-cookie'' \<and> n \<in> fst ` set hs \<and> v = join_with '', '' (values_of hs n)"
    unfolding responseHeaderTuples_def tuples_without_cookies
    by (cases "n = ''set-cookie''") (auto simp add: entries_values simp del: split_paired_Ex)
qed

text \<open>The answer over TCP carries no hop-by-hop field, carries all cookies as one list, and ends
  without a body for HEAD and for the statuses that have none.\<close>

theorem tcp_response_fields:
  "(writeResponseToNode (Some response) altSvc method = Inr actions \<longleftrightarrow>
      actions = WriteHead (rsStatus response) (responseFields response altSvc)
        # (case rsBody response of
             None \<Rightarrow> [EndResponse]
           | Some chunks \<Rightarrow>
               if method = Some ''HEAD'' \<or> rsStatus response \<in> {101, 204, 205, 304}
               then [CancelBody, EndResponse] else [PipeBody chunks]))
   \<and> {n. js_get (responseFields response altSvc) n \<noteq> None} \<inter> set hopByHopHeaders = {}
   \<and> js_get (responseFields response altSvc) ''set-cookie''
      = (if getSetCookie (rsHeaders response) = [] then None else Some (Many (getSetCookie (rsHeaders response))))"
proof (intro conjI)
  show "writeResponseToNode (Some response) altSvc method = Inr actions \<longleftrightarrow>
      actions = WriteHead (rsStatus response) (responseFields response altSvc)
        # (case rsBody response of
             None \<Rightarrow> [EndResponse]
           | Some chunks \<Rightarrow>
               if method = Some ''HEAD'' \<or> rsStatus response \<in> {101, 204, 205, 304}
               then [CancelBody, EndResponse] else [PipeBody chunks])"
    by (auto simp: writeResponseToNode_def Let_def nullBodyStatuses_def split: option.splits)
  show "{n. js_get (responseFields response altSvc) n \<noteq> None} \<inter> set hopByHopHeaders = {}"
    using hop_dropped by auto
  have "map_of (rev (headers_entries hs)) ''set-cookie'' = None" if "getSetCookie hs = []" for hs
    using cookies_empty [OF that] by (auto simp: map_of_eq_None_iff)
  moreover have "''set-cookie'' \<notin> set hopByHopHeaders" by (simp add: hopByHopHeaders_def)
  ultimately show "js_get (responseFields response altSvc) ''set-cookie''
      = (if getSetCookie (rsHeaders response) = [] then None else Some (Many (getSetCookie (rsHeaders response))))"
    by (simp add: responseFields_def node_fields_get Let_def split: option.splits)
qed

end
