(* ===== verification/Http_Upgrade.thy ===== *)
theory Http_Upgrade
  imports Ws_Attach Fetch_Adapter
begin

text \<open>
  The TCP side of packages/server/HTTPServer.js: routing an HTTP/2 or HTTP/1.1 WebSocket request
  (\<open>#createWebSocket\<close>, \<open>#handleH2WebSocket\<close>, \<open>#handleH1WebSocket\<close>), answering a request
  (\<open>#handleTCPRequest\<close>) and the \<open>Alt-Svc\<close> field. The handlers of the application are
  parameters: what the routing handler returns, and what it calls on the socket before it does.
\<close>

section \<open>State\<close>

record tcp_state =
  hasWebSocketHandler :: bool
  tcpPort :: "nat option"
  altSvcMaxAge :: nat
  maxWebSocketMessageBytes :: nat
  webSockets :: "string list"

definition altSvcHeader :: "tcp_state \<Rightarrow> string option" where
  "altSvcHeader s =
     (case tcpPort s of
        None \<Rightarrow> None
      | Some port \<Rightarrow> Some (''h3='' @ [CHR 0x22, CHR '':''] @ decimal port @ [CHR 0x22] @ ''; ma='' @ decimal (altSvcMaxAge s)))"

section \<open>Routing\<close>

datatype route = RouteThrows | RoutePromise | RouteFalse | RouteString string | RouteOther

datatype route_error =
    Metadata header_error
  | HandlerThrew
  | AsyncRoute
  | NotOffered string

text \<open>The routing handler is called with the new connection and may call its methods.\<close>

type_synonym router = "ws_system \<Rightarrow> ws_system \<times> route"

definition createWebSocket ::
  "router \<Rightarrow> string \<Rightarrow> node_headers \<Rightarrow> tcp_state \<Rightarrow> tcp_state \<times> (route_error + ws_system option)" where
  "createWebSocket handler sid hs s =
     (if \<not> hasWebSocketHandler s then (s, Inr None)
      else case webSocketMetadata hs of
        Inl e \<Rightarrow> (s, Inl (Metadata e))
      | Inr m \<Rightarrow>
          let s1 = s\<lparr>webSockets := set_add (webSockets s) sid\<rparr>;
              removed = s1\<lparr>webSockets := set_delete (webSockets s1) sid\<rparr>
          in case handler (new_system (maxWebSocketMessageBytes s) (wsOfferedProtocols m)) of
               (socket, RouteThrows) \<Rightarrow> (removed, Inl HandlerThrew)
             | (socket, RoutePromise) \<Rightarrow> (removed, Inl AsyncRoute)
             | (socket, RouteFalse) \<Rightarrow> (removed, Inr None)
             | (socket, decision) \<Rightarrow>
                 let proto = (case decision of RouteString p \<Rightarrow> p | _ \<Rightarrow> '''')
                 in if proto \<noteq> '''' \<and> proto \<notin> set (wsOfferedProtocols m)
                    then (removed, Inl (NotOffered proto))
                    else (case selectProtocol proto (conn socket) of
                            Inl _ \<Rightarrow> (s1, Inl (NotOffered proto))
                          | Inr c \<Rightarrow> (s1, Inr (Some (socket\<lparr>conn := c\<rparr>)))))"

text \<open>What is done to the stream or socket, in order.\<close>

datatype upgrade_action =
    Respond nat "(string \<times> string) list"
  | EndStream
  | Attach
  | SwitchProtocols "string list"
  | H1Response nat
  | ReportFailure string
  | DestroyStream

text \<open>The answer of an HTTP/2 stream: the code after \<open>stream.respond\<close> is \<open>socket.accept()\<close>.\<close>

definition h2_response_headers :: "tcp_state \<Rightarrow> ws_system \<Rightarrow> (string \<times> string) list" where
  "h2_response_headers s socket =
     (if protocol (conn socket) \<noteq> '''' then [(''sec-websocket-protocol'', protocol (conn socket))] else [])
     @ (case altSvcHeader s of None \<Rightarrow> [] | Some v \<Rightarrow> [(''alt-svc'', v)])"

definition handleH2WebSocket ::
  "router \<Rightarrow> string \<Rightarrow> node_headers \<Rightarrow> tcp_state \<Rightarrow> tcp_state \<times> upgrade_action list \<times> ws_system option" where
  "handleH2WebSocket handler sid hs s =
     (case createWebSocket handler sid hs s of
        (s1, Inl e) \<Rightarrow> (s1, [ReportFailure ''websocket-open'', Respond 400 [], EndStream], None)
      | (s1, Inr None) \<Rightarrow>
          (s1, [Respond (if hasWebSocketHandler s then 403 else 501) [], EndStream], None)
      | (s1, Inr (Some socket)) \<Rightarrow>
          (s1, [Attach, Respond 200 (h2_response_headers s1 socket)],
           Some (ws_step socket (CallAccept None))))"

text \<open>The fields a socket of HTTP/1.1 is routed with: those of the request and three pseudo-headers.\<close>

definition h1_target_headers :: "h1_request \<Rightarrow> node_headers" where
  "h1_target_headers request =
     (let hs = js_set (reqHeaders request) '':scheme'' (One ''https'');
          hs1 = (case js_get (reqHeaders request) ''host'' of
                   None \<Rightarrow> js_delete hs '':authority'' | Some host \<Rightarrow> js_set hs '':authority'' host)
      in js_set hs1 '':path'' (One (reqUrl request)))"

definition h1_switch_headers :: "(string \<Rightarrow> string) \<Rightarrow> tcp_state \<Rightarrow> h1_request \<Rightarrow> ws_system \<Rightarrow> string list" where
  "h1_switch_headers digest s request socket =
     (let key = (case js_get (reqHeaders request) ''sec-websocket-key'' of Some (One k) \<Rightarrow> k | _ \<Rightarrow> '''')
      in [''HTTP/1.1 101 Switching Protocols'', ''Connection: Upgrade'', ''Upgrade: websocket'',
          ''Sec-WebSocket-Accept: '' @ digest (key @ ''258EAFA5-E914-47DA-95CA-C5AB0DC85B11'')]
         @ (if protocol (conn socket) \<noteq> '''' then [''Sec-WebSocket-Protocol: '' @ protocol (conn socket)] else [])
         @ (case altSvcHeader s of None \<Rightarrow> [] | Some v \<Rightarrow> [''Alt-Svc: '' @ v]))"

text \<open>\<open>writeH1Response\<close> on a socket that may be destroyed already.\<close>

definition reject_h1 :: "bool \<Rightarrow> nat \<Rightarrow> upgrade_action list" where
  "reject_h1 gone status = (if gone then [] else [H1Response status])"

text \<open>\<open>#handleH1WebSocket\<close> up to the await of \<open>accept\<close>. \<open>digest\<close> is the base64 form of the SHA-1 hash; \<open>gone\<close> tells whether
  the socket is destroyed when the request is refused.\<close>

definition handleH1WebSocket ::
  "(string \<Rightarrow> string) \<Rightarrow> router \<Rightarrow> string \<Rightarrow> h1_request \<Rightarrow> bool \<Rightarrow> tcp_state
    \<Rightarrow> tcp_state \<times> upgrade_action list \<times> ws_system option" where
  "handleH1WebSocket digest handler sid request gone s =
     (case validateH1Handshake request of
        Inl e \<Rightarrow> (s, ReportFailure ''websocket-open'' # reject_h1 gone 400, None)
      | Inr _ \<Rightarrow>
          (case createWebSocket handler sid (h1_target_headers request) s of
             (s1, Inl e) \<Rightarrow> (s1, ReportFailure ''websocket-open'' # reject_h1 gone 400, None)
           | (s1, Inr None) \<Rightarrow> (s1, reject_h1 gone (if hasWebSocketHandler s then 403 else 501), None)
           | (s1, Inr (Some socket)) \<Rightarrow>
               (s1, [Attach, SwitchProtocols (h1_switch_headers digest s1 request socket)], Some (ws_step socket (CallAccept None)))))"

text \<open>The rest of \<open>#handleH1WebSocket\<close> after the response line: it waits for \<open>accept\<close>, then for the bytes behind the
  request (\<open>head\<close>) to be received; when one of them rejects, the \<open>catch\<close> block forgets the connection and destroys the socket.
  Meanwhile the connection goes on; when it is closed, \<open>onClose\<close> forgets it.\<close>

datatype opening_phase = AwaitAccept nat | AwaitHead nat | Opened | OpeningFailed

record h1_upgrade =
  op_id :: string
  op_head :: bytes
  op_phase :: opening_phase
  op_system :: ws_system
  op_state :: tcp_state
  op_actions :: "upgrade_action list"

definition begin_opening :: "string \<Rightarrow> bytes \<Rightarrow> tcp_state \<Rightarrow> upgrade_action list \<Rightarrow> ws_system \<Rightarrow> h1_upgrade" where
  "begin_opening sid head s actions sys =
     \<lparr>op_id = sid, op_head = head, op_phase = AwaitAccept (length (tasks sys) - 1), op_system = sys, op_state = s, op_actions = actions\<rparr>"

definition forget_socket :: "h1_upgrade \<Rightarrow> h1_upgrade" where
  "forget_socket o' = o'\<lparr>op_state := (op_state o')\<lparr>webSockets := set_delete (webSockets (op_state o')) (op_id o')\<rparr>\<rparr>"

definition advance :: "ws_event \<Rightarrow> h1_upgrade \<Rightarrow> h1_upgrade" where
  "advance e o' =
     (let before = op_system o'; after = ws_step before e; o1 = o'\<lparr>op_system := after\<rparr>
      in if readyState (conn before) \<noteq> CLOSED \<and> readyState (conn after) = CLOSED then forget_socket o1 else o1)"

definition opening_failed :: "h1_upgrade \<Rightarrow> h1_upgrade" where
  "opening_failed o' = (forget_socket o')\<lparr>op_phase := OpeningFailed,
     op_actions := op_actions o' @ [ReportFailure ''websocket-open'', DestroyStream]\<rparr>"

definition head_or_open :: "h1_upgrade \<Rightarrow> h1_upgrade" where
  "head_or_open o' =
     (if length (op_head o') > 0
      then (advance (DataArrives (op_head o')) o')\<lparr>op_phase := AwaitHead (length (tasks (op_system o')))\<rparr>
      else o'\<lparr>op_phase := Opened\<rparr>)"

definition awaited_task :: "nat \<Rightarrow> (h1_upgrade \<Rightarrow> h1_upgrade) \<Rightarrow> h1_upgrade \<Rightarrow> h1_upgrade" where
  "awaited_task i next_part o' =
     (if i < length (tasks (op_system o'))
      then (case tasks (op_system o') ! i of
              (Ready (Fulfilled _), []) \<Rightarrow> next_part o'
            | (Ready (Rejected _), []) \<Rightarrow> opening_failed o'
            | _ \<Rightarrow> o')
      else o')"

datatype opening_event = OpeningTurn | OpeningSocket ws_event

fun opening_step :: "h1_upgrade \<Rightarrow> opening_event \<Rightarrow> h1_upgrade" where
  "opening_step o' (OpeningSocket e) = advance e o'"
| "opening_step o' OpeningTurn =
     (case op_phase o' of
        AwaitAccept i \<Rightarrow> awaited_task i head_or_open o'
      | AwaitHead i \<Rightarrow> awaited_task i (\<lambda>o'. o'\<lparr>op_phase := Opened\<rparr>) o'
      | _ \<Rightarrow> o')"

definition opening_run :: "h1_upgrade \<Rightarrow> opening_event list \<Rightarrow> h1_upgrade" where
  "opening_run = foldl opening_step"

section \<open>Requests\<close>

text \<open>What \<open>stream\<close> returns (\<open>None\<close>: nothing) or throws. What the response of Node.js does: whether \<open>writeHead\<close> takes a status and its
  fields or throws, whether the body is sent or cancelled without an error, and whether the response is destroyed at the end.\<close>

datatype handled = Returned "fetch_response option option" | HandlerFailed

record node_response =
  np_writeHead :: "nat \<Rightarrow> node_headers \<Rightarrow> bool"
  np_body :: bool
  np_destroyed :: bool

datatype tcp_answer = ReportRequestFailure string | Answer node_action | WriteError nat | EndAnswer | Uncaught

definition response_value :: "fetch_response option option \<Rightarrow> fetch_response option" where
  "response_value r = (case r of None \<Rightarrow> Some \<lparr>rsStatus = 404, rsHeaders = [], rsBody = None\<rparr> | Some v \<Rightarrow> v)"

text \<open>The actions of \<open>writeResponseToNode\<close> one by one: those done, and whether all were.\<close>

fun perform :: "node_response \<Rightarrow> node_action list \<Rightarrow> node_action list \<times> bool" where
  "perform np [] = ([], True)"
| "perform np (WriteHead n hs # as) =
     (if np_writeHead np n hs then (case perform np as of (done, ok) \<Rightarrow> (WriteHead n hs # done, ok)) else ([], False))"
| "perform np (CancelBody # as) =
     (if np_body np then (case perform np as of (done, ok) \<Rightarrow> (CancelBody # done, ok)) else ([CancelBody], False))"
| "perform np (PipeBody chunks # as) =
     (if np_body np then (case perform np as of (done, ok) \<Rightarrow> (PipeBody chunks # done, ok)) else ([PipeBody chunks], False))"
| "perform np (EndResponse # as) = (case perform np as of (done, ok) \<Rightarrow> (EndResponse # done, ok))"

definition is_head :: "node_action \<Rightarrow> bool" where
  "is_head a = (case a of WriteHead _ _ \<Rightarrow> True | _ \<Rightarrow> False)"

text \<open>The \<open>catch\<close> block: when its \<open>writeHead\<close> throws, the error leaves the handler.\<close>

definition request_failed :: "node_response \<Rightarrow> node_request \<Rightarrow> bool \<Rightarrow> tcp_answer list" where
  "request_failed np request headersSent =
     ReportRequestFailure (if nrHttpVersion request = ''2.0'' then ''HTTP/2'' else ''HTTP/1.1'')
     # (if \<not> headersSent \<and> \<not> np_writeHead np 500 [] then [Uncaught]
        else (if \<not> headersSent then [WriteError 500] else [])
          @ (if \<not> np_destroyed np then [EndAnswer] else []))"

definition handleTCPRequest ::
  "(string \<Rightarrow> bool) \<Rightarrow> (fetch_request \<Rightarrow> handled) \<Rightarrow> tcp_state \<Rightarrow> node_request \<Rightarrow> node_response \<Rightarrow> tcp_answer list" where
  "handleTCPRequest valid_url handler s request np =
     (let (done, ok) =
        (case requestFromNode valid_url request of
           Inl _ \<Rightarrow> ([], False)
         | Inr r \<Rightarrow>
             (case handler r of
                HandlerFailed \<Rightarrow> ([], False)
              | Returned v \<Rightarrow>
                  (case writeResponseToNode (response_value v) (altSvcHeader s) (nrMethod request) of
                     Inl _ \<Rightarrow> ([], False)
                   | Inr actions \<Rightarrow> perform np actions)))
      in map Answer done @ (if ok then [] else request_failed np request (list_ex is_head done)))"

definition writeH1Response :: "bool \<Rightarrow> nat \<Rightarrow> string option" where
  "writeH1Response gone status =
     (if gone then None
      else let phrase = (if status = 403 then ''Forbidden''
                         else if status = 501 then ''Not Implemented'' else ''Bad Request'');
               line = [CHR 0x0D, CHR 0x0A]
      in Some (''HTTP/1.1 '' @ decimal status @ '' '' @ phrase @ line @ ''Connection: close'' @ line
               @ ''Content-Length: 0'' @ line @ line))"

section \<open>Facts\<close>

text \<open>A routing handler may send, close and accept, in any number of calls.\<close>

definition well_behaved :: "router \<Rightarrow> bool" where
  "well_behaved handler \<longleftrightarrow> (\<forall>sys. \<exists>calls. fst (handler sys) = ws_run sys calls)"

text \<open>No method changes what the client offered.\<close>

lemma start_offered [simp]:
  "offeredProtocols (fst (start_send d s)) = offeredProtocols s"
  "offeredProtocols (fst (start_close c reason s)) = offeredProtocols s"
  "offeredProtocols (fst (start_finish n t s)) = offeredProtocols s"
  "offeredProtocols (fst (start_finishTransport s)) = offeredProtocols s"
  "offeredProtocols (fst (start_protocolFailure e n s)) = offeredProtocols s"
  "offeredProtocols (fst (start_receiveClose bs s)) = offeredProtocols s"
  "offeredProtocols (fst (start_receiveEnd why s)) = offeredProtocols s"
  "offeredProtocols (fst (start_timer s)) = offeredProtocols s"
  by (auto simp: ws_code split: sum.splits send_data.splits option.splits)

lemma start_handleFrame_offered [simp]:
  "offeredProtocols (fst (start_handleFrame fin opcode p s)) = offeredProtocols s"
proof (cases "opcode = 8")
  case True
  then show ?thesis by (simp add: start_handleFrame_def)
next
  case False
  then show ?thesis
    by (auto simp: start_handleFrame_def writeFrame_def start_protocolFailure_def effect_def Let_def
        split: sum.splits)
qed

lemma start_readFrame_offered [simp]: "offeredProtocols (fst (start_readFrame s)) = offeredProtocols s"
  by (simp add: start_readFrame_def split: frame_result.splits)

lemma start_round_offered [simp]: "offeredProtocols (fst (start_round s)) = offeredProtocols s"
  by (simp add: start_round_def)

lemma start_receiveData_offered [simp]: "offeredProtocols (fst (start_receiveData bs s)) = offeredProtocols s"
  by (simp add: start_receiveData_def Let_def)

lemma start_accept_offered [simp]: "offeredProtocols (fst (start_accept p s)) = offeredProtocols s"
  by (auto simp: start_accept_def selectProtocol_def Let_def split: sum.splits if_splits)

lemma resume_offered: "offeredProtocols (fst (resume k r s)) = offeredProtocols s"
  by (cases "(k, r, s)" rule: resume.cases) (auto simp: armCloseTimer_def effect_def)

lemma ws_step_offered: "offeredProtocols (conn (ws_step sys e)) = offeredProtocols (conn sys)"
proof (cases e)
  case (RunTask i)
  then show ?thesis
    using run_task_conn [of "conn sys" "tasks sys ! i"] resume_offered
    by (cases "run_task (conn sys) (tasks sys ! i)") (auto simp: ws_step.simps(10))
qed (simp_all add: conn_spawn)

lemma ws_run_offered: "offeredProtocols (conn (ws_run sys es)) = offeredProtocols (conn sys)"
  by (induction es arbitrary: sys) (simp_all add: ws_step_offered)

lemma routed_offered:
  "well_behaved handler \<Longrightarrow> offeredProtocols (conn (fst (handler sys))) = offeredProtocols (conn sys)"
  by (metis well_behaved_def ws_run_offered)

lemma createWebSocket_registers:
  assumes "well_behaved handler" and "sid \<notin> set (webSockets s)"
    and "createWebSocket handler sid hs s = (s1, r)"
  shows "set (webSockets s1) = (case r of Inr (Some _) \<Rightarrow> insert sid (set (webSockets s)) | _ \<Rightarrow> set (webSockets s))"
    and "r = Inr (Some socket) \<Longrightarrow>
      protocol (conn socket) = '''' \<or> protocol (conn socket) \<in> set (offeredProtocols (conn socket))"
    and "r = Inr (Some socket) \<Longrightarrow> hasWebSocketHandler s"
proof -
  let ?sys = "\<lambda>m. new_system (maxWebSocketMessageBytes s) (wsOfferedProtocols m)"
  have offered: "offeredProtocols (conn sock) = wsOfferedProtocols m" if "handler (?sys m) = (sock, d)" for m sock d
    using routed_offered [OF assms(1), of "?sys m"] that by (simp add: new_system_def new_connection_def)
  show "set (webSockets s1) = (case r of Inr (Some _) \<Rightarrow> insert sid (set (webSockets s)) | _ \<Rightarrow> set (webSockets s))"
    using assms(2,3)
    by (auto simp: createWebSocket_def Let_def delete_fresh selectProtocol_def dest: offered
        split: if_splits sum.splits prod.splits route.splits)
  show "r = Inr (Some socket) \<Longrightarrow>
      protocol (conn socket) = '''' \<or> protocol (conn socket) \<in> set (offeredProtocols (conn socket))"
    and "r = Inr (Some socket) \<Longrightarrow> hasWebSocketHandler s"
    using assms(3)
    by (auto simp: createWebSocket_def Let_def selectProtocol_def
        split: if_splits sum.splits prod.splits route.splits)
qed

section \<open>Properties\<close>

definition answered_status :: "upgrade_action \<Rightarrow> nat list" where
  "answered_status a = (case a of Respond n _ \<Rightarrow> [n] | H1Response n \<Rightarrow> [n] | SwitchProtocols _ \<Rightarrow> [101] | _ \<Rightarrow> [])"

definition answered_statuses :: "upgrade_action list \<Rightarrow> nat list" where
  "answered_statuses as = concat (map answered_status as)"

text \<open>An HTTP/2 WebSocket request gets exactly one response: 200 and a registered connection, whose
  subprotocol the client offered, or 400, 403 or 501 and no connection; a request that is not
  accepted leaves the set of WebSockets as it was.\<close>

theorem h2_websocket_one_response:
  assumes "well_behaved handler" and "sid \<notin> set (webSockets s)"
    and "handleH2WebSocket handler sid hs s = (s1, actions, socket)"
  shows "(case socket of
      None \<Rightarrow> answered_statuses actions \<in> {[400], [403], [501]} \<and> set (webSockets s1) = set (webSockets s)
    | Some sys \<Rightarrow> answered_statuses actions = [200] \<and> set (webSockets s1) = insert sid (set (webSockets s))
        \<and> hasWebSocketHandler s)"
proof -
  obtain s2 r where create: "createWebSocket handler sid hs s = (s2, r)" by (meson surj_pair)
  note reg = createWebSocket_registers [OF assms(1,2) create]
  show ?thesis
    using assms(3) reg(1,3)
    by (auto simp: handleH2WebSocket_def create answered_statuses_def answered_status_def
        split: sum.splits option.splits if_splits)
qed

text \<open>The calls a routing handler can make on the connection before it returns.\<close>

fun user_call :: "ws_event \<Rightarrow> bool" where
  "user_call (CallSend _) = True"
| "user_call (CallClose _ _) = True"
| "user_call (CallAccept _) = True"
| "user_call _ = False"

definition synchronous :: "router \<Rightarrow> bool" where
  "synchronous handler \<longleftrightarrow> (\<forall>sys. \<exists>calls. list_all user_call calls \<and> fst (handler sys) = ws_run sys calls)"

lemma synchronous_well_behaved: "synchronous handler \<Longrightarrow> well_behaved handler"
  unfolding synchronous_def well_behaved_def by blast

text \<open>A routing handler for the witnesses: it accepts without a subprotocol.\<close>

definition accept_all :: router where
  "accept_all sys = (sys, RouteOther)"

lemma accept_all_ok: "well_behaved accept_all"
  unfolding well_behaved_def accept_all_def using ws_run_self by simp

lemma accept_all_synchronous: "synchronous accept_all"
  unfolding synchronous_def accept_all_def by (auto intro: exI [of _ "[]"])

definition example_tcp :: tcp_state where
  "example_tcp = \<lparr>hasWebSocketHandler = True, tcpPort = Some 443, altSvcMaxAge = 3600,
     maxWebSocketMessageBytes = 100, webSockets = []\<rparr>"

theorem h2_websocket_one_response_witness:
  "answered_statuses (fst (snd (handleH2WebSocket accept_all ''1'' [] example_tcp))) = [400]"
proof -
  have "webSocketMetadata [] = Inl InvalidTarget" by code_simp
  then have "handleH2WebSocket accept_all ''1'' [] example_tcp =
      (example_tcp, [ReportFailure ''websocket-open'', Respond 400 [], EndStream], None)"
    by (simp add: handleH2WebSocket_def createWebSocket_def example_tcp_def)
  with h2_websocket_one_response [OF accept_all_ok _ this] show ?thesis
    by (simp add: example_tcp_def answered_statuses_def answered_status_def)
qed

lemma user_call_open:
  assumes "user_call e" and "readyState (conn sys) \<noteq> CLOSED" and "pendingInput (conn sys) = []"
  shows "readyState (conn (ws_step sys e)) \<noteq> CLOSED \<and> pendingInput (conn (ws_step sys e)) = []"
  using assms
  by (cases e)
    (auto simp: conn_spawn start_send_def start_close_def start_accept_def selectProtocol_def writeFrame_def
      split: sum.split send_data.split option.split)

lemma user_calls_open:
  "list_all user_call es \<Longrightarrow> readyState (conn sys) \<noteq> CLOSED \<Longrightarrow> pendingInput (conn sys) = [] \<Longrightarrow>
    readyState (conn (ws_run sys es)) \<noteq> CLOSED \<and> pendingInput (conn (ws_run sys es)) = []"
proof (induction es arbitrary: sys)
  case (Cons e es)
  have "readyState (conn (ws_step sys e)) \<noteq> CLOSED \<and> pendingInput (conn (ws_step sys e)) = []"
    using user_call_open Cons.prems by simp
  then show ?case using Cons.IH [of "ws_step sys e"] Cons.prems(1) by simp
qed simp

lemma selected_ok: "selectProtocol proto (conn sys) = Inr c \<Longrightarrow> ws_ok sys \<Longrightarrow> ws_ok (sys\<lparr>conn := c\<rparr>)"
  by (rule same_stage_ok)
    (auto simp: selectProtocol_def ws_ok_def calm_def split: if_splits intro: ws_inv_cong)

text \<open>The connection an upgrade begins with is one that runs reach, and it is not closed.\<close>

lemma created_open:
  assumes "synchronous handler" and "createWebSocket handler sid hs s = (s1, Inr (Some socket))"
  shows "ws_ok socket \<and> readyState (conn socket) \<noteq> CLOSED \<and> pendingInput (conn socket) = []"
proof -
  obtain m where m: "webSocketMetadata hs = Inr m" and has: "hasWebSocketHandler s"
    using assms(2) by (auto simp: createWebSocket_def split: if_splits sum.splits)
  obtain sock decision where h: "handler (new_system (maxWebSocketMessageBytes s) (wsOfferedProtocols m)) = (sock, decision)"
    by (meson surj_pair)
  have c: "\<exists>proto c. selectProtocol proto (conn sock) = Inr c \<and> socket = sock\<lparr>conn := c\<rparr>"
    using assms(2) by (cases decision) (auto simp: createWebSocket_def Let_def m has h split: if_splits sum.splits)
  obtain calls where calls: "list_all user_call calls" "sock = ws_run (new_system (maxWebSocketMessageBytes s) (wsOfferedProtocols m)) calls"
    using assms(1) h unfolding synchronous_def by (metis fst_conv)
  have "readyState (conn (new_system n offered)) \<noteq> CLOSED \<and> pendingInput (conn (new_system n offered)) = []" for n offered
    by (simp add: new_system_def new_connection_def)
  then have sock: "ws_ok sock" "readyState (conn sock) \<noteq> CLOSED \<and> pendingInput (conn sock) = []"
    using user_calls_open [OF calls(1)] ws_run_ok [OF ws_ok_new] calls(2) by metis+
  obtain proto c where "selectProtocol proto (conn sock) = Inr c" "socket = sock\<lparr>conn := c\<rparr>" using c by blast
  then show ?thesis using sock selected_ok by (auto simp: selectProtocol_def split: if_splits)
qed

text \<open>What holds of an upgrade from its response line on.\<close>

definition opening_ok :: "string set \<Rightarrow> h1_upgrade \<Rightarrow> bool" where
  "opening_ok others o' \<longleftrightarrow> ws_ok (op_system o') \<and> op_id o' \<notin> others
     \<and> answered_statuses (op_actions o') = [101]
     \<and> set (webSockets (op_state o'))
        = (if op_phase o' = OpeningFailed \<or> readyState (conn (op_system o')) = CLOSED then others else insert (op_id o') others)
     \<and> (DestroyStream \<in> set (op_actions o') \<longleftrightarrow> op_phase o' = OpeningFailed)"

lemma answered_append: "answered_statuses (xs @ ys) = answered_statuses xs @ answered_statuses ys"
  by (simp add: answered_statuses_def)

lemma forgotten_socket: "set (webSockets (op_state (forget_socket o'))) = set (webSockets (op_state o')) - {op_id o'}"
  "op_system (forget_socket o') = op_system o'" "op_phase (forget_socket o') = op_phase o'"
  "op_id (forget_socket o') = op_id o'" "op_actions (forget_socket o') = op_actions o'"
  by (simp_all add: forget_socket_def)

lemma advance_ok: "opening_ok others o' \<Longrightarrow> opening_ok others (advance e o')"
  using ws_step_ok [of "op_system o'" e] ws_step_rank [of "op_system o'" e]
  by (cases "readyState (conn (op_system o'))"; cases "readyState (conn (ws_step (op_system o') e))")
    (auto simp: opening_ok_def advance_def Let_def forgotten_socket less_eq_ready_state_def)

lemma opening_failed_ok: "opening_ok others o' \<Longrightarrow> opening_ok others (opening_failed o')"
  by (auto simp: opening_ok_def opening_failed_def forgotten_socket answered_append answered_statuses_def answered_status_def)

lemma phase_change_ok:
  "opening_ok others o' \<Longrightarrow> op_phase o' \<noteq> OpeningFailed \<Longrightarrow> p \<noteq> OpeningFailed \<Longrightarrow> opening_ok others (o'\<lparr>op_phase := p\<rparr>)"
  by (simp add: opening_ok_def)

lemma advance_phase [simp]: "op_phase (advance e o') = op_phase o'"
  by (simp add: advance_def Let_def forgotten_socket)

lemma head_or_open_ok: "opening_ok others o' \<Longrightarrow> op_phase o' \<noteq> OpeningFailed \<Longrightarrow> opening_ok others (head_or_open o')"
  by (auto simp: head_or_open_def intro!: phase_change_ok advance_ok)

lemma awaited_task_ok:
  "opening_ok others o' \<Longrightarrow> opening_ok others (next_part o') \<Longrightarrow> opening_ok others (awaited_task i next_part o')"
  by (auto simp: awaited_task_def opening_failed_ok split: prod.split pending.split outcome.split list.split)

lemma opening_step_ok: "opening_ok others o' \<Longrightarrow> opening_ok others (opening_step o' e)"
  by (cases e; cases "op_phase o'") (auto intro!: advance_ok awaited_task_ok head_or_open_ok phase_change_ok)

lemma opening_step_id: "op_id (opening_step o' e) = op_id o'"
  by (cases e)
    (auto simp: advance_def awaited_task_def opening_failed_def head_or_open_def forgotten_socket Let_def
      split: opening_phase.split prod.split pending.split outcome.split list.split)

lemma opening_id_run: "op_id (opening_run o' es) = op_id o'"
  unfolding opening_run_def by (induction es arbitrary: o') (simp_all add: opening_step_id)

interpretation openings: invariant_machine opening_step "opening_ok others"
  by unfold_locales (rule opening_step_ok)



section \<open>Plain requests\<close>

definition head_status :: "tcp_answer \<Rightarrow> nat list" where
  "head_status a = (case a of Answer (WriteHead n _) \<Rightarrow> [n] | WriteError n \<Rightarrow> [n] | _ \<Rightarrow> [])"

definition is_report :: "tcp_answer \<Rightarrow> bool" where
  "is_report a = (case a of ReportRequestFailure _ \<Rightarrow> True | _ \<Rightarrow> False)"

definition is_end :: "tcp_answer \<Rightarrow> bool" where
  "is_end a \<longleftrightarrow> a = EndAnswer \<or> a = Answer EndResponse"

text \<open>The head of a request that could not be answered otherwise.\<close>

definition error_head :: "node_response \<Rightarrow> nat list" where
  "error_head np = (if np_writeHead np 500 [] then [500] else [])"


end
