(* ===== verification/H3_Server.thy ===== *)
theory H3_Server
  imports H3_Receive H3_Response Http_Upgrade
begin

text \<open>
  The class \<open>HTTP3Server\<close> of packages/server/HTTP3Server.js: what it does on each callback of the
  native server, with the connections, streams, sessions, WebTransport streams and WebSockets it
  keeps. Objects that the code shares (a stream points to its connection, a session to its
  connection, a WebTransport stream to its session) are entries of lists, and a reference is an
  index; the maps of the code map ids to references. The deliveries of received bytes are those of
  \<open>H3_Receive\<close>, the responses those of \<open>H3_Response\<close>, the sockets those of \<open>Ws_Connection\<close>.
\<close>

section \<open>State\<close>

record connection_object =
  co_id :: string
  co_streams :: "(string, nat) js_map"
  co_sessions :: "(string, nat) js_map"

record session_object =
  so_id :: string
  so_connection :: nat
  so_headers :: node_headers
  so_streams :: "(string, nat) js_map"

record wt_object =
  wo_id :: string
  wo_session :: nat

record socket_object =
  ko_id :: string
  ko_system :: ws_system

text \<open>\<open>invocations\<close> are the calls of handlers, \<open>reported\<close> the failures given to \<open>#reportError\<close>,
  \<open>bestEffort\<close> the heads sent outside a response call; \<open>pendingOpens\<close> are the WebSockets whose response
  head is under way, \<open>pendingAccepts\<close> those whose \<open>accept\<close> is awaited (a socket and a task of it), \<open>callTargets\<close> the stream or session of each response call, \<open>refused\<close> the data
  completed as not accepted at once, and \<open>microtasks\<close> the handler calls that are queued.\<close>

record h3_server =
  bound :: "(string \<times> nat) option"
  startPending :: bool
  startResults :: "bool list"
  hasSessionHandler :: bool
  hasSocketHandler :: bool
  socketLimit :: nat
  connections :: "(string, nat) js_map"
  streams :: "(string, nat) js_map"
  sessions :: "(string, nat) js_map"
  wtStreams :: "(string, nat) js_map"
  sockets :: "(string, string \<times> nat) js_map"
  connectionHeap :: "connection_object list"
  streamHeap :: "h3_stream list"
  sessionHeap :: "session_object list"
  wtHeap :: "wt_object list"
  socketHeap :: "socket_object list"
  receiving_part :: receiving
  responding_part :: responding
  invocations :: "(string \<times> string) list"
  reported :: "(string \<times> string) list"
  bestEffort :: "(string \<times> nat) list"
  pendingOpens :: "(nat \<times> string) list"
  pendingAccepts :: "(nat \<times> nat) list"
  callTargets :: "nat list"
  refused :: "(string \<times> nat) list"
  microtasks :: "(string \<times> string) list"

definition new_h3_server :: "bool \<Rightarrow> bool \<Rightarrow> nat \<Rightarrow> h3_server" where
  "new_h3_server session socket limit =
     \<lparr>bound = None, startPending = False, startResults = [], hasSessionHandler = session,
      hasSocketHandler = socket, socketLimit = limit, connections = [], streams = [], sessions = [],
      wtStreams = [], sockets = [], connectionHeap = [], streamHeap = [], sessionHeap = [], wtHeap = [],
      socketHeap = [], receiving_part = no_deliveries, responding_part = no_responses, invocations = [],
      reported = [], bestEffort = [], pendingOpens = [], pendingAccepts = [], callTargets = [], refused = [], microtasks = []\<rparr>"

definition at_index :: "nat \<Rightarrow> ('a \<Rightarrow> 'a) \<Rightarrow> 'a list \<Rightarrow> 'a list" where
  "at_index n f xs = (if n < length xs then xs[n := f (xs ! n)] else xs)"

lemma at_index_simps [simp]:
  "length (at_index n f xs) = length xs"
  "m < length xs \<Longrightarrow> at_index n f xs ! m = (if m = n then f (xs ! n) else xs ! m)"
  by (auto simp: at_index_def nth_list_update)

definition receives :: "receive_event \<Rightarrow> h3_server \<Rightarrow> h3_server" where
  "receives e s = s\<lparr>receiving_part := receive_step (receiving_part s) e\<rparr>"

definition responds :: "response_event \<Rightarrow> h3_server \<Rightarrow> h3_server" where
  "responds e s = s\<lparr>responding_part := response_step (responding_part s) e\<rparr>"

definition invoke :: "string \<Rightarrow> string \<Rightarrow> h3_server \<Rightarrow> h3_server" where
  "invoke operation sid s = s\<lparr>invocations := invocations s @ [(operation, sid)]\<rparr>"

definition report_failure :: "string \<Rightarrow> string \<Rightarrow> h3_server \<Rightarrow> h3_server" where
  "report_failure operation sid s = s\<lparr>reported := reported s @ [(operation, sid)]\<rparr>"

definition best_effort :: "string \<Rightarrow> nat \<Rightarrow> h3_server \<Rightarrow> h3_server" where
  "best_effort sid status s = s\<lparr>bestEffort := bestEffort s @ [(sid, status)]\<rparr>"

section \<open>Sockets\<close>

text \<open>An event of a socket. When it reports its close, \<open>onClose\<close> removes the id from the map.\<close>

definition drive :: "nat \<Rightarrow> ws_event \<Rightarrow> h3_server \<Rightarrow> h3_server" where
  "drive k e s =
     (if k < length (socketHeap s)
      then let before = ko_system (socketHeap s ! k);
               after = ws_step before e;
               s1 = s\<lparr>socketHeap := at_index k (\<lambda>o'. o'\<lparr>ko_system := after\<rparr>) (socketHeap s)\<rparr>
           in if readyState (conn before) \<noteq> CLOSED \<and> readyState (conn after) = CLOSED
              then s1\<lparr>sockets := js_delete (sockets s1) (ko_id (socketHeap s ! k))\<rparr> else s1
      else s)"

definition drive_all :: "ws_event \<Rightarrow> nat list \<Rightarrow> h3_server \<Rightarrow> h3_server" where
  "drive_all e ks s = foldl (\<lambda>t k. drive k e t) s ks"

text \<open>The routing handler may call \<open>send\<close> and \<open>close\<close> on the socket.\<close>

datatype socket_call = UserSend send_data | UserClose js_number "code_points option"

fun user_event :: "socket_call \<Rightarrow> ws_event" where
  "user_event (UserSend d) = CallSend d"
| "user_event (UserClose n reason) = CallClose n reason"

text \<open>\<open>#handleWebSocketStart\<close> up to the await of \<open>sendHeaders\<close>: \<open>None\<close> when the call is over, and
  the socket and its subprotocol when the headers are under way.\<close>

definition handleWebSocketStart ::
  "string \<Rightarrow> string \<Rightarrow> node_headers \<Rightarrow> socket_call list \<Rightarrow> route \<Rightarrow> h3_server
    \<Rightarrow> h3_server \<times> (nat \<times> string) option" where
  "handleWebSocketStart sid cid hs user_calls decision s =
     (case webSocketMetadata hs of
        Inl _ \<Rightarrow>
          (best_effort sid 400 (report_failure ''websocket-open'' sid (s\<lparr>sockets := js_delete (sockets s) sid\<rparr>)), None)
      | Inr m \<Rightarrow>
          if \<not> hasSocketHandler s then (best_effort sid 501 s, None)
          else
            let k = length (socketHeap s);
                s1 = s\<lparr>socketHeap := socketHeap s
                         @ [\<lparr>ko_id = sid, ko_system = new_system (socketLimit s) (wsOfferedProtocols m)\<rparr>],
                       sockets := js_set (sockets s) sid (cid, k)\<rparr>;
                s2 = foldl (\<lambda>t c. drive k (user_event c) t) s1 user_calls;
                gone = s2\<lparr>sockets := js_delete (sockets s2) sid\<rparr>;
                failed = (best_effort sid 500 (report_failure ''websocket-open'' sid gone), None)
            in case decision of
                 RouteThrows \<Rightarrow> failed
               | RoutePromise \<Rightarrow> failed
               | RouteFalse \<Rightarrow> (best_effort sid 403 gone, None)
               | RouteString proto \<Rightarrow>
                   if proto \<noteq> '''' \<and> proto \<notin> set (wsOfferedProtocols m) then failed
                   else (best_effort sid 200 s2, Some (k, proto))
               | RouteOther \<Rightarrow> (best_effort sid 200 s2, Some (k, '''')))"

text \<open>The \<open>catch\<close> block with a socket made.\<close>

definition socket_open_failed :: "string \<Rightarrow> h3_server \<Rightarrow> h3_server" where
  "socket_open_failed sid s =
     best_effort sid 500 (report_failure ''websocket-open'' sid (s\<lparr>sockets := js_delete (sockets s) sid\<rparr>))"

text \<open>After the await of \<open>sendHeaders\<close>: \<open>accept\<close>, whose promise is awaited next, or the \<open>catch\<close> block.\<close>

definition webSocketHeadersAnswered :: "nat \<Rightarrow> string \<Rightarrow> bool \<Rightarrow> h3_server \<Rightarrow> h3_server" where
  "webSocketHeadersAnswered k proto accepted s =
     (if accepted
      then drive k (CallAccept (Some proto))
             (s\<lparr>pendingAccepts := pendingAccepts s @ [(k, length (tasks (ko_system (socketHeap s ! k))))]\<rparr>)
      else socket_open_failed (ko_id (socketHeap s ! k)) s)"

text \<open>After the await of \<open>accept\<close>: when its promise is rejected the \<open>catch\<close> block runs.\<close>

definition webSocketAccepted :: "nat \<Rightarrow> h3_server \<Rightarrow> h3_server" where
  "webSocketAccepted n s =
     (if n < length (pendingAccepts s)
      then let (k, i) = pendingAccepts s ! n;
               settled = s\<lparr>pendingAccepts := take n (pendingAccepts s) @ drop (Suc n) (pendingAccepts s)\<rparr>
           in if i < length (tasks (ko_system (socketHeap s ! k)))
              then (case tasks (ko_system (socketHeap s ! k)) ! i of
                      (Ready (Fulfilled _), []) \<Rightarrow> settled
                    | (Ready (Rejected _), []) \<Rightarrow> socket_open_failed (ko_id (socketHeap s ! k)) settled
                    | _ \<Rightarrow> s)
              else s
      else s)"

section \<open>Sessions\<close>

definition deleteSession :: "nat \<Rightarrow> h3_server \<Rightarrow> h3_server" where
  "deleteSession q s =
     (let o' = sessionHeap s ! q;
          s1 = s\<lparr>wtStreams := foldl js_delete (wtStreams s) (map (\<lambda>w. wo_id (wtHeap s ! w)) (js_values (so_streams o')))\<rparr>
      in s1\<lparr>sessions := js_delete (sessions s1) (so_id o'),
            responding_part := response_step (responding_part s1) (DeleteSession (so_id o')),
            connectionHeap := at_index (so_connection o')
              (\<lambda>c. c\<lparr>co_sessions := js_delete (co_sessions c) (so_id o')\<rparr>) (connectionHeap s1)\<rparr>)"

section \<open>Callbacks of the native server\<close>

definition handleStart :: "string \<Rightarrow> nat \<Rightarrow> h3_server \<Rightarrow> h3_server" where
  "handleStart address port s =
     s\<lparr>bound := Some (address, port),
       startResults := startResults s @ (if startPending s then [True] else []), startPending := False\<rparr>"

definition handleStop :: "h3_server \<Rightarrow> h3_server" where
  "handleStop s =
     (let s1 = s\<lparr>bound := None,
                 connectionHeap := foldl (\<lambda>h c. at_index c (\<lambda>o'. o'\<lparr>co_streams := [], co_sessions := []\<rparr>) h)
                                         (connectionHeap s) (js_values (connections s)),
                 connections := [], streams := [], sessions := [], wtStreams := []\<rparr>;
          s2 = drive_all (EndArrives Aborted) (map snd (js_values (sockets s1))) s1;
          s3 = s2\<lparr>sockets := []\<rparr>
      in receives ClearAll (responds CancelAll s3))"

definition handleConnection :: "string \<Rightarrow> h3_server \<Rightarrow> h3_server" where
  "handleConnection cid s =
     (if js_has (connections s) cid then report_failure ''connection'' cid s
      else invoke ''connection'' cid
        (s\<lparr>connectionHeap := connectionHeap s @ [\<lparr>co_id = cid, co_streams = [], co_sessions = []\<rparr>],
           connections := js_set (connections s) cid (length (connectionHeap s))\<rparr>))"

text \<open>The loops of \<open>handleConnectionEnd\<close> over the streams and sessions of the connection.\<close>

definition forget_streams :: "connection_object \<Rightarrow> h3_server \<Rightarrow> h3_server" where
  "forget_streams c s =
     s\<lparr>streams := foldl js_delete (streams s) (map (\<lambda>r. st_id (streamHeap s ! r)) (js_values (co_streams c)))\<rparr>"

definition forget_session :: "nat \<Rightarrow> h3_server \<Rightarrow> h3_server" where
  "forget_session q s =
     (let o' = sessionHeap s ! q
      in s\<lparr>wtStreams := foldl js_delete (wtStreams s) (map (\<lambda>w. wo_id (wtHeap s ! w)) (js_values (so_streams o'))),
           sessions := js_delete (sessions s) (so_id o')\<rparr>)"

definition sockets_of :: "string \<Rightarrow> h3_server \<Rightarrow> nat list" where
  "sockets_of cid s = map snd (filter (\<lambda>(c, _). c = cid) (js_values (sockets s)))"

definition handleConnectionEnd :: "string \<Rightarrow> h3_server \<Rightarrow> h3_server" where
  "handleConnectionEnd cid s =
     (let s1 = (case js_get (connections s) cid of
                  None \<Rightarrow> s
                | Some c \<Rightarrow>
                    let o' = connectionHeap s ! c
                    in foldl (\<lambda>t q. forget_session q t) (forget_streams o' s) (js_values (co_sessions o')));
          s2 = responds (CancelConnection cid) s1;
          s3 = drive_all (EndArrives Aborted) (sockets_of cid s2) s2
      in s3\<lparr>connections := js_delete (connections s3) cid\<rparr>)"

definition header_is :: "node_headers \<Rightarrow> string \<Rightarrow> string \<Rightarrow> bool" where
  "header_is hs name value \<longleftrightarrow> js_get hs name = Some (One value)"

definition request_stream :: "h3_stream \<Rightarrow> nat \<Rightarrow> string \<Rightarrow> string \<Rightarrow> h3_server \<Rightarrow> h3_server" where
  "request_stream st c sid cid s =
     responds (StartCall ForRequest sid cid [])
       (s\<lparr>streamHeap := streamHeap s @ [st],
          connectionHeap := at_index c (\<lambda>o'. o'\<lparr>co_streams := js_set (co_streams o') sid (length (streamHeap s))\<rparr>)
                              (connectionHeap s),
          streams := js_set (streams s) sid (length (streamHeap s)),
          callTargets := callTargets s @ [length (streamHeap s)]\<rparr>)"

definition handleNativeRequest ::
  "(string \<Rightarrow> bool) \<Rightarrow> string \<Rightarrow> string \<Rightarrow> node_headers \<Rightarrow> socket_call list \<Rightarrow> route \<Rightarrow> h3_server \<Rightarrow> h3_server" where
  "handleNativeRequest valid_url sid cid hs user_calls decision s =
     (case js_get (connections s) cid of
        None \<Rightarrow> s
      | Some c \<Rightarrow>
          if js_has (co_streams (connectionHeap s ! c)) sid \<or> js_has (sockets s) sid
          then report_failure ''request'' sid s
          else if header_is hs '':method'' ''CONNECT'' \<and> header_is hs '':protocol'' ''websocket''
          then (case handleWebSocketStart sid cid hs user_calls decision s of
                  (s1, None) \<Rightarrow> s1
                | (s1, Some pending_open) \<Rightarrow> s1\<lparr>pendingOpens := pendingOpens s1 @ [pending_open]\<rparr>)
          else if header_is hs '':method'' ''CONNECT'' \<and> js_has hs '':protocol''
          then best_effort sid 501 s
          else (case new_stream valid_url c sid hs of
                  Inl _ \<Rightarrow> best_effort sid 400 (report_failure ''request'' sid s)
                | Inr st \<Rightarrow> request_stream st c sid cid s))"

definition was_aborted :: "finish_reason \<Rightarrow> bool" where
  "was_aborted reason \<longleftrightarrow> (case reason of PeerAborted _ \<Rightarrow> True | PeerFinished \<Rightarrow> False)"

definition cancel_if_aborted :: "finish_reason \<Rightarrow> string \<Rightarrow> h3_server \<Rightarrow> h3_server" where
  "cancel_if_aborted reason sid s = (if was_aborted reason then responds (CancelResponse sid) s else s)"

definition end_stream :: "nat \<Rightarrow> finish_reason \<Rightarrow> string \<Rightarrow> h3_server \<Rightarrow> h3_server" where
  "end_stream r reason sid s =
     s\<lparr>streamHeap := at_index r (stream_receiveEnd reason) (streamHeap s),
       connectionHeap := at_index (st_connection (streamHeap s ! r))
         (\<lambda>o'. o'\<lparr>co_streams := js_delete (co_streams o') sid\<rparr>) (connectionHeap s),
       streams := js_delete (streams s) sid\<rparr>"

definition handleRequestEnd :: "string \<Rightarrow> finish_reason \<Rightarrow> h3_server \<Rightarrow> h3_server" where
  "handleRequestEnd sid reason s0 =
     (let s = receives (ClearTimer sid) s0
      in case js_get (sockets s) sid of
           Some (_, k) \<Rightarrow> drive k (EndArrives (if was_aborted reason then Aborted else Finished)) s
         | None \<Rightarrow>
             (case js_get (sessions s) sid of
                Some q \<Rightarrow> deleteSession q (cancel_if_aborted reason sid s)
              | None \<Rightarrow>
                  cancel_if_aborted reason sid
                    (case js_get (streams s) sid of None \<Rightarrow> s | Some r \<Rightarrow> end_stream r reason sid s)))"

text \<open>Data is completed at once as not accepted when nobody takes it.\<close>

definition refuse :: "string \<Rightarrow> nat \<Rightarrow> h3_server \<Rightarrow> h3_server" where
  "refuse sid byteLength s = s\<lparr>refused := refused s @ [(sid, byteLength)]\<rparr>"

definition deliver_to_stream :: "string \<Rightarrow> string \<Rightarrow> bytes \<Rightarrow> h3_server \<Rightarrow> h3_server" where
  "deliver_to_stream sid cid data s =
     (case js_get (streams s) sid of
        None \<Rightarrow> refuse sid (length data) s
      | Some r \<Rightarrow>
          if co_id (connectionHeap s ! st_connection (streamHeap s ! r)) \<noteq> cid
          then refuse sid (length data) s
          else (receives (Deliver sid (length data) ''request-body'' False) s)
                 \<lparr>streamHeap := at_index r (\<lambda>st. fst (stream_receiveData data st)) (streamHeap s)\<rparr>)"

definition handleData :: "string \<Rightarrow> string \<Rightarrow> bytes \<Rightarrow> h3_server \<Rightarrow> h3_server" where
  "handleData sid cid data s =
     (case js_get (sockets s) sid of
        Some (c, k) \<Rightarrow>
          if c = cid then drive k (DataArrives data) (receives (Deliver sid (length data) ''websocket-receive'' False) s)
          else deliver_to_stream sid cid data s
      | None \<Rightarrow> deliver_to_stream sid cid data s)"

definition draft02 :: string where
  "draft02 = ''sec-webtransport-http3-draft02''"

definition open_session :: "string \<Rightarrow> nat \<Rightarrow> node_headers \<Rightarrow> h3_server \<Rightarrow> h3_server" where
  "open_session sid c hs s =
     s\<lparr>sessionHeap := sessionHeap s @ [\<lparr>so_id = sid, so_connection = c, so_headers = hs, so_streams = []\<rparr>],
       connectionHeap := at_index c (\<lambda>o'. o'\<lparr>co_sessions := js_set (co_sessions o') sid (length (sessionHeap s))\<rparr>)
                           (connectionHeap s),
       sessions := js_set (sessions s) sid (length (sessionHeap s)),
       callTargets := callTargets s @ [length (sessionHeap s)]\<rparr>"

definition handleNativeSession :: "string \<Rightarrow> string \<Rightarrow> node_headers \<Rightarrow> h3_server \<Rightarrow> h3_server" where
  "handleNativeSession sid cid hs s =
     (case js_get (connections s) cid of
        None \<Rightarrow> s
      | Some c \<Rightarrow>
          if \<not> hasSessionHandler s then best_effort sid 403 s
          else if js_size (co_sessions (connectionHeap s ! c)) > 0 then best_effort sid 429 s
          else
            responds (StartCall ForSession sid cid
              (if header_is hs draft02 ''1'' then [(draft02, ''1'')] else [])) (open_session sid c hs s))"

definition handleDatagram :: "string \<Rightarrow> h3_server \<Rightarrow> h3_server" where
  "handleDatagram sid s = (if js_has (sessions s) sid then invoke ''datagram'' sid s else s)"

definition handleWtStream :: "string \<Rightarrow> string \<Rightarrow> h3_server \<Rightarrow> h3_server" where
  "handleWtStream wid sid s =
     (case js_get (sessions s) sid of
        None \<Rightarrow> s
      | Some q \<Rightarrow>
          let w = length (wtHeap s)
          in s\<lparr>wtHeap := wtHeap s @ [\<lparr>wo_id = wid, wo_session = q\<rparr>],
               sessionHeap := at_index q (\<lambda>o'. o'\<lparr>so_streams := js_set (so_streams o') wid w\<rparr>) (sessionHeap s),
               wtStreams := js_set (wtStreams s) wid w,
               microtasks := microtasks s @ [(''webtransport-stream'', wid)]\<rparr>)"

text \<open>\<open>threw\<close>: the handler throws before it returns.\<close>

definition handleWtData :: "string \<Rightarrow> nat \<Rightarrow> bool \<Rightarrow> h3_server \<Rightarrow> h3_server" where
  "handleWtData wid byteLength threw s =
     (if js_has (wtStreams s) wid then receives (Deliver wid byteLength ''webtransport-receive'' threw) s
      else refuse wid byteLength s)"

definition handleWtEnd :: "string \<Rightarrow> h3_server \<Rightarrow> h3_server" where
  "handleWtEnd wid s0 =
     (let s = receives (ClearTimer wid) s0
      in case js_get (wtStreams s) wid of
           None \<Rightarrow> s
         | Some w \<Rightarrow>
             invoke ''webtransport-stream-end'' wid
               (s\<lparr>wtStreams := js_delete (wtStreams s) wid,
                  sessionHeap := at_index (wo_session (wtHeap s ! w))
                    (\<lambda>o'. o'\<lparr>so_streams := js_delete (so_streams o') wid\<rparr>) (sessionHeap s)\<rparr>))"

section \<open>What goes on after an await\<close>

definition answer_call :: "nat \<Rightarrow> answer \<Rightarrow> h3_server \<Rightarrow> h3_server" where
  "answer_call i a s =
     (let r = responding_part s
      in if i < length (calls r)
         then (case resume_call i (c_phase (calls r ! i)) a r of
                 (r', deleted) \<Rightarrow>
                   let s1 = s\<lparr>responding_part := r'\<rparr>
                   in if deleted then deleteSession (callTargets s ! i) s1 else s1)
         else s)"

definition socket_headers_answered :: "nat \<Rightarrow> bool \<Rightarrow> h3_server \<Rightarrow> h3_server" where
  "socket_headers_answered n accepted s =
     (if n < length (pendingOpens s)
      then case pendingOpens s ! n of
             (k, proto) \<Rightarrow>
               webSocketHeadersAnswered k proto accepted
                 (s\<lparr>pendingOpens := take n (pendingOpens s) @ drop (Suc n) (pendingOpens s)\<rparr>)
      else s)"

datatype h3_event =
    NativeStart string nat
  | NativeStop
  | NativeConnection string
  | NativeConnectionEnd string
  | NativeRequest string string node_headers "socket_call list" route
  | NativeRequestEnd string finish_reason
  | NativeData string string bytes
  | NativeSession string string node_headers
  | NativeDatagram string
  | NativeWtStream string string
  | NativeWtData string nat bool
  | NativeWtEnd string
  | Answered nat answer
  | SocketHeaders nat bool
  | SocketAccepted nat
  | SocketEvent nat ws_event
  | ReceiveSettles nat bool
  | ReceiveTimer nat
  | RunMicrotasks

fun h3_step :: "(string \<Rightarrow> bool) \<Rightarrow> h3_server \<Rightarrow> h3_event \<Rightarrow> h3_server" where
  "h3_step url s (NativeStart address port) = handleStart address port s"
| "h3_step url s NativeStop = handleStop s"
| "h3_step url s (NativeConnection cid) = handleConnection cid s"
| "h3_step url s (NativeConnectionEnd cid) = handleConnectionEnd cid s"
| "h3_step url s (NativeRequest sid cid hs user_calls decision) =
     handleNativeRequest url sid cid hs user_calls decision s"
| "h3_step url s (NativeRequestEnd sid reason) = handleRequestEnd sid reason s"
| "h3_step url s (NativeData sid cid data) = handleData sid cid data s"
| "h3_step url s (NativeSession sid cid hs) = handleNativeSession sid cid hs s"
| "h3_step url s (NativeDatagram sid) = handleDatagram sid s"
| "h3_step url s (NativeWtStream wid sid) = handleWtStream wid sid s"
| "h3_step url s (NativeWtData wid n threw) = handleWtData wid n threw s"
| "h3_step url s (NativeWtEnd wid) = handleWtEnd wid s"
| "h3_step url s (Answered i a) = answer_call i a s"
| "h3_step url s (SocketHeaders n accepted) = socket_headers_answered n accepted s"
| "h3_step url s (SocketAccepted n) = webSocketAccepted n s"
| "h3_step url s (SocketEvent k e) = drive k e s"
| "h3_step url s (ReceiveSettles n ok) = receives (DeliverySettles n ok) s"
| "h3_step url s (ReceiveTimer n) = receives (DeliveryTimer n) s"
| "h3_step url s RunMicrotasks = s\<lparr>invocations := invocations s @ microtasks s, microtasks := []\<rparr>"

definition h3_run :: "(string \<Rightarrow> bool) \<Rightarrow> h3_server \<Rightarrow> h3_event list \<Rightarrow> h3_server" where
  "h3_run url = foldl (h3_step url)"

end
