(* ===== verification/H3_Consistency.thy ===== *)
theory H3_Consistency
  imports H3_Server
begin

text \<open>
  The maps of the HTTP/3 server agree with each other in every run: what a map of the server holds
  belongs to a connection that is still there, and is found in the maps of its connection or session
  as well; a connection has one WebTransport session at most; a registered WebSocket is not closed.
  Session ids are assumed not to be reused, which the native server promises of stream ids.
\<close>

section \<open>The invariant\<close>

definition live :: "h3_server \<Rightarrow> nat \<Rightarrow> bool" where
  "live s c \<longleftrightarrow> c < length (connectionHeap s) \<and> js_get (connections s) (co_id (connectionHeap s ! c)) = Some c"

definition conns_ok :: "h3_server \<Rightarrow> bool" where
  "conns_ok s \<longleftrightarrow> (\<forall>cid c. js_get (connections s) cid = Some c \<longrightarrow>
     c < length (connectionHeap s) \<and> co_id (connectionHeap s ! c) = cid)"

definition streams_ok :: "h3_server \<Rightarrow> bool" where
  "streams_ok s \<longleftrightarrow> (\<forall>sid r. js_get (streams s) sid = Some r \<longrightarrow>
     r < length (streamHeap s) \<and> st_id (streamHeap s ! r) = sid \<and> live s (st_connection (streamHeap s ! r))
     \<and> js_get (co_streams (connectionHeap s ! st_connection (streamHeap s ! r))) sid = Some r)"

definition sessions_ok :: "h3_server \<Rightarrow> bool" where
  "sessions_ok s \<longleftrightarrow> (\<forall>sid q. js_get (sessions s) sid = Some q \<longrightarrow>
     q < length (sessionHeap s) \<and> so_id (sessionHeap s ! q) = sid \<and> live s (so_connection (sessionHeap s ! q))
     \<and> js_get (co_sessions (connectionHeap s ! so_connection (sessionHeap s ! q))) sid = Some q)"

definition wt_ok :: "h3_server \<Rightarrow> bool" where
  "wt_ok s \<longleftrightarrow> (\<forall>wid w. js_get (wtStreams s) wid = Some w \<longrightarrow>
     w < length (wtHeap s) \<and> wo_id (wtHeap s ! w) = wid \<and> wo_session (wtHeap s ! w) < length (sessionHeap s)
     \<and> js_get (sessions s) (so_id (sessionHeap s ! wo_session (wtHeap s ! w))) = Some (wo_session (wtHeap s ! w))
     \<and> js_get (so_streams (sessionHeap s ! wo_session (wtHeap s ! w))) wid = Some w)"

definition refs_ok :: "h3_server \<Rightarrow> bool" where
  "refs_ok s \<longleftrightarrow> (\<forall>c < length (connectionHeap s). \<forall>q \<in> set (js_values (co_sessions (connectionHeap s ! c))).
     q < length (sessionHeap s))"

definition one_session :: "h3_server \<Rightarrow> bool" where
  "one_session s \<longleftrightarrow> (\<forall>c < length (connectionHeap s). js_size (co_sessions (connectionHeap s ! c)) \<le> 1)"

definition sockets_ok :: "h3_server \<Rightarrow> bool" where
  "sockets_ok s \<longleftrightarrow> (\<forall>sid cid k. js_get (sockets s) sid = Some (cid, k) \<longrightarrow>
     k < length (socketHeap s) \<and> ko_id (socketHeap s ! k) = sid
     \<and> readyState (conn (ko_system (socketHeap s ! k))) \<noteq> CLOSED)"

definition index_ok :: "h3_server \<Rightarrow> bool" where
  "index_ok s \<longleftrightarrow> conns_ok s \<and> streams_ok s \<and> sessions_ok s \<and> wt_ok s \<and> refs_ok s \<and> one_session s"

lemmas index_defs = index_ok_def conns_ok_def streams_ok_def sessions_ok_def wt_ok_def refs_ok_def one_session_def live_def

text \<open>Session objects have ids of their own.\<close>

definition distinct_sessions :: "h3_server \<Rightarrow> bool" where
  "distinct_sessions s \<longleftrightarrow> distinct (map so_id (sessionHeap s))"

lemma session_id_unique:
  "distinct_sessions s \<Longrightarrow> q < length (sessionHeap s) \<Longrightarrow> q' < length (sessionHeap s) \<Longrightarrow>
   so_id (sessionHeap s ! q) = so_id (sessionHeap s ! q') \<Longrightarrow> q = q'"
  unfolding distinct_sessions_def by (metis length_map nth_eq_iff_index_eq nth_map)

section \<open>Steps that leave the maps alone\<close>

definition same_index :: "h3_server \<Rightarrow> h3_server \<Rightarrow> bool" where
  "same_index s t \<longleftrightarrow> connections t = connections s \<and> streams t = streams s \<and> sessions t = sessions s
     \<and> wtStreams t = wtStreams s \<and> connectionHeap t = connectionHeap s \<and> sessionHeap t = sessionHeap s
     \<and> wtHeap t = wtHeap s \<and> map st_id (streamHeap t) = map st_id (streamHeap s)
     \<and> map st_connection (streamHeap t) = map st_connection (streamHeap s)"

lemma same_index_nth:
  assumes "same_index s t"
  shows "length (streamHeap t) = length (streamHeap s)"
    and "r < length (streamHeap s) \<Longrightarrow> st_id (streamHeap t ! r) = st_id (streamHeap s ! r)"
    and "r < length (streamHeap s) \<Longrightarrow> st_connection (streamHeap t ! r) = st_connection (streamHeap s ! r)"
  using assms unfolding same_index_def by (metis length_map, metis length_map nth_map, metis length_map nth_map)

lemma same_index_ok:
  assumes "same_index s t" and "index_ok s"
  shows "index_ok t"
  using assms(2) same_index_nth [OF assms(1)] assms(1)
  unfolding index_defs same_index_def by simp

lemma same_index_refl [simp]: "same_index s s"
  by (simp add: same_index_def)

lemma same_index_trans: "same_index s t \<Longrightarrow> same_index t u \<Longrightarrow> same_index s u"
  by (simp add: same_index_def)

lemma small_same_index [simp]:
  "same_index s (receives e s)" "same_index s (responds e' s)" "same_index s (invoke op sid s)"
  "same_index s (report_failure op sid s)" "same_index s (best_effort sid n s)" "same_index s (refuse sid n s)"
  "same_index s (drive k e'' s)"
  by (simp_all add: same_index_def receives_def responds_def invoke_def report_failure_def best_effort_def
      refuse_def drive_def Let_def)

lemma drive_all_same [simp]: "same_index s (drive_all e ks s)"
proof (induction ks arbitrary: s)
  case Nil
  show ?case by (simp add: drive_all_def)
next
  case (Cons k ks)
  have "same_index s (drive k e s)" by simp
  from same_index_trans [OF this Cons.IH [of "drive k e s"]] show ?case by (simp add: drive_all_def)
qed

section \<open>Maps and lists\<close>

lemma js_value_get: "js_get m k = Some v \<Longrightarrow> v \<in> set (js_values m)"
  unfolding js_get_def js_values_def by (metis in_set_zip map_of_SomeD snd_conv image_eqI set_map)

lemma js_values_set_subset: "set (js_values (js_set m k v)) \<subseteq> insert v (set (js_values m))"
  unfolding js_values_def js_set_def by (induction m) auto

lemma js_values_delete_subset: "set (js_values (js_delete m k)) \<subseteq> set (js_values m)"
  unfolding js_values_def js_delete_def by (auto simp: AList.delete_eq)

lemma js_size_delete: "js_size (js_delete m k) \<le> js_size m"
  unfolding js_size_def js_delete_def by (rule length_delete_le)

lemma js_size_set_empty: "js_size m = 0 \<Longrightarrow> js_size (js_set m k v) = 1"
  by (simp add: js_size_def js_set_def)

lemma js_size_0_get: "js_size m = 0 \<Longrightarrow> js_get m k = None"
  by (simp add: js_size_def js_get_def)

lemma js_size_0_values: "js_size m = 0 \<Longrightarrow> js_values m = []"
  by (simp add: js_size_def js_values_def)

section \<open>Connections and streams\<close>

lemma indexD:
  assumes "index_ok s"
  shows "js_get (connections s) cid = Some c \<Longrightarrow> c < length (connectionHeap s) \<and> co_id (connectionHeap s ! c) = cid"
    and "js_get (streams s) sid = Some r \<Longrightarrow> r < length (streamHeap s) \<and> st_id (streamHeap s ! r) = sid
      \<and> live s (st_connection (streamHeap s ! r))
      \<and> js_get (co_streams (connectionHeap s ! st_connection (streamHeap s ! r))) sid = Some r"
    and "js_get (sessions s) sid = Some q \<Longrightarrow> q < length (sessionHeap s) \<and> so_id (sessionHeap s ! q) = sid
      \<and> live s (so_connection (sessionHeap s ! q))
      \<and> js_get (co_sessions (connectionHeap s ! so_connection (sessionHeap s ! q))) sid = Some q"
    and "js_get (wtStreams s) wid = Some w \<Longrightarrow> w < length (wtHeap s) \<and> wo_id (wtHeap s ! w) = wid
      \<and> wo_session (wtHeap s ! w) < length (sessionHeap s)
      \<and> js_get (sessions s) (so_id (sessionHeap s ! wo_session (wtHeap s ! w))) = Some (wo_session (wtHeap s ! w))
      \<and> js_get (so_streams (sessionHeap s ! wo_session (wtHeap s ! w))) wid = Some w"
  using assms unfolding index_ok_def conns_ok_def streams_ok_def sessions_ok_def wt_ok_def by blast+

lemma handleConnection_ok:
  assumes "index_ok s"
  shows "index_ok (handleConnection cid s)"
proof (cases "js_has (connections s) cid")
  case True
  then show ?thesis using assms same_index_ok [OF small_same_index(4)] by (simp add: handleConnection_def)
next
  case False
  let ?t = "s\<lparr>connectionHeap := connectionHeap s @ [\<lparr>co_id = cid, co_streams = [], co_sessions = []\<rparr>],
    connections := js_set (connections s) cid (length (connectionHeap s))\<rparr>"
  have none: "js_get (connections s) cid = None" using False by simp
  have live: "live ?t c" "connectionHeap ?t ! c = connectionHeap s ! c" if "live s c" for c
    using that none by (auto simp: live_def nth_append)
  have "conns_ok ?t"
    using indexD(1) [OF assms] by (auto simp: conns_ok_def nth_append less_Suc_eq)
  moreover have "streams_ok ?t" and "sessions_ok ?t" and "wt_ok ?t"
    using indexD(2,3,4) [OF assms] live unfolding streams_ok_def sessions_ok_def wt_ok_def by simp_all
  moreover have "one_session ?t" and "refs_ok ?t"
    using assms by (auto simp: index_defs nth_append less_Suc_eq js_size_def js_values_def)
  ultimately have "index_ok ?t" by (simp add: index_ok_def)
  from same_index_ok [OF small_same_index(3) this] False show ?thesis by (simp add: handleConnection_def)
qed

text \<open>Changing the streams or the sessions of a connection object keeps what is live.\<close>

lemma live_at_index:
  assumes "connectionHeap t = at_index c f (connectionHeap s)" and "connections t = connections s"
    and "\<And>x. co_id (f x) = co_id x"
  shows "live t c' \<longleftrightarrow> live s c'"
proof -
  have "c' < length (connectionHeap s) \<Longrightarrow> co_id (connectionHeap t ! c') = co_id (connectionHeap s ! c')"
    using assms(3) by (simp add: assms(1))
  then show ?thesis unfolding live_def by (auto simp: assms(1,2))
qed

lemma at_index_keeps: "(\<And>x. g (f x) = g x) \<Longrightarrow> n < length xs \<Longrightarrow> g (at_index m f xs ! n) = g (xs ! n)"
  by simp

lemma sessions_ok_keep:
  assumes "sessions_ok s" and "sessions t = sessions s" and "sessionHeap t = sessionHeap s"
    and "\<And>c. live t c \<longleftrightarrow> live s c"
    and "\<And>c. c < length (connectionHeap s) \<Longrightarrow> co_sessions (connectionHeap t ! c) = co_sessions (connectionHeap s ! c)"
  shows "sessions_ok t"
  unfolding sessions_ok_def assms(2-4)
proof (intro allI impI)
  fix k v
  assume "js_get (sessions s) k = Some v"
  then have old: "v < length (sessionHeap s)" "live s (so_connection (sessionHeap s ! v))"
      "so_id (sessionHeap s ! v) = k" "js_get (co_sessions (connectionHeap s ! so_connection (sessionHeap s ! v))) k = Some v"
    using assms(1) unfolding sessions_ok_def by blast+
  from old(2) have "co_sessions (connectionHeap t ! so_connection (sessionHeap s ! v)) = co_sessions (connectionHeap s ! so_connection (sessionHeap s ! v))"
    by (intro assms(5)) (simp add: live_def)
  with old show "v < length (sessionHeap s) \<and> so_id (sessionHeap s ! v) = k \<and> live s (so_connection (sessionHeap s ! v))
      \<and> js_get (co_sessions (connectionHeap t ! so_connection (sessionHeap s ! v))) k = Some v"
    by simp
qed

lemma one_session_keep:
  assumes "one_session s" and "length (connectionHeap t) = length (connectionHeap s)"
    and "\<And>c. c < length (connectionHeap s) \<Longrightarrow>
      js_size (co_sessions (connectionHeap t ! c)) \<le> js_size (co_sessions (connectionHeap s ! c))"
  shows "one_session t"
  using assms unfolding one_session_def by (metis order_trans)

lemma refs_ok_keep:
  assumes "refs_ok s" and "length (connectionHeap t) = length (connectionHeap s)"
    and "length (sessionHeap s) \<le> length (sessionHeap t)"
    and "\<And>c. c < length (connectionHeap s) \<Longrightarrow> set (js_values (co_sessions (connectionHeap t ! c)))
      \<subseteq> set (js_values (co_sessions (connectionHeap s ! c))) \<union> {length (sessionHeap s) ..< length (sessionHeap t)}"
  shows "refs_ok t"
  unfolding refs_ok_def
proof (intro allI impI ballI)
  fix c q
  assume c: "c < length (connectionHeap t)" and "q \<in> set (js_values (co_sessions (connectionHeap t ! c)))"
  then have "q \<in> set (js_values (co_sessions (connectionHeap s ! c))) \<or> q < length (sessionHeap t)"
    using assms(2) assms(4) [of c] by (auto dest!: subsetD)
  then show "q < length (sessionHeap t)"
    using assms(1-3) c unfolding refs_ok_def by (metis order.strict_trans2)
qed

lemma streams_ok_keep:
  assumes "streams_ok s" and "streams t = streams s" and "streamHeap t = streamHeap s"
    and "\<And>c. live t c \<longleftrightarrow> live s c"
    and "\<And>c. c < length (connectionHeap s) \<Longrightarrow> co_streams (connectionHeap t ! c) = co_streams (connectionHeap s ! c)"
  shows "streams_ok t"
  unfolding streams_ok_def assms(2-4)
proof (intro allI impI)
  fix k v
  assume "js_get (streams s) k = Some v"
  then have old: "v < length (streamHeap s)" "live s (st_connection (streamHeap s ! v))"
      "st_id (streamHeap s ! v) = k" "js_get (co_streams (connectionHeap s ! st_connection (streamHeap s ! v))) k = Some v"
    using assms(1) unfolding streams_ok_def by blast+
  from old(2) have "co_streams (connectionHeap t ! st_connection (streamHeap s ! v)) = co_streams (connectionHeap s ! st_connection (streamHeap s ! v))"
    by (intro assms(5)) (simp add: live_def)
  with old show "v < length (streamHeap s) \<and> st_id (streamHeap s ! v) = k \<and> live s (st_connection (streamHeap s ! v))
      \<and> js_get (co_streams (connectionHeap t ! st_connection (streamHeap s ! v))) k = Some v"
    by simp
qed

lemma request_stream_ok:
  assumes "index_ok s" and "js_get (connections s) cid = Some c" and "st_id st = sid" and "st_connection st = c"
  shows "index_ok (request_stream st c sid cid s)"
proof -
  let ?r = "length (streamHeap s)"
  let ?t = "s\<lparr>streamHeap := streamHeap s @ [st],
    connectionHeap := at_index c (\<lambda>o'. o'\<lparr>co_streams := js_set (co_streams o') sid ?r\<rparr>) (connectionHeap s),
    streams := js_set (streams s) sid ?r, callTargets := callTargets s @ [?r]\<rparr>"
  note c = indexD(1) [OF assms(1,2)]
  have live: "live ?t c' \<longleftrightarrow> live s c'" for c'
    by (rule live_at_index [where f = "\<lambda>o'. o'\<lparr>co_streams := js_set (co_streams o') sid ?r\<rparr>" and c = c]) simp_all
  have c_live: "live s c" using c assms(2) by (simp add: live_def)
  have "streams_ok ?t"
    unfolding streams_ok_def live
  proof (intro allI impI)
    fix sid' r'
    assume get: "js_get (streams ?t) sid' = Some r'"
    show "r' < length (streamHeap ?t) \<and> st_id (streamHeap ?t ! r') = sid' \<and> live s (st_connection (streamHeap ?t ! r'))
      \<and> js_get (co_streams (connectionHeap ?t ! st_connection (streamHeap ?t ! r'))) sid' = Some r'"
    proof (cases "sid' = sid")
      case True
      then have "r' = ?r" using get by simp
      with True show ?thesis using assms(3,4) c c_live by (simp add: nth_append)
    next
      case False
      then have "js_get (streams s) sid' = Some r'" using get by simp
      from indexD(2) [OF assms(1) this] False show ?thesis by (auto simp: nth_append live_def)
    qed
  qed
  moreover have "conns_ok ?t"
    using indexD(1) [OF assms(1)] by (auto simp: conns_ok_def)
  moreover have "sessions_ok ?t"
    by (rule sessions_ok_keep [of s]) (use assms in \<open>simp_all add: live index_ok_def\<close>)
  moreover have "wt_ok ?t" using assms(1) by (simp add: index_ok_def wt_ok_def)
  moreover have "one_session ?t" and "refs_ok ?t"
    using assms(1) unfolding index_ok_def one_session_def refs_ok_def by auto
  ultimately have "index_ok ?t" by (simp add: index_ok_def)
  then show ?thesis unfolding request_stream_def by (rule same_index_ok [OF small_same_index(2)])
qed

lemma end_stream_ok:
  assumes "index_ok s"
  shows "index_ok (end_stream r reason sid s)"
proof -
  let ?t = "end_stream r reason sid s"
  let ?c = "st_connection (streamHeap s ! r)"
  have live: "live ?t c' \<longleftrightarrow> live s c'" for c'
    by (rule live_at_index [where f = "\<lambda>o'. o'\<lparr>co_streams := js_delete (co_streams o') sid\<rparr>" and c = ?c])
      (simp_all add: end_stream_def)
  have "streams_ok ?t"
    unfolding streams_ok_def live
  proof (intro allI impI)
    fix sid' r'
    assume get: "js_get (streams ?t) sid' = Some r'"
    then have "js_get (streams s) sid' = Some r'" and other: "sid' \<noteq> sid"
      by (auto simp: end_stream_def split: if_splits)
    from indexD(2) [OF assms(1) this(1)] other
    show "r' < length (streamHeap ?t) \<and> st_id (streamHeap ?t ! r') = sid' \<and> live s (st_connection (streamHeap ?t ! r'))
      \<and> js_get (co_streams (connectionHeap ?t ! st_connection (streamHeap ?t ! r'))) sid' = Some r'"
      by (auto simp: end_stream_def live_def)
  qed
  moreover have "conns_ok ?t" using indexD(1) [OF assms(1)] by (auto simp: conns_ok_def end_stream_def)
  moreover have "sessions_ok ?t"
    by (rule sessions_ok_keep [of s]) (use assms in \<open>simp_all add: live index_ok_def, simp_all add: end_stream_def\<close>)
  moreover have "wt_ok ?t" using assms(1) by (simp add: index_ok_def wt_ok_def end_stream_def)
  moreover have "one_session ?t" and "refs_ok ?t"
    using assms(1) unfolding index_ok_def one_session_def refs_ok_def by (auto simp: end_stream_def)
  ultimately show ?thesis by (simp add: index_ok_def)
qed

section \<open>Sessions and their streams\<close>

lemma deleteSession_ok:
  assumes "index_ok s" and "distinct_sessions s" and "q < length (sessionHeap s)"
  shows "index_ok (deleteSession q s)"
proof -
  let ?o = "sessionHeap s ! q"
  let ?t = "deleteSession q s"
  have live: "live ?t c' \<longleftrightarrow> live s c'" for c'
    by (rule live_at_index [where f = "\<lambda>c. c\<lparr>co_sessions := js_delete (co_sessions c) (so_id ?o)\<rparr>" and c = "so_connection ?o"])
      (simp_all add: deleteSession_def Let_def)
  have "sessions_ok ?t"
    unfolding sessions_ok_def live
  proof (intro allI impI)
    fix sid p
    assume "js_get (sessions ?t) sid = Some p"
    then have "js_get (sessions s) sid = Some p" and "sid \<noteq> so_id ?o"
      by (auto simp: deleteSession_def Let_def split: if_splits)
    with indexD(3) [OF assms(1) this(1)]
    show "p < length (sessionHeap ?t) \<and> so_id (sessionHeap ?t ! p) = sid \<and> live s (so_connection (sessionHeap ?t ! p))
      \<and> js_get (co_sessions (connectionHeap ?t ! so_connection (sessionHeap ?t ! p))) sid = Some p"
      by (auto simp: deleteSession_def Let_def live_def)
  qed
  moreover have "wt_ok ?t"
    unfolding wt_ok_def
  proof (intro allI impI)
    fix wid w
    assume "js_get (wtStreams ?t) wid = Some w"
    then have get: "js_get (wtStreams s) wid = Some w"
      and kept: "wid \<notin> set (map (\<lambda>w. wo_id (wtHeap s ! w)) (js_values (so_streams ?o)))"
      by (auto simp: deleteSession_def Let_def split: if_splits)
    note w = indexD(4) [OF assms(1) get]
    have "wo_session (wtHeap s ! w) \<noteq> q"
    proof
      assume "wo_session (wtHeap s ! w) = q"
      with w have "w \<in> set (js_values (so_streams ?o))" and "wo_id (wtHeap s ! w) = wid"
        by (auto intro: js_value_get)
      with kept show False by auto
    qed
    then have "so_id (sessionHeap s ! wo_session (wtHeap s ! w)) \<noteq> so_id ?o"
      using session_id_unique [OF assms(2) _ assms(3)] w by blast
    with w show "w < length (wtHeap ?t) \<and> wo_id (wtHeap ?t ! w) = wid \<and> wo_session (wtHeap ?t ! w) < length (sessionHeap ?t)
      \<and> js_get (sessions ?t) (so_id (sessionHeap ?t ! wo_session (wtHeap ?t ! w))) = Some (wo_session (wtHeap ?t ! w))
      \<and> js_get (so_streams (sessionHeap ?t ! wo_session (wtHeap ?t ! w))) wid = Some w"
      by (simp add: deleteSession_def Let_def)
  qed
  moreover have "streams_ok ?t"
    by (rule streams_ok_keep [of s]) (use assms in \<open>simp_all add: live index_ok_def, simp_all add: deleteSession_def Let_def\<close>)
  moreover have "conns_ok ?t"
    using indexD(1) [OF assms(1)] by (auto simp: conns_ok_def deleteSession_def Let_def)
  moreover have "one_session ?t"
    by (rule one_session_keep [of s]) (use assms(1) in \<open>simp_all add: index_ok_def deleteSession_def Let_def js_size_delete\<close>)
  moreover have "refs_ok ?t"
    by (rule refs_ok_keep [of s])
      (use assms(1) in \<open>simp_all add: index_ok_def deleteSession_def Let_def js_values_delete_subset\<close>)
  ultimately show ?thesis by (simp add: index_ok_def)
qed

lemma open_session_ok:
  assumes "index_ok s" and "sid \<notin> set (map so_id (sessionHeap s))" and "js_get (connections s) cid = Some c"
    and "js_size (co_sessions (connectionHeap s ! c)) = 0"
  shows "index_ok (open_session sid c hs s)"
proof -
  let ?t = "open_session sid c hs s"
  let ?q = "length (sessionHeap s)"
  note c = indexD(1) [OF assms(1,3)]
  have live: "live ?t c' \<longleftrightarrow> live s c'" for c'
    by (rule live_at_index [where f = "\<lambda>o'. o'\<lparr>co_sessions := js_set (co_sessions o') sid ?q\<rparr>" and c = c])
      (simp_all add: open_session_def)
  have c_live: "live s c" using c assms(3) by (simp add: live_def)
  have "sessions_ok ?t"
    unfolding sessions_ok_def live
  proof (intro allI impI)
    fix sid' p
    assume get: "js_get (sessions ?t) sid' = Some p"
    show "p < length (sessionHeap ?t) \<and> so_id (sessionHeap ?t ! p) = sid' \<and> live s (so_connection (sessionHeap ?t ! p))
      \<and> js_get (co_sessions (connectionHeap ?t ! so_connection (sessionHeap ?t ! p))) sid' = Some p"
    proof (cases "sid' = sid")
      case True
      then have "p = ?q" using get by (simp add: open_session_def)
      with True show ?thesis using c c_live by (simp add: nth_append open_session_def)
    next
      case False
      then have "js_get (sessions s) sid' = Some p" using get by (simp add: open_session_def)
      from indexD(3) [OF assms(1) this] False show ?thesis
        by (auto simp: nth_append live_def open_session_def)
    qed
  qed
  moreover have "wt_ok ?t"
    unfolding wt_ok_def
  proof (intro allI impI)
    fix wid w
    assume "js_get (wtStreams ?t) wid = Some w"
    then have "js_get (wtStreams s) wid = Some w" by (simp add: open_session_def)
    note w = indexD(4) [OF assms(1) this]
    then have "so_id (sessionHeap s ! wo_session (wtHeap s ! w)) \<noteq> sid" using assms(2) by (metis nth_mem image_eqI set_map)
    with w show "w < length (wtHeap ?t) \<and> wo_id (wtHeap ?t ! w) = wid \<and> wo_session (wtHeap ?t ! w) < length (sessionHeap ?t)
      \<and> js_get (sessions ?t) (so_id (sessionHeap ?t ! wo_session (wtHeap ?t ! w))) = Some (wo_session (wtHeap ?t ! w))
      \<and> js_get (so_streams (sessionHeap ?t ! wo_session (wtHeap ?t ! w))) wid = Some w"
      by (simp add: open_session_def nth_append)
  qed
  moreover have "streams_ok ?t"
    by (rule streams_ok_keep [of s]) (use assms in \<open>simp_all add: live index_ok_def, simp_all add: open_session_def\<close>)
  moreover have "conns_ok ?t"
    using indexD(1) [OF assms(1)] by (auto simp: conns_ok_def open_session_def)
  moreover have "one_session ?t"
    using assms(1,4) unfolding index_ok_def one_session_def by (simp add: open_session_def js_size_set_empty)
  moreover have "refs_ok ?t"
    by (rule refs_ok_keep [of s])
      (use assms(1) in \<open>auto simp: index_ok_def open_session_def dest!: js_values_set_subset [THEN subsetD]\<close>)
  ultimately show ?thesis by (simp add: index_ok_def)
qed

lemma handleWtStream_ok:
  assumes "index_ok s"
  shows "index_ok (handleWtStream wid sid s)"
proof (cases "js_get (sessions s) sid")
  case None
  then show ?thesis using assms by (simp add: handleWtStream_def)
next
  case (Some q)
  let ?t = "handleWtStream wid sid s"
  let ?w = "length (wtHeap s)"
  note q = indexD(3) [OF assms Some]
  have t [simp]: "connections ?t = connections s" "connectionHeap ?t = connectionHeap s" "streams ?t = streams s"
    "streamHeap ?t = streamHeap s" "sessions ?t = sessions s" "wtStreams ?t = js_set (wtStreams s) wid ?w"
    "sessionHeap ?t = at_index q (\<lambda>o'. o'\<lparr>so_streams := js_set (so_streams o') wid ?w\<rparr>) (sessionHeap s)"
    "wtHeap ?t = wtHeap s @ [\<lparr>wo_id = wid, wo_session = q\<rparr>]"
    by (simp_all add: handleWtStream_def Some Let_def)
  have so: "so_id (sessionHeap ?t ! p) = so_id (sessionHeap s ! p)"
    "so_connection (sessionHeap ?t ! p) = so_connection (sessionHeap s ! p)" if "p < length (sessionHeap s)" for p
    using that by simp_all
  have "wt_ok ?t"
    unfolding wt_ok_def
  proof (intro allI impI)
    fix wid' w
    assume get: "js_get (wtStreams ?t) wid' = Some w"
    show "w < length (wtHeap ?t) \<and> wo_id (wtHeap ?t ! w) = wid' \<and> wo_session (wtHeap ?t ! w) < length (sessionHeap ?t)
      \<and> js_get (sessions ?t) (so_id (sessionHeap ?t ! wo_session (wtHeap ?t ! w))) = Some (wo_session (wtHeap ?t ! w))
      \<and> js_get (so_streams (sessionHeap ?t ! wo_session (wtHeap ?t ! w))) wid' = Some w"
    proof (cases "wid' = wid")
      case True
      then have "w = ?w" using get by simp
      with True show ?thesis using q Some by (simp add: nth_append)
    next
      case False
      then have "js_get (wtStreams s) wid' = Some w" using get by simp
      from indexD(4) [OF assms this] False show ?thesis by (auto simp: nth_append)
    qed
  qed
  moreover have "sessions_ok ?t"
    using assms so unfolding index_ok_def sessions_ok_def by (simp add: live_def)
  moreover have "conns_ok ?t" and "streams_ok ?t" and "one_session ?t" and "refs_ok ?t"
    using assms unfolding index_defs by simp_all
  ultimately show ?thesis by (simp add: index_ok_def)
qed

lemma handleWtEnd_ok:
  assumes "index_ok s"
  shows "index_ok (handleWtEnd wid s)"
proof -
  let ?s = "receives (ClearTimer wid) s"
  have ok: "index_ok ?s" by (rule same_index_ok [OF small_same_index(1) assms])
  show ?thesis
  proof (cases "js_get (wtStreams ?s) wid")
    case None
    then show ?thesis using ok by (simp add: handleWtEnd_def Let_def)
  next
    case (Some w)
    let ?q = "wo_session (wtHeap ?s ! w)"
    let ?t = "?s\<lparr>wtStreams := js_delete (wtStreams ?s) wid,
      sessionHeap := at_index ?q (\<lambda>o'. o'\<lparr>so_streams := js_delete (so_streams o') wid\<rparr>) (sessionHeap ?s)\<rparr>"
    have "wt_ok ?t"
      unfolding wt_ok_def
    proof (intro allI impI)
      fix wid' w'
      assume "js_get (wtStreams ?t) wid' = Some w'"
      then have "js_get (wtStreams ?s) wid' = Some w'" and "wid' \<noteq> wid" by (auto split: if_splits)
      with indexD(4) [OF ok this(1)]
      show "w' < length (wtHeap ?t) \<and> wo_id (wtHeap ?t ! w') = wid' \<and> wo_session (wtHeap ?t ! w') < length (sessionHeap ?t)
        \<and> js_get (sessions ?t) (so_id (sessionHeap ?t ! wo_session (wtHeap ?t ! w'))) = Some (wo_session (wtHeap ?t ! w'))
        \<and> js_get (so_streams (sessionHeap ?t ! wo_session (wtHeap ?t ! w'))) wid' = Some w'"
        by auto
    qed
    moreover have "sessions_ok ?t"
      using ok unfolding index_ok_def sessions_ok_def by (simp add: live_def)
    moreover have "conns_ok ?t" and "streams_ok ?t" and "one_session ?t" and "refs_ok ?t"
      using ok unfolding index_defs by simp_all
    ultimately have "index_ok ?t" by (simp add: index_ok_def)
    then have "index_ok (invoke ''webtransport-stream-end'' wid ?t)" by (rule same_index_ok [OF small_same_index(3)])
    then show ?thesis by (simp add: handleWtEnd_def Let_def Some)
  qed
qed

section \<open>The end of a connection, and of the server\<close>

lemma forget_sessions_fold:
  "foldl (\<lambda>t q. forget_session q t) s qs =
   s\<lparr>sessions := foldl js_delete (sessions s) (map (\<lambda>q. so_id (sessionHeap s ! q)) qs),
     wtStreams := foldl js_delete (wtStreams s)
       (concat (map (\<lambda>q. map (\<lambda>w. wo_id (wtHeap s ! w)) (js_values (so_streams (sessionHeap s ! q)))) qs))\<rparr>"
  by (induction qs arbitrary: s) (simp_all add: forget_session_def Let_def)

text \<open>The maps after the end of the connection at \<open>c\<close>, the sockets and responses apart.\<close>

definition cut_connection :: "nat \<Rightarrow> string \<Rightarrow> h3_server \<Rightarrow> h3_server" where
  "cut_connection c cid s =
     (let o' = connectionHeap s ! c; t = foldl (\<lambda>t q. forget_session q t) (forget_streams o' s) (js_values (co_sessions o'))
      in t\<lparr>connections := js_delete (connections t) cid\<rparr>)"

lemma cut_connection_simps:
  "connections (cut_connection c cid s) = js_delete (connections s) cid"
  "connectionHeap (cut_connection c cid s) = connectionHeap s" "streamHeap (cut_connection c cid s) = streamHeap s"
  "sessionHeap (cut_connection c cid s) = sessionHeap s" "wtHeap (cut_connection c cid s) = wtHeap s"
  "js_get (streams (cut_connection c cid s)) sid = Some r \<longleftrightarrow> js_get (streams s) sid = Some r
     \<and> sid \<notin> (\<lambda>r. st_id (streamHeap s ! r)) ` set (js_values (co_streams (connectionHeap s ! c)))"
  "js_get (sessions (cut_connection c cid s)) sid = Some q \<longleftrightarrow> js_get (sessions s) sid = Some q
     \<and> sid \<notin> (\<lambda>q. so_id (sessionHeap s ! q)) ` set (js_values (co_sessions (connectionHeap s ! c)))"
  "js_get (wtStreams (cut_connection c cid s)) wid = Some w \<longleftrightarrow> js_get (wtStreams s) wid = Some w
     \<and> (\<forall>q \<in> set (js_values (co_sessions (connectionHeap s ! c))).
          wid \<notin> (\<lambda>w. wo_id (wtHeap s ! w)) ` set (js_values (so_streams (sessionHeap s ! q))))"
  by (auto simp: cut_connection_def Let_def forget_sessions_fold forget_streams_def)

lemma cut_connection_ok:
  assumes "index_ok s" and "distinct_sessions s" and "js_get (connections s) cid = Some c"
  shows "index_ok (cut_connection c cid s)"
proof -
  let ?t = "cut_connection c cid s"
  note c = indexD(1) [OF assms(1,3)]
  have live: "live ?t c' \<longleftrightarrow> live s c' \<and> c' \<noteq> c" for c'
    using c assms(3) by (auto simp: live_def cut_connection_simps)
  have "streams_ok ?t"
    unfolding streams_ok_def live cut_connection_simps
  proof (intro allI impI)
    fix sid r
    assume a: "js_get (streams s) sid = Some r
      \<and> sid \<notin> (\<lambda>r. st_id (streamHeap s ! r)) ` set (js_values (co_streams (connectionHeap s ! c)))"
    note r = indexD(2) [OF assms(1) conjunct1 [OF a]]
    then have "st_connection (streamHeap s ! r) \<noteq> c" using a by (metis js_value_get imageI)
    with r show "r < length (streamHeap s) \<and> st_id (streamHeap s ! r) = sid
      \<and> (live s (st_connection (streamHeap s ! r)) \<and> st_connection (streamHeap s ! r) \<noteq> c)
      \<and> js_get (co_streams (connectionHeap s ! st_connection (streamHeap s ! r))) sid = Some r" by blast
  qed
  moreover have "sessions_ok ?t"
    unfolding sessions_ok_def live cut_connection_simps
  proof (intro allI impI)
    fix sid q
    assume a: "js_get (sessions s) sid = Some q
      \<and> sid \<notin> (\<lambda>q. so_id (sessionHeap s ! q)) ` set (js_values (co_sessions (connectionHeap s ! c)))"
    note q = indexD(3) [OF assms(1) conjunct1 [OF a]]
    then have "so_connection (sessionHeap s ! q) \<noteq> c" using a by (metis js_value_get imageI)
    with q show "q < length (sessionHeap s) \<and> so_id (sessionHeap s ! q) = sid
      \<and> (live s (so_connection (sessionHeap s ! q)) \<and> so_connection (sessionHeap s ! q) \<noteq> c)
      \<and> js_get (co_sessions (connectionHeap s ! so_connection (sessionHeap s ! q))) sid = Some q" by blast
  qed
  moreover have "wt_ok ?t"
    unfolding wt_ok_def cut_connection_simps
  proof (intro allI impI)
    fix wid w
    assume a: "js_get (wtStreams s) wid = Some w \<and> (\<forall>q \<in> set (js_values (co_sessions (connectionHeap s ! c))).
          wid \<notin> (\<lambda>w. wo_id (wtHeap s ! w)) ` set (js_values (so_streams (sessionHeap s ! q))))"
    let ?q = "wo_session (wtHeap s ! w)"
    note w = indexD(4) [OF assms(1) conjunct1 [OF a]]
    then have out: "?q \<notin> set (js_values (co_sessions (connectionHeap s ! c)))" using a by (metis js_value_get imageI)
    have "so_id (sessionHeap s ! ?q)
      \<notin> (\<lambda>q. so_id (sessionHeap s ! q)) ` set (js_values (co_sessions (connectionHeap s ! c)))"
    proof
      assume "so_id (sessionHeap s ! ?q) \<in> (\<lambda>q. so_id (sessionHeap s ! q)) ` set (js_values (co_sessions (connectionHeap s ! c)))"
      then obtain q where q: "so_id (sessionHeap s ! ?q) = so_id (sessionHeap s ! q)"
        "q \<in> set (js_values (co_sessions (connectionHeap s ! c)))" by auto
      then have "q < length (sessionHeap s)" using assms(1) c unfolding index_ok_def refs_ok_def by blast
      with session_id_unique [OF assms(2) _ this q(1)] w q(2) out show False by blast
    qed
    with w show "w < length (wtHeap s) \<and> wo_id (wtHeap s ! w) = wid \<and> ?q < length (sessionHeap s)
      \<and> (js_get (sessions s) (so_id (sessionHeap s ! ?q)) = Some ?q
        \<and> so_id (sessionHeap s ! ?q) \<notin> (\<lambda>q. so_id (sessionHeap s ! q)) ` set (js_values (co_sessions (connectionHeap s ! c))))
      \<and> js_get (so_streams (sessionHeap s ! ?q)) wid = Some w" by blast
  qed
  moreover have "conns_ok ?t" using indexD(1) [OF assms(1)] by (simp add: conns_ok_def cut_connection_simps)
  moreover have "one_session ?t" and "refs_ok ?t"
    using assms(1) by (simp_all add: index_ok_def one_session_def refs_ok_def cut_connection_simps)
  ultimately show ?thesis by (simp add: index_ok_def)
qed

lemma js_delete_absent: "js_get m k = None \<Longrightarrow> js_delete m k = m"
  unfolding js_get_def js_delete_def map_of_eq_None_iff by (auto simp: AList.delete_eq filter_id_conv image_iff)

lemma handleConnectionEnd_ok:
  assumes "index_ok s" and "distinct_sessions s"
  shows "index_ok (handleConnectionEnd cid s)"
proof (cases "js_get (connections s) cid")
  case None
  let ?u = "drive_all (EndArrives Aborted) (sockets_of cid (responds (CancelConnection cid) s)) (responds (CancelConnection cid) s)"
  have same: "same_index s ?u" by (rule same_index_trans [OF small_same_index(2) drive_all_same])
  then have "js_delete (connections ?u) cid = connections ?u"
    using None by (simp add: same_index_def js_delete_absent)
  then have "handleConnectionEnd cid s = ?u" by (simp add: handleConnectionEnd_def None Let_def)
  then show ?thesis using same_index_ok [OF same assms(1)] by simp
next
  case (Some c)
  let ?v = "foldl (\<lambda>t q. forget_session q t) (forget_streams (connectionHeap s ! c) s)
    (js_values (co_sessions (connectionHeap s ! c)))"
  let ?u = "drive_all (EndArrives Aborted) (sockets_of cid (responds (CancelConnection cid) ?v)) (responds (CancelConnection cid) ?v)"
  have "same_index ?v ?u" by (rule same_index_trans [OF small_same_index(2) drive_all_same])
  then have "same_index (cut_connection c cid s) (?u\<lparr>connections := js_delete (connections ?u) cid\<rparr>)"
    by (simp add: same_index_def cut_connection_def Let_def)
  moreover have "handleConnectionEnd cid s = ?u\<lparr>connections := js_delete (connections ?u) cid\<rparr>"
    by (simp add: handleConnectionEnd_def Some Let_def)
  ultimately show ?thesis using same_index_ok [OF _ cut_connection_ok [OF assms Some]] by simp
qed

definition emptied :: "connection_object list \<Rightarrow> connection_object list \<Rightarrow> bool" where
  "emptied old new \<longleftrightarrow> length new = length old
     \<and> (\<forall>c < length old. js_size (co_sessions (new ! c)) \<le> js_size (co_sessions (old ! c))
          \<and> set (js_values (co_sessions (new ! c))) \<subseteq> set (js_values (co_sessions (old ! c))))"

lemma emptied_fold:
  "emptied h (foldl (\<lambda>h c. at_index c (\<lambda>o'. o'\<lparr>co_streams := [], co_sessions := []\<rparr>) h) h cs)"
proof (induction cs arbitrary: h)
  case Nil
  show ?case by (simp add: emptied_def)
next
  case (Cons c cs)
  let ?h = "at_index c (\<lambda>o'. o'\<lparr>co_streams := [], co_sessions := []\<rparr>) h"
  have "emptied h ?h" by (simp add: emptied_def js_size_def js_values_def)
  with Cons.IH [of ?h] show ?case unfolding emptied_def by (fastforce intro: order_trans)
qed

lemma handleStop_ok:
  assumes "index_ok s"
  shows "index_ok (handleStop s)"
proof -
  let ?h = "foldl (\<lambda>h c. at_index c (\<lambda>o'. o'\<lparr>co_streams := [], co_sessions := []\<rparr>) h) (connectionHeap s) (js_values (connections s))"
  let ?v = "s\<lparr>bound := None, connectionHeap := ?h, connections := [], streams := [], sessions := [], wtStreams := []\<rparr>"
  have e: "emptied (connectionHeap s) ?h" by (rule emptied_fold)
  have "one_session ?v"
    by (rule one_session_keep [of s]) (use assms e in \<open>simp_all add: index_ok_def emptied_def\<close>)
  moreover have "refs_ok ?v"
    by (rule refs_ok_keep [of s]) (use assms e in \<open>simp_all add: index_ok_def emptied_def\<close>)
  ultimately have "index_ok ?v"
    by (simp add: index_ok_def conns_ok_def streams_ok_def sessions_ok_def wt_ok_def)
  then have "index_ok (drive_all (EndArrives Aborted) (map snd (js_values (sockets ?v))) ?v)" (is "index_ok ?u")
    by (rule same_index_ok [OF drive_all_same])
  then have "index_ok (?u\<lparr>sockets := []\<rparr>)"
    by (rule same_index_ok [rotated]) (simp add: same_index_def)
  then have "index_ok (receives ClearAll (responds CancelAll (?u\<lparr>sockets := []\<rparr>)))"
    by (rule same_index_ok [OF same_index_trans [OF small_same_index(2) small_same_index(1)]])
  then show ?thesis by (simp add: handleStop_def Let_def)
qed

section \<open>The targets of response calls\<close>

definition targets_ok :: "h3_server \<Rightarrow> bool" where
  "targets_ok s \<longleftrightarrow> length (callTargets s) = length (calls (responding_part s))
     \<and> (\<forall>i < length (callTargets s). c_owner (calls (responding_part s) ! i) = ForSession \<longrightarrow>
          callTargets s ! i < length (sessionHeap s))"

definition same_targets :: "h3_server \<Rightarrow> h3_server \<Rightarrow> bool" where
  "same_targets s t \<longleftrightarrow> callTargets t = callTargets s \<and> map so_id (sessionHeap t) = map so_id (sessionHeap s)
     \<and> map c_owner (calls (responding_part t)) = map c_owner (calls (responding_part s))"

lemma same_targets_ok:
  assumes "same_targets s t" and "targets_ok s"
  shows "targets_ok t"
proof -
  have "length (calls (responding_part t)) = length (calls (responding_part s))"
    and "length (sessionHeap t) = length (sessionHeap s)"
    using assms(1) unfolding same_targets_def by (metis length_map)+
  moreover have "c_owner (calls (responding_part t) ! i) = c_owner (calls (responding_part s) ! i)"
    if "i < length (calls (responding_part s))" for i
    using assms(1) that calculation(1) unfolding same_targets_def by (metis nth_map)
  ultimately show ?thesis using assms unfolding targets_ok_def same_targets_def by simp
qed

lemma same_targets_trans: "same_targets s t \<Longrightarrow> same_targets t u \<Longrightarrow> same_targets s u"
  by (simp add: same_targets_def)

lemma same_targets_refl [simp]: "same_targets s s"
  by (simp add: same_targets_def)

lemma cancel_owners:
  "calls (cancelResponse sid r) = calls r" "calls (cancelResponsesForConnection cid r) = calls r"
  "calls (cancelAllResponses r) = calls r"
  using cancel_same [of r] cancels_same [of r] by (simp_all add: same_calls_def)

lemma small_same_targets [simp]:
  "same_targets s (receives e s)" "same_targets s (invoke op sid s)" "same_targets s (report_failure op sid s)"
  "same_targets s (best_effort sid n s)" "same_targets s (refuse sid n s)" "same_targets s (drive k e'' s)"
  "same_targets s (responds (CancelResponse sid) s)" "same_targets s (responds (CancelConnection cid) s)"
  "same_targets s (responds CancelAll s)"
  by (simp_all add: same_targets_def receives_def responds_def invoke_def report_failure_def best_effort_def
      refuse_def drive_def Let_def cancel_owners)

lemma resume_deleted: "snd (resume_call i p a r) \<Longrightarrow> c_owner (calls r ! i) = ForSession"
  by (cases p) (auto simp: response_code split: answer.splits owner.splits decision.splits if_splits)

section \<open>Every step\<close>

text \<open>What changes neither the maps of streams and sessions nor the targets of calls.\<close>

definition quiet :: "h3_server \<Rightarrow> h3_server \<Rightarrow> bool" where
  "quiet s t \<longleftrightarrow> same_index s t \<and> same_targets s t"

lemma quiet_refl [simp]: "quiet s s"
  by (simp add: quiet_def)

lemma quiet_simps [simp]:
  "quiet s (receives e t) = quiet s t" "quiet s (invoke op sid t) = quiet s t"
  "quiet s (report_failure op sid t) = quiet s t" "quiet s (best_effort sid n t) = quiet s t"
  "quiet s (refuse sid n t) = quiet s t" "quiet s (drive k e'' t) = quiet s t"
  "quiet s (responds (CancelResponse sid) t) = quiet s t" "quiet s (responds (CancelConnection cid) t) = quiet s t"
  "quiet s (responds CancelAll t) = quiet s t" "quiet s (t\<lparr>sockets := m\<rparr>) = quiet s t"
  "quiet s (t\<lparr>socketHeap := h\<rparr>) = quiet s t" "quiet s (t\<lparr>pendingOpens := ps\<rparr>) = quiet s t"
  "quiet s (t\<lparr>invocations := is\<rparr>) = quiet s t" "quiet s (t\<lparr>microtasks := ms\<rparr>) = quiet s t"
  "quiet s (t\<lparr>bound := b\<rparr>) = quiet s t" "quiet s (t\<lparr>startResults := rs\<rparr>) = quiet s t"
  "quiet s (t\<lparr>startPending := p\<rparr>) = quiet s t" "quiet s (t\<lparr>pendingAccepts := as\<rparr>) = quiet s t"
  by (simp_all add: quiet_def same_index_def same_targets_def receives_def responds_def invoke_def report_failure_def
      best_effort_def refuse_def drive_def Let_def cancel_owners)

lemma quiet_open_failed [simp]: "quiet s (socket_open_failed sid t) = quiet s t"
  by (simp add: socket_open_failed_def)

lemma quiet_accepted [simp]: "quiet s (webSocketAccepted n s)"
  by (simp add: webSocketAccepted_def Let_def split: prod.split pending.split outcome.split list.split)

lemma quiet_calls [simp]: "quiet s (foldl (\<lambda>t c. drive k (f c) t) t cs) = quiet s t"
  by (induction cs arbitrary: t) simp_all

lemma quiet_cancel [simp]: "quiet s (cancel_if_aborted reason sid t) = quiet s t"
  by (simp add: cancel_if_aborted_def)

lemma quiet_socket_start:
  assumes "handleWebSocketStart sid cid hs user_calls decision s = (t, p)"
  shows "quiet s t"
proof -
  have "quiet s (fst (handleWebSocketStart sid cid hs user_calls decision s))"
    by (simp add: handleWebSocketStart_def Let_def split: sum.split route.split)
  then show ?thesis by (simp add: assms)
qed

lemma quiet_stream: "quiet s (deliver_to_stream sid cid data s)"
proof -
  have 1: "map st_id (at_index r (\<lambda>st. fst (stream_receiveData data st)) xs) = map st_id xs" for r xs
    by (rule nth_equalityI) simp_all
  have 2: "map st_connection (at_index r (\<lambda>st. fst (stream_receiveData data st)) xs) = map st_connection xs" for r xs
    by (rule nth_equalityI) simp_all
  show ?thesis
    by (auto simp: deliver_to_stream_def quiet_def same_index_def same_targets_def refuse_def receives_def 1 2 split: option.split)
qed

lemma same_targets_parts:
  "same_targets s (deleteSession q s)" "same_targets s (end_stream r reason sid s)" "same_targets s (handleConnection cid s)"
  "same_targets s (handleWtStream wid sid s)" "same_targets s (handleWtEnd wid s)"
proof -
  have ids: "map so_id (at_index q (\<lambda>o'. o'\<lparr>so_streams := f o'\<rparr>) xs) = map so_id xs" for q f xs
    by (rule nth_equalityI) simp_all
  show "same_targets s (handleWtStream wid sid s)" and "same_targets s (handleWtEnd wid s)"
    by (simp_all add: handleWtStream_def handleWtEnd_def same_targets_def receives_def invoke_def ids Let_def split: option.split)
qed (simp_all add: same_targets_def deleteSession_def end_stream_def handleConnection_def report_failure_def invoke_def
    unmark_session_def Let_def)

lemma drive_all_targets [simp]: "same_targets s (drive_all e ks t) = same_targets s t"
proof (induction ks arbitrary: t)
  case Nil
  show ?case by (simp add: drive_all_def)
next
  case (Cons k ks)
  have "same_targets s (drive k e t) = same_targets s t" by (simp add: same_targets_def drive_def Let_def)
  with Cons.IH [of "drive k e t"] show ?case by (simp add: drive_all_def)
qed

lemma same_targets_ends: "same_targets s (handleConnectionEnd cid s)" "same_targets s (handleStop s)"
proof -
  have outer: "same_targets s (t\<lparr>connections := m\<rparr>) = same_targets s t"
    "same_targets s (responds (CancelConnection cid) t) = same_targets s t"
    "same_targets s (responds CancelAll t) = same_targets s t" "same_targets s (receives ClearAll t) = same_targets s t"
    "same_targets s (t\<lparr>sockets := k\<rparr>) = same_targets s t" for t m k
    by (simp_all add: same_targets_def responds_def receives_def cancel_owners)
  show "same_targets s (handleConnectionEnd cid s)"
    by (simp add: handleConnectionEnd_def Let_def outer split: option.split)
      (simp add: forget_sessions_fold forget_streams_def same_targets_def)
  show "same_targets s (handleStop s)"
    by (simp add: handleStop_def Let_def outer) (simp add: same_targets_def)
qed

lemma session_opened:
  "handleNativeSession sid cid hs s = s \<or> (\<exists>n. handleNativeSession sid cid hs s = best_effort sid n s)
   \<or> (\<exists>c neg. js_get (connections s) cid = Some c \<and> js_size (co_sessions (connectionHeap s ! c)) = 0
        \<and> handleNativeSession sid cid hs s = responds (StartCall ForSession sid cid neg) (open_session sid c hs s))"
  by (auto simp: handleNativeSession_def split: option.split)

lemma new_call_targets:
  "targets_ok s \<Longrightarrow> targets_ok (responds (StartCall ForSession sid cid neg) (open_session sid c hs s))"
  "targets_ok s \<Longrightarrow> targets_ok (request_stream st c sid cid s)"
  by (auto simp: targets_ok_def responds_def open_session_def request_stream_def start_call_def nth_append less_Suc_eq)

lemma new_call_ids:
  "map so_id (sessionHeap (responds (StartCall ForSession sid cid neg) (open_session sid c hs s)))
     = map so_id (sessionHeap s) @ [sid]"
  "map so_id (sessionHeap (request_stream st c sid cid s)) = map so_id (sessionHeap s)"
  by (simp_all add: responds_def open_session_def request_stream_def)

definition maps_ok :: "h3_server \<Rightarrow> bool" where
  "maps_ok s \<longleftrightarrow> index_ok s \<and> targets_ok s"

lemma quiet_maps: "quiet s t \<Longrightarrow> maps_ok s \<Longrightarrow> maps_ok t"
  using same_index_ok same_targets_ok by (auto simp: quiet_def maps_ok_def)

lemma answer_call_maps:
  assumes "maps_ok s" and "distinct_sessions s"
  shows "maps_ok (answer_call i a s) \<and> same_targets s (answer_call i a s)"
proof (cases "i < length (calls (responding_part s))")
  case True
  let ?r = "responding_part s"
  obtain r' deleted where r': "resume_call i (c_phase (calls ?r ! i)) a ?r = (r', deleted)" by fastforce
  let ?s = "s\<lparr>responding_part := r'\<rparr>"
  have "map c_owner (calls r') = map c_owner (calls ?r)"
    using local_step_calls(3) [OF resume_local [OF True]] r' by (metis fst_conv)
  then have q: "quiet s ?s" by (simp add: quiet_def same_index_def same_targets_def)
  then have ok: "maps_ok ?s" and t: "same_targets s ?s" using quiet_maps assms(1) by (auto simp: quiet_def)
  show ?thesis
  proof (cases deleted)
    case False
    then show ?thesis using True r' ok t by (simp add: answer_call_def Let_def)
  next
    case True': True
    then have "callTargets s ! i < length (sessionHeap ?s)"
      using resume_deleted [of i "c_phase (calls ?r ! i)" a ?r] r' True assms(1) by (simp add: maps_ok_def targets_ok_def)
    then have "index_ok (deleteSession (callTargets s ! i) ?s)"
      using deleteSession_ok ok assms(2) by (simp add: maps_ok_def distinct_sessions_def)
    moreover have t': "same_targets ?s (deleteSession (callTargets s ! i) ?s)" by (rule same_targets_parts)
    ultimately show ?thesis
      using True True' r' same_targets_ok [OF t'] same_targets_trans [OF t t'] ok
      by (simp add: answer_call_def Let_def maps_ok_def)
  qed
qed (use assms in \<open>simp add: answer_call_def Let_def\<close>)

lemma request_end_maps:
  assumes "maps_ok s" and "distinct_sessions s"
  shows "maps_ok (handleRequestEnd sid reason s) \<and> same_targets s (handleRequestEnd sid reason s)"
proof -
  let ?s = "receives (ClearTimer sid) s"
  have q: "quiet s ?s" by simp
  note ok = quiet_maps [OF q assms(1)]
  have t: "same_targets s ?s" by simp
  show ?thesis
  proof (cases "js_get (sockets ?s) sid")
    case (Some a)
    then have "quiet s (handleRequestEnd sid reason s)"
      by (simp add: handleRequestEnd_def Let_def split: prod.split)
    then show ?thesis using quiet_maps assms(1) by (auto simp: quiet_def)
  next
    case None
    show ?thesis
    proof (cases "js_get (sessions ?s) sid")
      case (Some q)
      let ?u = "cancel_if_aborted reason sid ?s"
      have "quiet s ?u" by simp
      then have u: "maps_ok ?u" "same_targets s ?u" "distinct_sessions ?u"
        using quiet_maps [OF _ assms(1)] assms(2) by (auto simp: quiet_def same_targets_def distinct_sessions_def)
      have "sessions ?u = sessions ?s" by (simp add: cancel_if_aborted_def responds_def)
      then have "q < length (sessionHeap ?u)" using indexD(3) [of ?u sid q] u(1) Some by (simp add: maps_ok_def)
      then have "index_ok (deleteSession q ?u)" using deleteSession_ok u by (simp add: maps_ok_def)
      then show ?thesis
        using None Some u same_targets_parts(1) [of ?u q] same_targets_ok same_targets_trans
        by (simp add: handleRequestEnd_def Let_def maps_ok_def)
    next
      case None': None
      show ?thesis
      proof (cases "js_get (streams ?s) sid")
        case (Some r)
        let ?u = "end_stream r reason sid ?s"
        have t': "same_targets ?s ?u" by (rule same_targets_parts)
        have u: "maps_ok ?u" using end_stream_ok ok same_targets_ok [OF t'] by (simp add: maps_ok_def)
        have "quiet ?u (cancel_if_aborted reason sid ?u)" by simp
        then show ?thesis
          using None None' Some quiet_maps [OF _ u] same_targets_trans [OF same_targets_trans [OF t t']]
          by (simp add: handleRequestEnd_def Let_def quiet_def)
      next
        case None'': None
        have "quiet s (cancel_if_aborted reason sid ?s)" by simp
        then show ?thesis
          using None None' None'' quiet_maps [OF _ assms(1)] by (simp add: handleRequestEnd_def Let_def quiet_def)
      qed
    qed
  qed
qed

lemma request_maps:
  assumes "maps_ok s"
  shows "maps_ok (handleNativeRequest url sid cid hs user_calls decision s)
    \<and> map so_id (sessionHeap (handleNativeRequest url sid cid hs user_calls decision s)) = map so_id (sessionHeap s)"
proof -
  let ?t = "handleNativeRequest url sid cid hs user_calls decision s"
  have "quiet s ?t \<or> (\<exists>c st. js_get (connections s) cid = Some c \<and> st_id st = sid \<and> st_connection st = c
      \<and> ?t = request_stream st c sid cid s)"
    using quiet_socket_start [of sid cid hs user_calls decision s]
    by (auto simp: handleNativeRequest_def split: option.split prod.split sum.split dest: new_stream_Inr)
  then show ?thesis
  proof (elim disjE exE conjE)
    assume "quiet s ?t"
    then show ?thesis using quiet_maps assms by (auto simp: quiet_def same_targets_def)
  next
    fix c st
    assume "js_get (connections s) cid = Some c" "st_id st = sid" "st_connection st = c" "?t = request_stream st c sid cid s"
    then show ?thesis
      using request_stream_ok new_call_targets(2) new_call_ids(2) assms by (simp add: maps_ok_def)
  qed
qed

text \<open>Objects of sessions are never removed from their list: a step appends one at most.\<close>

lemma session_ids:
  "sessionHeap (deleteSession q s) = sessionHeap s" "sessionHeap (end_stream r reason sid s) = sessionHeap s"
  "sessionHeap (responds e s) = sessionHeap s" "sessionHeap (receives e' s) = sessionHeap s"
  "sessionHeap (drive k e'' s) = sessionHeap s" "sessionHeap (cancel_if_aborted reason sid s) = sessionHeap s"
  by (simp_all add: deleteSession_def end_stream_def responds_def receives_def drive_def cancel_if_aborted_def Let_def)

lemma request_ids:
  "map so_id (sessionHeap (handleNativeRequest url sid cid hs user_calls decision s)) = map so_id (sessionHeap s)"
  using quiet_socket_start [of sid cid hs user_calls decision s]
  by (auto simp: handleNativeRequest_def new_call_ids quiet_def same_targets_def best_effort_def report_failure_def
      split: option.split prod.split sum.split)

lemma step_session_ids:
  "map so_id (sessionHeap (h3_step url s e)) = map so_id (sessionHeap s)
   \<or> (\<exists>sid cid hs. e = NativeSession sid cid hs
        \<and> map so_id (sessionHeap (h3_step url s e)) = map so_id (sessionHeap s) @ [sid])"
proof (cases e)
  case (NativeSession sid cid hs)
  then show ?thesis using session_opened [of sid cid hs s] by (auto simp: new_call_ids best_effort_def)
next
  case (NativeRequest sid cid hs user_calls decision)
  then show ?thesis by (simp add: request_ids)
next
  case (NativeRequestEnd sid reason)
  then show ?thesis
    by (simp add: handleRequestEnd_def session_ids Let_def split: option.split prod.split)
next
  case (Answered i a)
  then show ?thesis by (simp add: answer_call_def session_ids Let_def split: prod.split)
next
  case (NativeData sid cid data)
  then show ?thesis
    using quiet_stream [of s sid cid data] by (auto simp: handleData_def session_ids quiet_def same_targets_def split: option.split prod.split)
next
  case (SocketHeaders n accepted)
  then show ?thesis
    by (simp add: socket_headers_answered_def webSocketHeadersAnswered_def socket_open_failed_def session_ids best_effort_def
        report_failure_def Let_def split: prod.split)
next
  case (SocketAccepted n)
  then show ?thesis using quiet_accepted [of s n] by (simp add: quiet_def same_targets_def)
qed (use same_targets_parts same_targets_ends in
    \<open>simp_all add: session_ids handleStart_def handleDatagram_def handleWtData_def refuse_def invoke_def same_targets_def\<close>)

lemma distinct_sessions_step: "distinct_sessions (h3_step url s e) \<Longrightarrow> distinct_sessions s"
  using step_session_ids [of url s e] by (auto simp: distinct_sessions_def)

text \<open>The steps that are neither a request, a session nor an answer.\<close>

lemma quiet_steps:
  "quiet s (handleStart address port s)" "quiet s (handleData sid cid data s)" "quiet s (handleDatagram sid s)"
  "quiet s (handleWtData wid n threw s)" "quiet s (socket_headers_answered m accepted s)"
  "quiet s (webSocketAccepted m s)"
  using quiet_stream [of s sid cid data]
  by (simp_all add: handleStart_def handleData_def handleDatagram_def handleWtData_def socket_headers_answered_def
      webSocketHeadersAnswered_def Let_def split: option.split prod.split)

lemma step_maps:
  assumes "maps_ok s" and "distinct_sessions (h3_step url s e)"
  shows "maps_ok (h3_step url s e)"
proof -
  note distinct = distinct_sessions_step [OF assms(2)]
  have ok: "index_ok s" "targets_ok s" using assms(1) by (auto simp: maps_ok_def)
  note targets = same_targets_ok [OF _ ok(2)]
  show ?thesis
  proof (cases e)
    case (NativeSession sid cid hs)
    from session_opened [of sid cid hs s] show ?thesis
    proof (elim disjE exE conjE)
      assume "handleNativeSession sid cid hs s = s"
      then show ?thesis using assms(1) NativeSession by simp
    next
      fix n
      assume "handleNativeSession sid cid hs s = best_effort sid n s"
      then show ?thesis using quiet_maps [of s "best_effort sid n s"] assms(1) NativeSession by simp
    next
      fix c neg
      let ?u = "open_session sid c hs s"
      assume c: "js_get (connections s) cid = Some c" "js_size (co_sessions (connectionHeap s ! c)) = 0"
        and t: "handleNativeSession sid cid hs s = responds (StartCall ForSession sid cid neg) ?u"
      have "sid \<notin> set (map so_id (sessionHeap s))"
        using assms(2) NativeSession t by (simp add: distinct_sessions_def new_call_ids)
      with c have "index_ok ?u" by (intro open_session_ok ok)
      then have "index_ok (responds (StartCall ForSession sid cid neg) ?u)" by (rule same_index_ok [OF small_same_index(2)])
      with new_call_targets(1) [OF ok(2)] show ?thesis using NativeSession t by (simp add: maps_ok_def)
    qed
  qed (use distinct ok targets request_maps [OF assms(1)] request_end_maps [OF assms(1) distinct]
      answer_call_maps [OF assms(1) distinct] quiet_maps [OF _ assms(1)] quiet_steps
      handleConnection_ok handleConnectionEnd_ok handleStop_ok handleWtStream_ok handleWtEnd_ok
      same_targets_parts same_targets_ends in \<open>simp_all add: maps_ok_def\<close>)
qed

section \<open>Registered sockets\<close>

definition same_sockets :: "h3_server \<Rightarrow> h3_server \<Rightarrow> bool" where
  "same_sockets s t \<longleftrightarrow> sockets t = sockets s \<and> socketHeap t = socketHeap s"

lemma same_sockets_ok: "same_sockets s t \<Longrightarrow> sockets_ok s \<Longrightarrow> sockets_ok t"
  by (simp add: same_sockets_def sockets_ok_def)

lemma same_sockets_refl [simp]: "same_sockets s s"
  by (simp add: same_sockets_def)

lemma same_sockets_simps [simp]:
  "same_sockets s (receives e t) = same_sockets s t" "same_sockets s (invoke op sid t) = same_sockets s t"
  "same_sockets s (report_failure op sid t) = same_sockets s t" "same_sockets s (best_effort sid n t) = same_sockets s t"
  "same_sockets s (refuse sid n t) = same_sockets s t" "same_sockets s (responds e' t) = same_sockets s t"
  "same_sockets s (deleteSession q t) = same_sockets s t" "same_sockets s (cancel_if_aborted reason sid t) = same_sockets s t"
  "same_sockets s (end_stream r reason sid t) = same_sockets s t" "same_sockets s (open_session sid c hs t) = same_sockets s t"
  "same_sockets s (request_stream st c sid cid t) = same_sockets s t"
  "same_sockets s (t\<lparr>pendingOpens := ps\<rparr>) = same_sockets s t" "same_sockets s (t\<lparr>responding_part := r'\<rparr>) = same_sockets s t"
  "same_sockets s (t\<lparr>connections := m\<rparr>) = same_sockets s t" "same_sockets s (t\<lparr>streamHeap := h\<rparr>) = same_sockets s t"
  by (simp_all add: same_sockets_def receives_def responds_def invoke_def report_failure_def best_effort_def refuse_def
      deleteSession_def cancel_if_aborted_def end_stream_def open_session_def request_stream_def Let_def)

lemma sockets_ok_simps [simp]:
  "sockets_ok (receives e t) = sockets_ok t" "sockets_ok (report_failure op sid t) = sockets_ok t"
  "sockets_ok (best_effort sid n t) = sockets_ok t" "sockets_ok (responds e' t) = sockets_ok t"
  "sockets_ok (t\<lparr>pendingOpens := ps\<rparr>) = sockets_ok t" "sockets_ok (t\<lparr>connections := m\<rparr>) = sockets_ok t"
  "sockets_ok (t\<lparr>pendingAccepts := as\<rparr>) = sockets_ok t"
  by (simp_all add: sockets_ok_def receives_def responds_def report_failure_def best_effort_def)

lemma sockets_ok_delete: "sockets_ok s \<Longrightarrow> sockets_ok (s\<lparr>sockets := js_delete (sockets s) sid\<rparr>)"
  by (simp add: sockets_ok_def)

lemma open_failed_sockets: "sockets_ok s \<Longrightarrow> sockets_ok (socket_open_failed sid s)"
  by (simp add: socket_open_failed_def sockets_ok_delete)

text \<open>\<open>onClose\<close> removes the id at the very step in which the socket closes.\<close>

lemma drive_sockets:
  assumes "sockets_ok s"
  shows "sockets_ok (drive k e s)"
proof (cases "k < length (socketHeap s)")
  case True
  have *: "js_get (sockets s) sid = Some (cid, k) \<Longrightarrow> ko_id (socketHeap s ! k) = sid
      \<and> readyState (conn (ko_system (socketHeap s ! k))) \<noteq> CLOSED" for sid cid
    using assms by (simp add: sockets_ok_def)
  show ?thesis
    using True assms * unfolding sockets_ok_def drive_def Let_def
    by (auto split: if_splits)
qed (use assms in \<open>simp add: drive_def\<close>)

lemma drive_fold_sockets: "sockets_ok s \<Longrightarrow> sockets_ok (foldl (\<lambda>t c. drive k (f c) t) s cs)"
  by (induction cs arbitrary: s) (auto intro: drive_sockets)

lemma drive_all_sockets: "sockets_ok s \<Longrightarrow> sockets_ok (drive_all e ks s)"
  unfolding drive_all_def by (induction ks arbitrary: s) (auto intro: drive_sockets)

lemma socket_start_sockets:
  assumes "sockets_ok s"
  shows "sockets_ok (fst (handleWebSocketStart sid cid hs user_calls decision s))"
proof -
  let ?s1 = "\<lambda>m. s\<lparr>socketHeap := socketHeap s @ [\<lparr>ko_id = sid, ko_system = new_system (socketLimit s) (wsOfferedProtocols m)\<rparr>],
    sockets := js_set (sockets s) sid (cid, length (socketHeap s))\<rparr>"
  have "sockets_ok (?s1 m)" for m
    using assms by (auto simp: sockets_ok_def nth_append new_system_def new_connection_def intro: less_SucI)
  then have fold: "sockets_ok (foldl (\<lambda>t c. drive k (user_event c) t) (?s1 m) cs)" for m k cs
    by (rule drive_fold_sockets)
  show ?thesis
    using fold sockets_ok_delete [OF fold] sockets_ok_delete [OF assms] assms
    by (auto simp: handleWebSocketStart_def Let_def split: sum.split route.split)
qed

lemma same_sockets_parts:
  "same_sockets s (handleStart address port s)" "same_sockets s (handleConnection cid s)"
  "same_sockets s (handleNativeSession sid cid hs s)" "same_sockets s (handleDatagram sid s)"
  "same_sockets s (handleWtStream wid sid s)" "same_sockets s (handleWtData wid n threw s)"
  "same_sockets s (handleWtEnd wid s)" "same_sockets s (answer_call i a s)" "same_sockets s (deliver_to_stream sid cid data s)"
  by (simp_all add: handleStart_def handleConnection_def handleNativeSession_def handleDatagram_def handleWtStream_def
      handleWtData_def handleWtEnd_def answer_call_def deliver_to_stream_def Let_def split: option.split prod.split)
    (simp_all add: same_sockets_def invoke_def receives_def)

lemma end_sockets: "sockets_ok s \<Longrightarrow> sockets_ok (handleConnectionEnd cid s)"
proof -
  assume ok: "sockets_ok s"
  have "sockets_ok (foldl (\<lambda>t q. forget_session q t) (forget_streams o' s) qs)" for o' qs
    using ok by (simp add: sockets_ok_def forget_sessions_fold forget_streams_def)
  then show ?thesis
    using ok by (auto simp: handleConnectionEnd_def Let_def intro: drive_all_sockets split: option.split)
qed

lemma step_sockets:
  assumes "sockets_ok s"
  shows "sockets_ok (h3_step url s e)"
proof (cases e)
  case NativeStop
  then show ?thesis by (simp add: handleStop_def Let_def) (simp add: sockets_ok_def)
next
  case (NativeRequest sid cid hs user_calls decision)
  then show ?thesis
    using socket_start_sockets [OF assms, of sid cid hs user_calls decision] assms
    by (auto simp: handleNativeRequest_def intro: same_sockets_ok [of s] split: option.split prod.split sum.split)
next
  case (NativeRequestEnd sid reason)
  have "same_sockets s (deleteSession q (cancel_if_aborted reason sid (receives (ClearTimer sid) s)))" for q by simp
  note d = same_sockets_ok [OF this assms]
  have "same_sockets s (cancel_if_aborted reason sid (receives (ClearTimer sid) s))"
    "same_sockets s (cancel_if_aborted reason sid (end_stream r reason sid (receives (ClearTimer sid) s)))" for r by simp_all
  note c = this [THEN same_sockets_ok, OF assms]
  show ?thesis
    using NativeRequestEnd assms c d
    by (auto simp: handleRequestEnd_def Let_def intro: drive_sockets split: option.split prod.split)
next
  case (NativeData sid cid data)
  then show ?thesis
    using assms same_sockets_ok [OF same_sockets_parts(9) assms]
    by (auto simp: handleData_def intro: drive_sockets split: option.split prod.split)
next
  case (SocketHeaders n accepted)
  then show ?thesis
    using assms
    by (auto simp: socket_headers_answered_def webSocketHeadersAnswered_def Let_def intro: drive_sockets open_failed_sockets
        split: prod.split)
next
  case (SocketAccepted n)
  then show ?thesis
    using assms
    by (auto simp: webSocketAccepted_def Let_def intro: open_failed_sockets split: prod.split pending.split outcome.split list.split)
next
  case RunMicrotasks
  then show ?thesis using assms by (simp add: sockets_ok_def)
qed (use assms same_sockets_parts [THEN same_sockets_ok] drive_sockets end_sockets in \<open>simp_all\<close>)

text \<open>The end of a connection aborts its sockets. One that is not removed by that is inside a frame.\<close>

lemma drive_subset: "js_get (sockets (drive k e s)) sid = Some v \<Longrightarrow> js_get (sockets s) sid = Some v"
  by (auto simp: drive_def Let_def split: if_splits)

lemma end_keeps_buffer:
  "buffer (conn (ko_system (socketHeap (drive k (EndArrives r) s) ! j))) = buffer (conn (ko_system (socketHeap s ! j)))"
proof -
  have "buffer (conn (ws_step sys (EndArrives r))) = buffer (conn sys)" for sys
    by (simp add: conn_spawn start_receiveEnd_def start_protocolFailure_def start_finish_def effect_def Let_def)
  then show ?thesis by (cases "j = k") (auto simp: drive_def at_index_def Let_def)
qed

lemma ended_socket:
  assumes "sockets_ok s" and "js_get (sockets (drive k (EndArrives r) s)) sid = Some (c, k)"
  shows "buffer (conn (ko_system (socketHeap s ! k))) \<noteq> []"
proof
  let ?sys = "ko_system (socketHeap s ! k)"
  assume empty: "buffer (conn ?sys) = []"
  have k: "k < length (socketHeap s)" "ko_id (socketHeap s ! k) = sid" "readyState (conn ?sys) \<noteq> CLOSED"
    using assms(1) drive_subset [OF assms(2)] by (simp_all add: sockets_ok_def)
  moreover have "readyState (conn (ws_step ?sys (EndArrives r))) = CLOSED"
    using empty k(3) by (simp add: conn_spawn start_receiveEnd_def start_finish_def effect_def Let_def)
  ultimately show False using assms(2) by (simp add: drive_def Let_def)
qed

lemma ended_sockets:
  assumes "sockets_ok s" and "js_get (sockets (drive_all (EndArrives r) ks s)) sid = Some (c, k)"
  shows "js_get (sockets s) sid = Some (c, k)
    \<and> (k \<in> set ks \<longrightarrow> buffer (conn (ko_system (socketHeap (drive_all (EndArrives r) ks s) ! k))) \<noteq> [])
    \<and> buffer (conn (ko_system (socketHeap (drive_all (EndArrives r) ks s) ! k))) = buffer (conn (ko_system (socketHeap s ! k)))"
  using assms
proof (induction ks arbitrary: s)
  case (Cons k' ks)
  have all: "drive_all (EndArrives r) (k' # ks) s = drive_all (EndArrives r) ks (drive k' (EndArrives r) s)"
    by (simp add: drive_all_def)
  note IH = Cons.IH [OF drive_sockets [OF Cons.prems(1)] Cons.prems(2) [unfolded all]]
  have "k = k' \<Longrightarrow> buffer (conn (ko_system (socketHeap s ! k))) \<noteq> []"
    using ended_socket [OF Cons.prems(1)] IH by blast
  with IH drive_subset [of k' "EndArrives r" s sid "(c, k)"] show ?case
    unfolding all end_keeps_buffer by (metis set_ConsD)
qed (simp add: drive_all_def)

lemma connection_end_sockets:
  assumes "sockets_ok s" and "js_get (sockets (handleConnectionEnd cid s)) sid = Some (cid, k)"
  shows "buffer (conn (ko_system (socketHeap (handleConnectionEnd cid s) ! k))) \<noteq> []"
proof -
  have "sockets_ok (foldl (\<lambda>t q. forget_session q t) (forget_streams o' s) qs)" for o' qs
    using assms(1) by (simp add: sockets_ok_def forget_sessions_fold forget_streams_def)
  then obtain u where u: "sockets_ok u" and v: "sockets (handleConnectionEnd cid s) = sockets (drive_all (EndArrives Aborted) (sockets_of cid u) u)"
      "socketHeap (handleConnectionEnd cid s) = socketHeap (drive_all (EndArrives Aborted) (sockets_of cid u) u)"
    using assms(1) by (intro that) (auto simp: handleConnectionEnd_def Let_def split: option.split)
  note ended = ended_sockets [OF u assms(2) [unfolded v(1)]]
  then have "(cid, k) \<in> set (js_values (sockets u))" by (blast intro: js_value_get)
  then have "k \<in> set (sockets_of cid u)" by (force simp: sockets_of_def)
  with ended show ?thesis unfolding v(2) by blast
qed

section \<open>Runs\<close>

lemma step_bookkeeping:
  assumes "sockets_ok s \<and> (distinct_sessions s \<longrightarrow> maps_ok s)"
  shows "sockets_ok (h3_step url s e) \<and> (distinct_sessions (h3_step url s e) \<longrightarrow> maps_ok (h3_step url s e))"
  using assms step_sockets step_maps distinct_sessions_step by blast

interpretation bookkeeping: invariant_machine "h3_step url" "\<lambda>s. sockets_ok s \<and> (distinct_sessions s \<longrightarrow> maps_ok s)"
  by unfold_locales (rule step_bookkeeping)

text \<open>The ids under which the native server announces sessions.\<close>

fun announced :: "h3_event list \<Rightarrow> string list" where
  "announced [] = []"
| "announced (NativeSession sid _ _ # es) = sid # announced es"
| "announced (_ # es) = announced es"

lemma announced_Cons: "announced (e # es) = announced [e] @ announced es"
  by (cases e) simp_all

lemma run_session_ids:
  "distinct (map so_id (sessionHeap s) @ announced es) \<Longrightarrow> distinct_sessions (h3_run url s es)"
proof (induction es arbitrary: s)
  case Nil
  then show ?case by (simp add: h3_run_def distinct_sessions_def)
next
  case (Cons e es)
  have "distinct (map so_id (sessionHeap (h3_step url s e)) @ announced es)"
    using step_session_ids [of url s e] Cons.prems announced_Cons [of e es]
    by (auto simp del: map_append set_map simp: distinct_append)
  from Cons.IH [OF this] show ?case by (simp add: h3_run_def)
qed

lemma new_server_ok: "sockets_ok (new_h3_server a b n)" "maps_ok (new_h3_server a b n)"
  by (simp_all add: new_h3_server_def sockets_ok_def maps_ok_def index_defs targets_ok_def no_responses_def)

lemma h3_reachable:
  fixes url a b n
  assumes "distinct (announced es)"
  defines "s \<equiv> h3_run url (new_h3_server a b n) es"
  shows "sockets_ok s \<and> maps_ok s \<and> distinct_sessions s"
proof -
  have "distinct_sessions s"
    unfolding s_def by (rule run_session_ids) (simp add: new_h3_server_def assms(1))
  moreover have "sockets_ok s \<and> (distinct_sessions s \<longrightarrow> maps_ok s)"
    unfolding s_def h3_run_def by (rule bookkeeping.run_inv) (simp add: new_server_ok)
  ultimately show ?thesis by blast
qed

section \<open>Properties\<close>

text \<open>C7: Whatever the native server, the handlers and the timers do, when session ids are not reused
  the maps agree: every registered stream, session and WebTransport stream is reachable from the
  object it belongs to, that object is registered itself, a connection has at most one session, and no
  registered WebSocket is closed.\<close>

theorem server_maps_agree:
  assumes "distinct (announced es)"
  shows "(let s = h3_run url (new_h3_server a b n) es in
     conns_ok s \<and> streams_ok s \<and> sessions_ok s \<and> wt_ok s \<and> one_session s \<and> sockets_ok s)"
  using h3_reachable [OF assms, of url a b n] by (simp add: maps_ok_def index_ok_def Let_def)

definition session_run :: "h3_event list" where
  "session_run = [NativeConnection ''1'', NativeSession ''4'' ''1'' [], Answered 0 (Handler NoDecision),
     Answered 0 (Native True), NativeWtStream ''8'' ''4'']"

theorem server_maps_agree_witness:
  "sockets_ok (h3_run (\<lambda>u. True) (new_h3_server True True 100) session_run)"
  using server_maps_agree [of session_run "\<lambda>u. True" True True 100] by (simp add: session_run_def Let_def)

text \<open>C23: The end of a connection takes it out of the maps: its id, its streams, its sessions and their WebTransport streams, and
  its WebSockets but for those that have received a part of a frame, which fail first and stay registered until they are closed.\<close>

theorem ended_connection_forgotten:
  assumes "distinct (announced es)"
  shows "(let t = h3_run url (new_h3_server a b n) (es @ [NativeConnectionEnd cid]) in
     js_get (connections t) cid = None
     \<and> (\<forall>sid r. js_get (streams t) sid = Some r \<longrightarrow>
          co_id (connectionHeap t ! st_connection (streamHeap t ! r)) \<noteq> cid)
     \<and> (\<forall>sid q. js_get (sessions t) sid = Some q \<longrightarrow>
          co_id (connectionHeap t ! so_connection (sessionHeap t ! q)) \<noteq> cid)
     \<and> (\<forall>wid w. js_get (wtStreams t) wid = Some w \<longrightarrow>
          co_id (connectionHeap t ! so_connection (sessionHeap t ! wo_session (wtHeap t ! w))) \<noteq> cid)
     \<and> (\<forall>sid k. js_get (sockets t) sid = Some (cid, k) \<longrightarrow> buffer (conn (ko_system (socketHeap t ! k))) \<noteq> []))"
proof -
  let ?es = "es @ [NativeConnectionEnd cid]"
  let ?t = "h3_run url (new_h3_server a b n) ?es"
  have "announced ?es = announced es"
  proof (induction es)
    case (Cons e es)
    then show ?case using announced_Cons [of e "es @ [NativeConnectionEnd cid]"] announced_Cons [of e es] by simp
  qed simp
  then have ok: "index_ok ?t" using h3_reachable [of ?es url a b n] assms by (simp add: maps_ok_def)
  have gone: "js_get (connections ?t) cid = None"
    by (simp add: h3_run_def handleConnectionEnd_def Let_def)
  have other: "co_id (connectionHeap ?t ! c) \<noteq> cid" if "live ?t c" for c
    using that gone by (auto simp: live_def)
  show ?thesis
    unfolding Let_def
  proof (intro conjI allI impI gone)
    fix sid r
    assume "js_get (streams ?t) sid = Some r"
    then show "co_id (connectionHeap ?t ! st_connection (streamHeap ?t ! r)) \<noteq> cid"
      using indexD(2) [OF ok] other by blast
  next
    fix sid q
    assume "js_get (sessions ?t) sid = Some q"
    then show "co_id (connectionHeap ?t ! so_connection (sessionHeap ?t ! q)) \<noteq> cid"
      using indexD(3) [OF ok] other by blast
  next
    fix wid w
    assume "js_get (wtStreams ?t) wid = Some w"
    then show "co_id (connectionHeap ?t ! so_connection (sessionHeap ?t ! wo_session (wtHeap ?t ! w))) \<noteq> cid"
      using indexD(4) [OF ok] indexD(3) [OF ok] other by blast
  next
    fix sid k
    let ?s = "h3_run url (new_h3_server a b n) es"
    have "?t = handleConnectionEnd cid ?s" by (simp add: h3_run_def)
    moreover have "sockets_ok ?s" using h3_reachable [OF assms] by blast
    moreover assume "js_get (sockets ?t) sid = Some (cid, k)"
    ultimately show "buffer (conn (ko_system (socketHeap ?t ! k))) \<noteq> []" using connection_end_sockets by metis
  qed
qed

lemmas h3_code = h3_run_def new_h3_server_def no_responses_def no_deliveries_def handleConnection_def invoke_def
  report_failure_def handleNativeSession_def open_session_def responds_def start_call_def answer_call_def
  receives_def best_effort_def handleWtStream_def at_index_def header_is_def response_code

theorem ended_connection_forgotten_witness:
  "js_get (wtStreams (h3_run (\<lambda>u. True) (new_h3_server True True 100) session_run)) ''8'' = Some 0
   \<and> js_get (connections (h3_run (\<lambda>u. True) (new_h3_server True True 100) (session_run @ [NativeConnectionEnd ''1'']))) ''1'' = None"
  using ended_connection_forgotten [of session_run "\<lambda>u. True" True True 100 "''1''"]
  by (simp add: session_run_def Let_def h3_code js_size_def)

text \<open>Once a session is accepted and its connection ends, or the server stops, the id of the session
  stays in \<open>#responseCommitted\<close>: the end of a connection forgets the session without the
  \<open>delete\<close> that \<open>#deleteSession\<close> does.\<close>

theorem committed_id_left_behind:
  "(let s = h3_run (\<lambda>u. True) (new_h3_server True True 100) (session_run @ [NativeConnectionEnd ''1''])
    in js_get (sessions s) ''4'' = None \<and> responseCommitted (responding_part s) = {''4''}
       \<and> list_all (\<lambda>c. c_phase c = Done) (calls (responding_part s)))
   \<and> (let s = h3_run (\<lambda>u. True) (new_h3_server True True 100) (session_run @ [NativeStop])
      in js_get (sessions s) ''4'' = None \<and> responseCommitted (responding_part s) = {''4''})"
  by (simp add: session_run_def Let_def h3_code js_size_def handleConnectionEnd_def handleStop_def forget_sessions_fold
      forget_streams_def js_get_def js_set_def js_delete_def js_values_def drive_all_def sockets_of_def
      cancelResponsesForConnection_def cancelAllResponses_def js_keys_def)

end
