(* ===== verification/H3_Sockets.thy ===== *)
theory H3_Sockets
  imports H3_Consistency Ws_Input
begin

text \<open>
  WebSockets over HTTP/3: the sockets that the HTTP/3 server keeps are connections of packages/server/WebSocketConnection.js. A
  registered socket reads the bytes of its own stream on its own connection, all of them and in order, and no others.
\<close>

section \<open>The bytes of a stream\<close>

definition stream_bytes :: "string \<Rightarrow> string \<Rightarrow> h3_event list \<Rightarrow> bytes" where
  "stream_bytes sid cid es =
     concat (map (\<lambda>e. case e of NativeData i c data \<Rightarrow> if i = sid \<and> c = cid then data else [] | _ \<Rightarrow> []) es)"

text \<open>Only the native server hands bytes to a socket, and it does not reuse the id of a stream.\<close>

definition ordinary :: "string \<Rightarrow> h3_event \<Rightarrow> bool" where
  "ordinary sid e \<longleftrightarrow> (case e of
       SocketEvent _ (DataArrives _) \<Rightarrow> False
     | NativeRequest i _ _ _ _ \<Rightarrow> i \<noteq> sid
     | _ \<Rightarrow> True)"

section \<open>What a registered socket has read\<close>

definition fed :: "string \<Rightarrow> string \<Rightarrow> nat \<Rightarrow> bytes \<Rightarrow> h3_server \<Rightarrow> bool" where
  "fed sid cid k input s \<longleftrightarrow> (\<forall>c j. js_get (sockets s) sid = Some (c, j) \<longrightarrow>
     c = cid \<and> j = k \<and> ws_ok (ko_system (socketHeap s ! j)) \<and> input_ok (conn (ko_system (socketHeap s ! j))) input)"

lemma fed_gone: "js_get (sockets s) sid = None \<Longrightarrow> fed sid cid k input s"
  by (simp add: fed_def)

lemma fed_same: "same_sockets s t \<Longrightarrow> fed sid cid k input s \<Longrightarrow> fed sid cid k input t"
  by (simp add: same_sockets_def fed_def)

lemma fed_simps [simp]:
  "fed sid cid k input (receives e t) = fed sid cid k input t" "fed sid cid k input (report_failure op i t) = fed sid cid k input t"
  "fed sid cid k input (best_effort i n t) = fed sid cid k input t" "fed sid cid k input (responds e' t) = fed sid cid k input t"
  "fed sid cid k input (t\<lparr>pendingOpens := ps\<rparr>) = fed sid cid k input t"
  "fed sid cid k input (t\<lparr>pendingAccepts := as\<rparr>) = fed sid cid k input t"
  "fed sid cid k input (t\<lparr>connections := m\<rparr>) = fed sid cid k input t"
  by (simp_all add: fed_def receives_def responds_def report_failure_def best_effort_def)

lemma fed_delete: "fed sid cid k input s \<Longrightarrow> fed sid cid k input (s\<lparr>sockets := js_delete (sockets s) i\<rparr>)"
  by (simp add: fed_def)

lemma fed_open_failed: "fed sid cid k input s \<Longrightarrow> fed sid cid k input (socket_open_failed i s)"
  by (simp add: socket_open_failed_def fed_delete)

text \<open>An event of one socket: another socket does not notice, and this one reads the bytes of the event.\<close>

lemma drive_fed:
  assumes "sockets_ok s" and "fed sid cid k input s" and "j = k \<Longrightarrow> bytes_in = input_of [e]" and "j \<noteq> k \<Longrightarrow> bytes_in = []"
  shows "fed sid cid k (input @ bytes_in) (drive j e s)"
  unfolding fed_def
proof (intro allI impI)
  fix c i
  assume "js_get (sockets (drive j e s)) sid = Some (c, i)"
  then have get: "js_get (sockets s) sid = Some (c, i)" by (rule drive_subset)
  then have k: "c = cid" "i = k" "ws_ok (ko_system (socketHeap s ! k))" "input_ok (conn (ko_system (socketHeap s ! k))) input"
    using assms(2) unfolding fed_def by blast+
  then have "k < length (socketHeap s)" using get assms(1) by (simp add: sockets_ok_def)
  then have "ko_system (socketHeap (drive j e s) ! k)
      = (if j = k then ws_step (ko_system (socketHeap s ! k)) e else ko_system (socketHeap s ! k))"
    by (simp add: drive_def Let_def at_index_def)
  then show "c = cid \<and> i = k \<and> ws_ok (ko_system (socketHeap (drive j e s) ! i))
      \<and> input_ok (conn (ko_system (socketHeap (drive j e s) ! i))) (input @ bytes_in)"
    using k assms(3,4) ws_step_ok step_input by auto
qed

lemmas drive_quiet = drive_fed [where bytes_in = "[]", simplified]

lemma drive_fold_fed:
  assumes "sockets_ok s" and "fed sid cid k input s" and "j = k \<Longrightarrow> list_all (\<lambda>c. input_of [f c] = []) cs"
  shows "fed sid cid k input (foldl (\<lambda>t c. drive j (f c) t) s cs)"
  using assms
proof (induction cs arbitrary: s)
  case (Cons c cs)
  have "fed sid cid k input (drive j (f c) s)" by (rule drive_quiet) (use Cons.prems in auto)
  then show ?case using Cons.IH [of "drive j (f c) s"] Cons.prems drive_sockets by simp
qed simp

lemma drive_all_fed:
  assumes "sockets_ok s" and "fed sid cid k input s" and "input_of [e] = []"
  shows "fed sid cid k input (drive_all e ks s)"
  using assms(1,2) unfolding drive_all_def
proof (induction ks arbitrary: s)
  case (Cons j ks)
  have "fed sid cid k input (drive j e s)" by (rule drive_quiet) (use Cons.prems assms(3) in auto)
  then show ?case using Cons.IH [of "drive j e s"] Cons.prems drive_sockets by simp
qed simp

lemma end_no_input [simp]: "input_of [EndArrives r] = []" "input_of [CallAccept p] = []" "input_of [user_event c] = []"
  by (simp_all add: input_of_def) (cases c; simp)

text \<open>The routing of another stream.\<close>

definition with_socket :: "string \<Rightarrow> string \<Rightarrow> string list \<Rightarrow> h3_server \<Rightarrow> h3_server" where
  "with_socket i c offered s =
     s\<lparr>socketHeap := socketHeap s @ [\<lparr>ko_id = i, ko_system = new_system (socketLimit s) offered\<rparr>],
       sockets := js_set (sockets s) i (c, length (socketHeap s))\<rparr>"

lemma with_socket_ok: "sockets_ok s \<Longrightarrow> sockets_ok (with_socket i c offered s)"
  by (auto simp: with_socket_def sockets_ok_def nth_append new_system_def new_connection_def intro: less_SucI)

lemma other_start_fed:
  assumes "sockets_ok s" and "fed sid cid k input s" and "i \<noteq> sid"
  shows "fed sid cid k input (fst (handleWebSocketStart i c hs user_calls decision s))"
proof -
  have "fed sid cid k input (with_socket i c offered s)" for offered
    using assms by (auto simp: fed_def with_socket_def sockets_ok_def nth_append)
  then have fold: "fed sid cid k input (foldl (\<lambda>t call. drive j (user_event call) t) (with_socket i c offered s) user_calls)" for j offered
    by (rule drive_fold_fed [OF with_socket_ok [OF assms(1)]]) (simp add: list_all_iff)
  show ?thesis
    using fold [unfolded with_socket_def] fed_delete [OF fold, unfolded with_socket_def] assms(2) fed_delete [OF assms(2)]
    by (auto simp: handleWebSocketStart_def Let_def split: sum.split route.split)
qed

lemma new_socket_ok: "ws_ok (new_system limit offered) \<and> input_ok (conn (new_system limit offered)) []"
  using ws_ok_new
  by (auto simp: input_ok_def new_system_def new_connection_def calm_def reads_input_def input_kept_def split: prod.split)

lemma own_start_fed:
  assumes "sockets_ok s" and "js_get (sockets s) sid = None"
  shows "fed sid cid (length (socketHeap s)) [] (fst (handleWebSocketStart sid cid hs user_calls decision s))"
proof -
  let ?k = "length (socketHeap s)"
  have "fed sid cid ?k [] (with_socket sid cid offered s)" for offered
    using new_socket_ok by (simp add: fed_def with_socket_def)
  then have fold: "fed sid cid ?k [] (foldl (\<lambda>t call. drive j (user_event call) t) (with_socket sid cid offered s) user_calls)" for j offered
    by (rule drive_fold_fed [OF with_socket_ok [OF assms(1)]]) (simp add: list_all_iff)
  show ?thesis
    using fold [unfolded with_socket_def] fed_delete [OF fold, unfolded with_socket_def] fed_gone [OF assms(2)]
    by (auto simp: handleWebSocketStart_def Let_def fed_delete split: sum.split route.split)
qed

lemma request_fed:
  assumes "sockets_ok s" and "fed sid cid k input s" and "i \<noteq> sid"
  shows "fed sid cid k input (handleNativeRequest url i c hs user_calls decision s)"
  using other_start_fed [OF assms, of c hs user_calls decision] assms(2)
  by (auto simp: handleNativeRequest_def intro: fed_same [of s] split: option.split prod.split sum.split)

lemma data_fed:
  assumes "sockets_ok s" and "fed sid cid k input s"
  shows "fed sid cid k (input @ stream_bytes sid cid [NativeData i c data]) (handleData i c data s)"
proof (cases "js_get (sockets s) i")
  case None
  then have "i = sid \<Longrightarrow> js_get (sockets (deliver_to_stream i c data s)) sid = None"
    using same_sockets_parts(9) [of s i c data] by (simp add: same_sockets_def)
  then show ?thesis
    using None fed_same [OF same_sockets_parts(9) assms(2)]
    by (cases "i = sid") (simp_all add: handleData_def stream_bytes_def fed_gone)
next
  case (Some v)
  obtain c' j where v: "v = (c', j)" by fastforce
  have j: "ko_id (socketHeap s ! j) = i" using assms(1) Some v by (simp add: sockets_ok_def)
  show ?thesis
  proof (cases "c' = c")
    case True
    let ?r = "receives (Deliver i (length data) ''websocket-receive'' False) s"
    have get: "i = sid \<Longrightarrow> j = k \<and> c = cid" using assms(2) Some v True by (simp add: fed_def)
    show ?thesis
    proof (cases "js_get (sockets s) sid")
      case None
      then have "js_get (sockets (drive j (DataArrives data) ?r)) sid = None"
        using drive_subset [of j "DataArrives data" ?r sid] by (cases "js_get (sockets (drive j (DataArrives data) ?r)) sid")
          (auto simp: receives_def)
      then show ?thesis using Some v True by (simp add: handleData_def fed_gone)
    next
      case (Some w)
      have "ko_id (socketHeap s ! k) = sid" using Some assms by (cases w) (auto simp: sockets_ok_def fed_def)
      then have other: "i \<noteq> sid \<Longrightarrow> j \<noteq> k" using j by auto
      have "fed sid cid k (input @ stream_bytes sid cid [NativeData i c data]) (drive j (DataArrives data) ?r)"
        by (rule drive_fed) (use assms get other in \<open>auto simp: stream_bytes_def input_of_def\<close>)
      then show ?thesis using \<open>js_get (sockets s) i = Some v\<close> v True by (simp add: handleData_def)
    qed
  next
    case False
    then have "stream_bytes sid cid [NativeData i c data] = []"
      using assms(2) Some v by (auto simp: stream_bytes_def fed_def)
    then show ?thesis
      using False Some v fed_same [OF same_sockets_parts(9) assms(2)] by (simp add: handleData_def)
  qed
qed

lemma connection_end_fed:
  assumes "sockets_ok s" and "fed sid cid k input s"
  shows "fed sid cid k input (handleConnectionEnd c s)"
proof -
  have "same_sockets s (foldl (\<lambda>t q. forget_session q t) (forget_streams o' s) qs)" for o' qs
    by (simp add: same_sockets_def forget_sessions_fold forget_streams_def)
  note this [THEN fed_same, OF assms(2)] this [THEN same_sockets_ok, OF assms(1)]
  then show ?thesis
    using assms by (auto simp: handleConnectionEnd_def Let_def intro: drive_all_fed split: option.split)
qed

lemma request_end_fed:
  assumes "sockets_ok s" and "fed sid cid k input s"
  shows "fed sid cid k input (handleRequestEnd i reason s)"
proof -
  have "same_sockets s (deleteSession q (cancel_if_aborted reason i (receives (ClearTimer i) s)))"
    "same_sockets s (cancel_if_aborted reason i (receives (ClearTimer i) s))"
    "same_sockets s (cancel_if_aborted reason i (end_stream r reason i (receives (ClearTimer i) s)))" for q r by simp_all
  note this [THEN fed_same, OF assms(2)]
  then show ?thesis
    using assms by (auto simp: handleRequestEnd_def Let_def intro: drive_quiet split: option.split prod.split)
qed

lemma step_fed:
  assumes "sockets_ok s" and "fed sid cid k input s" and "ordinary sid e"
  shows "fed sid cid k (input @ stream_bytes sid cid [e]) (h3_step url s e)"
proof (cases e)
  case (NativeData i c data)
  then show ?thesis using data_fed [OF assms(1,2)] by simp
next
  case (NativeRequest i c hs user_calls decision)
  then show ?thesis using request_fed assms by (simp add: ordinary_def stream_bytes_def)
next
  case NativeStop
  then show ?thesis by (simp add: handleStop_def Let_def) (simp add: fed_def)
next
  case (SocketHeaders n accepted)
  then show ?thesis
    using assms(1,2)
    by (auto simp: stream_bytes_def socket_headers_answered_def webSocketHeadersAnswered_def Let_def
        intro: drive_quiet fed_open_failed split: prod.split)
next
  case (SocketAccepted n)
  then show ?thesis
    using assms(2)
    by (auto simp: stream_bytes_def webSocketAccepted_def Let_def intro: fed_open_failed
        split: prod.split pending.split outcome.split list.split)
next
  case (SocketEvent j e')
  then have "input_of [e'] = []" using assms(3) by (cases e') (simp_all add: ordinary_def input_of_def)
  then show ?thesis using SocketEvent assms(1,2) by (auto simp: stream_bytes_def intro: drive_quiet)
next
  case RunMicrotasks
  then show ?thesis using assms(2) by (simp add: stream_bytes_def fed_def)
qed (use assms(1,2) same_sockets_parts [THEN fed_same] connection_end_fed request_end_fed in \<open>simp_all add: stream_bytes_def\<close>)

lemma run_fed:
  "sockets_ok s \<Longrightarrow> fed sid cid k input s \<Longrightarrow> list_all (ordinary sid) es \<Longrightarrow>
    fed sid cid k (input @ stream_bytes sid cid es) (h3_run url s es)"
proof (induction es arbitrary: s input)
  case (Cons e es)
  have "fed sid cid k (input @ stream_bytes sid cid [e]) (h3_step url s e)" using step_fed Cons.prems by simp
  from Cons.IH [OF step_sockets [OF Cons.prems(1)] this] Cons.prems(3) show ?case
    by (simp add: h3_run_def stream_bytes_def)
qed (simp add: h3_run_def stream_bytes_def)

section \<open>Properties\<close>

text \<open>C3: A WebSocket over HTTP/3 that is still registered, in any run after the request that opened it, is the socket of this request on
  this connection, and unless input waits for \<open>accept\<close> the frames it has handled and those in its buffer are, in order, the
  frames of all the bytes the native server has delivered on its stream and its connection, and of nothing else. Side conditions: the id of
  the stream is not used for a second request, and only the server hands bytes to its sockets.\<close>

theorem socket_reads_its_stream:
  fixes url limit es
  assumes "list_all (ordinary sid) rest"
    and "js_get (sockets (h3_run url (new_h3_server a b limit) es)) sid = None"
    and "js_get (sockets (h3_run url (new_h3_server a b limit) (es @ NativeRequest sid cid hs user_calls decision # rest))) sid = Some (c, k)"
  shows "(let t = h3_run url (new_h3_server a b limit) (es @ NativeRequest sid cid hs user_calls decision # rest);
             s = conn (ko_system (socketHeap t ! k))
         in c = cid \<and> ko_id (socketHeap t ! k) = sid \<and> readyState s \<noteq> CLOSED
            \<and> (pendingInput s = [] \<longrightarrow> arrived s = stream_bytes sid cid rest
                \<and> drain_frames (maxMessageBytes s) (stream_bytes sid cid rest)
                  = (case drain_frames (maxMessageBytes s) (buffer s) of (fs, stop, left) \<Rightarrow> (framesRead s @ fs, stop, left))))"
proof -
  let ?s = "h3_run url (new_h3_server a b limit) es"
  let ?r = "NativeRequest sid cid hs user_calls decision"
  let ?t = "h3_run url (new_h3_server a b limit) (es @ ?r # rest)"
  have reach: "sockets_ok (h3_run url (new_h3_server a b limit) es')" for es'
    using bookkeeping.run_inv [of "new_h3_server a b limit" url es'] new_server_ok by (simp add: h3_run_def)
  have t: "?t = h3_run url (h3_step url ?s ?r) rest" by (simp add: h3_run_def)
  have "fed sid cid (length (socketHeap ?s)) [] (h3_step url ?s ?r)"
    using own_start_fed [OF reach assms(2), of cid hs user_calls decision] fed_gone [OF assms(2)]
    by (auto simp: handleNativeRequest_def intro: fed_same [of ?s] split: option.split prod.split sum.split)
  from run_fed [OF step_sockets [OF reach] this assms(1)]
  have "c = cid \<and> input_ok (conn (ko_system (socketHeap ?t ! k))) (stream_bytes sid cid rest)"
    using assms(3) unfolding t by (simp add: fed_def)
  moreover have "ko_id (socketHeap ?t ! k) = sid \<and> readyState (conn (ko_system (socketHeap ?t ! k))) \<noteq> CLOSED"
    using reach [of "es @ ?r # rest"] assms(3) by (simp add: sockets_ok_def)
  ultimately show ?thesis
    by (auto simp: input_ok_def input_kept_def reads_input_def Let_def)
qed

definition socket_headers :: node_headers where
  "socket_headers = [('':method'', One ''CONNECT''), ('':protocol'', One ''websocket''), ('':scheme'', One ''https''),
     ('':authority'', One ''h''), ('':path'', One ''/''), (''sec-websocket-version'', One ''13'')]"

theorem socket_reads_its_stream_witness:
  "(let t = h3_run (\<lambda>u. True) (new_h3_server True True 100)
              ([NativeConnection ''1''] @ NativeRequest ''4'' ''1'' socket_headers [] RouteOther
                 # [SocketHeaders 0 True, NativeData ''4'' ''1'' [0x82, 0x81, 1], NativeData ''4'' ''2'' [9], NativeData ''4'' ''1'' [2, 3, 4, 8]])
    in arrived (conn (ko_system (socketHeap t ! 0))) = [0x82, 0x81, 1, 2, 3, 4, 8])"
proof -
  let ?later = "[SocketHeaders 0 True, NativeData ''4'' ''1'' [0x82, 0x81, 1], NativeData ''4'' ''2'' [9], NativeData ''4'' ''1'' [2, 3, 4, 8]]"
  let ?es = "[NativeConnection ''1''] @ NativeRequest ''4'' ''1'' socket_headers [] RouteOther # ?later"
  let ?t = "h3_run (\<lambda>u. True) (new_h3_server True True 100) ?es"
  have o: "list_all (ordinary ''4'') ?later" by (simp add: ordinary_def)
  have n: "js_get (sockets (h3_run (\<lambda>u. True) (new_h3_server True True 100) [NativeConnection ''1''])) ''4'' = None"
    by (simp add: h3_code js_get_def)
  have g: "js_get (sockets ?t) ''4'' = Some (''1'', 0)" by code_simp
  have p: "pendingInput (conn (ko_system (socketHeap ?t ! 0))) = []" by code_simp
  show ?thesis
    using socket_reads_its_stream [OF o n g] p by (simp add: Let_def stream_bytes_def)
qed

end
