(* ===== verification/H3_Api.thy ===== *)
theory H3_Api
  imports H3_Server
begin

text \<open>
  What an application calls on the HTTP/3 server outside its handlers: \<open>start\<close> and
  \<open>sendDatagram\<close>, \<open>sendWebTransportStreamData\<close>, the methods of \<open>WebTransportSession\<close> and
  \<open>WebTransportStream\<close> that lead there, and the error hook \<open>#reportError\<close>. The native server
  is a parameter: whether it accepts a call.
\<close>

section \<open>The error hook\<close>

record server_error =
  se_code :: string
  se_operation :: string
  se_id :: string
  se_bytes :: "nat option"
  se_limit :: "nat option"

text \<open>The handler \<open>handlers.error\<close>: absent, or what a call of it does.\<close>

datatype error_handler = NoErrorHandler | HandlerReturns | HandlerRejects | HandlerThrowsBack

datatype native_send = Datagram string bytes | StreamData string bytes bool

record h3_api =
  errorHandler :: error_handler
  reportedErrors :: nat
  handledErrors :: "server_error list"
  consoleErrors :: "string list"
  nativeSends :: "native_send list"
  nativeStarts :: "bool list"
  maxIncompleteBodyMs :: int
  maxSocketMessageBytes :: int
  closeTimeoutMs :: int
  maxDatagramSize :: nat
  resolveStart :: "nat option"
  startCalls :: nat
  settledStarts :: "(nat \<times> bool) list"

definition new_h3_api :: "error_handler \<Rightarrow> h3_api" where
  "new_h3_api h = \<lparr>errorHandler = h, reportedErrors = 0, handledErrors = [], consoleErrors = [], nativeSends = [],
     nativeStarts = [], maxIncompleteBodyMs = 30000, maxSocketMessageBytes = 16 * 1024 * 1024,
     closeTimeoutMs = 5000, maxDatagramSize = 1200, resolveStart = None, startCalls = 0, settledStarts = []\<rparr>"

definition reportError :: "server_error \<Rightarrow> h3_api \<Rightarrow> h3_api" where
  "reportError e s =
     (let s1 = s\<lparr>reportedErrors := reportedErrors s + 1\<rparr>;
          called = s1\<lparr>handledErrors := handledErrors s @ [e]\<rparr>
      in case errorHandler s of
           NoErrorHandler \<Rightarrow> s1
         | HandlerReturns \<Rightarrow> called
         | HandlerRejects \<Rightarrow> called\<lparr>consoleErrors := consoleErrors s @ [''HTTP3 server error handler rejected'']\<rparr>
         | HandlerThrowsBack \<Rightarrow> called\<lparr>consoleErrors := consoleErrors s @ [''HTTP3 server error handler threw'']\<rparr>)"

section \<open>Sending\<close>

definition datagram_error :: "string \<Rightarrow> nat \<Rightarrow> nat \<Rightarrow> server_error" where
  "datagram_error sid bytes limit =
     \<lparr>se_code = (if bytes > limit then ''ERR_HTTP3_DATAGRAM_OVERSIZE'' else ''ERR_HTTP3_DATAGRAM_SEND_REJECTED''),
      se_operation = ''send-datagram'', se_id = sid, se_bytes = Some bytes, se_limit = Some limit\<rparr>"

definition sendDatagram :: "bool \<Rightarrow> string \<Rightarrow> bytes \<Rightarrow> h3_api \<Rightarrow> bool \<times> h3_api" where
  "sendDatagram accepted sid data s =
     (let s1 = s\<lparr>nativeSends := nativeSends s @ [Datagram sid data]\<rparr>
      in (accepted, if accepted then s1 else reportError (datagram_error sid (length data) (maxDatagramSize s1)) s1))"

definition stream_send_error :: "string \<Rightarrow> nat \<Rightarrow> server_error" where
  "stream_send_error wid bytes =
     \<lparr>se_code = ''ERR_HTTP3_WEBTRANSPORT_SEND_REJECTED'', se_operation = ''send-webtransport'', se_id = wid,
      se_bytes = Some bytes, se_limit = None\<rparr>"

definition sendWebTransportStreamData :: "bool \<Rightarrow> string \<Rightarrow> bytes \<Rightarrow> bool \<Rightarrow> h3_api \<Rightarrow> bool \<times> h3_api" where
  "sendWebTransportStreamData accepted wid data close s =
     (let s1 = s\<lparr>nativeSends := nativeSends s @ [StreamData wid data close]\<rparr>
      in (accepted, if accepted then s1 else reportError (stream_send_error wid (length data)) s1))"

text \<open>\<open>WebTransportSession.sendDatagram\<close>, \<open>path\<close>; \<open>WebTransportStream.send\<close> and \<open>close\<close>.
  \<open>None\<close> is an argument that is left out.\<close>

definition session_sendDatagram :: "bool \<Rightarrow> session_object \<Rightarrow> bytes \<Rightarrow> h3_api \<Rightarrow> bool \<times> h3_api" where
  "session_sendDatagram accepted o' data s = sendDatagram accepted (so_id o') data s"

definition session_path :: "session_object \<Rightarrow> string" where
  "session_path o' = (case js_get (so_headers o') '':path'' of Some (One path) \<Rightarrow> path | _ \<Rightarrow> ''/'')"

definition wt_send :: "bool \<Rightarrow> wt_object \<Rightarrow> bytes \<Rightarrow> bool option \<Rightarrow> h3_api \<Rightarrow> bool \<times> h3_api" where
  "wt_send accepted w data fin s = sendWebTransportStreamData accepted (wo_id w) data (fin = Some True) s"

definition wt_close :: "bool \<Rightarrow> wt_object \<Rightarrow> bytes option \<Rightarrow> h3_api \<Rightarrow> bool \<times> h3_api" where
  "wt_close accepted w data s = wt_send accepted w (case data of None \<Rightarrow> [] | Some bs \<Rightarrow> bs) (Some True) s"

section \<open>Starting\<close>

text \<open>The properties of the configuration that the code reads; \<open>None\<close> is one that is undefined.\<close>

record h3_options =
  o_maxIncompleteBodyMs :: "js_number option"
  o_maxSocketMessageBytes :: "js_number option"
  o_closeTimeoutMs :: "js_number option"
  o_maxDatagramSize :: "nat option"
  o_webTransport :: "bool option"

definition given :: "int \<Rightarrow> js_number option \<Rightarrow> js_number" where
  "given n0 v = (case v of None \<Rightarrow> IntegerNumber n0 | Some n \<Rightarrow> n)"

definition settle_start :: "bool \<Rightarrow> h3_api \<Rightarrow> h3_api" where
  "settle_start ok s =
     s\<lparr>settledStarts := settledStarts s @ (case resolveStart s of None \<Rightarrow> [] | Some n \<Rightarrow> [(n, ok)]),
       resolveStart := None\<rparr>"

text \<open>The \<open>try\<close> block of \<open>start\<close>: the state it leaves, and whether it came to its end.
  \<open>native_ok\<close>: the native server does not throw on its configuration.\<close>

definition configure :: "bool \<Rightarrow> h3_options \<Rightarrow> h3_api \<Rightarrow> h3_api \<times> bool" where
  "configure native_ok c s =
     (let body = given 30000 (o_maxIncompleteBodyMs c);
          message = given (16 * 1024 * 1024) (o_maxSocketMessageBytes c);
          timeout = given 5000 (o_closeTimeoutMs c)
      in if \<not> is_integer body \<or> integer_value body < 1 \<or> integer_value body > 2 ^ 32 - 1 then (s, False)
         else let s1 = s\<lparr>maxIncompleteBodyMs := integer_value body\<rparr>
         in if \<not> is_safe_integer message \<or> integer_value message < 1 then (s1, False)
         else if \<not> is_integer timeout \<or> integer_value timeout < 1 then (s1, False)
         else let s2 = s1\<lparr>maxSocketMessageBytes := integer_value message, closeTimeoutMs := integer_value timeout,
                          maxDatagramSize := (case o_maxDatagramSize c of None \<Rightarrow> 1200 | Some n \<Rightarrow> n),
                          nativeStarts := nativeStarts s1 @ [o_webTransport c \<noteq> Some False]\<rparr>
         in (s2, native_ok))"

text \<open>The configuration \<open>None\<close> is undefined or null, which the destructuring refuses.\<close>

definition call_h3_start :: "bool \<Rightarrow> h3_options option \<Rightarrow> h3_api \<Rightarrow> h3_api" where
  "call_h3_start native_ok config s =
     (let n = startCalls s; s1 = s\<lparr>startCalls := n + 1\<rparr>
      in if resolveStart s \<noteq> None then s1\<lparr>settledStarts := settledStarts s1 @ [(n, False)]\<rparr>
         else let s2 = s1\<lparr>resolveStart := Some n\<rparr>
         in case config of
              None \<Rightarrow> settle_start False s2
            | Some c \<Rightarrow> (case configure native_ok c s2 of (s3, ok) \<Rightarrow> if ok then s3 else settle_start False s3))"

datatype api_event =
    StartCalled bool "h3_options option"
  | NativeStarted
  | DatagramSent bool string bytes
  | StreamDataSent bool string bytes bool

fun api_step :: "h3_api \<Rightarrow> api_event \<Rightarrow> h3_api" where
  "api_step s (StartCalled native_ok config) = call_h3_start native_ok config s"
| "api_step s NativeStarted = settle_start True s"
| "api_step s (DatagramSent accepted sid data) = snd (sendDatagram accepted sid data s)"
| "api_step s (StreamDataSent accepted wid data close) = snd (sendWebTransportStreamData accepted wid data close s)"

definition api_run :: "h3_api \<Rightarrow> api_event list \<Rightarrow> h3_api" where
  "api_run = foldl api_step"

section \<open>Invariants\<close>

definition limits_ok :: "h3_api \<Rightarrow> bool" where
  "limits_ok s \<longleftrightarrow> 1 \<le> maxIncompleteBodyMs s \<and> maxIncompleteBodyMs s \<le> 2 ^ 32 - 1
     \<and> 1 \<le> maxSocketMessageBytes s \<and> maxSocketMessageBytes s \<le> int max_safe_integer \<and> 1 \<le> closeTimeoutMs s"

text \<open>Every start but the pending one is settled, and each once.\<close>

definition starts_ok :: "h3_api \<Rightarrow> bool" where
  "starts_ok s \<longleftrightarrow> distinct (map fst (settledStarts s))
     \<and> set (map fst (settledStarts s)) = {..<startCalls s} - set_option (resolveStart s)
     \<and> set_option (resolveStart s) \<subseteq> {..<startCalls s}"

lemma report_simps [simp]:
  "limits_ok (reportError e s) = limits_ok s" "starts_ok (reportError e s) = starts_ok s"
  "settledStarts (reportError e s) = settledStarts s" "maxDatagramSize (reportError e s) = maxDatagramSize s"
  "nativeSends (reportError e s) = nativeSends s" "reportedErrors (reportError e s) = reportedErrors s + 1"
  by (simp_all add: reportError_def limits_ok_def starts_ok_def Let_def split: error_handler.split)

lemma configure_limits: "limits_ok s \<Longrightarrow> limits_ok (fst (configure native_ok c s))"
  by (auto simp: configure_def limits_ok_def is_safe_integer_def Let_def)

lemma configure_starts [simp]:
  "settledStarts (fst (configure native_ok c s)) = settledStarts s" "startCalls (fst (configure native_ok c s)) = startCalls s"
  "resolveStart (fst (configure native_ok c s)) = resolveStart s"
  by (simp_all add: configure_def Let_def)

lemma settle_ok: "limits_ok (settle_start ok s) = limits_ok s" "starts_ok s \<Longrightarrow> starts_ok (settle_start ok s)"
  by (auto simp: settle_start_def limits_ok_def starts_ok_def split: option.split)

lemma configure_starts_ok: "starts_ok s \<Longrightarrow> starts_ok (fst (configure native_ok c s))"
  by (simp add: starts_ok_def)

lemma new_start_ok:
  assumes "starts_ok s"
  shows "resolveStart s = None \<Longrightarrow> starts_ok (s\<lparr>startCalls := startCalls s + 1, resolveStart := Some (startCalls s)\<rparr>)"
    and "resolveStart s \<noteq> None \<Longrightarrow>
      starts_ok (s\<lparr>startCalls := startCalls s + 1, settledStarts := settledStarts s @ [(startCalls s, False)]\<rparr>)"
  using assms by (auto simp: starts_ok_def)

lemma api_step_ok:
  assumes "limits_ok s \<and> starts_ok s"
  shows "limits_ok (api_step s e) \<and> starts_ok (api_step s e)"
proof (cases e)
  case (StartCalled native_ok config)
  show ?thesis
  proof (cases "resolveStart s = None")
    case True
    let ?s = "s\<lparr>startCalls := startCalls s + 1, resolveStart := Some (startCalls s)\<rparr>"
    have s: "limits_ok ?s" "starts_ok ?s" using assms new_start_ok(1) [OF _ True] by (simp_all add: limits_ok_def)
    then show ?thesis
      using configure_limits [OF s(1)] configure_starts_ok [OF s(2)] settle_ok True StartCalled
      by (auto simp: call_h3_start_def Let_def split: option.split prod.split) (metis fst_conv)+
  next
    case False
    then show ?thesis
      using assms new_start_ok(2) [OF _ False] StartCalled by (simp add: call_h3_start_def Let_def limits_ok_def)
  qed
qed (use assms in \<open>simp_all add: settle_ok sendDatagram_def sendWebTransportStreamData_def Let_def,
    simp_all add: limits_ok_def starts_ok_def\<close>)

interpretation api: invariant_machine api_step "\<lambda>s. limits_ok s \<and> starts_ok s"
  by unfold_locales (rule api_step_ok)

section \<open>Properties\<close>

text \<open>Whatever is called in whatever order, the limits the server works with stay in their bounds,
  also after starts that fail, and every call of \<open>start\<close> is settled exactly once but for the
  one that is pending, so that a start that fails leaves none pending behind.\<close>

theorem starts_and_limits:
  "limits_ok (api_run (new_h3_api h) es) \<and> starts_ok (api_run (new_h3_api h) es)"
  unfolding api_run_def
  by (rule api.run_inv) (simp add: new_h3_api_def limits_ok_def starts_ok_def max_safe_integer_def)

text \<open>A datagram the native server refuses is reported exactly once, as oversize just when it
  exceeds the limit of the configuration; one it accepts is not reported, and the caller gets the
  answer of the native server in any case.\<close>

theorem datagram_reported_once:
  "(case session_sendDatagram accepted o' data s of (sent, t) \<Rightarrow>
     sent = accepted \<and> nativeSends t = nativeSends s @ [Datagram (so_id o') data]
     \<and> reportedErrors t = reportedErrors s + (if accepted then 0 else 1)
     \<and> handledErrors t = handledErrors s @
         (if accepted \<or> errorHandler s = NoErrorHandler then []
          else [\<lparr>se_code = (if length data > maxDatagramSize s then ''ERR_HTTP3_DATAGRAM_OVERSIZE''
                           else ''ERR_HTTP3_DATAGRAM_SEND_REJECTED''),
                 se_operation = ''send-datagram'', se_id = so_id o', se_bytes = Some (length data),
                 se_limit = Some (maxDatagramSize s)\<rparr>]))"
  by (cases "errorHandler s")
    (simp_all add: session_sendDatagram_def sendDatagram_def reportError_def datagram_error_def Let_def)

definition patient :: h3_options where
  "patient = \<lparr>o_maxIncompleteBodyMs = Some (IntegerNumber 60000), o_maxSocketMessageBytes = Some (IntegerNumber 0),
     o_closeTimeoutMs = None, o_maxDatagramSize = None, o_webTransport = None\<rparr>"

text \<open>A start that is refused for one option has stored the options checked before it: on a server
  that runs, the timeout of received data has changed although the start was rejected.\<close>

theorem refused_start_changes_limit:
  "(let running = api_run (new_h3_api h) [StartCalled True (Some (patient\<lparr>o_maxIncompleteBodyMs := None,
                    o_maxSocketMessageBytes := None\<rparr>)), NativeStarted];
        after = api_run running [StartCalled True (Some patient)]
    in maxIncompleteBodyMs running = 30000 \<and> settledStarts after = [(0, True), (1, False)]
       \<and> nativeStarts after = nativeStarts running \<and> maxIncompleteBodyMs after = 60000)"
  by (simp add: api_run_def new_h3_api_def patient_def call_h3_start_def configure_def settle_start_def given_def
      is_safe_integer_def max_safe_integer_def Let_def)

end
