(* ===== verification/Http_Lifecycle.thy ===== *)
theory Http_Lifecycle
  imports Prelude
begin

text \<open>
  \<open>start\<close>, \<open>stop\<close> and \<open>#closeTCP\<close> of packages/server/HTTPServer.js. \<open>start\<close> is async and is
  cut at its three awaits: the certificate files, the event \<open>listening\<close>, and the start of the
  HTTP/3 server. \<open>stop\<close> can be called at any of these points. What the files, the sockets and the
  native server answer is given by the events.
\<close>

section \<open>State\<close>

datatype server_state = New | Starting | Started | Stopped

datatype start_phase = NotCalled | ReadingFiles | AwaitListening | AwaitHttp3 | Settled bool

text \<open>The object \<open>tcp\<close> that \<open>start\<close> creates stays known to it; \<open>tcpRef\<close> tells whether the field
  \<open>#tcp\<close> still refers to it.\<close>

record listener =
  listening :: bool
  closeCalled :: bool

record lifecycle =
  lcState :: server_state
  lcPhase :: start_phase
  lcListener :: "listener option"
  tcpRef :: bool
  lcAddress :: "(string \<times> nat) option"
  lcBound :: "(string \<times> nat) option"
  lcAltSvcMaxAge :: int
  stopPromise :: bool
  http3Stops :: nat
  rejections :: nat

definition new_server :: lifecycle where
  "new_server = \<lparr>lcState = New, lcPhase = NotCalled, lcListener = None, tcpRef = False, lcAddress = None,
     lcBound = None, lcAltSvcMaxAge = 3600, stopPromise = False, http3Stops = 0, rejections = 0\<rparr>"

text \<open>An option that is left out has its default; \<open>None\<close> for a flag is a value that is no boolean.\<close>

record start_config =
  cfgAllowHTTP1 :: "bool option"
  cfgAltSvcMaxAge :: js_number
  cfgEnableConnect :: "bool option"

definition valid_start_config :: "start_config \<Rightarrow> bool" where
  "valid_start_config c \<longleftrightarrow>
     cfgAllowHTTP1 c \<noteq> None
     \<and> \<not> (\<not> is_integer (cfgAltSvcMaxAge c) \<or> integer_value (cfgAltSvcMaxAge c) < 0)
     \<and> cfgEnableConnect c \<noteq> None"

definition close_listener :: "lifecycle \<Rightarrow> lifecycle" where
  "close_listener s =
     (if tcpRef s then s\<lparr>tcpRef := False, lcListener := map_option (\<lambda>l. l\<lparr>closeCalled := True\<rparr>) (lcListener s)\<rparr>
      else s)"

text \<open>The \<open>catch\<close> block of \<open>start\<close>.\<close>

definition start_failed :: "lifecycle \<Rightarrow> lifecycle" where
  "start_failed s = close_listener (s\<lparr>lcState := Stopped, lcPhase := Settled False\<rparr>)"

definition call_start :: "start_config \<Rightarrow> lifecycle \<Rightarrow> lifecycle" where
  "call_start c s =
     (if lcState s \<noteq> New then s\<lparr>rejections := Suc (rejections s)\<rparr>
      else if \<not> valid_start_config c then s\<lparr>rejections := Suc (rejections s)\<rparr>
      else s\<lparr>lcState := Starting, lcAltSvcMaxAge := integer_value (cfgAltSvcMaxAge c), lcPhase := ReadingFiles\<rparr>)"

definition files_read :: "bool \<Rightarrow> lifecycle \<Rightarrow> lifecycle" where
  "files_read ok s =
     (if lcPhase s \<noteq> ReadingFiles then s
      else if ok then s\<lparr>lcListener := Some \<lparr>listening = False, closeCalled = False\<rparr>, tcpRef := True,
                        lcPhase := AwaitListening\<rparr>
      else start_failed s)"

text \<open>\<open>None\<close>: the event \<open>error\<close> came first, or the address is no address and port.\<close>

definition listen_settled :: "(string \<times> nat) option \<Rightarrow> lifecycle \<Rightarrow> lifecycle" where
  "listen_settled result s =
     (if lcPhase s \<noteq> AwaitListening then s
      else case result of
        None \<Rightarrow> start_failed s
      | Some bound \<Rightarrow>
          s\<lparr>lcListener := map_option (\<lambda>l. l\<lparr>listening := True\<rparr>) (lcListener s), lcBound := Some bound,
            lcPhase := AwaitHttp3\<rparr>)"

definition http3_settled :: "bool \<Rightarrow> lifecycle \<Rightarrow> lifecycle" where
  "http3_settled ok s =
     (if lcPhase s \<noteq> AwaitHttp3 then s
      else if ok then s\<lparr>lcAddress := lcBound s, lcState := Started, lcPhase := Settled True\<rparr>
      else start_failed s)"

text \<open>\<open>stop\<close> without a grace period passes 10 seconds.\<close>

definition call_stop :: "js_number option \<Rightarrow> lifecycle \<Rightarrow> lifecycle" where
  "call_stop grace s =
     (if stopPromise s then s
      else let ms = (case grace of None \<Rightarrow> IntegerNumber 10000 | Some n \<Rightarrow> n)
      in if \<not> is_integer ms \<or> integer_value ms < 0 then s\<lparr>rejections := Suc (rejections s)\<rparr>
         else close_listener (s\<lparr>lcState := Stopped, lcAddress := None, stopPromise := True,
                                http3Stops := Suc (http3Stops s)\<rparr>))"

datatype lc_event =
    Start start_config
  | FilesRead bool
  | ListenSettled "(string \<times> nat) option"
  | Http3Settled bool
  | Stop "js_number option"

fun lc_step :: "lifecycle \<Rightarrow> lc_event \<Rightarrow> lifecycle" where
  "lc_step s (Start c) = call_start c s"
| "lc_step s (FilesRead ok) = files_read ok s"
| "lc_step s (ListenSettled result) = listen_settled result s"
| "lc_step s (Http3Settled ok) = http3_settled ok s"
| "lc_step s (Stop grace) = call_stop grace s"

definition lc_run :: "lifecycle \<Rightarrow> lc_event list \<Rightarrow> lifecycle" where
  "lc_run = foldl lc_step"

lemmas lc_code = call_start_def files_read_def listen_settled_def http3_settled_def call_stop_def
  start_failed_def close_listener_def Let_def

section \<open>Closing the listener and what is open on it\<close>

datatype close_action =
    CloseListener
  | CloseSession nat
  | DestroySession nat
  | DestroySocket nat

text \<open>\<open>closed_in_time\<close>: all connections ended before the grace period did.\<close>

definition closeTCP :: "nat \<Rightarrow> bool \<Rightarrow> nat list \<Rightarrow> nat list \<Rightarrow> close_action list" where
  "closeTCP gracePeriodMs closed_in_time sessions sockets =
     CloseListener # map CloseSession sessions
     @ (if gracePeriodMs = 0 \<or> \<not> closed_in_time
        then map DestroySession sessions @ map DestroySocket sockets else [])"

lemma closeTCP_reaches:
  "gracePeriodMs = 0 \<or> \<not> closed_in_time \<Longrightarrow>
   set (closeTCP gracePeriodMs closed_in_time sessions sockets) =
     {CloseListener} \<union> CloseSession ` set sessions \<union> DestroySession ` set sessions \<union> DestroySocket ` set sockets"
  by (auto simp: closeTCP_def)

section \<open>Invariant\<close>

definition open_listener :: "lifecycle \<Rightarrow> bool" where
  "open_listener s \<longleftrightarrow> (\<exists>l. lcListener s = Some l \<and> \<not> closeCalled l)"

definition lc_inv :: "lifecycle \<Rightarrow> bool" where
  "lc_inv s \<longleftrightarrow>
     tcpRef s = open_listener s
     \<and> (case lcPhase s of
          NotCalled \<Rightarrow> lcListener s = None \<and> lcState s = (if stopPromise s then Stopped else New)
        | ReadingFiles \<Rightarrow> lcListener s = None \<and> lcState s = (if stopPromise s then Stopped else Starting)
        | AwaitListening \<Rightarrow>
            if stopPromise s then lcState s = Stopped else lcState s = Starting \<and> open_listener s
        | AwaitHttp3 \<Rightarrow>
            if stopPromise s then lcState s = Stopped else lcState s = Starting \<and> open_listener s
        | Settled ok \<Rightarrow>
            if ok then stopPromise s \<and> lcState s \<noteq> New \<or> (lcState s = Started \<and> open_listener s \<and> lcAddress s = lcBound s)
            else lcState s = Stopped \<and> \<not> open_listener s)"

lemma lc_inv_new: "lc_inv new_server"
  by (simp add: lc_inv_def new_server_def open_listener_def)

lemma open_close: "open_listener (close_listener s) \<longleftrightarrow> open_listener s \<and> \<not> tcpRef s"
  by (auto simp: close_listener_def open_listener_def)

lemma close_listener_simps [simp]:
  "lcState (close_listener s) = lcState s" "lcPhase (close_listener s) = lcPhase s"
  "stopPromise (close_listener s) = stopPromise s" "tcpRef (close_listener s) = False"
  "lcAddress (close_listener s) = lcAddress s" "lcBound (close_listener s) = lcBound s"
  "lcListener (close_listener s) = None \<longleftrightarrow> lcListener s = None"
  by (auto simp: close_listener_def)

lemma open_listener_cong:
  "lcListener t = lcListener s \<Longrightarrow> open_listener t = open_listener s"
  by (simp add: open_listener_def)

lemma open_listener_fields [simp]:
  "open_listener (s\<lparr>lcState := st\<rparr>) = open_listener s" "open_listener (s\<lparr>lcPhase := p\<rparr>) = open_listener s"
  "open_listener (s\<lparr>lcAddress := a\<rparr>) = open_listener s" "open_listener (s\<lparr>stopPromise := b\<rparr>) = open_listener s"
  "open_listener (s\<lparr>http3Stops := n\<rparr>) = open_listener s" "open_listener (s\<lparr>rejections := n\<rparr>) = open_listener s"
  "open_listener (s\<lparr>lcBound := d\<rparr>) = open_listener s" "open_listener (s\<lparr>lcAltSvcMaxAge := m\<rparr>) = open_listener s"
  "open_listener (s\<lparr>tcpRef := b\<rparr>) = open_listener s"
  by (simp_all add: open_listener_def)

lemma open_listener_listening [simp]:
  "open_listener (s\<lparr>lcListener := map_option (\<lambda>l. l\<lparr>listening := b\<rparr>) (lcListener s)\<rparr>) = open_listener s"
  "open_listener (s\<lparr>lcListener := Some l\<rparr>) \<longleftrightarrow> \<not> closeCalled l"
  by (auto simp: open_listener_def)

lemma call_start_inv: "lc_inv s \<Longrightarrow> lc_inv (call_start c s)"
  by (cases "lcPhase s") (auto simp: call_start_def lc_inv_def split: if_splits)
lemma start_failed_inv: "lc_inv s \<Longrightarrow> lc_inv (start_failed s)"
  by (simp add: start_failed_def lc_inv_def open_close)
lemma files_read_inv: "lc_inv s \<Longrightarrow> lc_inv (files_read ok s)"
  by (cases "lcPhase s") (simp_all add: files_read_def start_failed_inv, auto simp: lc_inv_def split: if_splits)
lemma listen_settled_inv: "lc_inv s \<Longrightarrow> lc_inv (listen_settled result s)"
  by (cases "lcPhase s"; cases result) (simp_all add: listen_settled_def start_failed_inv, auto simp: lc_inv_def split: if_splits)
lemma http3_settled_inv: "lc_inv s \<Longrightarrow> lc_inv (http3_settled ok s)"
  by (cases "lcPhase s") (simp_all add: http3_settled_def start_failed_inv, auto simp: lc_inv_def split: if_splits)
lemma call_stop_inv: "lc_inv s \<Longrightarrow> lc_inv (call_stop grace s)"
  by (cases "lcPhase s") (auto simp: call_stop_def Let_def lc_inv_def open_close split: if_splits)

lemma lc_step_inv: "lc_inv s \<Longrightarrow> lc_inv (lc_step s e)"
  by (cases e) (simp_all add: call_start_inv files_read_inv listen_settled_inv http3_settled_inv call_stop_inv)

interpretation lc: invariant_machine lc_step lc_inv
  by unfold_locales (rule lc_step_inv)

lemma lc_reachable: "lc_inv (lc_run new_server es)"
  unfolding lc_run_def by (rule lc.run_inv [OF lc_inv_new])

section \<open>Settled servers\<close>

text \<open>Once \<open>start\<close> has settled and \<open>stop\<close> was called, no event changes what the server is.\<close>

definition at_rest :: "lifecycle \<Rightarrow> bool" where
  "at_rest s \<longleftrightarrow> (\<exists>ok. lcPhase s = Settled ok) \<and> stopPromise s \<and> lcState s \<noteq> New"

lemma at_rest_step:
  "at_rest s \<Longrightarrow> at_rest (lc_step s e) \<and> lcState (lc_step s e) = lcState s
     \<and> lcListener (lc_step s e) = lcListener s \<and> lcAddress (lc_step s e) = lcAddress s"
  by (cases e) (auto simp: at_rest_def lc_code)

lemma at_rest_run:
  "at_rest s \<Longrightarrow> at_rest (lc_run s es) \<and> lcState (lc_run s es) = lcState s
     \<and> lcListener (lc_run s es) = lcListener s \<and> lcAddress (lc_run s es) = lcAddress s"
proof (induction es arbitrary: s)
  case Nil
  then show ?case by (simp add: lc_run_def)
next
  case (Cons e es)
  then show ?case using at_rest_step [of s e] by (simp add: lc_run_def)
qed

section \<open>Properties\<close>

text \<open>C8: Whatever order the events come in: a start that failed leaves no open listener and a stopped
  server; a start that succeeded and was not followed by a stop leaves an open listener, with the
  address it is bound to.\<close>

theorem start_settles_consistently:
  "(let s = lc_run new_server es in
     case lcPhase s of
       Settled ok \<Rightarrow>
         if ok then stopPromise s \<or> (lcState s = Started \<and> open_listener s \<and> lcAddress s = lcBound s)
         else lcState s = Stopped \<and> \<not> open_listener s
     | _ \<Rightarrow> lcState s \<in> {New, Starting, Stopped})"
  using lc_reachable [of es] by (auto simp: lc_inv_def Let_def split: start_phase.splits if_splits)

text \<open>A stop after the start has settled closes the listener, and nothing opens it again.\<close>

theorem stop_after_start_closes:
  assumes "lcPhase (lc_run new_server es) = Settled True" and "\<not> stopPromise (lc_run new_server es)"
  shows "(let s = lc_run new_server (es @ Stop None # fs)
          in \<not> open_listener s \<and> lcState s = Stopped \<and> lcAddress s = None)"
proof -
  let ?s = "lc_run new_server es"
  let ?t = "lc_step ?s (Stop None)"
  have "tcpRef ?s" using lc_reachable [of es] assms by (simp add: lc_inv_def)
  then have "\<not> open_listener ?t" and "lcState ?t = Stopped" and "lcAddress ?t = None" and "at_rest ?t"
    using assms by (simp_all add: call_stop_def open_close at_rest_def ex_bool_eq)
  with at_rest_run [of ?t fs] show ?thesis
    by (simp add: lc_run_def Let_def open_listener_def)
qed

theorem stop_after_start_closes_witness:
  "\<not> open_listener (lc_run new_server ([Start \<lparr>cfgAllowHTTP1 = Some True, cfgAltSvcMaxAge = IntegerNumber 3600,
      cfgEnableConnect = Some True\<rparr>, FilesRead True, ListenSettled (Some (''127.0.0.1'', 443)), Http3Settled True]
      @ Stop None # [Stop None]))"
  by (rule stop_after_start_closes [unfolded Let_def, THEN conjunct1])
    (simp_all add: lc_run_def lc_code new_server_def valid_start_config_def)

text \<open>C22: A stop during the start is lost: when \<open>stop\<close> is called before the certificate files are read
  and the start then goes on, the server ends up started with an open listener, and no further call
  of \<open>stop\<close> closes it.\<close>

theorem stop_during_start_is_lost:
  assumes "valid_start_config c"
  shows "(let s = lc_run new_server
               ([Start c, Stop None, FilesRead True, ListenSettled (Some bound), Http3Settled True] @ fs)
          in lcState s = Started \<and> open_listener s \<and> lcAddress s = Some bound)"
proof -
  let ?s = "lc_run new_server [Start c, Stop None, FilesRead True, ListenSettled (Some bound), Http3Settled True]"
  have "at_rest ?s" and "lcState ?s = Started" and "open_listener ?s" and "lcAddress ?s = Some bound"
    using assms by (simp_all add: lc_run_def lc_code new_server_def at_rest_def open_listener_def ex_bool_eq)
  with at_rest_run [of ?s fs] show ?thesis
    by (simp add: lc_run_def Let_def open_listener_def)
qed

theorem stop_during_start_is_lost_witness:
  "open_listener (lc_run new_server ([Start \<lparr>cfgAllowHTTP1 = Some True, cfgAltSvcMaxAge = IntegerNumber 0,
      cfgEnableConnect = Some False\<rparr>, Stop None, FilesRead True, ListenSettled (Some (''::1'', 1)),
      Http3Settled True] @ [Stop None, Stop None]))"
  by (rule stop_during_start_is_lost [unfolded Let_def, THEN conjunct2, THEN conjunct1])
    (simp add: valid_start_config_def)

end
