(* ===== verification/Der.thy ===== *)
theory Der
  imports Utf8 Js_Text
begin

text \<open>
  The DER writers of packages/dev-certificates/x509.js: lengths, elements, integers, object
  identifiers, strings, times and extensions. A writer that throws returns the error; arguments are
  written from left to right, so the first error is the one thrown. A reader of DER in the strict
  form, which is not part of the code, says what the writers have to produce.
\<close>

section \<open>Lengths and elements\<close>

datatype der_error =
    InvalidLength
  | InvalidIdentifier string
  | YearOutOfRange
  | InvalidDnsName string
  | InvalidAddress string
  | NotAnArray string
  | TooManyNames string
  | NamesRequired
  | InvalidCommonName
  | InvalidValidity
  | InvalidNow
  | WrongSignatureLength nat
  | NotAString

type_synonym der = "der_error + bytes"

text \<open>The loop of \<open>encodeLength\<close>, which prepends the octets of the length.\<close>

function length_octets :: "nat \<Rightarrow> bytes \<Rightarrow> bytes" where
  "length_octets v octets = (if v > 0 then length_octets (v div 256) (word_of_nat (v mod 256) # octets) else octets)"
  by pat_completeness auto
termination by (relation "measure fst") auto

declare length_octets.simps [simp del]

definition encodeLength :: "js_number \<Rightarrow> der" where
  "encodeLength n =
     (if \<not> is_safe_integer n \<or> integer_value n < 0 then Inl InvalidLength
      else let l = nat (integer_value n)
           in if l < 128 then Inr [word_of_nat l]
              else let octets = length_octets l [] in Inr ((0x80 OR word_of_nat (length octets)) # octets))"

definition element :: "byte \<Rightarrow> bytes \<Rightarrow> der" where
  "element tag value =
     bind_result (encodeLength (IntegerNumber (int (length value)))) (\<lambda>l. Inr (concat [[tag], l, value]))"

text \<open>\<open>concat(...parts)\<close> where the parts are themselves written.\<close>

definition concat_der :: "der list \<Rightarrow> der" where
  "concat_der parts = bind_result (map_result (\<lambda>p. p) parts) (\<lambda>bs. Inr (concat bs))"

definition sequence :: "der list \<Rightarrow> der" where
  "sequence values = bind_result (concat_der values) (element 0x30)"

definition set_of :: "der list \<Rightarrow> der" where
  "set_of values = bind_result (concat_der values) (element 0x31)"

section \<open>Primitive values\<close>

text \<open>The loop of \<open>integer\<close> drops leading zero bytes as long as the sign stays positive.\<close>

fun strip_zeros :: "bytes \<Rightarrow> bytes" where
  "strip_zeros (a # b # bs) = (if a = 0 \<and> b AND 0x80 = 0 then strip_zeros (b # bs) else a # b # bs)"
| "strip_zeros bs = bs"

definition integer_content :: "bytes \<Rightarrow> bytes" where
  "integer_content value =
     (let bs = strip_zeros value
      in case bs of [] \<Rightarrow> [] | b # _ \<Rightarrow> if b AND 0x80 \<noteq> 0 then 0 # bs else bs)"

definition integer :: "bytes \<Rightarrow> der" where
  "integer value = element 0x02 (integer_content value)"

function base128_groups :: "nat \<Rightarrow> bytes \<Rightarrow> bytes" where
  "base128_groups v bs =
     (if v > 0 then base128_groups (v div 128) ((0x80 OR word_of_nat (v mod 128)) # bs) else bs)"
  by pat_completeness auto
termination by (relation "measure fst") auto

declare base128_groups.simps [simp del]

definition encodeBase128 :: "nat \<Rightarrow> bytes" where
  "encodeBase128 value = base128_groups (value div 128) [word_of_nat (value mod 128)]"

text \<open>\<open>Number\<close> of an arc; the identifiers of the code are written in decimal digits.\<close>

definition arc_number :: "string \<Rightarrow> js_number" where
  "arc_number s = (if s \<noteq> [] \<and> list_all digit s then IntegerNumber (int (read_decimal s)) else OtherNumber)"

definition objectIdentifier :: "string \<Rightarrow> der" where
  "objectIdentifier identifier =
     (let arcs = map arc_number (split_on (CHR ''.'') identifier);
          arc = (\<lambda>i. nat (integer_value (arcs ! i)))
      in if length arcs < 2 \<or> \<not> list_all (\<lambda>a. is_safe_integer a \<and> 0 \<le> integer_value a) arcs
            \<or> arc 0 > 2 \<or> (arc 0 < 2 \<and> arc 1 \<ge> 40)
         then Inl (InvalidIdentifier identifier)
         else element 0x06 (concat (encodeBase128 (arc 0 * 40 + arc 1)
                # map (\<lambda>a. encodeBase128 (nat (integer_value a))) (drop 2 arcs))))"

definition bitString :: "bytes \<Rightarrow> nat \<Rightarrow> der" where
  "bitString value unusedBits = element 0x03 (word_of_nat unusedBits # value)"

definition octetString :: "bytes \<Rightarrow> der" where
  "octetString value = element 0x04 value"

definition boolean :: "bool \<Rightarrow> der" where
  "boolean value = element 0x01 [if value then 0xff else 0]"

definition utf8String :: "code_points \<Rightarrow> der" where
  "utf8String value = element 0x0c (utf8_encode value)"

text \<open>\<open>textEncoder.encode\<close> of ASCII text.\<close>

definition ascii :: "string \<Rightarrow> bytes" where
  "ascii s = map (\<lambda>c. word_of_nat (code c)) s"

text \<open>The UTC fields of a \<open>Date\<close>, the month from 1.\<close>

record utc_date =
  d_year :: nat
  d_month :: nat
  d_day :: nat
  d_hours :: nat
  d_minutes :: nat
  d_seconds :: nat

definition pad2 :: "nat \<Rightarrow> string" where
  "pad2 n = (if length (decimal n) < 2 then CHR ''0'' # decimal n else decimal n)"

definition utcTime :: "utc_date \<Rightarrow> der" where
  "utcTime d =
     (if d_year d < 1950 \<or> d_year d > 2049 then Inl YearOutOfRange
      else element 0x17 (ascii (pad2 (d_year d mod 100) @ pad2 (d_month d) @ pad2 (d_day d)
             @ pad2 (d_hours d) @ pad2 (d_minutes d) @ pad2 (d_seconds d) @ ''Z'')))"

definition extension :: "string \<Rightarrow> der \<Rightarrow> bool \<Rightarrow> der" where
  "extension identifier value critical =
     bind_result value (\<lambda>v. sequence ([objectIdentifier identifier] @ (if critical then [boolean True] else []) @ [octetString v]))"

section \<open>Reading\<close>

text \<open>A length in the definite form with as few bytes as possible, as DER demands.\<close>

fun read_der_length :: "bytes \<Rightarrow> (nat \<times> bytes) option" where
  "read_der_length [] = None"
| "read_der_length (b # bs) =
     (if unat b < 128 then Some (unat b, bs)
      else let n = unat b - 128; octets = take n bs; l = be_val octets
           in if n = 0 \<or> length octets < n \<or> hd octets = 0 \<or> l < 128 then None else Some (l, drop n bs))"

fun read_element :: "bytes \<Rightarrow> (byte \<times> bytes \<times> bytes) option" where
  "read_element [] = None"
| "read_element (tag # bs) =
     (case read_der_length bs of
        None \<Rightarrow> None
      | Some (l, rest) \<Rightarrow> if length rest < l then None else Some (tag, take l rest, drop l rest))"

fun read_elements :: "nat \<Rightarrow> bytes \<Rightarrow> (byte \<times> bytes) list option" where
  "read_elements _ [] = Some []"
| "read_elements 0 bs = None"
| "read_elements (Suc n) bs =
     (case read_element bs of
        None \<Rightarrow> None
      | Some (tag, value, rest) \<Rightarrow> map_option (Cons (tag, value)) (read_elements n rest))"

text \<open>Base 128: the groups before the last have their first bit set, and the first group is not empty.\<close>

fun read_base128 :: "nat \<Rightarrow> bytes \<Rightarrow> (nat \<times> bytes) option" where
  "read_base128 v [] = None"
| "read_base128 v (b # bs) =
     (let v' = v * 128 + unat (b AND 0x7F)
      in if b AND 0x80 = 0 then Some (v', bs) else if v = 0 \<and> b = 0x80 then None else read_base128 v' bs)"

section \<open>Lengths are read back\<close>

lemma be_val_append: "be_val (bs @ cs) = be_val bs * 256 ^ length cs + be_val cs"
proof (induction cs rule: rev_induct)
  case (snoc c cs)
  have "be_val (bs @ cs @ [c]) = be_val ((bs @ cs) @ [c])" by simp
  also have "\<dots> = be_val (bs @ cs) * 256 + unat c" by (rule be_val_snoc)
  finally show ?case using snoc by (simp add: be_val_snoc algebra_simps)
qed simp

lemma be_val_Cons: "be_val (b # bs) = unat b * 256 ^ length bs + be_val bs"
  using be_val_append [of "[b]" bs] be_val_snoc [of "[]" b] by simp

lemma length_octets_append: "length_octets v (xs @ ys) = length_octets v xs @ ys"
proof (induction v xs rule: length_octets.induct)
  case (1 v octets)
  then show ?case by (subst (1 2) length_octets.simps) simp
qed

lemma length_octets_step: "v > 0 \<Longrightarrow> length_octets v [] = length_octets (v div 256) [] @ [word_of_nat (v mod 256)]"
  using length_octets_append [of "v div 256" "[]" "[word_of_nat (v mod 256)]"] by (subst length_octets.simps) simp

lemma length_octets_0 [simp]: "length_octets 0 bs = bs"
  by (simp add: length_octets.simps)

lemma be_val_length_octets: "be_val (length_octets v []) = v"
proof (induction v rule: less_induct)
  case (less v)
  then show ?case
    by (cases "v = 0") (simp_all add: length_octets_step be_val_snoc unat_byte_of_nat)
qed

lemma length_octets_be_val: "bs \<noteq> [] \<Longrightarrow> hd bs \<noteq> 0 \<Longrightarrow> length_octets (be_val bs) [] = bs"
proof (induction bs rule: rev_induct)
  case (snoc b bs)
  have "0 < be_val (bs @ [b])"
    using snoc.prems by (cases bs) (auto simp: be_val_snoc be_val_Cons unat_gt_0)
  then have "length_octets (be_val (bs @ [b])) [] = length_octets (be_val bs) [] @ [b]"
    by (simp add: length_octets_step be_val_snoc div_mult_self3)
  then show ?case using snoc by (cases "bs = []") simp_all
qed simp

lemma length_octets_hd: "v > 0 \<Longrightarrow> length_octets v [] \<noteq> [] \<and> hd (length_octets v []) \<noteq> 0"
proof (induction v rule: less_induct)
  case (less v)
  show ?case
  proof (cases "v div 256 = 0")
    case True
    then have "v < 256" by (simp add: div_eq_0_iff)
    then have "unat (word_of_nat v :: byte) \<noteq> 0" using less.prems by (simp add: unat_byte_of_nat)
    then have "(word_of_nat v :: byte) \<noteq> 0" by (metis unsigned_0)
    then show ?thesis using less.prems \<open>v < 256\<close> True by (simp add: length_octets_step)
  next
    case False
    then have "length_octets (v div 256) [] \<noteq> []" "hd (length_octets (v div 256) []) \<noteq> 0"
      using less.IH [of "v div 256"] less.prems by auto
    then show ?thesis unfolding length_octets_step [OF less.prems] by simp
  qed
qed

lemma length_length_octets: "v < 256 ^ n \<Longrightarrow> length (length_octets v []) \<le> n"
proof (induction n arbitrary: v)
  case (Suc n)
  have "v div 256 < 256 ^ n" using Suc.prems by (simp add: less_mult_imp_div_less mult.commute)
  then show ?case using Suc.IH [of "v div 256"] by (cases "v = 0") (simp_all add: length_octets_step)
qed simp

lemma unat_high: "n < 128 \<Longrightarrow> unat (0x80 OR word_of_nat n :: byte) = 128 + n"
proof -
  assume n: "n < 128"
  then have "(0x80 :: byte) AND word_of_nat n = 0" using low_and_80 [OF n] by (simp add: and.commute)
  then have "(0x80 :: byte) OR word_of_nat n = 0x80 + word_of_nat n" using word_plus_and_or [of "0x80 :: byte" "word_of_nat n"] by simp
  also have "\<dots> = word_of_nat (128 + n)" by simp
  finally show ?thesis using n by (simp only: unat_byte_of_nat)
qed

lemma encodeLength_Inr:
  assumes "l \<le> max_safe_integer"
  shows "encodeLength (IntegerNumber (int l)) = Inr (if l < 128 then [word_of_nat l]
    else (0x80 OR word_of_nat (length (length_octets l []))) # length_octets l [])"
  using assms by (auto simp: encodeLength_def is_safe_integer_def Let_def)

lemma encodeLength_safe: "encodeLength (IntegerNumber (int l)) = Inr bs \<Longrightarrow> l \<le> max_safe_integer"
  by (auto simp: encodeLength_def is_safe_integer_def split: if_splits)

lemma octets_of_length:
  assumes "128 \<le> l" and "l \<le> max_safe_integer"
  shows "length (length_octets l []) < 128" and "hd (length_octets l []) \<noteq> 0" and "length_octets l [] \<noteq> []"
proof -
  have "l < 256 ^ 7" using assms(2) by (simp add: max_safe_integer_def)
  from length_length_octets [OF this] show "length (length_octets l []) < 128" by simp
  show "hd (length_octets l []) \<noteq> 0" and "length_octets l [] \<noteq> []" using length_octets_hd [of l] assms(1) by auto
qed

lemma read_encoded_length:
  assumes "encodeLength (IntegerNumber (int l)) = Inr bs"
  shows "read_der_length (bs @ rest) = Some (l, rest)"
proof (cases "l < 128")
  case True
  then show ?thesis using assms encodeLength_Inr [OF encodeLength_safe [OF assms]] by (auto simp: unat_byte_of_nat)
next
  case False
  note o = octets_of_length [OF _ encodeLength_safe [OF assms]]
  have "bs = (0x80 OR word_of_nat (length (length_octets l []))) # length_octets l []"
    using assms encodeLength_Inr [OF encodeLength_safe [OF assms]] False by simp
  then show ?thesis using o False by (simp add: unat_high Let_def be_val_length_octets)
qed

lemma read_length_encoded:
  assumes "read_der_length bs = Some (l, rest)" and "l \<le> max_safe_integer"
  shows "\<exists>w. encodeLength (IntegerNumber (int l)) = Inr w \<and> bs = w @ rest"
proof (cases bs)
  case Nil
  then show ?thesis using assms by simp
next
  case (Cons b cs)
  show ?thesis
  proof (cases "unat b < 128")
    case True
    then show ?thesis using Cons assms encodeLength_Inr [OF assms(2)] by auto
  next
    case False
    let ?n = "unat b - 128"
    have r: "l = be_val (take ?n cs)" "?n \<noteq> 0" "length (take ?n cs) = ?n" "hd (take ?n cs) \<noteq> 0" "128 \<le> l" "rest = drop ?n cs"
      using assms(1) False Cons by (auto simp: Let_def split: if_splits)
    then have ne: "take ?n cs \<noteq> []" by auto
    have octets: "length_octets l [] = take ?n cs" unfolding r(1) by (rule length_octets_be_val [OF ne r(4)])
    have "?n < 128" using unat_byte_lt [of b] by linarith
    from unat_high [OF this] have "unat (0x80 OR word_of_nat ?n :: byte) = unat b" using False by linarith
    then have "(0x80 OR word_of_nat ?n :: byte) = b" by (simp add: word_unat_eq_iff)
    then show ?thesis using encodeLength_Inr [OF assms(2)] octets r(3,5,6) Cons by (simp del: length_take)
  qed
qed

section \<open>Elements are read back\<close>

lemma element_Inr:
  "element tag value = Inr w \<longleftrightarrow>
     (\<exists>l. encodeLength (IntegerNumber (int (length value))) = Inr l \<and> w = tag # l @ value)"
  by (auto simp: element_def bind_result_Inr_iff)

lemma read_written_element: "element tag value = Inr w \<Longrightarrow> read_element (w @ rest) = Some (tag, value, rest)"
  by (auto simp: element_Inr read_encoded_length)

lemma element_writes: "length value \<le> max_safe_integer \<Longrightarrow> \<exists>w. element tag value = Inr w"
  by (auto simp: element_Inr encodeLength_Inr)

lemma written_read_element:
  assumes "read_element bs = Some (tag, value, rest)" and "length value \<le> max_safe_integer"
  shows "\<exists>w. element tag value = Inr w \<and> bs = w @ rest"
proof (cases bs)
  case (Cons b cs)
  then obtain l r where r: "read_der_length cs = Some (l, r)" "l \<le> length r" "b = tag" "value = take l r" "rest = drop l r"
    using assms(1) by (auto split: option.splits if_splits prod.splits)
  then have "length value = l" by simp
  then show ?thesis using read_length_encoded [OF r(1)] assms(2) r Cons by (auto simp: element_Inr)
qed (use assms in simp)

lemma element_not_Nil: "element tag value = Inr w \<Longrightarrow> w \<noteq> []"
  by (auto simp: element_Inr)

lemma read_elements_written:
  assumes "list_all2 (\<lambda>(tag, value) w. element tag value = Inr w) vs ws" and "length vs \<le> n"
  shows "read_elements n (concat ws) = Some vs"
  using assms
proof (induction vs ws arbitrary: n rule: list_all2_induct)
  case (Cons v vs w ws)
  obtain tag bs where v: "v = (tag, bs)" by fastforce
  have w: "element tag bs = Inr w" using Cons.hyps v by simp
  obtain m where n: "n = Suc m" using Cons.prems by (cases n) auto
  obtain b cs where "concat (w # ws) = b # cs" using element_not_Nil [OF w] by (cases w) auto
  moreover have "read_element (concat (w # ws)) = Some (tag, bs, concat ws)" using read_written_element [OF w] by simp
  ultimately show ?case using Cons.IH [of m] Cons.prems n v by simp
qed simp

lemma concat_der_Inr: "concat_der ps = Inr w \<longleftrightarrow> (\<exists>ws. list_all2 (\<lambda>p v. p = Inr v) ps ws \<and> w = concat ws)"
  by (auto simp: concat_der_def result_simps)

section \<open>Integers and base 128\<close>

lemma strip_zeros_val [simp]: "be_val (strip_zeros bs) = be_val bs"
  by (induction bs rule: strip_zeros.induct) (auto simp: be_val_Cons)

lemma strip_zeros_shape:
  "bs \<noteq> [] \<Longrightarrow> strip_zeros bs \<noteq> []"
  "strip_zeros bs = a # b # cs \<Longrightarrow> a \<noteq> 0 \<or> b AND 0x80 \<noteq> 0"
proof (induction bs rule: strip_zeros.induct)
  case (1 x y bs)
  { case 1 then show ?case using "1.IH" by simp }
  { case 2 then show ?case using "1.IH" by (simp split: if_splits) }
qed simp_all

text \<open>Two's complement, positive, without a superfluous leading byte.\<close>

definition minimal_positive :: "bytes \<Rightarrow> bool" where
  "minimal_positive bs \<longleftrightarrow>
     (case bs of [] \<Rightarrow> False | [a] \<Rightarrow> a AND 0x80 = 0 | a # b # _ \<Rightarrow> a AND 0x80 = 0 \<and> (a \<noteq> 0 \<or> b AND 0x80 \<noteq> 0))"

lemma integer_content_val: "be_val (integer_content bs) = be_val bs"
proof -
  have "be_val (integer_content bs) = be_val (strip_zeros bs)"
    by (simp add: integer_content_def Let_def be_val_Cons del: strip_zeros_val split: list.split)
  then show ?thesis by simp
qed

lemma integer_content_minimal:
  assumes "bs \<noteq> []"
  shows "minimal_positive (integer_content bs)"
proof -
  obtain a cs where a: "strip_zeros bs = a # cs" using strip_zeros_shape(1) [OF assms] by (cases "strip_zeros bs") auto
  then have "cs = b # ds \<Longrightarrow> a \<noteq> 0 \<or> b AND 0x80 \<noteq> 0" for b ds using strip_zeros_shape(2) by simp
  then show ?thesis using a by (auto simp: integer_content_def minimal_positive_def Let_def split: list.split)
qed

lemma base128_group:
  assumes "n < 128"
  shows "(0x80 OR word_of_nat n :: byte) AND 0x7F = word_of_nat n" and "(0x80 OR word_of_nat n :: byte) AND 0x80 = 0x80"
    and "unat ((word_of_nat n :: byte) AND 0x7F) = n"
proof -
  note low = low_and_80 [OF assms]
  from and_7F [OF low] show "(0x80 OR word_of_nat n :: byte) AND 0x7F = word_of_nat n"
    by (simp add: bit.conj_disj_distrib2)
  from low show "(0x80 OR word_of_nat n :: byte) AND 0x80 = 0x80" by (simp add: bit.conj_disj_distrib2)
  show "unat ((word_of_nat n :: byte) AND 0x7F) = n" using and_7F [OF low] assms by (simp add: unat_byte_of_nat)
qed

lemma read_base128_groups: "read_base128 0 (base128_groups q bs) = read_base128 q bs"
proof (induction q arbitrary: bs rule: less_induct)
  case (less q)
  show ?case
  proof (cases "q > 0")
    case False
    then show ?thesis by (simp add: base128_groups.simps)
  next
    case True
    let ?b = "0x80 OR word_of_nat (q mod 128) :: byte"
    have "read_base128 0 (base128_groups q bs) = read_base128 0 (base128_groups (q div 128) (?b # bs))"
      using True by (subst base128_groups.simps) simp
    also have "\<dots> = read_base128 (q div 128) (?b # bs)" using less.IH [of "q div 128"] True by simp
    also have "\<dots> = read_base128 q bs"
    proof -
      have m: "q mod 128 < 128" by simp
      have b: "unat ?b = 128 + q mod 128" by (rule unat_high [OF m])
      have "?b = 0x80 \<Longrightarrow> q mod 128 = 0"
      proof -
        assume "?b = 0x80"
        then have "unat ?b = unat (0x80 :: byte)" by (rule arg_cong)
        with b show "q mod 128 = 0" by simp
      qed
      moreover have "q div 128 * 128 + q mod 128 = q" by simp
      ultimately show ?thesis using True base128_group [OF m] by (auto simp: Let_def unat_byte_of_nat)
    qed
    finally show ?thesis .
  qed
qed

lemma base128_groups_append: "base128_groups q (bs @ rest) = base128_groups q bs @ rest"
proof (induction q bs rule: base128_groups.induct)
  case (1 v bs)
  then show ?case by (subst (1 2) base128_groups.simps) simp
qed

lemma read_encoded_base128: "read_base128 0 (encodeBase128 v @ rest) = Some (v, rest)"
proof -
  have "read_base128 0 (encodeBase128 v @ rest) = read_base128 (v div 128) (word_of_nat (v mod 128) # rest)"
    using read_base128_groups [of "v div 128" "word_of_nat (v mod 128) # rest"]
      base128_groups_append [of "v div 128" "[word_of_nat (v mod 128)]" rest]
    by (simp add: encodeBase128_def)
  then show ?thesis using base128_group(3) [of "v mod 128"] low_and_80 [of "v mod 128"] by (simp add: Let_def)
qed

lemma encodeBase128_not_Nil: "encodeBase128 v \<noteq> []"
  using base128_groups_append [of "v div 128" "[]" "[word_of_nat (v mod 128)]"] by (auto simp: encodeBase128_def)

section \<open>Object identifiers\<close>

fun read_arcs :: "nat \<Rightarrow> bytes \<Rightarrow> nat list option" where
  "read_arcs _ [] = Some []"
| "read_arcs 0 bs = None"
| "read_arcs (Suc n) bs =
     (case read_base128 0 bs of None \<Rightarrow> None | Some (v, rest) \<Rightarrow> map_option (Cons v) (read_arcs n rest))"

lemma read_arcs_encoded: "length vs \<le> n \<Longrightarrow> read_arcs n (concat (map encodeBase128 vs)) = Some vs"
proof (induction vs arbitrary: n)
  case (Cons v vs)
  obtain m where n: "n = Suc m" using Cons.prems by (cases n) auto
  obtain b bs where "concat (map encodeBase128 (v # vs)) = b # bs" using encodeBase128_not_Nil [of v] by (cases "encodeBase128 v") auto
  moreover have "read_base128 0 (concat (map encodeBase128 (v # vs))) = Some (v, concat (map encodeBase128 vs))"
    using read_encoded_base128 by simp
  ultimately show ?case using Cons n by simp
qed simp

lemma length_concat_ge: "list_all (\<lambda>x. x \<noteq> []) xs \<Longrightarrow> length xs \<le> length (concat xs)"
  by (induction xs) (auto simp: Suc_le_eq neq_Nil_conv)

lemma arcs_content:
  "read_arcs (length (concat (map encodeBase128 vs))) (concat (map encodeBase128 vs)) = Some vs"
  using length_concat_ge [of "map encodeBase128 vs"] by (intro read_arcs_encoded) (simp add: list_all_iff encodeBase128_not_Nil)

lemma arc_number_decimal:
  "is_safe_integer (arc_number s) \<Longrightarrow> nat (integer_value (arc_number s)) = read_decimal s"
  by (auto simp: arc_number_def is_safe_integer_def split: if_splits)

section \<open>Properties\<close>

text \<open>C29: What \<open>element\<close> writes is exactly what a strict reader of DER accepts: the reader returns a tag and
  a value just when the bytes are the element the code writes for them, followed by the rest. So the
  length is in the shortest form and no other bytes read as the same element.\<close>

theorem element_exact:
  assumes "length bs \<le> max_safe_integer"
  shows "read_element w = Some (tag, bs, rest) \<longleftrightarrow> (\<exists>v. element tag bs = Inr v \<and> w = v @ rest)"
  using written_read_element [OF _ assms] read_written_element by blast

theorem element_exact_witness:
  "read_element ([0x04, 0x03, 1, 2, 3] @ [9]) = Some (0x04, [1, 2, 3], [9])"
  using element_exact [of "[1, 2, 3]" "[0x04, 0x03, 1, 2, 3] @ [9]" "0x04" "[9]"]
  by (simp add: element_def encodeLength_def is_safe_integer_def max_safe_integer_def)

text \<open>An integer keeps its value and is written as a positive number in two's complement with no byte too
  many, whatever leading zeros the given bytes have.\<close>

theorem integer_minimal:
  assumes "bs \<noteq> []" and "integer bs = Inr w"
  shows "\<exists>content. read_element w = Some (0x02, content, []) \<and> be_val content = be_val bs \<and> minimal_positive content"
  using read_written_element [of "0x02" "integer_content bs" w "[]"] assms integer_content_val integer_content_minimal
  by (auto simp: integer_def)

theorem integer_minimal_witness:
  "\<exists>content. read_element [0x02, 0x02, 0, 0x80] = Some (0x02, content, []) \<and> be_val content = be_val [0, 0, 0x80]
     \<and> minimal_positive content"
  using integer_minimal [of "[0, 0, 0x80]" "[0x02, 0x02, 0, 0x80]"]
  by (simp add: integer_def integer_content_def element_def encodeLength_def is_safe_integer_def max_safe_integer_def)

text \<open>An object identifier reads back as the arcs of its dotted form, the first two in one number.\<close>

theorem objectIdentifier_arcs:
  assumes "objectIdentifier identifier = Inr w"
  shows "(let arcs = map read_decimal (split_on (CHR ''.'') identifier)
    in \<exists>content. read_element w = Some (0x06, content, [])
         \<and> read_arcs (length content) content = Some ((arcs ! 0 * 40 + arcs ! 1) # drop 2 arcs)
         \<and> arcs ! 0 \<le> 2 \<and> (if arcs ! 0 < 2 then arcs ! 1 < 40 else True))"
proof -
  let ?parts = "split_on (CHR ''.'') identifier"
  let ?nums = "map arc_number ?parts"
  let ?arcs = "map read_decimal ?parts"
  have two: "2 \<le> length ?parts" and all: "list_all (\<lambda>a. is_safe_integer a \<and> 0 \<le> integer_value a) ?nums"
    and first: "nat (integer_value (?nums ! 0)) \<le> 2"
      "nat (integer_value (?nums ! 0)) < 2 \<Longrightarrow> nat (integer_value (?nums ! 1)) < 40"
    and w: "element 0x06 (concat (encodeBase128 (nat (integer_value (?nums ! 0)) * 40 + nat (integer_value (?nums ! 1)))
      # map (\<lambda>a. encodeBase128 (nat (integer_value a))) (drop 2 ?nums))) = Inr w"
    using assms unfolding objectIdentifier_def Let_def by (auto split: if_splits)
  have safe: "is_safe_integer (arc_number s)" if "s \<in> set ?parts" for s
    using all that by (simp add: list_all_iff)
  have value_at: "nat (integer_value (?nums ! i)) = ?arcs ! i" if "i < length ?parts" for i
    using that by (simp add: arc_number_decimal safe)
  have ends: "map (\<lambda>a. encodeBase128 (nat (integer_value a))) (drop 2 ?nums) = map encodeBase128 (drop 2 ?arcs)"
    using safe by (auto simp: drop_map arc_number_decimal dest: in_set_dropD)
  let ?all = "(?arcs ! 0 * 40 + ?arcs ! 1) # drop 2 ?arcs"
  have at: "nat (integer_value (?nums ! 0)) = ?arcs ! 0" "nat (integer_value (?nums ! 1)) = ?arcs ! 1"
    using value_at [of 0] value_at [of 1] two by linarith+
  have "element 0x06 (concat (map encodeBase128 ?all)) = Inr w"
    using w unfolding ends at by simp
  then have "read_element w = Some (0x06, concat (map encodeBase128 ?all), [])"
    using read_written_element [of _ _ w "[]"] by simp
  moreover note arcs_content [of ?all]
  ultimately show ?thesis using first unfolding at Let_def by auto
qed

theorem objectIdentifier_arcs_witness:
  "\<exists>content. read_element [0x06, 3, 0x55, 4, 3] = Some (0x06, content, [])
     \<and> read_arcs (length content) content = Some [85, 4, 3]"
  using objectIdentifier_arcs [of "''2.5.4.3''" "[0x06, 3, 0x55, 4, 3]"]
  by (auto simp: objectIdentifier_def arc_number_def digit_def code_def read_decimal_def digit_value_def
      is_safe_integer_def max_safe_integer_def encodeBase128_def base128_groups.simps element_def encodeLength_def)

end
