(* ===== verification/Cert_Names.thy ===== *)
theory Cert_Names
  imports Der Js_Map
begin

text \<open>
  The names of a certificate in packages/dev-certificates/x509.js: \<open>assertDnsName\<close>, the parsers of IP
  addresses, \<open>names\<close> and \<open>normalizedCommonName\<close>. Addresses and DNS names are text in characters up to
  0xFF; the patterns of the code refuse any other character.
\<close>

section \<open>Definitions\<close>

text \<open>An argument that should be a string.\<close>

datatype js_text = TextValue string | OtherValue

fun includes_pair :: "char \<Rightarrow> string \<Rightarrow> bool" where
  "includes_pair c (a # b # cs) = (a = c \<and> b = c \<or> includes_pair c (b # cs))"
| "includes_pair c _ = False"

definition dns_char :: "char \<Rightarrow> bool" where
  "dns_char c \<longleftrightarrow> letter c \<or> digit c \<or> c = CHR ''.'' \<or> c = CHR ''-''"

definition starts :: "char \<Rightarrow> string \<Rightarrow> bool" where
  "starts c s \<longleftrightarrow> s \<noteq> [] \<and> hd s = c"

definition ends :: "char \<Rightarrow> string \<Rightarrow> bool" where
  "ends c s \<longleftrightarrow> s \<noteq> [] \<and> last s = c"

fun assertDnsName :: "js_text \<Rightarrow> der_error + string" where
  "assertDnsName OtherValue = Inl NotAString"
| "assertDnsName (TextValue name) =
     (if length name = 0 \<or> length name > 253 \<or> \<not> list_all dns_char name \<or> starts (CHR ''.'') name
         \<or> ends (CHR ''.'') name \<or> includes_pair (CHR ''.'') name
         \<or> list_ex (\<lambda>label. length label > 63 \<or> starts (CHR ''-'') label \<or> ends (CHR ''-'') label) (split_on (CHR ''.'') name)
      then Inl (InvalidDnsName name) else Inr (toLowerCase name))"

text \<open>The test \<open>/^(0|[1-9]\d{0,2})$/\<close>.\<close>

definition octet_pattern :: "string \<Rightarrow> bool" where
  "octet_pattern s \<longleftrightarrow> s = ''0'' \<or> (s \<noteq> [] \<and> length s \<le> 3 \<and> list_all digit s \<and> hd s \<noteq> CHR ''0'')"

definition parse_octet :: "string \<Rightarrow> string \<Rightarrow> der_error + byte" where
  "parse_octet address s =
     (if \<not> octet_pattern s then Inl (InvalidAddress address)
      else if read_decimal s > 255 then Inl (InvalidAddress address)
      else Inr (word_of_nat (read_decimal s)))"

definition parseIPv4 :: "string \<Rightarrow> der_error + bytes" where
  "parseIPv4 address =
     (let parts = split_on (CHR ''.'') address
      in if length parts \<noteq> 4 then Inl (InvalidAddress address) else map_result (parse_octet address) parts)"

type_synonym word16 = "16 word"

definition hex_digit :: "char \<Rightarrow> bool" where
  "hex_digit c \<longleftrightarrow> digit c \<or> (65 \<le> code c \<and> code c \<le> 70) \<or> (97 \<le> code c \<and> code c \<le> 102)"

definition hex_value :: "char \<Rightarrow> nat" where
  "hex_value c = (if digit c then code c - 48 else if code c \<le> 70 then code c - 55 else code c - 87)"

text \<open>\<open>Number.parseInt(token, 16)\<close> of hexadecimal digits.\<close>

definition read_hex :: "string \<Rightarrow> nat" where
  "read_hex s = foldl (\<lambda>n c. n * 16 + hex_value c) 0 s"

text \<open>The test \<open>/^[0-9A-Fa-f]{1,4}$/\<close>.\<close>

definition group_pattern :: "string \<Rightarrow> bool" where
  "group_pattern s \<longleftrightarrow> 1 \<le> length s \<and> length s \<le> 4 \<and> list_all hex_digit s"

definition pair_word :: "byte \<Rightarrow> byte \<Rightarrow> word16" where
  "pair_word a b = push_bit 8 (ucast a) OR ucast b"

text \<open>The loop over the tokens of one half; a dotted quad has to be the last of them.\<close>

fun part_words :: "string \<Rightarrow> string list \<Rightarrow> der_error + word16 list" where
  "part_words address [] = Inr []"
| "part_words address (token # tokens) =
     (if CHR ''.'' \<in> set token
      then if tokens \<noteq> [] then Inl (InvalidAddress address)
           else bind_result (parseIPv4 token) (\<lambda>q. Inr [pair_word (q ! 0) (q ! 1), pair_word (q ! 2) (q ! 3)])
      else if \<not> group_pattern token then Inl (InvalidAddress address)
      else bind_result (part_words address tokens) (\<lambda>ws. Inr (word_of_nat (read_hex token) # ws)))"

definition parseIPv6Part :: "string \<Rightarrow> string \<Rightarrow> der_error + word16 list" where
  "parseIPv6Part part address = (if part = [] then Inr [] else part_words address (split_on (CHR '':'') part))"

text \<open>\<open>address.split("::")\<close>.\<close>

fun split_pair :: "char \<Rightarrow> string \<Rightarrow> string list" where
  "split_pair c (a # b # cs) =
     (if a = c \<and> b = c then [] # split_pair c cs
      else case split_pair c (b # cs) of part # parts \<Rightarrow> (a # part) # parts | [] \<Rightarrow> [[a]])"
| "split_pair c s = [s]"

definition word_bytes :: "word16 list \<Rightarrow> bytes" where
  "word_bytes ws = concat (map (\<lambda>w. [ucast (drop_bit 8 w), ucast (w AND 0xff)]) ws)"

definition parseIPv6 :: "string \<Rightarrow> der_error + bytes" where
  "parseIPv6 address =
     (if CHR ''%'' \<in> set address then Inl (InvalidAddress address)
      else let halves = split_pair (CHR '':'') address
           in if length halves > 2 then Inl (InvalidAddress address)
              else bind_result (parseIPv6Part (halves ! 0) address) (\<lambda>left.
                   bind_result (parseIPv6Part (if length halves > 1 then halves ! 1 else []) address) (\<lambda>right.
                     let omitted = 8 - int (length left) - int (length right)
                     in if (length halves = 1 \<and> omitted \<noteq> 0) \<or> (length halves = 2 \<and> omitted < 1)
                        then Inl (InvalidAddress address)
                        else Inr (word_bytes (left @ replicate (nat omitted) 0 @ right)))))"

fun parseIpAddress :: "js_text \<Rightarrow> der_error + bytes" where
  "parseIpAddress OtherValue = Inl NotAString"
| "parseIpAddress (TextValue address) =
     (if length address = 0 then Inl (InvalidAddress address)
      else if CHR '':'' \<in> set address then parseIPv6 address else parseIPv4 address)"

text \<open>An option that should be an array.\<close>

datatype 'a js_array = NotGiven | NotAnArrayValue | ArrayOf "'a list"

definition maximum_names :: nat where
  "maximum_names = 128"

fun names :: "'a js_array \<Rightarrow> 'a list \<Rightarrow> string \<Rightarrow> der_error + 'a list" where
  "names NotGiven defaults label = Inr defaults"
| "names NotAnArrayValue defaults label = Inl (NotAnArray label)"
| "names (ArrayOf xs) defaults label = (if length xs > maximum_names then Inl (TooManyNames label) else Inr xs)"

definition containsControlCharacter :: "code_points \<Rightarrow> bool" where
  "containsControlCharacter s \<longleftrightarrow> list_ex (\<lambda>c. c \<le> 31 \<or> c = 127) s"

text \<open>\<open>None\<close> is a value that is no string.\<close>

definition normalizedCommonName :: "code_points option \<Rightarrow> der_error + code_points" where
  "normalizedCommonName v =
     (case v of
        None \<Rightarrow> Inl InvalidCommonName
      | Some s \<Rightarrow> if length s = 0 \<or> length (utf8_encode s) > 64 \<or> containsControlCharacter s
                  then Inl InvalidCommonName else Inr s)"

section \<open>Dotted quads\<close>

lemma code_inject: "code c = code d \<longleftrightarrow> c = d"
  by (simp add: code_def)

lemma code_0: "code (CHR ''0'') = 48"
  by (simp add: code_def)

lemma decimal_digit_0: "decimal_digit 0 = CHR ''0''"
  unfolding code_inject [symmetric] code_0 by simp

lemma digit_of_value: "digit c \<Longrightarrow> decimal_digit (digit_value c) = c \<and> digit_value c < 10"
  unfolding code_inject [symmetric] by (auto simp: digit_def digit_value_def)

lemma decimal_small: "n < 10 \<Longrightarrow> decimal n = [decimal_digit n]"
  by (simp add: decimal.simps)

lemma decimal_snoc: "n > 0 \<Longrightarrow> d < 10 \<Longrightarrow> decimal (n * 10 + d) = decimal n @ [decimal_digit d]"
  by (subst decimal.simps) (simp add: div_mult_self3 decimal_digit_def)

lemma read_decimal_positive: "list_all digit s \<Longrightarrow> s \<noteq> [] \<Longrightarrow> hd s \<noteq> CHR ''0'' \<Longrightarrow> 0 < read_decimal s"
proof (induction s rule: rev_induct)
  case (snoc c s)
  show ?case
  proof (cases "s = []")
    case True
    with snoc.prems have "code c \<noteq> 48" unfolding code_0 [symmetric] code_inject by simp
    then show ?thesis using True snoc.prems by (auto simp: read_decimal_def digit_value_def digit_def)
  next
    case False
    then show ?thesis using snoc by (simp add: read_decimal_snoc)
  qed
qed simp

text \<open>Digits without a leading zero are what \<open>String(n)\<close> writes.\<close>

lemma decimal_read_decimal:
  "list_all digit s \<Longrightarrow> s \<noteq> [] \<Longrightarrow> hd s \<noteq> CHR ''0'' \<Longrightarrow> decimal (read_decimal s) = s"
proof (induction s rule: rev_induct)
  case (snoc c s)
  show ?case
  proof (cases "s = []")
    case True
    then show ?thesis using snoc.prems digit_of_value [of c] by (simp add: read_decimal_def decimal_small)
  next
    case False
    then show ?thesis
      using snoc digit_of_value [of c] read_decimal_positive [of s] by (simp add: read_decimal_snoc decimal_snoc)
  qed
qed simp

lemma decimal_head: "n > 0 \<Longrightarrow> hd (decimal n) \<noteq> CHR ''0''"
proof (induction n rule: decimal.induct)
  case (1 n)
  show ?case
  proof (cases "n < 10")
    case True
    have "code (decimal_digit n) \<noteq> code (CHR ''0'')" using True 1(2) unfolding code_0 by simp
    then show ?thesis using True unfolding code_inject by (simp add: decimal_small)
  next
    case False
    then show ?thesis using 1 decimal_digits(2) [of "n div 10"] by (subst decimal.simps) simp
  qed
qed

lemma decimal_length: "n < 10 ^ Suc k \<Longrightarrow> length (decimal n) \<le> Suc k"
proof (induction k arbitrary: n)
  case (Suc k)
  then have "n div 10 < 10 ^ Suc k" by (simp add: less_mult_imp_div_less)
  then show ?case using Suc.IH [of "n div 10"] by (subst decimal.simps) simp
qed (simp add: decimal_small)

lemma octet_pattern_decimal: "n < 256 \<Longrightarrow> octet_pattern (decimal n)"
proof (cases "n = 0")
  case True
  then show ?thesis by (simp add: octet_pattern_def decimal_small decimal_digit_0)
next
  case False
  assume "n < 256"
  then show ?thesis
    using False decimal_digits [of n] decimal_head [of n] decimal_length [of n 2] by (simp add: octet_pattern_def)
qed

lemma parse_octet_Inr: "parse_octet address s = Inr b \<longleftrightarrow> s = decimal (unat b)"
proof
  assume "parse_octet address s = Inr b"
  then have p: "octet_pattern s" "read_decimal s \<le> 255" "b = word_of_nat (read_decimal s)"
    by (auto simp: parse_octet_def split: if_splits)
  have "decimal (read_decimal s) = s"
  proof (cases "s = ''0''")
    case True
    then show ?thesis by (simp add: read_decimal_def digit_value_def code_0 decimal_small decimal_digit_0)
  qed (use p decimal_read_decimal in \<open>auto simp: octet_pattern_def\<close>)
  then show "s = decimal (unat b)" using p by (simp add: unat_byte_of_nat)
next
  assume s: "s = decimal (unat b)"
  have b: "unat b < 256" by (rule unat_byte_lt)
  then have "unat b \<le> 255" by linarith
  with b show "parse_octet address s = Inr b" using octet_pattern_decimal [of "unat b"] by (simp add: s parse_octet_def read_decimal_decimal)
qed

lemma decimal_no_dot: "CHR ''.'' \<notin> set (decimal n)"
  using decimal_digits(1) [of n] by (auto simp: list_all_iff digit_def code_def)

definition dotted_quad :: "bytes \<Rightarrow> string" where
  "dotted_quad bs = join_with ''.'' (map (\<lambda>b. decimal (unat b)) bs)"

lemma parseIPv4_Inr: "parseIPv4 s = Inr bs \<longleftrightarrow> length bs = 4 \<and> s = dotted_quad bs"
proof
  let ?parts = "split_on (CHR ''.'') s"
  assume "parseIPv4 s = Inr bs"
  then have "length ?parts = 4" and "list_all2 (\<lambda>p b. p = decimal (unat b)) ?parts bs"
    by (auto simp: parseIPv4_def Let_def result_simps parse_octet_Inr split: if_splits)
  moreover from this(2) have "?parts = map (\<lambda>b. decimal (unat b)) bs"
    by (induction rule: list_all2_induct) auto
  ultimately show "length bs = 4 \<and> s = dotted_quad bs"
    unfolding dotted_quad_def using join_split_on [of "CHR ''.''" s] by (metis length_map)
next
  assume bs: "length bs = 4 \<and> s = dotted_quad bs"
  then have "map (\<lambda>b. decimal (unat b)) bs \<noteq> []" by auto
  from split_join [OF this, of "CHR ''.''"] bs have "split_on (CHR ''.'') s = map (\<lambda>b. decimal (unat b)) bs"
    by (simp add: dotted_quad_def decimal_no_dot)
  then show "parseIPv4 s = Inr bs"
    using bs by (simp add: parseIPv4_def result_simps parse_octet_Inr list_all2_map1 list.rel_refl)
qed

section \<open>IPv6 addresses\<close>

text \<open>A group as it is usually written: lower case, no leading zeros.\<close>

definition hex_char :: "nat \<Rightarrow> char" where
  "hex_char n = char_of (if n < 10 then 48 + n else 87 + n)"

fun hex :: "nat \<Rightarrow> string" where
  "hex n = (if n < 16 then [hex_char n] else hex (n div 16) @ [hex_char (n mod 16)])"

declare hex.simps [simp del]

lemma code_hex_char: "n < 16 \<Longrightarrow> code (hex_char n) = (if n < 10 then 48 + n else 87 + n)"
  by (simp add: hex_char_def)

lemma hex_char_simps: "n < 16 \<Longrightarrow> hex_value (hex_char n) = n" "n < 16 \<Longrightarrow> hex_digit (hex_char n)"
  by (auto simp: hex_value_def hex_digit_def digit_def code_hex_char)

lemma read_hex_snoc: "read_hex (s @ [c]) = read_hex s * 16 + hex_value c"
  by (simp add: read_hex_def)

lemma read_hex_hex: "read_hex (hex n) = n"
proof (induction n rule: hex.induct)
  case (1 n)
  then show ?case
    by (cases "n < 16") (simp_all add: hex.simps [of n] read_hex_snoc hex_char_simps, simp add: read_hex_def hex_char_simps)
qed

lemma hex_digits: "list_all hex_digit (hex n)" "hex n \<noteq> []"
proof (induction n rule: hex.induct)
  case (1 n)
  { case 1 then show ?case using "1.IH" by (cases "n < 16") (simp_all add: hex.simps [of n] hex_char_simps) }
  { case 2 then show ?case by (simp add: hex.simps [of n]) }
qed

lemma hex_length: "n < 16 ^ Suc k \<Longrightarrow> length (hex n) \<le> Suc k"
proof (induction k arbitrary: n)
  case (Suc k)
  then have "n div 16 < 16 ^ Suc k" by (simp add: less_mult_imp_div_less)
  then show ?case using Suc.IH [of "n div 16"] by (subst hex.simps) simp
qed (simp add: hex.simps)

lemma unat_word16_lt: "unat (w :: word16) < 65536"
  using unsigned_less [of w] by simp

lemma hex_group: "group_pattern (hex (unat (w :: word16)))"
  using hex_digits [of "unat w"] hex_length [of "unat w" 3] unat_word16_lt [of w]
  by (simp add: group_pattern_def Suc_le_eq)

lemma hex_digit_not: "hex_digit c \<Longrightarrow> c \<noteq> CHR '':'' \<and> c \<noteq> CHR ''.'' \<and> c \<noteq> CHR ''%''"
  by (auto simp: hex_digit_def digit_def code_def)

definition groups :: "word16 list \<Rightarrow> string" where
  "groups ws = join_with '':'' (map (\<lambda>w. hex (unat w)) ws)"

lemma hex_no_separator: "CHR '':'' \<notin> set (hex n)" "CHR ''.'' \<notin> set (hex n)" "CHR ''%'' \<notin> set (hex n)"
  using hex_digits(1) [of n] hex_digit_not by (auto simp: list_all_iff)

lemma part_words_hex: "part_words address (map (\<lambda>w. hex (unat w)) ws) = Inr ws"
  by (induction ws) (simp_all add: hex_no_separator hex_group read_hex_hex)

lemma groups_Nil: "groups [] = []"
  by (simp add: groups_def)

lemma groups_not_Nil: "ws \<noteq> [] \<Longrightarrow> groups ws \<noteq> []"
  using hex_digits(2) by (cases ws rule: remdups_adj.cases) (auto simp: groups_def)

lemma parse_groups: "parseIPv6Part (groups ws) address = Inr ws"
proof (cases "ws = []")
  case True
  then show ?thesis by (simp add: parseIPv6Part_def groups_Nil)
next
  case False
  then have "split_on (CHR '':'') (groups ws) = map (\<lambda>w. hex (unat w)) ws"
    unfolding groups_def by (intro split_join) (auto simp: hex_no_separator)
  then show ?thesis using groups_not_Nil [OF False] part_words_hex by (simp add: parseIPv6Part_def)
qed

lemma groups_percent: "CHR ''%'' \<notin> set (groups ws)"
proof (induction ws rule: induct_list012)
  case (3 w v ws)
  then show ?case using hex_no_separator(3) by (simp add: groups_def)
qed (simp_all add: groups_def hex_no_separator)

text \<open>Splitting at double colons: text whose parts between single colons are not empty has none.\<close>

lemma split_pair_append:
  "c \<notin> set s \<Longrightarrow> split_pair c (s @ c # c # t) = s # split_pair c t"
proof (induction s)
  case (Cons a s)
  then show ?case by (cases s) (auto split: list.split)
qed simp

lemma split_pair_none: "c \<notin> set s \<Longrightarrow> split_pair c s = [s]"
proof (induction s)
  case (Cons a s)
  then show ?case by (cases s) auto
qed simp

lemma split_pair_single:
  assumes "c \<notin> set s" and "s \<noteq> []" and "t \<noteq> []" and "hd t \<noteq> c" and "split_pair c t = p # ps"
  shows "split_pair c (s @ c # t) = (s @ c # p) # ps"
  using assms
proof (induction s)
  case (Cons a s)
  obtain b bs where t: "t = b # bs" using Cons.prems(3) by (cases t) auto
  show ?case
  proof (cases s)
    case Nil
    have "split_pair c (c # t) = (c # p) # ps" using Cons.prems t by simp
    then show ?thesis using Nil Cons.prems t by simp
  next
    case (Cons x xs)
    then show ?thesis using Cons.IH Cons.prems by auto
  qed
qed simp

lemma hd_groups: "ws \<noteq> [] \<Longrightarrow> hd (groups ws @ t) \<noteq> CHR '':''"
proof -
  assume "ws \<noteq> []"
  then obtain w vs where ws: "ws = w # vs" by (cases ws) auto
  obtain x xs where h: "hex (unat w) = x # xs" using hex_digits(2) [of "unat w"] by (cases "hex (unat w)") auto
  then have "x \<noteq> CHR '':''" using hex_no_separator(1) [of "unat w"] by auto
  then show ?thesis using ws h by (cases vs) (auto simp: groups_def)
qed

lemma groups_Cons: "vs \<noteq> [] \<Longrightarrow> groups (w # vs) = hex (unat w) @ CHR '':'' # groups vs"
  by (cases vs) (simp_all add: groups_def)

lemma split_groups:
  "split_pair (CHR '':'') (groups ws) = [groups ws]"
  "ws \<noteq> [] \<Longrightarrow> split_pair (CHR '':'') (groups ws @ ''::'' @ t) = groups ws # split_pair (CHR '':'') t"
proof (induction ws)
  case (Cons w vs)
  note h = hex_no_separator(1) [of "unat w"]
  {
    case 1
    show ?case
    proof (cases "vs = []")
      case True
      then show ?thesis using split_pair_none [OF h] by (simp add: groups_def)
    next
      case False
      then show ?thesis
        using split_pair_single [OF h hex_digits(2) groups_not_Nil [OF False] _ Cons.IH(1)] hd_groups [OF False, of "[]"]
        by (simp add: groups_Cons)
    qed
  next
    case 2
    show ?case
    proof (cases "vs = []")
      case True
      then show ?thesis using split_pair_append [OF h] by (simp add: groups_def)
    next
      case False
      then show ?thesis
        using split_pair_single [OF h hex_digits(2) _ hd_groups [OF False] Cons.IH(2) [OF False]] groups_not_Nil [OF False]
        by (simp add: groups_Cons)
    qed
  }
qed (simp_all add: groups_Nil)

lemma split_compressed:
  "split_pair (CHR '':'') (groups left @ ''::'' @ groups right) = [groups left, groups right]"
  using split_groups(2) [of left "groups right"] split_groups(1) [of right] by (cases "left = []") (simp_all add: groups_Nil)

lemma length_word_bytes: "length (word_bytes ws) = 2 * length ws"
  by (induction ws) (simp_all add: word_bytes_def)

lemma percent_compressed: "CHR ''%'' \<notin> set (groups left @ ''::'' @ groups right)"
  using groups_percent by simp

lemma parse_full_address: "length ws = 8 \<Longrightarrow> parseIPv6 (groups ws) = Inr (word_bytes ws)"
  by (simp add: parseIPv6_def groups_percent split_groups parse_groups Let_def) (simp add: parseIPv6Part_def)

lemma parse_compressed_address:
  assumes "length left + length right < 8"
  shows "parseIPv6 (groups left @ ''::'' @ groups right)
    = Inr (word_bytes (left @ replicate (8 - length left - length right) 0 @ right))"
proof -
  have "nat (8 - int (length left) - int (length right)) = 8 - length left - length right" by linarith
  then show ?thesis
    using assms percent_compressed [of left right] split_compressed [of left right]
    by (simp add: parseIPv6_def parse_groups Let_def)
qed

lemma address_length: "case parseIPv6 s of Inl _ \<Rightarrow> True | Inr bs \<Rightarrow> length bs = 16"
proof (cases "parseIPv6 s")
  case (Inr bs)
  have "split_pair (CHR '':'') s \<noteq> []"
    by (induction "CHR '':''" s rule: split_pair.induct) (auto split: list.split)
  then have "0 < length (split_pair (CHR '':'') s)" by simp
  then have "length (split_pair (CHR '':'') s) = 1 \<or> length (split_pair (CHR '':'') s) = 2 \<or> length (split_pair (CHR '':'') s) > 2"
    by linarith
  then show ?thesis using Inr
    by (auto simp: parseIPv6_def result_simps length_word_bytes Let_def split: if_splits)
qed simp

section \<open>DNS names\<close>

lemma empty_label:
  "hd (split_on c s) = [] \<longleftrightarrow> s = [] \<or> hd s = c"
  "[] \<in> set (tl (split_on c s)) \<longleftrightarrow> ends c s \<or> includes_pair c s"
proof (induction s)
  case (Cons a s)
  obtain p ps where ps: "split_on c s = p # ps" by (cases "split_on c s") auto
  { case 1 show ?case using ps by simp }
  { case 2
    have first: "includes_pair c (a # s) \<longleftrightarrow> (a = c \<and> starts c s) \<or> includes_pair c s"
      by (cases s) (auto simp: starts_def)
    show ?case
    proof (cases "a = c")
      case True
      have "[] \<in> set (split_on c s) \<longleftrightarrow> hd (split_on c s) = [] \<or> [] \<in> set (tl (split_on c s))"
        using ps by auto
      then show ?thesis using Cons.IH True first by (auto simp: ends_def starts_def)
    next
      case False
      then show ?thesis using Cons.IH(2) ps first by (auto simp: ends_def)
    qed }
qed (simp_all add: ends_def)

text \<open>A label of a host name.\<close>

definition label_ok :: "string \<Rightarrow> bool" where
  "label_ok l \<longleftrightarrow> l \<noteq> [] \<and> length l \<le> 63 \<and> list_all (\<lambda>c. letter c \<or> digit c \<or> c = CHR ''-'') l
     \<and> hd l \<noteq> CHR ''-'' \<and> last l \<noteq> CHR ''-''"

lemma labels_chars:
  "list_all dns_char s \<longleftrightarrow> list_all (list_all (\<lambda>c. letter c \<or> digit c \<or> c = CHR ''-'')) (split_on (CHR ''.'') s)"
proof (induction s)
  case (Cons c s)
  obtain p ps where "split_on (CHR ''.'') s = p # ps" by (cases "split_on (CHR ''.'') s") auto
  then show ?case using Cons by (auto simp: dns_char_def)
qed simp

lemma labels_not_empty:
  "[] \<notin> set (split_on c s) \<longleftrightarrow> s \<noteq> [] \<and> \<not> starts c s \<and> \<not> ends c s \<and> \<not> includes_pair c s"
proof -
  have "[] \<in> set (split_on c s) \<longleftrightarrow> hd (split_on c s) = [] \<or> [] \<in> set (tl (split_on c s))"
    by (cases "split_on c s") auto
  then show ?thesis using empty_label [of c s] by (auto simp: starts_def)
qed

lemma list_all_split:
  "list_all (\<lambda>l. l \<noteq> [] \<and> P l \<and> \<not> Q l) ls \<longleftrightarrow> [] \<notin> set ls \<and> list_all P ls \<and> \<not> list_ex Q ls"
  by (induction ls) auto

lemma assertDnsName_Inr:
  "assertDnsName (TextValue s) = Inr t \<longleftrightarrow>
     t = toLowerCase s \<and> length s \<le> 253 \<and> list_all label_ok (split_on (CHR ''.'') s)"
proof -
  let ?ls = "split_on (CHR ''.'') s"
  let ?bad = "\<lambda>l. length l > 63 \<or> starts (CHR ''-'') l \<or> ends (CHR ''-'') l"
  have ok: "label_ok = (\<lambda>l. l \<noteq> [] \<and> list_all (\<lambda>c. letter c \<or> digit c \<or> c = CHR ''-'') l \<and> \<not> ?bad l)"
    by (rule ext) (auto simp: label_ok_def starts_def ends_def)
  have all: "list_all label_ok ?ls \<longleftrightarrow> [] \<notin> set ?ls \<and> list_all dns_char s \<and> \<not> list_ex ?bad ?ls"
    unfolding labels_chars ok by (rule list_all_split)
  have choice: "(if c then Inl e else Inr x) = Inr t \<longleftrightarrow> \<not> c \<and> t = x" for c and e :: der_error and x by auto
  show ?thesis
    unfolding all labels_not_empty assertDnsName.simps choice de_Morgan_disj not_less length_0_conv by blast
qed

section \<open>Properties\<close>

text \<open>C28: \<open>parseIPv4\<close> accepts exactly the dotted quads: four decimal numbers up to 255 without leading
  zeros, and it returns these numbers.\<close>

theorem parseIPv4_exact:
  "parseIPv4 s = Inr bs \<longleftrightarrow> length bs = 4 \<and> s = join_with ''.'' (map (\<lambda>b. decimal (unat b)) bs)"
  using parseIPv4_Inr [of s bs] by (simp add: dotted_quad_def)

text \<open>An IPv6 address written as eight groups, or as fewer groups around a double colon, is read as
  these groups in network order with zeros in the place of the double colon; whatever is read has
  sixteen bytes.\<close>

theorem parseIPv6_forms:
  assumes "length ws = 8" and "length left + length right < 8"
  shows "parseIPv6 (groups ws) = Inr (word_bytes ws)
    \<and> parseIPv6 (groups left @ ''::'' @ groups right)
      = Inr (word_bytes (left @ replicate (8 - length left - length right) 0 @ right))
    \<and> (case parseIPv6 s of Inl _ \<Rightarrow> True | Inr bs \<Rightarrow> length bs = 16)"
  using parse_full_address [OF assms(1)] parse_compressed_address [OF assms(2)] address_length by blast

theorem parseIPv6_forms_witness:
  "parseIPv6 (''20::1'') = Inr [0, 0x20, 0, 0, 0, 0, 0, 0, 0, 0, 0, 0, 0, 0, 0, 1]"
proof -
  have "groups [0x20] @ ''::'' @ groups [1] = ''20::1''" by code_simp
  with parseIPv6_forms [of "replicate 8 0" "[0x20]" "[1]"] show ?thesis by (simp add: word_bytes_def) code_simp
qed

text \<open>A DNS name is accepted exactly when it has at most 253 characters and every label between its dots
  has 1 to 63 letters, digits and hyphens and neither starts nor ends with a hyphen; it comes back in
  lower case.\<close>

theorem dns_name_exact:
  "assertDnsName (TextValue s) = Inr t \<longleftrightarrow>
     t = toLowerCase s \<and> length s \<le> 253
     \<and> list_all (\<lambda>l. l \<noteq> [] \<and> length l \<le> 63 \<and> list_all (\<lambda>c. letter c \<or> digit c \<or> c = CHR ''-'') l
                     \<and> hd l \<noteq> CHR ''-'' \<and> last l \<noteq> CHR ''-'') (split_on (CHR ''.'') s)"
  using assertDnsName_Inr [of s t] by (simp add: label_ok_def [abs_def])

text \<open>A dotted quad in front of a double colon is accepted, although RFC 4291 allows one only as the end
  of an address.\<close>

theorem quad_in_front_accepted:
  "parseIPv6 ''1.2.3.4::5'' = Inr [1, 2, 3, 4, 0, 0, 0, 0, 0, 0, 0, 0, 0, 0, 0, 5]"
  by code_simp

end
