(* ===== verification/Certificate.thy ===== *)
theory Certificate
  imports Cert_Names
begin

text \<open>
  Certificates: \<open>pem\<close>, \<open>ecdsaSignature\<close>, \<open>distinguishedName\<close> and \<open>createCertificate\<close> of
  packages/dev-certificates/x509.js, \<open>createDevelopmentCertificate\<close> of index.js and
  \<open>createDevelopmentCertificateChain\<close> of trusted.js. The Web Crypto API (key generation, random
  bytes, signatures, digests) is a parameter, the clock as well; times are milliseconds since 1970.
\<close>

section \<open>PEM\<close>

text \<open>\<open>btoa\<close> of the standard library, on bytes.\<close>

definition base64_digit :: "nat \<Rightarrow> char" where
  "base64_digit n =
     char_of (if n < 26 then 65 + n else if n < 52 then 71 + n else if n < 62 then n - 4 else if n = 62 then 43 else 47)"

fun base64 :: "bytes \<Rightarrow> string" where
  "base64 [] = []"
| "base64 [a] = [base64_digit (unat a div 4), base64_digit (unat a mod 4 * 16), CHR ''='', CHR ''='']"
| "base64 [a, b] =
     [base64_digit (unat a div 4), base64_digit (unat a mod 4 * 16 + unat b div 16),
      base64_digit (unat b mod 16 * 4), CHR ''='']"
| "base64 (a # b # c # bs) =
     base64_digit (unat a div 4) # base64_digit (unat a mod 4 * 16 + unat b div 16)
     # base64_digit (unat b mod 16 * 4 + unat c div 64) # base64_digit (unat c mod 64) # base64 bs"

text \<open>Pieces of \<open>k\<close> elements, as the loop over \<open>subarray\<close> and the match of \<open>/.{1,64}/g\<close> give them.\<close>

function slices :: "nat \<Rightarrow> 'a list \<Rightarrow> 'a list list" where
  "slices k xs = (if xs = [] \<or> k = 0 then [] else take k xs # slices k (drop k xs))"
  by pat_completeness auto
termination by (relation "measure (length \<circ> snd)") auto

declare slices.simps [simp del]

definition newline :: string where
  "newline = [CHR 0x0A]"

definition pem :: "string \<Rightarrow> bytes \<Rightarrow> string" where
  "pem label bs =
     (let binary = concat (slices 0x8000 bs);
          lines = slices 64 (base64 binary)
      in ''-----BEGIN '' @ label @ ''-----'' @ newline @ join_with newline lines @ newline
         @ ''-----END '' @ label @ ''-----'' @ newline)"

section \<open>Dates\<close>

definition day_ms :: int where
  "day_ms = 24 * 60 * 60 * 1000"

definition clock_skew :: int where
  "clock_skew = 5 * 60 * 1000"

text \<open>The UTC fields of a \<open>Date\<close> in the Gregorian calendar, from the day of its era of 400 years that
  starts on the first of March; years before 0 count as 0.\<close>

definition year_of_era :: "int \<Rightarrow> int" where
  "year_of_era d = (d - d div 1460 + d div 36524 - d div 146096) div 365"

definition day_of_year :: "int \<Rightarrow> int" where
  "day_of_year d = d - (365 * year_of_era d + year_of_era d div 4 - year_of_era d div 100)"

definition month_of_year :: "int \<Rightarrow> int" where
  "month_of_year d = (5 * day_of_year d + 2) div 153"

definition utc_fields :: "int \<Rightarrow> utc_date" where
  "utc_fields t =
     (let days = t div 86400000 + 719468; secs = t mod 86400000 div 1000; d = days mod 146097;
          month = (if month_of_year d < 10 then month_of_year d + 3 else month_of_year d - 9)
      in \<lparr>d_year = nat (year_of_era d + days div 146097 * 400 + (if month \<le> 2 then 1 else 0)), d_month = nat month,
          d_day = nat (day_of_year d - (153 * month_of_year d + 2) div 5 + 1), d_hours = nat (secs div 3600),
          d_minutes = nat (secs div 60 mod 60), d_seconds = nat (secs mod 60)\<rparr>)"

section \<open>Certificates\<close>

definition ecdsaSignature :: "bytes \<Rightarrow> der" where
  "ecdsaSignature raw =
     (if length raw \<noteq> 64 then Inl (WrongSignatureLength (length raw))
      else sequence [integer (take 32 raw), integer (drop 32 raw)])"

definition distinguishedName :: "code_points \<Rightarrow> der" where
  "distinguishedName commonName = sequence [set_of [sequence [objectIdentifier ''2.5.4.3'', utf8String commonName]]]"

text \<open>The property \<open>now\<close>: absent, an invalid \<open>Date\<close>, or a time.\<close>

datatype given_date = NoDate | InvalidDate | DateAt int

record certificate_options =
  o_authority :: bool
  o_dnsNames :: "js_text js_array"
  o_ipAddresses :: "js_text js_array"
  o_commonName :: "code_points option option"
  o_issuerCommonName :: "code_points option option"
  o_validityDays :: js_number
  o_maximumValidityDays :: int
  o_now :: given_date
  o_signingKey :: "nat option"

text \<open>What the Web Crypto API returns in one call of \<open>createCertificate\<close>; keys are numbers.\<close>

record crypto =
  generated_key :: nat
  spki :: bytes
  pkcs8 :: bytes
  random_serial :: bytes
  sign :: "nat \<Rightarrow> bytes \<Rightarrow> bytes"

record certificate =
  certificateDER :: bytes
  certificatePEM :: string
  privateKey :: nat
  privateKeyPEM :: string
  privateKeyPKCS8 :: bytes
  validFrom :: int
  validTo :: int

definition serial_number :: "bytes \<Rightarrow> bytes" where
  "serial_number random =
     (case random of
        [] \<Rightarrow> []
      | b # bs \<Rightarrow> let a = b AND 0x7f in (if a = 0 then 1 else a) # bs)"

definition text_points :: "string \<Rightarrow> code_points" where
  "text_points s = map code s"

text \<open>\<open>options.commonName ?? dnsNames[0] ?? ipAddresses[0]\<close>.\<close>

definition chosen_name :: "code_points option option \<Rightarrow> string list \<Rightarrow> js_text list \<Rightarrow> code_points option" where
  "chosen_name v dns ips =
     (case v of
        Some name \<Rightarrow> name
      | None \<Rightarrow> (case dns of
          d # _ \<Rightarrow> Some (text_points d)
        | [] \<Rightarrow> (case ips of TextValue s # _ \<Rightarrow> Some (text_points s) | _ \<Rightarrow> None)))"

definition subject_alt_name :: "string list \<Rightarrow> bytes list \<Rightarrow> der" where
  "subject_alt_name dns ips = sequence (map (\<lambda>d. element 0x82 (ascii d)) dns @ map (element 0x87) ips)"

definition certificate_extensions :: "bool \<Rightarrow> string list \<Rightarrow> bytes list \<Rightarrow> der" where
  "certificate_extensions authority dns ips =
     (if authority
      then sequence [extension ''2.5.29.19'' (sequence [boolean True]) True,
                     extension ''2.5.29.15'' (bitString [0x06] 1) True]
      else sequence [extension ''2.5.29.17'' (subject_alt_name dns ips) False,
                     extension ''2.5.29.19'' (sequence []) True,
                     extension ''2.5.29.15'' (bitString [0x80] 7) True,
                     extension ''2.5.29.37'' (sequence [objectIdentifier ''1.3.6.1.5.5.7.3.1'']) False])"

text \<open>The names of a certificate: normalised DNS names, IP addresses, and their encodings.\<close>

definition certificate_names :: "certificate_options \<Rightarrow> der_error + string list \<times> js_text list \<times> bytes list" where
  "certificate_names o' =
     bind_result
       (if o_authority o' then Inr []
        else bind_result (names (o_dnsNames o') [TextValue ''localhost''] ''dnsNames'')
               (\<lambda>ns. bind_result (map_result assertDnsName ns) (\<lambda>ds. Inr (unique ds))))
       (\<lambda>dns. bind_result
          (if o_authority o' then Inr []
           else bind_result (names (o_ipAddresses o') [TextValue ''127.0.0.1'', TextValue ''::1''] ''ipAddresses'')
                  (\<lambda>ns. Inr (unique ns)))
          (\<lambda>ips.
             if length dns + length ips > maximum_names then Inl (TooManyNames ''names'')
             else bind_result (map_result parseIpAddress ips) (\<lambda>encoded.
               if \<not> o_authority o' \<and> length dns + length ips = 0 then Inl NamesRequired
               else Inr (dns, ips, encoded))))"

definition floor_second :: "int \<Rightarrow> int" where
  "floor_second t = t div 1000 * 1000"

definition signature_algorithm :: der where
  "signature_algorithm = sequence [objectIdentifier ''1.2.840.10045.4.3.2'']"

definition tbs_certificate ::
  "crypto \<Rightarrow> bytes \<Rightarrow> bytes \<Rightarrow> code_points \<Rightarrow> code_points \<Rightarrow> int \<Rightarrow> int \<Rightarrow> der" where
  "tbs_certificate c algorithm exts issuer subject from until =
     sequence [bind_result (integer [2]) (element 0xa0), integer (serial_number (random_serial c)), Inr algorithm,
       distinguishedName issuer, sequence [utcTime (utc_fields from), utcTime (utc_fields until)],
       distinguishedName subject, Inr (spki c), element 0xa3 exts]"

text \<open>From the extensions to the result; \<open>key\<close> is the key that signs.\<close>

definition issue_certificate ::
  "crypto \<Rightarrow> bool \<Rightarrow> string list \<Rightarrow> bytes list \<Rightarrow> code_points \<Rightarrow> code_points \<Rightarrow> nat \<Rightarrow> int \<Rightarrow> int \<Rightarrow> der_error + certificate" where
  "issue_certificate c authority dns encoded issuer subject key from until =
     bind_result signature_algorithm (\<lambda>algorithm.
     bind_result (certificate_extensions authority dns encoded) (\<lambda>exts.
     bind_result (tbs_certificate c algorithm exts issuer subject from until) (\<lambda>tbs.
     bind_result (bind_result (ecdsaSignature (sign c key tbs)) (\<lambda>s. bitString s 0)) (\<lambda>signature.
     bind_result (sequence [Inr tbs, Inr algorithm, Inr signature]) (\<lambda>der_bytes.
     Inr \<lparr>certificateDER = der_bytes, certificatePEM = pem ''CERTIFICATE'' der_bytes,
          privateKey = generated_key c, privateKeyPEM = pem ''PRIVATE KEY'' (pkcs8 c),
          privateKeyPKCS8 = pkcs8 c, validFrom = from, validTo = until\<rparr>)))))"

definition createCertificate :: "crypto \<Rightarrow> int \<Rightarrow> certificate_options \<Rightarrow> der_error + certificate" where
  "createCertificate c clock o' =
     bind_result (certificate_names o') (\<lambda>(dns, ips, encoded).
     bind_result (normalizedCommonName (chosen_name (o_commonName o') dns ips)) (\<lambda>subject.
     bind_result (normalizedCommonName (case o_issuerCommonName o' of None \<Rightarrow> Some subject | Some v \<Rightarrow> v)) (\<lambda>issuer.
     let days = o_validityDays o';
         now = (case o_now o' of DateAt t \<Rightarrow> t | _ \<Rightarrow> clock)
     in if \<not> is_integer days \<or> integer_value days < 1 \<or> integer_value days > o_maximumValidityDays o'
        then Inl InvalidValidity
        else if o_now o' = InvalidDate then Inl InvalidNow
        else issue_certificate c (o_authority o') dns encoded issuer subject
               (case o_signingKey o' of None \<Rightarrow> generated_key c | Some k \<Rightarrow> k)
               (floor_second (now - clock_skew)) (floor_second (now + integer_value days * day_ms)))))"

text \<open>\<open>createDevelopmentCertificate\<close>: \<open>validityDays\<close> is 10 unless it is given; the digest is a
  parameter.\<close>

record development_certificate =
  dc_certificate :: certificate
  dc_certificateHash :: bytes
  dc_serverCertificateHashes :: "(string \<times> bytes) list"

definition createDevelopmentCertificate ::
  "crypto \<Rightarrow> (bytes \<Rightarrow> bytes) \<Rightarrow> int \<Rightarrow> js_number option \<Rightarrow> certificate_options \<Rightarrow> der_error + development_certificate" where
  "createDevelopmentCertificate c sha256 clock days o' =
     bind_result
       (createCertificate c clock (o'\<lparr>o_maximumValidityDays := 13,
          o_validityDays := (case days of None \<Rightarrow> IntegerNumber 10 | Some n \<Rightarrow> n)\<rparr>))
       (\<lambda>g. Inr \<lparr>dc_certificate = g, dc_certificateHash = sha256 (certificateDER g),
                dc_serverCertificateHashes = [(''sha-256'', sha256 (certificateDER g))]\<rparr>)"

text \<open>\<open>createDevelopmentCertificateChain\<close>: an authority, and a certificate it signs. \<open>c1\<close> and \<open>c2\<close> are
  the answers of the crypto API for the two, \<open>clock1\<close> and \<open>clock2\<close> the times of the calls.\<close>

record certificate_chain =
  ch_authorityPEM :: string
  ch_certificatePEM :: string
  ch_privateKeyPEM :: string
  ch_validFrom :: int
  ch_validTo :: int

definition createDevelopmentCertificateChain ::
  "crypto \<Rightarrow> crypto \<Rightarrow> int \<Rightarrow> int \<Rightarrow> code_points option option \<Rightarrow> js_number option \<Rightarrow> certificate_options
    \<Rightarrow> der_error + certificate_chain" where
  "createDevelopmentCertificateChain c1 c2 clock1 clock2 authorityName days o' =
     (let authority_name = (case authorityName of None \<Rightarrow> Some (text_points ''http3-server development CA'') | Some v \<Rightarrow> v);
          validity = (case days of None \<Rightarrow> IntegerNumber 365 | Some n \<Rightarrow> n)
      in bind_result (createCertificate c1 clock1
           \<lparr>o_authority = True, o_dnsNames = NotGiven, o_ipAddresses = NotGiven, o_commonName = Some authority_name,
            o_issuerCommonName = None, o_validityDays = validity, o_maximumValidityDays = 397, o_now = o_now o',
            o_signingKey = None\<rparr>) (\<lambda>authority.
         bind_result (createCertificate c2 clock2
           \<lparr>o_authority = False, o_dnsNames = o_dnsNames o', o_ipAddresses = o_ipAddresses o',
            o_commonName = o_commonName o', o_issuerCommonName = Some authority_name, o_validityDays = validity,
            o_maximumValidityDays = 397, o_now = o_now o', o_signingKey = Some (privateKey authority)\<rparr>) (\<lambda>server.
         Inr \<lparr>ch_authorityPEM = certificatePEM authority, ch_certificatePEM = certificatePEM server @ certificatePEM authority,
              ch_privateKeyPEM = privateKeyPEM server, ch_validFrom = validFrom server, ch_validTo = validTo server\<rparr>)))"

section \<open>PEM is read back\<close>

definition base64_value :: "char \<Rightarrow> nat" where
  "base64_value c =
     (let n = code c
      in if 65 \<le> n \<and> n \<le> 90 then n - 65 else if 97 \<le> n \<and> n \<le> 122 then n - 71
         else if 48 \<le> n \<and> n \<le> 57 then n + 4 else if n = 43 then 62 else 63)"

fun unbase64 :: "string \<Rightarrow> bytes" where
  "unbase64 (p # q # r # s # cs) =
     (let b1 = word_of_nat (base64_value p * 4 + base64_value q div 16);
          b2 = word_of_nat (base64_value q mod 16 * 16 + base64_value r div 4);
          b3 = word_of_nat (base64_value r mod 4 * 64 + base64_value s)
      in if r = CHR ''='' then [b1] else if s = CHR ''='' then [b1, b2] else b1 # b2 # b3 # unbase64 cs)"
| "unbase64 _ = []"

definition read_pem :: "string \<Rightarrow> string \<Rightarrow> bytes option" where
  "read_pem label s =
     (case split_on (CHR 0x0A) s of
        [] \<Rightarrow> None
      | first # rest \<Rightarrow>
          let n = length rest - 2
          in if first = ''-----BEGIN '' @ label @ ''-----'' \<and> 2 \<le> length rest
                \<and> drop n rest = [''-----END '' @ label @ ''-----'', []] \<and> list_all (\<lambda>l. length l \<le> 64) (take n rest)
             then Some (unbase64 (concat (take n rest))) else None)"

lemma code_base64_digit:
  "n < 64 \<Longrightarrow> code (base64_digit n) =
     (if n < 26 then 65 + n else if n < 52 then 71 + n else if n < 62 then n - 4 else if n = 62 then 43 else 47)"
  by (simp add: base64_digit_def)

lemma base64_digit_value [simp]: "n < 64 \<Longrightarrow> base64_value (base64_digit n) = n"
  by (auto simp: base64_value_def code_base64_digit Let_def)

lemma base64_digit_other [simp]: "n < 64 \<Longrightarrow> base64_digit n \<noteq> CHR ''=''" "n < 64 \<Longrightarrow> base64_digit n \<noteq> CHR 0x0A"
  unfolding code_inject [symmetric] by (auto simp: code_base64_digit) (auto simp: code_def)

lemma first_byte_back: "unat a div 4 * 4 + (unat a mod 4 * 16 + unat b div 16) div 16 = unat (a :: byte)" for b :: byte
proof -
  have "unat b div 16 < 16" using unat_byte_lt [of b] by (simp add: less_mult_imp_div_less)
  then have "(unat a mod 4 * 16 + unat b div 16) div 16 = unat a mod 4" by (simp add: div_eq_0_iff)
  then show ?thesis by simp
qed

lemma group_bounds:
  "unat (a :: byte) div 4 < 64" "unat a mod 4 * 16 < 64" "unat a mod 4 * 16 + unat (b :: byte) div 16 < 64"
  "unat b mod 16 * 4 < 64" "unat b mod 16 * 4 + unat (c :: byte) div 64 < 64" "unat c mod 64 < 64"
proof -
  have u: "unat a < 256" "unat b < 256" "unat c < 256" by (rule unat_byte_lt)+
  from u show "unat a div 4 < 64" by (simp add: less_mult_imp_div_less)
  have "unat a mod 4 \<le> 3" and "unat b mod 16 \<le> 15" and "unat b div 16 < 16" and "unat c div 64 < 4"
    using u by (simp_all add: less_mult_imp_div_less less_Suc_eq_le [symmetric])
  then show "unat a mod 4 * 16 < 64" "unat a mod 4 * 16 + unat b div 16 < 64" "unat b mod 16 * 4 < 64"
    "unat b mod 16 * 4 + unat c div 64 < 64" by linarith+
  show "unat c mod 64 < 64" by simp
qed

lemma unbase64_base64: "unbase64 (base64 bs) = bs"
proof (induction bs rule: base64.induct)
  case (2 a)
  have "unat a div 4 * 4 + unat a mod 4 * 16 div 16 = unat a" by simp
  then show ?case by (simp add: Let_def group_bounds)
next
  case (3 a b)
  have "(unat a mod 4 * 16 + unat b div 16) mod 16 * 16 + unat b mod 16 * 4 div 4 = unat b"
    using unat_byte_lt [of b] by (simp add: less_mult_imp_div_less)
  then show ?case using first_byte_back [of a b] by (simp add: Let_def group_bounds)
next
  case (4 a b c bs)
  have d: "unat b div 16 < 16" "unat c div 64 < 4" using unat_byte_lt [of b] unat_byte_lt [of c] by (simp_all add: less_mult_imp_div_less)
  have "(unat a mod 4 * 16 + unat b div 16) mod 16 * 16 + (unat b mod 16 * 4 + unat c div 64) div 4 = unat b"
    using d by simp
  moreover have "(unat b mod 16 * 4 + unat c div 64) mod 4 * 64 + unat c mod 64 = unat c"
    using d by simp
  ultimately show ?case using first_byte_back [of a b] 4 by (simp add: Let_def group_bounds)
qed simp

lemma base64_no_newline: "CHR 0x0A \<notin> set (base64 bs)"
proof (induction bs rule: base64.induct)
  case (2 a)
  then show ?case using base64_digit_other(2) [THEN not_sym] by (simp add: group_bounds)
next
  case (3 a b)
  then show ?case using base64_digit_other(2) [THEN not_sym] by (simp add: group_bounds)
next
  case (4 a b c bs)
  then show ?case using base64_digit_other(2) [THEN not_sym] by (simp add: group_bounds)
qed simp

lemma concat_slices: "k > 0 \<Longrightarrow> concat (slices k xs) = xs"
proof (induction k xs rule: slices.induct)
  case (1 k xs)
  then show ?case by (subst slices.simps) auto
qed

lemma slices_short: "s \<in> set (slices k xs) \<Longrightarrow> length s \<le> k \<and> set s \<subseteq> set xs"
proof (induction k xs rule: slices.induct)
  case (1 k xs)
  show ?case
  proof (cases "xs = [] \<or> k = 0")
    case True
    then show ?thesis using "1.prems" by (simp add: slices.simps)
  next
    case False
    then have "s = take k xs \<or> s \<in> set (slices k (drop k xs))" using "1.prems" by (subst (asm) slices.simps) simp
    then show ?thesis using "1.IH" [OF False] by (auto dest: in_set_takeD in_set_dropD)
  qed
qed

lemma join_append: "xs \<noteq> [] \<Longrightarrow> ys \<noteq> [] \<Longrightarrow> join_with sep (xs @ ys) = join_with sep xs @ sep @ join_with sep ys"
proof (induction xs rule: induct_list012)
  case (2 x)
  then show ?case by (cases ys) simp_all
qed simp_all

lemma read_pem_pem:
  assumes "CHR 0x0A \<notin> set label"
  shows "read_pem label (pem label bs) = Some bs"
proof -
  let ?B = "''-----BEGIN '' @ label @ ''-----''" and ?E = "''-----END '' @ label @ ''-----''"
  define ls where "ls = slices 64 (base64 bs)"
  define body where "body = (if ls = [] then [[]] else ls)"
  have short: "length l \<le> 64 \<and> CHR 0x0A \<notin> set l" if "l \<in> set body" for l
    using that slices_short [of l 64 "base64 bs"] base64_no_newline by (auto simp: body_def ls_def split: if_splits)
  have body: "concat body = base64 bs" "body \<noteq> []" "join_with newline ls = join_with newline body"
    using concat_slices [of 64 "base64 bs"] by (auto simp: body_def ls_def)
  have "pem label bs = join_with newline ([?B] @ body @ [?E, []])"
    using join_append [of "[?B]" "body @ [?E, []]" newline] join_append [of body "[?E, []]" newline] body(2,3)
    by (simp add: pem_def ls_def concat_slices Let_def)
  moreover have "\<forall>l \<in> set ([?B] @ body @ [?E, []]). CHR 0x0A \<notin> set l" using assms short by auto
  ultimately have "split_on (CHR 0x0A) (pem label bs) = [?B] @ body @ [?E, []]"
    using split_join [of "[?B] @ body @ [?E, []]" "CHR 0x0A"] by (simp add: newline_def)
  then show ?thesis using short body(1) by (simp add: read_pem_def unbase64_base64 list_all_iff)
qed

section \<open>The parts of a certificate\<close>

lemma sequence_Inr:
  "sequence ps = Inr w \<longleftrightarrow> (\<exists>ws. list_all2 (\<lambda>p v. p = Inr v) ps ws \<and> element 0x30 (concat ws) = Inr w)"
  by (auto simp: sequence_def bind_result_Inr_iff concat_der_Inr)

text \<open>A sequence of elements reads as these elements.\<close>

lemma read_sequence:
  assumes "sequence (map (\<lambda>(tag, v). element tag v) vs) = Inr w"
  shows "\<exists>content. read_element w = Some (0x30, content, []) \<and> read_elements (length vs) content = Some vs"
proof -
  obtain ws where ws: "list_all2 (\<lambda>p v. p = Inr v) (map (\<lambda>(tag, v). element tag v) vs) ws"
    and w: "element 0x30 (concat ws) = Inr w"
    using assms by (auto simp: sequence_Inr)
  have "list_all2 (\<lambda>(tag, v) w. element tag v = Inr w) vs ws"
    using ws by (auto simp: list_all2_map1 case_prod_unfold)
  then have "read_elements (length vs) (concat ws) = Some vs" by (rule read_elements_written) simp
  moreover have "read_element w = Some (0x30, concat ws, [])" using read_written_element [OF w, of "[]"] by simp
  ultimately show ?thesis by blast
qed

lemma sequence_is_element: "sequence ps = Inr w \<Longrightarrow> \<exists>content. element 0x30 content = Inr w"
  by (auto simp: sequence_Inr)

definition signing_key :: "crypto \<Rightarrow> certificate_options \<Rightarrow> nat" where
  "signing_key c o' = (case o_signingKey o' of None \<Rightarrow> generated_key c | Some k \<Rightarrow> k)"

definition time_of :: "int \<Rightarrow> certificate_options \<Rightarrow> int" where
  "time_of clock o' = (case o_now o' of DateAt t \<Rightarrow> t | _ \<Rightarrow> clock)"

lemma issue_certificate_Inr:
  assumes "issue_certificate c authority dns encoded issuer subject key from until = Inr cert"
  obtains algorithm exts tbs signature
  where "signature_algorithm = Inr algorithm" "certificate_extensions authority dns encoded = Inr exts"
    "tbs_certificate c algorithm exts issuer subject from until = Inr tbs"
    "bind_result (ecdsaSignature (sign c key tbs)) (\<lambda>s. bitString s 0) = Inr signature"
    "sequence [Inr tbs, Inr algorithm, Inr signature] = Inr (certificateDER cert)"
    "validFrom cert = from" "validTo cert = until" "certificatePEM cert = pem ''CERTIFICATE'' (certificateDER cert)"
  using assms unfolding issue_certificate_def by (auto simp only: bind_result_Inr_iff) (auto simp: bind_result_Inr_iff)

lemma createCertificate_Inr:
  assumes "createCertificate c clock o' = Inr cert"
  obtains dns ips encoded subject issuer
  where "certificate_names o' = Inr (dns, ips, encoded)"
    "normalizedCommonName (chosen_name (o_commonName o') dns ips) = Inr subject"
    "is_integer (o_validityDays o')" "1 \<le> integer_value (o_validityDays o')"
    "integer_value (o_validityDays o') \<le> o_maximumValidityDays o'"
    "issue_certificate c (o_authority o') dns encoded issuer subject (signing_key c o')
       (floor_second (time_of clock o' - clock_skew))
       (floor_second (time_of clock o' + integer_value (o_validityDays o') * day_ms)) = Inr cert"
proof -
  obtain n where n: "certificate_names o' = Inr n" using assms unfolding createCertificate_def bind_result_Inr_iff by blast
  obtain dns ips encoded where ns: "n = (dns, ips, encoded)" by (cases n)
  show ?thesis
    using assms n ns
    by (auto simp: createCertificate_def bind_result_Inr_iff Let_def signing_key_def time_of_def
        split: if_split_asm intro!: that [of dns ips encoded])
qed

lemma algorithm_element: "signature_algorithm = Inr w \<Longrightarrow> \<exists>a. element 0x30 a = Inr w"
  unfolding signature_algorithm_def by (rule sequence_is_element)

lemma tbs_element: "tbs_certificate c a e i s f u = Inr w \<Longrightarrow> \<exists>t. element 0x30 t = Inr w"
  unfolding tbs_certificate_def by (rule sequence_is_element)

lemma floor_second_bounds: "floor_second t \<le> t" "t - 1000 < floor_second t" "floor_second t mod 1000 = 0"
proof -
  have "t = floor_second t + t mod 1000" and "0 \<le> t mod 1000" and "t mod 1000 < 1000"
    by (simp_all add: floor_second_def)
  then show "floor_second t \<le> t" and "t - 1000 < floor_second t" by linarith+
  show "floor_second t mod 1000 = 0" by (simp add: floor_second_def)
qed

lemma address_bytes: "parseIpAddress a = Inr bs \<Longrightarrow> length bs = 4 \<or> length bs = 16"
proof (cases a)
  case (TextValue s)
  assume "parseIpAddress a = Inr bs"
  then show ?thesis using TextValue address_length [of s] parseIPv4_Inr [of s bs] by (auto split: if_splits)
qed simp

lemma certificate_names_Inr:
  assumes "certificate_names o' = Inr (dns, ips, encoded)"
  shows "distinct dns" "distinct ips" "length dns + length encoded \<le> 128" "length encoded = length ips"
    "\<not> o_authority o' \<Longrightarrow> 0 < length dns + length encoded" "\<forall>bs \<in> set encoded. length bs = 4 \<or> length bs = 16"
proof -
  have parts: "distinct dns \<and> distinct ips \<and> length dns + length ips \<le> 128
      \<and> list_all2 (\<lambda>a b. parseIpAddress a = Inr b) ips encoded
      \<and> (o_authority o' \<or> 0 < length dns + length ips)"
    using assms by (auto simp: certificate_names_def result_simps maximum_names_def split: if_split_asm)
  then show "distinct dns" "distinct ips" "length encoded = length ips" by (auto dest: list_all2_lengthD)
  with parts show "length dns + length encoded \<le> 128" "\<not> o_authority o' \<Longrightarrow> 0 < length dns + length encoded" by auto
  from parts have "list_all2 (\<lambda>a b. parseIpAddress a = Inr b) ips encoded" by blast
  then show "\<forall>bs \<in> set encoded. length bs = 4 \<or> length bs = 16"
    by (induction rule: list_all2_induct) (simp_all add: address_bytes)
qed

section \<open>Certificates can always be written\<close>

text \<open>A writer that returns at most \<open>n\<close> bytes.\<close>

definition fits :: "nat \<Rightarrow> der \<Rightarrow> bool" where
  "fits n r \<longleftrightarrow> (\<exists>bs. r = Inr bs \<and> length bs \<le> n)"

lemma fits_mono: "fits n r \<Longrightarrow> n \<le> m \<Longrightarrow> fits m r"
  by (auto simp: fits_def)

lemma fits_Inr [simp]: "fits n (Inr bs) \<longleftrightarrow> length bs \<le> n"
  by (simp add: fits_def)

lemma fits_bind: "fits n r \<Longrightarrow> (\<And>bs. length bs \<le> n \<Longrightarrow> fits m (f bs)) \<Longrightarrow> fits m (bind_result r f)"
  by (auto simp: fits_def)

lemma fits_element:
  assumes "length v \<le> n" and "n \<le> max_safe_integer"
  shows "fits (n + 9) (element tag v)"
proof -
  have "length v < 256 ^ 7" using assms by (simp add: max_safe_integer_def)
  from length_length_octets [OF this] show ?thesis
    using assms encodeLength_Inr [of "length v"] by (auto simp: element_def fits_def)
qed

lemma fits_sequence:
  assumes "\<forall>p \<in> set ps. fits n p" and "length ps * n \<le> max_safe_integer"
  shows "fits (length ps * n + 9) (sequence ps)" and "fits (length ps * n + 9) (set_of ps)"
proof -
  have "\<exists>ws. list_all2 (\<lambda>p v. p = Inr v) ps ws \<and> length (concat ws) \<le> length ps * n"
    using assms(1)
  proof (induction ps)
    case (Cons p ps)
    then obtain ws where ws: "list_all2 (\<lambda>p v. p = Inr v) ps ws" "length (concat ws) \<le> length ps * n" by auto
    obtain bs where "p = Inr bs" "length bs \<le> n" using Cons.prems by (auto simp: fits_def)
    with ws show ?case by (intro exI [of _ "bs # ws"]) auto
  qed simp
  then obtain bs where bs: "concat_der ps = Inr bs" "length bs \<le> length ps * n" by (auto simp: concat_der_Inr)
  from fits_element [OF bs(2) assms(2)] bs(1)
  show "fits (length ps * n + 9) (sequence ps)" and "fits (length ps * n + 9) (set_of ps)"
    by (simp_all add: sequence_def set_of_def)
qed

lemma fits_list: "fits n p \<Longrightarrow> \<forall>q \<in> set ps. fits n q \<Longrightarrow> \<forall>q \<in> set (p # ps). fits n q"
  by simp

lemma length_strip_zeros: "length (strip_zeros bs) \<le> length bs"
  by (induction bs rule: strip_zeros.induct) auto

lemma fits_integer: "length bs \<le> n \<Longrightarrow> n < max_safe_integer \<Longrightarrow> fits (n + 10) (integer bs)"
proof -
  assume n: "length bs \<le> n" "n < max_safe_integer"
  have "length (integer_content bs) \<le> n + 1"
    using length_strip_zeros [of bs] n(1) by (auto simp: integer_content_def Let_def split: list.split)
  then show ?thesis using fits_element [of "integer_content bs" "n + 1" "0x02"] n(2) by (simp add: integer_def add.commute)
qed

lemma fits_identifiers:
  "fits 20 (objectIdentifier ''2.5.4.3'')" "fits 20 (objectIdentifier ''2.5.29.19'')"
  "fits 20 (objectIdentifier ''2.5.29.15'')" "fits 20 (objectIdentifier ''2.5.29.17'')"
  "fits 20 (objectIdentifier ''2.5.29.37'')" "fits 20 (objectIdentifier ''1.3.6.1.5.5.7.3.1'')"
  "fits 20 (objectIdentifier ''1.2.840.10045.4.3.2'')"
  by (simp_all add: objectIdentifier_def arc_number_def digit_def code_def read_decimal_def digit_value_def
      is_safe_integer_def max_safe_integer_def encodeBase128_def base128_groups.simps element_def encodeLength_def)

lemma fits_small: "fits 20 (boolean b)" "length bs \<le> 10 \<Longrightarrow> fits 20 (bitString bs n)"
  using fits_element [of "[if b then 0xff else 0]" 11 "0x01"] fits_element [of "word_of_nat n # bs" 11 "0x03"]
  by (simp_all add: boolean_def bitString_def max_safe_integer_def)

lemma fits_name: "length (utf8_encode s) \<le> 64 \<Longrightarrow> fits 300 (distinguishedName s)"
proof -
  assume "length (utf8_encode s) \<le> 64"
  then have u: "fits 73 (utf8String s)" using fits_element [of "utf8_encode s" 64 "0x0c"] by (simp add: utf8String_def max_safe_integer_def)
  have "fits 155 (sequence [objectIdentifier ''2.5.4.3'', utf8String s])"
    using fits_sequence(1) [of "[objectIdentifier ''2.5.4.3'', utf8String s]" 73] u fits_mono [OF fits_identifiers(1), of 73]
    by (simp add: max_safe_integer_def)
  from fits_sequence(2) [of "[sequence [objectIdentifier ''2.5.4.3'', utf8String s]]" 155] this
  have "fits 164 (set_of [sequence [objectIdentifier ''2.5.4.3'', utf8String s]])" by (simp add: max_safe_integer_def)
  from fits_sequence(1) [of "[set_of [sequence [objectIdentifier ''2.5.4.3'', utf8String s]]]" 164] this
  show ?thesis by (auto simp: distinguishedName_def max_safe_integer_def intro: fits_mono)
qed

lemma fits_extension:
  assumes "fits 20 (objectIdentifier oid)" and "fits n v" and "20 \<le> n" and "n \<le> 1000000"
  shows "fits (3 * n + 36) (extension oid v critical)"
  unfolding extension_def
proof (rule fits_bind [OF assms(2)])
  fix bs :: bytes
  let ?ps = "[objectIdentifier oid] @ (if critical then [boolean True] else []) @ [octetString bs]"
  assume "length bs \<le> n"
  then have "fits (n + 9) (octetString bs)"
    using fits_element [of bs n] assms(4) by (simp add: octetString_def max_safe_integer_def)
  then have "\<forall>p \<in> set ?ps. fits (n + 9) p"
    using fits_mono [OF assms(1), of "n + 9"] fits_mono [OF fits_small(1), of "n + 9"] assms(3) by auto
  from fits_sequence(1) [OF this] assms(4) show "fits (3 * n + 36) (sequence ?ps)"
    by (auto simp: max_safe_integer_def intro: fits_mono)
qed

lemma fits_alt_name:
  assumes "\<forall>d \<in> set dns. length d \<le> 253" and "\<forall>b \<in> set ips. length b \<le> 16" and "length dns + length ips \<le> 128"
  shows "fits 40000 (subject_alt_name dns ips)"
proof -
  let ?ps = "map (\<lambda>d. element 0x82 (ascii d)) dns @ map (element 0x87) ips"
  have "\<forall>p \<in> set ?ps. fits 262 p"
  proof
    fix p
    assume "p \<in> set ?ps"
    then consider d where "d \<in> set dns" "p = element 0x82 (ascii d)" | b where "b \<in> set ips" "p = element 0x87 b" by auto
    then show "fits 262 p"
    proof cases
      case 1
      then show ?thesis using fits_element [of "ascii d" 253 "0x82"] assms(1) by (simp add: ascii_def max_safe_integer_def)
    next
      case 2
      then have "length b \<le> 253" using assms(2) by force
      from fits_element [OF this, of "0x87"] 2 show ?thesis by (simp add: max_safe_integer_def)
    qed
  qed
  moreover have "length ?ps * 262 \<le> 128 * 262" using assms(3) by (intro mult_right_mono) simp_all
  ultimately show ?thesis
    using fits_sequence(1) [of ?ps 262] by (auto simp: subject_alt_name_def max_safe_integer_def intro: fits_mono)
qed

lemma fits_extensions:
  assumes "\<forall>d \<in> set dns. length d \<le> 253" and "\<forall>b \<in> set ips. length b \<le> 16" and "length dns + length ips \<le> 128"
  shows "fits 1000000 (certificate_extensions authority dns ips)"
proof -
  have empty: "fits 40000 (sequence [])" using fits_sequence(1) [of "[]" 0] by (auto intro: fits_mono)
  have one: "fits 40000 (sequence [p])" if "fits 20 p" for p
    using fits_sequence(1) [of "[p]" 20] that by (auto simp: max_safe_integer_def intro: fits_mono)
  have bits: "fits 40000 (bitString [x] n)" for x n using fits_small(2) [of "[x]" n] by (auto intro: fits_mono)
  have e: "fits 200000 (extension oid v critical)" if "fits 20 (objectIdentifier oid)" "fits 40000 v" for oid v critical
    by (rule fits_mono [OF fits_extension [OF that]]) simp_all
  have parts: "fits 200000 (extension ''2.5.29.19'' (sequence [boolean True]) True)"
    "fits 200000 (extension ''2.5.29.19'' (sequence []) True)" "fits 200000 (extension ''2.5.29.15'' (bitString [x] n) True)"
    "fits 200000 (extension ''2.5.29.17'' (subject_alt_name dns ips) False)"
    "fits 200000 (extension ''2.5.29.37'' (sequence [objectIdentifier ''1.3.6.1.5.5.7.3.1'']) False)" for x n
    by (auto intro!: e fits_identifiers one empty bits fits_small fits_alt_name [OF assms])
  let ?ca = "[extension ''2.5.29.19'' (sequence [boolean True]) True, extension ''2.5.29.15'' (bitString [0x06] 1) True]"
  let ?ee = "[extension ''2.5.29.17'' (subject_alt_name dns ips) False, extension ''2.5.29.19'' (sequence []) True,
    extension ''2.5.29.15'' (bitString [0x80] 7) True,
    extension ''2.5.29.37'' (sequence [objectIdentifier ''1.3.6.1.5.5.7.3.1'']) False]"
  have "\<forall>p \<in> set ?ca. fits 200000 p" "\<forall>p \<in> set ?ee. fits 200000 p" using parts by auto
  from this [THEN fits_sequence(1)] show ?thesis
    by (auto simp: certificate_extensions_def max_safe_integer_def intro: fits_mono)
qed

lemma day_of_year_bound:
  assumes "0 \<le> d" and "d < 146097"
  shows "day_of_year d < 200000"
proof -
  have "0 \<le> d div 1460" "d div 1460 \<le> d" "0 \<le> d div 36524" "d div 36524 \<le> 4" "0 \<le> d div 146096" "d div 146096 \<le> 1"
    using assms by auto
  then have "- 1 \<le> d - d div 1460 + d div 36524 - d div 146096"
    and "d - d div 1460 + d div 36524 - d div 146096 \<le> 146101" using assms by linarith+
  then have y: "- 1 \<le> year_of_era d" "year_of_era d \<le> 401" unfolding year_of_era_def by linarith+
  then have "- 1 \<le> year_of_era d div 4" "year_of_era d div 100 \<le> 5" by linarith+
  then show ?thesis using assms y unfolding day_of_year_def by linarith
qed

lemma utc_field_bounds:
  "d_month (utc_fields t) < 10 ^ 10" "d_day (utc_fields t) < 10 ^ 10" "d_hours (utc_fields t) < 10 ^ 10"
  "d_minutes (utc_fields t) < 10 ^ 10" "d_seconds (utc_fields t) < 10 ^ 10"
proof -
  define d where "d = (t div 86400000 + 719468) mod 146097"
  have doy: "day_of_year d < 200000" unfolding d_def by (rule day_of_year_bound) simp_all
  then have mp: "month_of_year d < 10000" unfolding month_of_year_def by linarith
  have f: "d_month (utc_fields t) = nat (if month_of_year d < 10 then month_of_year d + 3 else month_of_year d - 9)"
    "d_day (utc_fields t) = nat (day_of_year d - (153 * month_of_year d + 2) div 5 + 1)"
    "d_hours (utc_fields t) = nat (t mod 86400000 div 1000 div 3600)"
    "d_minutes (utc_fields t) = nat (t mod 86400000 div 1000 div 60 mod 60)"
    "d_seconds (utc_fields t) = nat (t mod 86400000 div 1000 mod 60)"
    by (simp_all add: utc_fields_def Let_def d_def)
  show "d_month (utc_fields t) < 10 ^ 10" unfolding f using mp by auto
  have "5 * day_of_year d + 2 < 153 * month_of_year d + 153" unfolding month_of_year_def by linarith
  then have "day_of_year d - (153 * month_of_year d + 2) div 5 + 1 < 1000" by linarith
  then show "d_day (utc_fields t) < 10 ^ 10" unfolding f by simp
  have "t mod 86400000 div 1000 div 3600 < 1000" by (simp add: zdiv_zmult2_eq [symmetric])
  then show "d_hours (utc_fields t) < 10 ^ 10" unfolding f by (simp add: nat_less_iff)
  have "t mod 86400000 div 1000 div 60 mod 60 < 60" "t mod 86400000 div 1000 mod 60 < 60" by simp_all
  then show "d_minutes (utc_fields t) < 10 ^ 10" and "d_seconds (utc_fields t) < 10 ^ 10" unfolding f by simp_all
qed

lemma fits_utc:
  assumes "1950 \<le> d_year (utc_fields t)" and "d_year (utc_fields t) \<le> 2049"
  shows "fits 100 (utcTime (utc_fields t))"
proof -
  have pad: "length (pad2 n) \<le> 10" if "n < 10 ^ 10" for n
    using decimal_length [of n 9] that by (simp add: pad2_def)
  have "d_year (utc_fields t) mod 100 < 100" by simp
  then have year: "d_year (utc_fields t) mod 100 < 10 ^ 10" by simp
  let ?s = "pad2 (d_year (utc_fields t) mod 100) @ pad2 (d_month (utc_fields t)) @ pad2 (d_day (utc_fields t))
    @ pad2 (d_hours (utc_fields t)) @ pad2 (d_minutes (utc_fields t)) @ pad2 (d_seconds (utc_fields t)) @ ''Z''"
  have "length (ascii ?s) \<le> 61"
    using pad [OF year] utc_field_bounds [of t, THEN pad] by (simp add: ascii_def)
  then show ?thesis
    using fits_element [of "ascii ?s" 61 "0x17"] assms by (auto simp: utcTime_def max_safe_integer_def intro: fits_mono)
qed

lemma fits_tbs:
  assumes "length algorithm \<le> 29" and "length exts \<le> 1000000" and "length (random_serial c) \<le> 16"
    and "length (utf8_encode issuer) \<le> 64" and "length (utf8_encode subject) \<le> 64" and "length (spki c) \<le> 1000000"
    and "1950 \<le> d_year (utc_fields t0)" "d_year (utc_fields t0) \<le> 2049"
    and "1950 \<le> d_year (utc_fields t1)" "d_year (utc_fields t1) \<le> 2049"
  shows "fits 10000000 (tbs_certificate c algorithm exts issuer subject t0 t1)"
proof -
  let ?n = "1000009"
  have version: "fits ?n (bind_result (integer [2]) (element 0xa0))"
    by (rule fits_bind [OF fits_integer [of "[2]" 1]]) (auto simp: max_safe_integer_def intro: fits_mono [OF fits_element [of _ 11]])
  have "length (serial_number (random_serial c)) \<le> 16"
    using assms(3) by (auto simp: serial_number_def Let_def split: list.split)
  from fits_integer [OF this] have serial: "fits ?n (integer (serial_number (random_serial c)))"
    by (auto simp: max_safe_integer_def intro: fits_mono)
  have "fits 209 (sequence [utcTime (utc_fields t0), utcTime (utc_fields t1)])"
    using fits_sequence(1) [of "[utcTime (utc_fields t0), utcTime (utc_fields t1)]" 100] fits_utc assms(7-10)
    by (simp add: max_safe_integer_def)
  then have dates: "fits ?n (sequence [utcTime (utc_fields t0), utcTime (utc_fields t1)])" by (rule fits_mono) simp
  have dn: "fits ?n (distinguishedName issuer)" "fits ?n (distinguishedName subject)"
    using fits_mono [OF fits_name [OF assms(4)], of ?n] fits_mono [OF fits_name [OF assms(5)], of ?n] by simp_all
  have exts: "fits ?n (element 0xa3 exts)" using fits_element [OF assms(2), of "0xa3"] by (simp add: max_safe_integer_def)
  let ?ps = "[bind_result (integer [2]) (element 0xa0), integer (serial_number (random_serial c)), Inr algorithm,
    distinguishedName issuer, sequence [utcTime (utc_fields t0), utcTime (utc_fields t1)], distinguishedName subject,
    Inr (spki c), element 0xa3 exts]"
  have "\<forall>p \<in> set ?ps. fits ?n p" using version serial dates dn exts assms(1,6) by simp
  from fits_sequence(1) [OF this] show ?thesis
    by (auto simp: tbs_certificate_def max_safe_integer_def intro: fits_mono)
qed

lemma dns_lengths:
  assumes "certificate_names o' = Inr (dns, ips, encoded)"
  shows "\<forall>d \<in> set dns. length d \<le> 253"
proof -
  have len: "length t \<le> 253" if "assertDnsName a = Inr t" for a t
    using that assertDnsName_Inr by (cases a) (auto simp: toLowerCase_def)
  have "list_all2 (\<lambda>a b. assertDnsName a = Inr b) as bs \<Longrightarrow> \<forall>d \<in> set bs. length d \<le> 253" for as bs
    by (induction rule: list_all2_induct) (simp_all add: len)
  then show ?thesis using assms by (auto simp: certificate_names_def result_simps split: if_split_asm)
qed

lemma issue_certificate_fits:
  assumes "certificate_names o' = Inr (dns, ips, encoded)" and "length (random_serial c) \<le> 16" and "length (spki c) \<le> 1000000"
    and "length (utf8_encode issuer) \<le> 64" and "length (utf8_encode subject) \<le> 64" and "\<And>k m. length (sign c k m) = 64"
    and "1950 \<le> d_year (utc_fields t0)" "d_year (utc_fields t0) \<le> 2049"
    and "1950 \<le> d_year (utc_fields t1)" "d_year (utc_fields t1) \<le> 2049"
  shows "\<exists>cert. issue_certificate c authority dns encoded issuer subject key t0 t1 = Inr cert"
proof -
  obtain algorithm where algorithm: "signature_algorithm = Inr algorithm" "length algorithm \<le> 29"
    using fits_sequence(1) [of "[objectIdentifier ''1.2.840.10045.4.3.2'']" 20] fits_identifiers(7)
    by (auto simp: fits_def signature_algorithm_def max_safe_integer_def)
  have "\<forall>b \<in> set encoded. length b \<le> 16" "length dns + length encoded \<le> 128"
    using certificate_names_Inr [OF assms(1)] by auto
  from fits_extensions [OF dns_lengths [OF assms(1)] this] obtain exts where
    exts: "certificate_extensions authority dns encoded = Inr exts" "length exts \<le> 1000000" by (auto simp: fits_def)
  from fits_tbs [OF algorithm(2) exts(2) assms(2,4,5,3,7-10)] obtain tbs where
    tbs: "tbs_certificate c algorithm exts issuer subject t0 t1 = Inr tbs" "length tbs \<le> 10000000" by (auto simp: fits_def)
  let ?raw = "sign c key tbs"
  have "fits 42 (integer (take 32 ?raw))" "fits 42 (integer (drop 32 ?raw))"
    using fits_integer [of "take 32 ?raw" 32] fits_integer [of "drop 32 ?raw" 32] assms(6) by (simp_all add: max_safe_integer_def)
  then have "fits 93 (ecdsaSignature ?raw)"
    using fits_sequence(1) [of "[integer (take 32 ?raw), integer (drop 32 ?raw)]" 42] assms(6)
    by (simp add: ecdsaSignature_def max_safe_integer_def)
  then have "fits 200 (bind_result (ecdsaSignature ?raw) (\<lambda>s. bitString s 0))"
    by (rule fits_bind) (auto simp: bitString_def max_safe_integer_def intro: fits_mono [OF fits_element [of _ 94]])
  then obtain signature where
    signature: "bind_result (ecdsaSignature ?raw) (\<lambda>s. bitString s 0) = Inr signature" "length signature \<le> 200"
    by (auto simp: fits_def)
  have "fits 30000009 (sequence [Inr tbs, Inr algorithm, Inr signature])"
    using fits_sequence(1) [of "[Inr tbs, Inr algorithm, Inr signature]" 10000000] tbs(2) algorithm(2) signature(2)
    by (simp add: max_safe_integer_def)
  then obtain der_bytes where "sequence [Inr tbs, Inr algorithm, Inr signature] = Inr der_bytes" by (auto simp: fits_def)
  then show ?thesis
    unfolding issue_certificate_def algorithm(1) exts(1) bind_result.simps tbs(1) signature(1) by simp
qed

section \<open>A concrete certificate\<close>

definition toy_crypto :: crypto where
  "toy_crypto = \<lparr>generated_key = 1, spki = [0x30, 0], pkcs8 = [0x30, 0], random_serial = replicate 16 0xAB,
     sign = (\<lambda>k bs. replicate 64 0x11)\<rparr>"

definition toy_options :: certificate_options where
  "toy_options = \<lparr>o_authority = False, o_dnsNames = ArrayOf [TextValue ''a.b''], o_ipAddresses = ArrayOf [],
     o_commonName = None, o_issuerCommonName = None, o_validityDays = IntegerNumber 10, o_maximumValidityDays = 13,
     o_now = DateAt 1700000000000, o_signingKey = None\<rparr>"

lemma toy_names: "certificate_names toy_options = Inr ([''a.b''], [], [])"
  by code_simp

lemma toy_common: "normalizedCommonName (Some [97, 46, 98]) = Inr [97, 46, 98]"
  by (simp add: normalizedCommonName_def utf8_encode_def utf8_units_def containsControlCharacter_def)

lemma toy_subject: "normalizedCommonName (chosen_name None [''a.b''] []) = Inr [97, 46, 98]"
  using toy_common by (simp add: chosen_name_def text_points_def code_def)

lemma toy_times:
  "floor_second (1700000000000 - clock_skew) = 1699999700000"
  "floor_second (1700000000000 + 10 * day_ms) = 1700864000000"
  by (simp_all add: floor_second_def clock_skew_def day_ms_def)

lemma toy_days:
  "(1699999700000 :: int) div 86400000 + 719468 = 739143" "(1700864000000 :: int) div 86400000 + 719468 = 739153"
  "(739143 :: int) mod 146097 = 8658" "(739153 :: int) mod 146097 = 8668"
  by simp_all

lemma toy_years: "d_year (utc_fields 1699999700000) = 2023" "d_year (utc_fields 1700864000000) = 2023"
  unfolding utc_fields_def Let_def toy_days utc_date.select_convs
  by (simp_all add: year_of_era_def day_of_year_def month_of_year_def)

lemma created_certificate:
  assumes "certificate_names o' = Inr (dns, ips, encoded)"
    and "normalizedCommonName (chosen_name (o_commonName o') dns ips) = Inr subject"
    and "normalizedCommonName (case o_issuerCommonName o' of None \<Rightarrow> Some subject | Some v \<Rightarrow> v) = Inr issuer"
    and "o_validityDays o' = IntegerNumber days" "1 \<le> days" "days \<le> o_maximumValidityDays o'"
    and "o_now o' = DateAt now"
    and "list_all (\<lambda>t. 1950 \<le> d_year (utc_fields (floor_second t)) \<and> d_year (utc_fields (floor_second t)) \<le> 2049)
           [now - clock_skew, now + days * day_ms]"
    and "length (random_serial c) \<le> 16" and "length (spki c) \<le> 1000000" and "\<And>k m. length (sign c k m) = 64"
  shows "\<exists>cert. createCertificate c clock o' = Inr cert"
proof -
  have len: "length (utf8_encode s) \<le> 64" if "normalizedCommonName v = Inr s" for v s
    using that by (auto simp: normalizedCommonName_def split: option.splits if_splits)
  note issued = issue_certificate_fits [OF assms(1,9,10) len [OF assms(3)] len [OF assms(2)] assms(11)]
  show ?thesis using assms(1-8) issued by (simp add: createCertificate_def)
qed

lemma toy_issued: "\<exists>cert. createCertificate toy_crypto 0 toy_options = Inr cert"
proof (rule created_certificate [OF toy_names])
  show "normalizedCommonName (chosen_name (o_commonName toy_options) [''a.b''] []) = Inr [97, 46, 98]"
    using toy_subject by (simp add: toy_options_def)
  show "normalizedCommonName (case o_issuerCommonName toy_options of None \<Rightarrow> Some [97, 46, 98] | Some v \<Rightarrow> v) = Inr [97, 46, 98]"
    by (simp add: toy_options_def toy_common)
  show "list_all (\<lambda>t. 1950 \<le> d_year (utc_fields (floor_second t)) \<and> d_year (utc_fields (floor_second t)) \<le> 2049)
           [1700000000000 - clock_skew, 1700000000000 + 10 * day_ms]"
    by (simp add: toy_years toy_times)
qed (simp_all add: toy_options_def toy_crypto_def)

section \<open>Properties\<close>

text \<open>What \<open>pem\<close> writes reads back as the bytes it was given, for any bytes and any label without a
  line break; no line of the body is longer than 64 characters.\<close>

theorem pem_roundtrip:
  assumes "CHR 0x0A \<notin> set label"
  shows "read_pem label (pem label bs) = Some bs"
  by (rule read_pem_pem [OF assms])

theorem pem_roundtrip_witness: "read_pem ''CERTIFICATE'' (pem ''CERTIFICATE'' [0x30, 0, 255]) = Some [0x30, 0, 255]"
  by (rule pem_roundtrip) simp

text \<open>C27: A certificate is a sequence of exactly three elements, and the signature in the last, by the key of
  the authority or the certificate's own key, is the one over the very bytes of the first.\<close>

theorem certificate_signed:
  assumes "createCertificate c clock o' = Inr cert"
  shows "\<exists>content t tbs a s. read_element (certificateDER cert) = Some (0x30, content, [])
    \<and> read_elements 3 content = Some [(0x30, t), (0x30, a), (0x03, 0 # s)]
    \<and> element 0x30 t = Inr tbs
    \<and> ecdsaSignature (sign c (case o_signingKey o' of None \<Rightarrow> generated_key c | Some k \<Rightarrow> k) tbs) = Inr s
    \<and> certificatePEM cert = pem ''CERTIFICATE'' (certificateDER cert)"
proof -
  obtain dns ips encoded subject issuer t0 t1 where
    issued: "issue_certificate c (o_authority o') dns encoded issuer subject (signing_key c o') t0 t1 = Inr cert"
    using createCertificate_Inr [OF assms] by metis
  from issue_certificate_Inr [OF issued] obtain algorithm exts tbs signature where
    parts: "signature_algorithm = Inr algorithm"
      "tbs_certificate c algorithm exts issuer subject t0 t1 = Inr tbs"
      "bind_result (ecdsaSignature (sign c (signing_key c o') tbs)) (\<lambda>s. bitString s 0) = Inr signature"
      "sequence [Inr tbs, Inr algorithm, Inr signature] = Inr (certificateDER cert)"
      "certificatePEM cert = pem ''CERTIFICATE'' (certificateDER cert)"
    by metis
  obtain t a where ta: "element 0x30 t = Inr tbs" "element 0x30 a = Inr algorithm"
    using tbs_element [OF parts(2)] algorithm_element [OF parts(1)] by blast
  obtain s where s: "ecdsaSignature (sign c (signing_key c o') tbs) = Inr s" "element 0x03 (0 # s) = Inr signature"
    using parts(3) by (auto simp: bind_result_Inr_iff bitString_def)
  have "\<exists>content. read_element (certificateDER cert) = Some (0x30, content, [])
      \<and> read_elements 3 content = Some [(0x30, t), (0x30, a), (0x03, 0 # s)]"
    using read_sequence [of "[(0x30, t), (0x30, a), (0x03, 0 # s)]"] parts(4) by (simp add: ta s(2) numeral_3_eq_3)
  then show ?thesis using ta(1) s(1) parts(5) unfolding signing_key_def by blast
qed

text \<open>A certificate is created whenever the options pass the checks of the code, the dates lie in the
  years of UTCTime and the signature has its 64 bytes: none of the writers can fail on such input.\<close>

theorem certificate_created:
  assumes "certificate_names o' = Inr (dns, ips, encoded)"
    and "normalizedCommonName (chosen_name (o_commonName o') dns ips) = Inr subject"
    and "normalizedCommonName (case o_issuerCommonName o' of None \<Rightarrow> Some subject | Some v \<Rightarrow> v) = Inr issuer"
    and "o_validityDays o' = IntegerNumber days" "1 \<le> days" "days \<le> o_maximumValidityDays o'"
    and "o_now o' = DateAt now"
    and "list_all (\<lambda>t. 1950 \<le> d_year (utc_fields (floor_second t)) \<and> d_year (utc_fields (floor_second t)) \<le> 2049)
           [now - clock_skew, now + days * day_ms]"
    and "length (random_serial c) \<le> 16" and "length (spki c) \<le> 1000000" and "\<And>k m. length (sign c k m) = 64"
  shows "\<exists>cert. createCertificate c clock o' = Inr cert"
  using created_certificate [OF assms] .

theorem certificate_created_witness: "\<exists>cert. createCertificate toy_crypto 0 toy_options = Inr cert"
proof (rule certificate_created [OF toy_names])
  show "normalizedCommonName (chosen_name (o_commonName toy_options) [''a.b''] []) = Inr [97, 46, 98]"
    using toy_subject by (simp add: toy_options_def)
  show "normalizedCommonName (case o_issuerCommonName toy_options of None \<Rightarrow> Some [97, 46, 98] | Some v \<Rightarrow> v) = Inr [97, 46, 98]"
    by (simp add: toy_options_def toy_common)
  show "o_validityDays toy_options = IntegerNumber 10" "10 \<le> o_maximumValidityDays toy_options"
    "o_now toy_options = DateAt 1700000000000" "(1 :: int) \<le> 10"
    by (simp_all add: toy_options_def)
  show "list_all (\<lambda>t. 1950 \<le> d_year (utc_fields (floor_second t)) \<and> d_year (utc_fields (floor_second t)) \<le> 2049)
           [1700000000000 - clock_skew, 1700000000000 + 10 * day_ms]"
    by (simp add: toy_years toy_times)
qed (simp_all add: toy_crypto_def)

theorem certificate_signed_witness:
  "\<exists>der_bytes content. read_element der_bytes = Some (0x30, content, []) \<and> (\<exists>t a s. read_elements 3 content = Some [(0x30, t), (0x30, a), (0x03, 0 # s)])"
proof -
  obtain cert where "createCertificate toy_crypto 0 toy_options = Inr cert" using toy_issued by blast
  from certificate_signed [OF this] show ?thesis by blast
qed

text \<open>The dates of a development certificate, which is valid for \<open>n\<close> days.\<close>

lemma development_dates:
  assumes "createDevelopmentCertificate c sha256 clock days o' = Inr d"
    and "now = (case o_now o' of DateAt t \<Rightarrow> t | _ \<Rightarrow> clock)"
    and "n = integer_value (case days of None \<Rightarrow> IntegerNumber 10 | Some n \<Rightarrow> n)"
  shows "validFrom (dc_certificate d) = floor_second (now - clock_skew)"
    and "validTo (dc_certificate d) = floor_second (now + n * day_ms)" and "1 \<le> n" and "n \<le> 13"
proof -
  let ?o = "o'\<lparr>o_maximumValidityDays := 13, o_validityDays := (case days of None \<Rightarrow> IntegerNumber 10 | Some n \<Rightarrow> n)\<rparr>"
  have "createCertificate c clock ?o = Inr (dc_certificate d)"
    using assms by (auto simp: createDevelopmentCertificate_def bind_result_Inr_iff)
  from createCertificate_Inr [OF this] obtain dns encoded issuer subject where
    n: "1 \<le> integer_value (o_validityDays ?o)" "integer_value (o_validityDays ?o) \<le> o_maximumValidityDays ?o" and
    issued: "issue_certificate c (o_authority ?o) dns encoded issuer subject (signing_key c ?o)
      (floor_second (time_of clock ?o - clock_skew))
      (floor_second (time_of clock ?o + integer_value (o_validityDays ?o) * day_ms)) = Inr (dc_certificate d)"
    by metis
  have "time_of clock ?o = now" by (simp add: time_of_def assms(2))
  then show "validFrom (dc_certificate d) = floor_second (now - clock_skew)"
    and "validTo (dc_certificate d) = floor_second (now + n * day_ms)"
    using issue_certificate_Inr [OF issued] assms(3) by simp_all
  show "1 \<le> n" and "n \<le> 13" using n assms(3) by simp_all
qed

text \<open>A development certificate is valid from before the time it is made until after it, in whole seconds,
  and for less than 14 days, the longest that a browser accepts for a certificate it knows by its
  hash and that the cache of node.js reuses.\<close>

theorem development_certificate_short:
  assumes "createDevelopmentCertificate c sha256 clock days o' = Inr d"
  shows "(let now = (case o_now o' of DateAt t \<Rightarrow> t | _ \<Rightarrow> clock); cert = dc_certificate d
    in validFrom cert < now \<and> now < validTo cert \<and> validTo cert - validFrom cert < 14 * day_ms
       \<and> validFrom cert mod 1000 = 0 \<and> validTo cert mod 1000 = 0)"
proof -
  let ?now = "case o_now o' of DateAt t \<Rightarrow> t | _ \<Rightarrow> clock" and ?n = "integer_value (case days of None \<Rightarrow> IntegerNumber 10 | Some n \<Rightarrow> n)"
  note dates = development_dates [OF assms refl refl]
  have "day_ms \<le> ?n * day_ms" "?n * day_ms \<le> 13 * day_ms" using dates(3,4) by (simp_all add: day_ms_def)
  then show ?thesis
    unfolding Let_def dates(1,2)
    using floor_second_bounds [of "?now - clock_skew"] floor_second_bounds [of "?now + ?n * day_ms"]
    unfolding day_ms_def clock_skew_def by linarith
qed

lemma toy_development: "\<exists>d. createDevelopmentCertificate toy_crypto (\<lambda>bs. []) 0 None toy_options = Inr d"
proof -
  have "toy_options\<lparr>o_maximumValidityDays := 13, o_validityDays := IntegerNumber 10\<rparr> = toy_options" by (simp add: toy_options_def)
  then show ?thesis using toy_issued by (auto simp: createDevelopmentCertificate_def)
qed

theorem development_certificate_short_witness:
  "\<exists>d. createDevelopmentCertificate toy_crypto (\<lambda>bs. []) 0 None toy_options = Inr d
     \<and> validTo (dc_certificate d) - validFrom (dc_certificate d) < 14 * day_ms"
proof -
  obtain d where d: "createDevelopmentCertificate toy_crypto (\<lambda>bs. []) 0 None toy_options = Inr d" using toy_development by blast
  from development_certificate_short [OF this] d show ?thesis by (auto simp: Let_def)
qed

text \<open>The names of a certificate for a server are those that were asked for: between 1 and 128, each
  once, IP addresses in 4 or 16 bytes; and the extension with them reads as just these names.\<close>

theorem certificate_names_readable:
  assumes "certificate_names o' = Inr (dns, ips, encoded)" and "\<not> o_authority o'"
    and "subject_alt_name dns encoded = Inr w"
  shows "0 < length dns + length encoded \<and> length dns + length encoded \<le> 128 \<and> distinct dns \<and> distinct ips
    \<and> list_all (\<lambda>b. length b = 4 \<or> length b = 16) encoded
    \<and> (\<exists>content. read_element w = Some (0x30, content, [])
        \<and> read_elements 128 content = Some (map (\<lambda>d. (0x82, ascii d)) dns @ map (\<lambda>b. (0x87, b)) encoded))"
proof -
  let ?vs = "map (\<lambda>d. (0x82, ascii d)) dns @ map (\<lambda>b. (0x87, b)) encoded"
  note n = certificate_names_Inr [OF assms(1)]
  obtain ws where ws: "list_all2 (\<lambda>p v. p = Inr v) (map (\<lambda>(tag, v). element tag v) ?vs) ws" "element 0x30 (concat ws) = Inr w"
    using assms(3) by (auto simp: subject_alt_name_def sequence_Inr o_def)
  have "list_all2 (\<lambda>(tag, v) w. element tag v = Inr w) ?vs ws"
    using ws(1) unfolding list_all2_map1 by (simp add: case_prod_unfold)
  then have "read_elements 128 (concat ws) = Some ?vs" by (rule read_elements_written) (use n(3) in simp)
  then show ?thesis
    using read_written_element [OF ws(2), of "[]"] n assms(2) by (auto simp: list_all_iff)
qed

theorem certificate_names_readable_witness:
  "read_elements 128 [0x82, 3, 97, 46, 98] = Some [(0x82, [97, 46, 98])]"
proof -
  have w: "subject_alt_name [''a.b''] [] = Inr [0x30, 5, 0x82, 3, 97, 46, 98]"
    by (simp add: subject_alt_name_def sequence_def concat_der_def element_def encodeLength_def is_safe_integer_def
        max_safe_integer_def ascii_def code_def)
  from certificate_names_readable [OF toy_names _ w] show ?thesis by (auto simp: toy_options_def ascii_def code_def)
qed

text \<open>A DNS name of more than 64 characters is accepted as a name, but the certificate is refused all the
  same unless a common name is given: the default common name, the first DNS name, is too long.\<close>

theorem long_name_refused:
  assumes "list_all label_ok (split_on (CHR ''.'') s)" and "64 < length s" and "length s \<le> 253"
    and "o_authority o' = False" and "o_dnsNames o' = ArrayOf [TextValue s]" and "o_ipAddresses o' = ArrayOf []"
    and "o_commonName o' = None"
  shows "certificate_names o' = Inr ([toLowerCase s], [], []) \<and> createCertificate c clock o' = Inl InvalidCommonName"
proof -
  have "assertDnsName (TextValue s) = Inr (toLowerCase s)" using assertDnsName_Inr assms(1,3) by blast
  then have n: "certificate_names o' = Inr ([toLowerCase s], [], [])"
    using assms(4-6) by (simp add: certificate_names_def unique_def set_add_def maximum_names_def)
  have units: "1 \<le> length (utf8_units c)" for c by (simp add: utf8_units_def)
  have "length cs \<le> length (utf8_encode cs)" for cs
    unfolding utf8_encode_def length_map
  proof (induction cs)
    case (Cons a cs)
    then show ?case using units [of a] by simp
  qed simp
  from this [of "text_points (toLowerCase s)"] have "64 < length (utf8_encode (text_points (toLowerCase s)))"
    using assms(2) by (simp add: text_points_def toLowerCase_def)
  then show ?thesis using n assms(7) by (simp add: createCertificate_def chosen_name_def normalizedCommonName_def)
qed

theorem long_name_refused_witness:
  "createCertificate toy_crypto 0 (toy_options\<lparr>o_dnsNames := ArrayOf [TextValue (replicate 40 (CHR ''a'') @ ''.'' @ replicate 40 (CHR ''b''))]\<rparr>)
     = Inl InvalidCommonName"
proof -
  have "split_on (CHR ''.'') (replicate 40 (CHR ''a'') @ CHR ''.'' # replicate 40 (CHR ''b''))
      = [replicate 40 (CHR ''a''), replicate 40 (CHR ''b'')]"
    by (subst split_on_append) (auto simp: split_on_none)
  moreover have "label_ok (replicate 40 (CHR ''a''))" "label_ok (replicate 40 (CHR ''b''))"
    by (simp_all add: label_ok_def letter_def code_def list_all_iff)
  ultimately show ?thesis
    by (intro conjunct2 [OF long_name_refused]) (simp_all add: toy_options_def)
qed

end
