(* ===== verification/Js_Path.thy ===== *)
theory Js_Path
  imports Js_Text
begin

text \<open>
  What the code uses of \<open>node:path\<close> on a POSIX system: \<open>resolve\<close> against an absolute directory,
  \<open>dirname\<close> of a resolved path, \<open>basename\<close>, and \<open>join\<close> of a resolved directory and one name.
\<close>

definition after_last :: "char \<Rightarrow> string \<Rightarrow> string" where
  "after_last c s = rev (takeWhile (\<lambda>x. x \<noteq> c) (rev s))"

definition before_last :: "char \<Rightarrow> string \<Rightarrow> string" where
  "before_last c s = rev (tl (dropWhile (\<lambda>x. x \<noteq> c) (rev s)))"

definition basename :: "string \<Rightarrow> string" where
  "basename p = after_last (CHR ''/'') (rev (dropWhile (\<lambda>x. x = CHR ''/'') (rev p)))"

definition dirname :: "string \<Rightarrow> string" where
  "dirname p = (let d = before_last (CHR ''/'') p in if d = [] then ''/'' else d)"

fun normal_step :: "string list \<Rightarrow> string \<Rightarrow> string list" where
  "normal_step segs s = (if s = [] \<or> s = ''.'' then segs else if s = ''..'' then butlast segs else segs @ [s])"

definition path_of :: "string list \<Rightarrow> string" where
  "path_of segs = ''/'' @ join_with ''/'' segs"

definition resolve :: "string \<Rightarrow> string \<Rightarrow> string" where
  "resolve dir path =
     path_of (foldl normal_step [] (split_on (CHR ''/'') (if starts_with path ''/'' then path else dir @ ''/'' @ path)))"

definition join_path :: "string \<Rightarrow> string \<Rightarrow> string" where
  "join_path dir name = (if dir = ''/'' then dir @ name else dir @ ''/'' @ name)"

section \<open>Resolved paths\<close>

text \<open>A segment a resolved path may have.\<close>

definition plain :: "string \<Rightarrow> bool" where
  "plain s \<longleftrightarrow> s \<noteq> [] \<and> s \<noteq> ''.'' \<and> s \<noteq> ''..'' \<and> CHR ''/'' \<notin> set s"

definition resolved :: "string \<Rightarrow> bool" where
  "resolved d \<longleftrightarrow> (\<exists>segs. d = path_of segs \<and> list_all plain segs)"

lemma plain_no_slash: "plain s \<Longrightarrow> CHR ''/'' \<notin> set s"
  by (simp add: plain_def)

lemma normal_segments:
  "list_all plain segs \<Longrightarrow> list_all (\<lambda>s. CHR ''/'' \<notin> set s) ps \<Longrightarrow> list_all plain (foldl normal_step segs ps)"
proof (induction ps arbitrary: segs)
  case (Cons p ps)
  have "list_all plain (normal_step segs p)"
    using Cons.prems by (auto simp: plain_def list_all_iff dest: in_set_butlastD)
  then show ?case using Cons by simp
qed simp

lemma split_no_slash: "list_all (\<lambda>s. CHR ''/'' \<notin> set s) (split_on (CHR ''/'') p)"
  by (auto simp: list_all_iff dest: split_on_parts)

lemma resolved_resolve [simp]: "resolved (resolve dir path)"
  unfolding resolve_def resolved_def using normal_segments [of "[]", OF _ split_no_slash] by auto

lemma path_of_Nil [simp]: "path_of [] = ''/''"
  by (simp add: path_of_def)

lemma path_of_root [simp]: "list_all plain segs \<Longrightarrow> path_of segs = ''/'' \<longleftrightarrow> segs = []"
  by (induction segs rule: induct_list012) (auto simp: path_of_def plain_def)

lemma join_with_snoc: "segs \<noteq> [] \<Longrightarrow> join_with sep (segs @ [s]) = join_with sep segs @ sep @ s"
  by (induction segs rule: induct_list012) auto

lemma join_path_of: "list_all plain segs \<Longrightarrow> join_path (path_of segs) name = path_of (segs @ [name])"
  using path_of_root [of segs] by (cases "segs = []") (auto simp: join_path_def path_of_def join_with_snoc)

lemma resolved_join [simp]: "resolved d \<Longrightarrow> plain name \<Longrightarrow> resolved (join_path d name)"
proof -
  assume "resolved d" and n: "plain name"
  then obtain segs where "d = path_of segs" "list_all plain segs" by (auto simp: resolved_def)
  then have "join_path d name = path_of (segs @ [name]) \<and> list_all plain (segs @ [name])" using n by (simp add: join_path_of)
  then show ?thesis unfolding resolved_def by blast
qed

lemma split_path_of: "list_all plain segs \<Longrightarrow> segs \<noteq> [] \<Longrightarrow> split_on (CHR ''/'') (path_of segs) = [] # segs"
  using split_join [of segs "CHR ''/''"] by (simp add: path_of_def list_all_iff plain_def)

lemma path_of_inject:
  assumes "list_all plain ss" and "list_all plain ts"
  shows "path_of ss = path_of ts \<longleftrightarrow> ss = ts"
proof
  assume *: "path_of ss = path_of ts"
  show "ss = ts"
  proof (cases "ss = []")
    case True
    then have "path_of ts = ''/''" using * by simp
    then have "ts = []" using path_of_root [OF assms(2)] by blast
    then show ?thesis using True by simp
  next
    case False
    then have "path_of ts \<noteq> ''/''" using * path_of_root [OF assms(1)] by metis
    then have "ts \<noteq> []" by (rule contrapos_nn) (simp only: path_of_Nil)
    then have "split_on (CHR ''/'') (path_of ts) = [] # ts" by (rule split_path_of [OF assms(2)])
    then have "[] # ts = [] # ss" using split_path_of [OF assms(1) False] unfolding * by (rule trans [OF sym])
    then show ?thesis by simp
  qed
qed simp

lemma butlast_shorter:
  assumes "xs \<noteq> []"
  shows "butlast xs \<noteq> xs" and "butlast (butlast xs) \<noteq> xs"
proof -
  have "length (butlast xs) < length xs" using assms by (cases xs) simp_all
  moreover have "length (butlast (butlast xs)) \<le> length (butlast xs)" by simp
  ultimately have "length (butlast xs) \<noteq> length xs \<and> length (butlast (butlast xs)) \<noteq> length xs" by linarith
  then show "butlast xs \<noteq> xs" and "butlast (butlast xs) \<noteq> xs" by (auto simp del: length_butlast)
qed

lemma normal_plain: "list_all plain ps \<Longrightarrow> foldl normal_step segs ps = segs @ ps"
  by (induction ps arbitrary: segs) (auto simp: plain_def)

lemma split_on_slash_append: "split_on c (s @ c # t) = split_on c s @ split_on c t"
  by (induction s) (auto split: list.splits)

lemma normal_path_of: "list_all plain segs \<Longrightarrow> foldl normal_step [] (split_on (CHR ''/'') (path_of segs)) = segs"
  by (cases "segs = []") (simp_all add: split_path_of normal_plain)

lemma resolve_resolved: "resolved r \<Longrightarrow> resolve cwd r = r"
  by (auto simp: resolved_def resolve_def normal_path_of starts_with_def) (auto simp: path_of_def)

text \<open>A name is resolved against a resolved directory.\<close>

lemma resolve_name:
  assumes "list_all plain segs" and "CHR ''/'' \<notin> set name"
  shows "resolve (path_of segs) name = path_of (normal_step segs name)"
proof -
  have "\<not> starts_with name ''/''" using assms(2) by (cases name) (auto simp: starts_with_def)
  moreover note normal_path_of [OF assms(1)]
  ultimately show ?thesis
    using split_on_slash_append [of "CHR ''/''" "path_of segs" name] assms(2) by (simp add: resolve_def split_on_none)
qed

lemma resolve_plain: "resolved d \<Longrightarrow> plain name \<Longrightarrow> resolve d name = join_path d name"
  unfolding resolved_def by (auto simp: resolve_name plain_no_slash join_path_of) (auto simp: plain_def)

lemma before_last_none: "c \<notin> set t \<Longrightarrow> before_last c (s @ c # t) = s"
proof -
  assume "c \<notin> set t"
  then have "dropWhile (\<lambda>x. x \<noteq> c) (rev t @ c # rev s) = c # rev s" by (subst dropWhile_append2) auto
  then show ?thesis by (simp add: before_last_def)
qed

lemma dirname_path_of:
  assumes "list_all plain segs"
  shows "dirname (path_of segs) = path_of (butlast segs)"
proof (cases segs rule: rev_cases)
  case Nil
  then show ?thesis by (simp add: dirname_def before_last_def)
next
  case (snoc ss s)
  show ?thesis
  proof (cases "ss = []")
    case True
    then show ?thesis using snoc assms before_last_none [of "CHR ''/''" s "[]"]
      by (simp add: dirname_def path_of_def plain_def)
  next
    case False
    have "path_of segs = path_of ss @ CHR ''/'' # s" using snoc False by (simp add: path_of_def join_with_snoc)
    then show ?thesis using snoc assms before_last_none [of "CHR ''/''" s "path_of ss"]
      by (simp add: dirname_def plain_def) (simp add: path_of_def)
  qed
qed

lemma dirname_join [simp]: "resolved d \<Longrightarrow> plain name \<Longrightarrow> dirname (join_path d name) = d"
  unfolding resolved_def by (auto simp: join_path_of dirname_path_of)

lemma basename_same: "basename f = f \<longleftrightarrow> CHR ''/'' \<notin> set f"
proof
  assume "basename f = f"
  then have "set f = set (basename f)" by simp
  then show "CHR ''/'' \<notin> set f"
    by (auto simp: basename_def after_last_def dest: set_takeWhileD)
next
  assume no: "CHR ''/'' \<notin> set f"
  then have "dropWhile (\<lambda>x. x = CHR ''/'') (rev f) = rev f"
    by (auto simp: dropWhile_eq_self_iff) (metis hd_in_set set_rev rev_is_Nil_conv)
  moreover have "takeWhile (\<lambda>x. x \<noteq> CHR ''/'') (rev f) = rev f"
    using no by (subst takeWhile_eq_all_conv) auto
  ultimately show "basename f = f" by (simp only: basename_def after_last_def rev_rev_ident)
qed

lemma basename_join [simp]: "plain name \<Longrightarrow> basename (join_path d name) = name"
proof -
  assume p: "plain name"
  obtain e where j: "join_path d name = e @ CHR ''/'' # name"
    by (cases "d = ''/''") (auto simp: join_path_def intro: that [of "[]"] that [of d])
  have "rev name \<noteq> []" "hd (rev name) \<noteq> CHR ''/''"
    using p by (auto simp: plain_def) (metis hd_in_set rev_is_Nil_conv set_rev)
  then have "dropWhile (\<lambda>x. x = CHR ''/'') (rev name @ CHR ''/'' # rev e) = rev name @ CHR ''/'' # rev e"
    by (simp add: dropWhile_eq_self_iff hd_append)
  moreover have "takeWhile (\<lambda>x. x \<noteq> CHR ''/'') (rev name @ CHR ''/'' # rev e) = rev name"
    using p by (subst takeWhile_append2) (auto simp: plain_def)
  ultimately show ?thesis unfolding basename_def j after_last_def by simp
qed

lemma join_path_inject: "join_path d x = join_path d y \<longleftrightarrow> x = y"
  by (simp add: join_path_def)

lemma last_join_path [simp]: "name \<noteq> [] \<Longrightarrow> last (join_path d name) = last name"
  by (simp add: join_path_def)

end
