(* ===== verification/Native_Resolve.thy ===== *)
theory Native_Resolve
  imports Js_Map Js_Path
begin

text \<open>
  packages/native/resolve.js: which native package a machine needs, and how \<open>loadNativeModule\<close> finds
  it or says why it cannot. The file system, the module loader and the environment of the process are
  parameters; error messages are reduced to what they name.
\<close>

section \<open>Platforms\<close>

definition knownPlatformPackages :: "(string \<times> string) list" where
  "knownPlatformPackages =
     [(''darwin arm64 LE'', ''@http3-server/darwin-arm64''),
      (''darwin x64 LE'', ''@http3-server/darwin-x64''),
      (''linux arm64 LE glibc'', ''@http3-server/linux-arm64-gnu''),
      (''linux arm64 LE musl'', ''@http3-server/linux-arm64-musl''),
      (''linux x64 LE glibc'', ''@http3-server/linux-x64-gnu''),
      (''linux x64 LE musl'', ''@http3-server/linux-x64-musl''),
      (''win32 arm64 LE'', ''@http3-server/win32-arm64''),
      (''win32 x64 LE'', ''@http3-server/win32-x64'')]"

text \<open>The diagnostic report of Node.js: reading it may throw; \<open>glibcVersionRuntime\<close> may be absent.\<close>

datatype report = ReportThrows | ReportHeader "string option"

fun detectLinuxLibc :: "report \<Rightarrow> string" where
  "detectLinuxLibc (ReportHeader (Some version)) = (if version \<noteq> [] then ''glibc'' else ''musl'')"
| "detectLinuxLibc _ = ''musl''"

record runtime =
  rt_platform :: string
  rt_architecture :: string
  rt_byteOrder :: string
  rt_report :: report

definition getPlatformKey :: "runtime \<Rightarrow> string" where
  "getPlatformKey r =
     join_with '' '' ([rt_platform r, rt_architecture r, rt_byteOrder r]
       @ (if rt_platform r = ''linux'' then [detectLinuxLibc (rt_report r)] else []))"

datatype native_error =
    UnsupportedPlatform string
  | PlatformPackageInvalid string
  | WrongPlatformDependency string string "(string \<times> string) list"
  | OptionalDependenciesOmitted string string
  | PlatformPackageMissing string string
  | NativeLoadFailed string

fun error_code :: "native_error \<Rightarrow> string" where
  "error_code (UnsupportedPlatform _) = ''HTTP3_UNSUPPORTED_PLATFORM''"
| "error_code (PlatformPackageInvalid _) = ''HTTP3_PLATFORM_PACKAGE_INVALID''"
| "error_code (WrongPlatformDependency _ _ _) = ''HTTP3_WRONG_PLATFORM_DEPENDENCY''"
| "error_code (OptionalDependenciesOmitted _ _) = ''HTTP3_OPTIONAL_DEPENDENCIES_OMITTED''"
| "error_code (PlatformPackageMissing _ _) = ''HTTP3_PLATFORM_PACKAGE_MISSING''"
| "error_code (NativeLoadFailed _) = ''HTTP3_NATIVE_LOAD_FAILED''"

definition getPackageForCurrentPlatform :: "runtime \<Rightarrow> native_error + string" where
  "getPackageForCurrentPlatform r =
     (case map_of knownPlatformPackages (getPlatformKey r) of
        None \<Rightarrow> Inl (UnsupportedPlatform (getPlatformKey r))
      | Some p \<Rightarrow> Inr p)"

section \<open>Looking for the package\<close>

text \<open>\<open>after_last\<close> is \<open>packageName.slice(packageName.lastIndexOf("/") + 1)\<close>.\<close>

definition getLocalPlatformModule :: "(string \<Rightarrow> bool) \<Rightarrow> string \<Rightarrow> string option" where
  "getLocalPlatformModule existsSync packageName =
     (let path = ''../../binaries/'' @ after_last (CHR ''/'') packageName @ ''/http3.js''
      in if existsSync path then Some path else None)"

definition getInstalledPackageDirectory :: "string option \<Rightarrow> string \<Rightarrow> string option" where
  "getInstalledPackageDirectory nodeModules packageName =
     map_option (\<lambda>dir. join_with ''/'' (dir # split_on (CHR ''/'') packageName)) nodeModules"

definition findInstalledPlatformPackages :: "string option \<Rightarrow> (string \<Rightarrow> bool) \<Rightarrow> (string \<times> string) list" where
  "findInstalledPlatformPackages nodeModules existsSync =
     (case nodeModules of
        None \<Rightarrow> []
      | Some dir \<Rightarrow> filter (\<lambda>(key, name). case getInstalledPackageDirectory nodeModules name of
                               None \<Rightarrow> False | Some path \<Rightarrow> existsSync path) knownPlatformPackages)"

text \<open>\<open>s.split(/[\s,]+/)\<close>: a run of separators is one.\<close>

function split_runs :: "(char \<Rightarrow> bool) \<Rightarrow> string \<Rightarrow> string list" where
  "split_runs sep s =
     takeWhile (\<lambda>c. \<not> sep c) s
     # (case dropWhile (\<lambda>c. \<not> sep c) s of [] \<Rightarrow> [] | _ # rest \<Rightarrow> split_runs sep (dropWhile sep rest))"
  by pat_completeness auto
termination
proof (relation "measure (length \<circ> snd)", simp)
  fix sep :: "char \<Rightarrow> bool" and s :: string and c rest
  assume d: "dropWhile (\<lambda>c. \<not> sep c) s = c # rest"
  have "length (dropWhile sep rest) \<le> length rest" by (rule length_dropWhile_le)
  also have "\<dots> < length (dropWhile (\<lambda>c. \<not> sep c) s)" by (simp add: d)
  also have "\<dots> \<le> length s" by (rule length_dropWhile_le)
  finally show "((sep, dropWhile sep rest), sep, s) \<in> measure (length \<circ> snd)" by simp
qed

declare split_runs.simps [simp del]

definition wereOptionalDependenciesOmitted :: "(string \<Rightarrow> string option) \<Rightarrow> bool" where
  "wereOptionalDependenciesOmitted env =
     (let first = (\<lambda>a b. case env a of Some v \<Rightarrow> Some v | None \<Rightarrow> env b);
          omit = (case first ''npm_config_omit'' ''NPM_CONFIG_OMIT'' of None \<Rightarrow> [] | Some v \<Rightarrow> v)
      in ''optional'' \<in> set (split_runs (\<lambda>c. white_space c \<or> c = CHR '','') omit)
         \<or> first ''npm_config_optional'' ''NPM_CONFIG_OPTIONAL'' = Some ''false''
         \<or> first ''npm_config_ignore_optional'' ''NPM_CONFIG_IGNORE_OPTIONAL'' = Some ''true'')"

section \<open>Loading\<close>

text \<open>What loading a module does; a module may lack the constructor.\<close>

datatype loaded = LoaderThrows | WithoutConstructor | Constructor nat

definition loadResolvedModule :: "string \<Rightarrow> string \<Rightarrow> (string \<Rightarrow> loaded) \<Rightarrow> native_error + nat" where
  "loadResolvedModule packageName resolvedModule moduleLoader =
     (case moduleLoader resolvedModule of Constructor n \<Rightarrow> Inr n | _ \<Rightarrow> Inl (NativeLoadFailed packageName))"

text \<open>The arguments of \<open>loadNativeModule\<close>; \<open>None\<close> is one that is left out, so that its default, which
  the process and the file system give, takes its place. \<open>l_localModule\<close> may be given as null.\<close>

record load_arguments =
  l_runtime :: runtime
  l_moduleResolver :: "string \<Rightarrow> string option"
  l_moduleLoader :: "string \<Rightarrow> loaded"
  l_localModule :: "string option option"
  l_installed :: "(string \<times> string) list option"
  l_expectedDirectoryExists :: "bool option"
  l_omitted :: "bool option"
  l_nodeModules :: "string option"
  l_existsSync :: "string \<Rightarrow> bool"
  l_environment :: "string \<Rightarrow> string option"

definition expected_directory_exists :: "load_arguments \<Rightarrow> string \<Rightarrow> bool" where
  "expected_directory_exists l packageName =
     (case l_expectedDirectoryExists l of
        Some b \<Rightarrow> b
      | None \<Rightarrow> (case getInstalledPackageDirectory (l_nodeModules l) packageName of
                   None \<Rightarrow> False | Some path \<Rightarrow> l_existsSync l path))"

text \<open>The \<open>catch\<close> block: the reason why the package was not resolved.\<close>

definition resolution_error :: "load_arguments \<Rightarrow> string \<Rightarrow> string \<Rightarrow> native_error" where
  "resolution_error l platformKey packageName =
     (let installed = (case l_installed l of Some ps \<Rightarrow> ps | None \<Rightarrow> findInstalledPlatformPackages (l_nodeModules l) (l_existsSync l));
          wrong = filter (\<lambda>(_, name). name \<noteq> packageName) installed;
          omitted = (case l_omitted l of Some b \<Rightarrow> b | None \<Rightarrow> wereOptionalDependenciesOmitted (l_environment l))
      in if expected_directory_exists l packageName then PlatformPackageInvalid packageName
         else if length wrong > 0 then WrongPlatformDependency platformKey packageName wrong
         else if omitted then OptionalDependenciesOmitted packageName platformKey
         else PlatformPackageMissing packageName platformKey)"

definition loadNativeModule :: "load_arguments \<Rightarrow> native_error + nat" where
  "loadNativeModule l =
     bind_result (getPackageForCurrentPlatform (l_runtime l)) (\<lambda>packageName.
       let localModule = (case l_localModule l of Some m \<Rightarrow> m | None \<Rightarrow> getLocalPlatformModule (l_existsSync l) packageName)
       in if localModule \<noteq> None \<and> localModule \<noteq> Some []
          then loadResolvedModule packageName (the localModule) (l_moduleLoader l)
          else (case l_moduleResolver l packageName of
                 None \<Rightarrow> Inl (resolution_error l (getPlatformKey (l_runtime l)) packageName)
               | Some m \<Rightarrow> loadResolvedModule packageName m (l_moduleLoader l)))"

section \<open>Properties\<close>

lemma known_packages_distinct:
  "distinct (map fst knownPlatformPackages)" "distinct (map snd knownPlatformPackages)"
  by (simp_all add: knownPlatformPackages_def)

lemma package_known: "getPackageForCurrentPlatform r = Inr p \<Longrightarrow> (getPlatformKey r, p) \<in> set knownPlatformPackages"
  by (auto simp: getPackageForCurrentPlatform_def split: option.splits dest: map_of_SomeD)

text \<open>Each supported machine gets the package named after it: its operating system, its processor and,
  on Linux, its C library, as far as the report of Node.js tells.\<close>

theorem supported_platform_packages:
  "list_all (\<lambda>os. list_all (\<lambda>arch.
      getPackageForCurrentPlatform \<lparr>rt_platform = os, rt_architecture = arch, rt_byteOrder = ''LE'', rt_report = rep\<rparr>
        = Inr (''@http3-server/'' @ os @ ''-'' @ arch
            @ (if os \<noteq> ''linux'' then '''' else case rep of
                 ReportHeader (Some v) \<Rightarrow> if v = [] then ''-musl'' else ''-gnu'' | _ \<Rightarrow> ''-musl'')))
      [''x64'', ''arm64'']) [''darwin'', ''win32'', ''linux'']"
proof (cases "detectLinuxLibc rep = ''glibc''")
  case True
  then obtain v where "rep = ReportHeader (Some v)" "v \<noteq> []"
    by (cases rep rule: detectLinuxLibc.cases) (auto split: if_splits)
  then show ?thesis by (simp add: getPackageForCurrentPlatform_def getPlatformKey_def knownPlatformPackages_def)
next
  case False
  then have "detectLinuxLibc rep = ''musl''" and "(case rep of ReportHeader (Some v) \<Rightarrow> if v = [] then ''-musl'' else ''-gnu'' | _ \<Rightarrow> ''-musl'') = ''-musl''"
    by (cases rep rule: detectLinuxLibc.cases; auto split: if_splits)+
  then show ?thesis by (simp add: getPackageForCurrentPlatform_def getPlatformKey_def knownPlatformPackages_def)
qed

text \<open>With the defaults of \<open>loadNativeModule\<close> the reason it gives agrees with what lies in
  node_modules: a package that is there but does not resolve is called invalid, packages of other
  platforms are named just when the expected one is absent and they are there, and a package is called
  missing or omitted only when no platform package is there at all.\<close>

theorem load_errors_agree:
  assumes "l_installed l = None" and "l_expectedDirectoryExists l = None" and "l_nodeModules l = Some dir"
    and "getPackageForCurrentPlatform (l_runtime l) = Inr p" and "l_localModule l = Some None"
    and "l_moduleResolver l p = None"
  shows "(let there = (\<lambda>name. l_existsSync l (join_with ''/'' (dir # split_on (CHR ''/'') name)));
              others = filter (\<lambda>(_, name). there name) knownPlatformPackages
    in loadNativeModule l = Inl
      (if there p then PlatformPackageInvalid p
       else if others \<noteq> [] then WrongPlatformDependency (getPlatformKey (l_runtime l)) p others
       else if (case l_omitted l of Some b \<Rightarrow> b | None \<Rightarrow> wereOptionalDependenciesOmitted (l_environment l))
       then OptionalDependenciesOmitted p (getPlatformKey (l_runtime l))
       else PlatformPackageMissing p (getPlatformKey (l_runtime l))))"
proof -
  let ?there = "\<lambda>name. l_existsSync l (join_with ''/'' (dir # split_on (CHR ''/'') name))"
  have installed: "findInstalledPlatformPackages (Some dir) (l_existsSync l) = filter (\<lambda>(_, name). ?there name) knownPlatformPackages"
    by (simp add: findInstalledPlatformPackages_def getInstalledPackageDirectory_def)
  have "filter (\<lambda>(_, name). name \<noteq> p) (filter (\<lambda>(_, name). ?there name) knownPlatformPackages)
      = filter (\<lambda>(_, name). ?there name) knownPlatformPackages" if "\<not> ?there p"
    using that by (auto simp: filter_filter intro!: filter_cong)
  then show ?thesis
    using assms by (simp add: loadNativeModule_def resolution_error_def expected_directory_exists_def installed Let_def
        getInstalledPackageDirectory_def del: filter_filter)
qed

definition copied_modules :: load_arguments where
  "copied_modules =
     \<lparr>l_runtime = \<lparr>rt_platform = ''linux'', rt_architecture = ''x64'', rt_byteOrder = ''LE'', rt_report = ReportThrows\<rparr>,
      l_moduleResolver = (\<lambda>p. None), l_moduleLoader = (\<lambda>m. LoaderThrows), l_localModule = Some None, l_installed = None,
      l_expectedDirectoryExists = None, l_omitted = None, l_nodeModules = Some ''nm'',
      l_existsSync = (\<lambda>path. path = ''nm/@http3-server/win32-x64''), l_environment = (\<lambda>n. None)\<rparr>"

theorem load_errors_agree_witness:
  "loadNativeModule copied_modules
     = Inl (WrongPlatformDependency ''linux x64 LE musl'' ''@http3-server/linux-x64-musl'' [(''win32 x64 LE'', ''@http3-server/win32-x64'')])"
proof -
  have "getPackageForCurrentPlatform (l_runtime copied_modules) = Inr ''@http3-server/linux-x64-musl''"
    "getPlatformKey (l_runtime copied_modules) = ''linux x64 LE musl''"
    by (simp_all add: copied_modules_def getPackageForCurrentPlatform_def getPlatformKey_def knownPlatformPackages_def)
  then show ?thesis
    using load_errors_agree [of copied_modules "''nm''" "''@http3-server/linux-x64-musl''"]
    by (simp add: copied_modules_def Let_def) (simp add: knownPlatformPackages_def)
qed

end
