(* ===== verification/Release_Scripts.thy ===== *)
theory Release_Scripts
  imports Js_Map Js_Text Native_Resolve
begin

text \<open>
  The release scripts: scripts/platforms.js, publish-candidate.js, promote-release.js and
  parse-pack-output.js. The npm registry is a service: what it answers and how it changes are
  parameters. Files are lists of bytes.
\<close>

section \<open>Platforms\<close>

record platform =
  pf_id :: string
  pf_os :: string
  pf_cpu :: string
  pf_libc :: "string option"
  pf_files :: "string list"

abbreviation platform_entry :: "string \<Rightarrow> string \<Rightarrow> string \<Rightarrow> string option \<Rightarrow> string list \<Rightarrow> platform" where
  "platform_entry i os cpu libc files \<equiv> \<lparr>pf_id = i, pf_os = os, pf_cpu = cpu, pf_libc = libc, pf_files = files\<rparr>"

definition platforms :: "platform list" where
  "platforms =
     [platform_entry ''darwin-arm64'' ''darwin'' ''arm64'' None [''http3.node'', ''libmsh3.dylib'', ''libmsquic.2.dylib''],
      platform_entry ''darwin-x64'' ''darwin'' ''x64'' None [''http3.node'', ''libmsh3.dylib'', ''libmsquic.2.dylib''],
      platform_entry ''linux-arm64-gnu'' ''linux'' ''arm64'' (Some ''glibc'') [''http3.node'', ''libmsh3.so'', ''libmsquic.so''],
      platform_entry ''linux-arm64-musl'' ''linux'' ''arm64'' (Some ''musl'') [''http3.node'', ''libmsh3.so'', ''libmsquic.so''],
      platform_entry ''linux-x64-gnu'' ''linux'' ''x64'' (Some ''glibc'') [''http3.node'', ''libmsh3.so'', ''libmsquic.so''],
      platform_entry ''linux-x64-musl'' ''linux'' ''x64'' (Some ''musl'') [''http3.node'', ''libmsh3.so'', ''libmsquic.so''],
      platform_entry ''win32-arm64'' ''win32'' ''arm64'' None [''http3.node'', ''msh3.dll'', ''msquic.dll''],
      platform_entry ''win32-x64'' ''win32'' ''x64'' None [''http3.node'', ''msh3.dll'', ''msquic.dll'']]"

text \<open>\<open>libc\<close> is only looked up on Linux.\<close>

definition isCurrentPlatform :: "platform \<Rightarrow> string \<Rightarrow> string \<Rightarrow> report \<Rightarrow> bool" where
  "isCurrentPlatform p os cpu rep \<longleftrightarrow>
     pf_os p = os \<and> pf_cpu p = cpu \<and> pf_libc p = (if os = ''linux'' then Some (detectLinuxLibc rep) else None)"

text \<open>\<open>readUInt16LE\<close> and \<open>readUInt32LE\<close> throw when the field is not inside the buffer.\<close>

datatype read_error = OutOfRange nat

definition readUIntLE :: "nat \<Rightarrow> bytes \<Rightarrow> nat \<Rightarrow> read_error + nat" where
  "readUIntLE n bs offset =
     (if offset + n \<le> length bs then Inr (be_val (rev (take n (drop offset bs)))) else Inl (OutOfRange offset))"

definition subarray :: "bytes \<Rightarrow> nat \<Rightarrow> nat \<Rightarrow> bytes" where
  "subarray bs i j = take (j - i) (drop i bs)"

text \<open>\<open>toString("ascii")\<close> clears the first bit of each byte.\<close>

definition detectNativeArchitecture :: "bytes \<Rightarrow> read_error + string" where
  "detectNativeArchitecture bs =
     bind_result (readUIntLE 4 bs 0) (\<lambda>magic.
     bind_result (if magic = 0xfeedfacf then readUIntLE 4 bs 4 else Inr 0) (\<lambda>cpuType.
     if magic = 0xfeedfacf \<and> cpuType = 0x0100000c then Inr ''arm64''
     else if magic = 0xfeedfacf \<and> cpuType = 0x01000007 then Inr ''x64''
     else
       let elf = (subarray bs 0 4 = [0x7f, 0x45, 0x4c, 0x46])
       in bind_result (if elf then readUIntLE 2 bs 18 else Inr 0) (\<lambda>machine.
          if elf \<and> machine = 183 then Inr ''arm64''
          else if elf \<and> machine = 62 then Inr ''x64''
          else if map (\<lambda>b. b AND 0x7f) (subarray bs 0 2) = [0x4d, 0x5a]
          then bind_result (readUIntLE 4 bs 0x3c) (\<lambda>peOffset.
            if subarray bs peOffset (peOffset + 4) = [0x50, 0x45, 0, 0]
            then bind_result (readUIntLE 2 bs (peOffset + 4)) (\<lambda>pe_machine.
              if pe_machine = 0xaa64 then Inr ''arm64'' else if pe_machine = 0x8664 then Inr ''x64'' else Inr ''unknown'')
            else Inr ''unknown'')
          else Inr ''unknown'')))"

section \<open>Publication\<close>

definition publicationOrder :: "string list" where
  "publicationOrder =
     [''@http3-server/dev-certificates'', ''@http3-server/darwin-arm64'', ''@http3-server/darwin-x64'',
      ''@http3-server/linux-arm64-gnu'', ''@http3-server/linux-arm64-musl'', ''@http3-server/linux-x64-gnu'',
      ''@http3-server/linux-x64-musl'', ''@http3-server/win32-arm64'', ''@http3-server/win32-x64'',
      ''@http3-server/native'', ''@http3-server/server'']"

record candidate_package =
  cp_name :: string
  cp_filename :: string
  cp_integrity :: string

record candidate_manifest =
  cm_scope :: string
  cm_sourceCommit :: string
  cm_releaseVersion :: string
  cm_packages :: "candidate_package list"

datatype release_error =
    NotARelease
  | OtherCommit
  | OtherVersion string
  | IncompleteSet
  | MissingPackage string
  | DifferentContents string
  | InvalidVersion
  | NotPublished string
  | OtherNext string
  | NotConverged "string list"
  | TagsUnread string
  | AmbiguousPack nat

definition map_of_entries :: "('k \<times> 'v) list \<Rightarrow> ('k, 'v) js_map" where
  "map_of_entries kvs = foldl (\<lambda>m (k, v). js_set m k v) [] kvs"

definition publicationPlan :: "candidate_manifest \<Rightarrow> string \<Rightarrow> string \<Rightarrow> release_error + candidate_package list" where
  "publicationPlan m sourceCommit version =
     (if cm_scope m \<noteq> ''release'' then Inl NotARelease
      else if cm_sourceCommit m \<noteq> sourceCommit then Inl OtherCommit
      else if cm_releaseVersion m \<noteq> version then Inl (OtherVersion (cm_releaseVersion m))
      else let packages = map_of_entries (map (\<lambda>p. (cp_name p, p)) (cm_packages m))
           in if js_size packages \<noteq> length publicationOrder then Inl IncompleteSet
              else map_result (\<lambda>name. case js_get packages name of None \<Rightarrow> Inl (MissingPackage name) | Some p \<Rightarrow> Inr p)
                     publicationOrder)"

definition publishArguments :: "string \<Rightarrow> string \<Rightarrow> bool \<Rightarrow> string list" where
  "publishArguments tarball tag publish =
     [''publish'', tarball, ''--access=public'', ''--tag='' @ tag]
     @ (if publish then [''--provenance''] else [''--dry-run'', ''--provenance=false''])"

text \<open>The integrity the registry holds for a package in this version, if it is published.\<close>

type_synonym registry = "string \<Rightarrow> string option"

text \<open>The second loop. \<open>npm\<close> is what \<open>npm publish\<close> does: the registry after it and whether it
  reports success; a dry run leaves the registry alone. The loop ends with the first failure. It
  looks at the integrities read before it started. The registry that changes may hold more than those.\<close>

fun publish_loop ::
  "('s \<Rightarrow> candidate_package \<Rightarrow> 's \<times> bool) \<Rightarrow> registry \<Rightarrow> 's \<Rightarrow> candidate_package list \<Rightarrow> 's \<times> bool" where
  "publish_loop npm before reg [] = (reg, True)"
| "publish_loop npm before reg (p # ps) =
     (if before (cp_name p) \<noteq> None then publish_loop npm before reg ps
      else case npm reg p of (reg', ok) \<Rightarrow> if ok then publish_loop npm before reg' ps else (reg', False))"

section \<open>Promotion\<close>

record registry_state =
  rs_publishedVersion :: string
  rs_next :: "string option"
  rs_latest :: "string option"

text \<open>The test \<open>/^\d+\.\d+\.\d+(?:-[0-9A-Za-z.-]+)?$/\<close>.\<close>

definition version_pattern :: "string \<Rightarrow> bool" where
  "version_pattern v \<longleftrightarrow>
     (let core = takeWhile (\<lambda>c. c \<noteq> CHR ''-'') v; rest = dropWhile (\<lambda>c. c \<noteq> CHR ''-'') v;
          parts = split_on (CHR ''.'') core
      in length parts = 3 \<and> list_all (\<lambda>p. p \<noteq> [] \<and> list_all digit p) parts
         \<and> (rest = [] \<or> (2 \<le> length rest \<and> list_all (\<lambda>c. digit c \<or> letter c \<or> c = CHR ''.'' \<or> c = CHR ''-'') (tl rest))))"

definition promotionPlan :: "(string, registry_state) js_map \<Rightarrow> string \<Rightarrow> release_error + (string \<times> bool) list" where
  "promotionPlan states version =
     (if \<not> version_pattern version then Inl InvalidVersion
      else if js_size states \<noteq> length publicationOrder then Inl IncompleteSet
      else map_result (\<lambda>name.
             case js_get states name of
               None \<Rightarrow> Inl (MissingPackage name)
             | Some st \<Rightarrow> if rs_publishedVersion st \<noteq> version then Inl (NotPublished name)
                          else if rs_next st \<noteq> Some version then Inl (OtherNext name)
                          else Inr (name, rs_latest st = Some version))
           publicationOrder)"

text \<open>\<open>verifyTagConvergence\<close>: \<open>readTags\<close> answers differently from attempt to attempt, and throws when it is \<open>None\<close>.
  The result comes with the number of times the loop slept.\<close>

record dist_tags =
  tag_next :: "string option"
  tag_latest :: "string option"

definition converged :: "dist_tags \<Rightarrow> string \<Rightarrow> bool" where
  "converged tags version \<longleftrightarrow> tag_latest tags = Some version \<and> tag_next tags = Some version"

definition shown :: "dist_tags option \<Rightarrow> string \<Rightarrow> bool" where
  "shown tags version \<longleftrightarrow> (case tags of None \<Rightarrow> False | Some t \<Rightarrow> converged t version)"

function converge ::
  "(nat \<Rightarrow> string \<Rightarrow> dist_tags option) \<Rightarrow> string \<Rightarrow> nat \<Rightarrow> nat \<Rightarrow> string list \<Rightarrow> nat \<Rightarrow> (release_error + unit) \<times> nat" where
  "converge readTags version attempts attempt pending_names sleeps =
     (if attempt \<le> attempts then
        (case find (\<lambda>name. readTags attempt name = None) pending_names of
           Some name \<Rightarrow> (Inl (TagsUnread name), sleeps)
         | None \<Rightarrow>
             let pending' = filter (\<lambda>name. \<not> shown (readTags attempt name) version) pending_names
             in if pending' = [] then (Inr (), sleeps)
                else converge readTags version attempts (attempt + 1) pending' (if attempt < attempts then sleeps + 1 else sleeps))
      else (Inl (NotConverged pending_names), sleeps))"
  by pat_completeness auto
termination by (relation "measure (\<lambda>(r, v, attempts, attempt, p, s). Suc attempts - attempt)") auto

declare converge.simps [simp del]

definition verifyTagConvergence ::
  "string list \<Rightarrow> string \<Rightarrow> (nat \<Rightarrow> string \<Rightarrow> dist_tags option) \<Rightarrow> nat \<Rightarrow> (release_error + unit) \<times> nat" where
  "verifyTagConvergence names version readTags attempts = converge readTags version attempts 1 (unique names) 0"

section \<open>The output of npm pack\<close>

text \<open>A parsed JSON value.\<close>

datatype json =
    JNull | JBool bool | JNumber js_number | JString code_points | JArray "json list" | JObject "(string \<times> json) list"

text \<open>The values of a string are its UTF-16 units.\<close>

fun pack_entries :: "json \<Rightarrow> json list" where
  "pack_entries (JArray xs) = xs"
| "pack_entries (JObject kvs) = (if js_has kvs ''name'' then [JObject kvs] else js_values kvs)"
| "pack_entries (JString cs) =
     concat (map (\<lambda>c. if c > 0xFFFF
                      then [JString [0xD800 + (c - 0x10000) div 1024], JString [0xDC00 + (c - 0x10000) mod 1024]]
                      else [JString [c]]) cs)"
| "pack_entries _ = []"

fun is_object :: "json \<Rightarrow> bool" where
  "is_object (JArray _) = True"
| "is_object (JObject _) = True"
| "is_object _ = False"

definition parsePackOutput :: "json \<Rightarrow> release_error + json" where
  "parsePackOutput parsed =
     (case pack_entries parsed of
        [entry] \<Rightarrow> if is_object entry then Inr entry else Inl (AmbiguousPack 1)
      | entries \<Rightarrow> Inl (AmbiguousPack (length entries)))"

section \<open>Lemmas\<close>

lemma map_of_entries_get:
  "js_get (foldl (\<lambda>m (k, v). js_set m k v) m kvs) k = Some v \<Longrightarrow> js_get m k = Some v \<or> (k, v) \<in> set kvs"
proof (induction kvs arbitrary: m)
  case (Cons kv kvs)
  obtain a b where kv: "kv = (a, b)" by fastforce
  from Cons.IH [of "js_set m a b"] Cons.prems kv show ?case by (auto split: if_splits)
qed simp

lemma publicationPlan_Inr:
  assumes "publicationPlan m sourceCommit version = Inr plan"
  shows "map cp_name plan = publicationOrder" and "set plan \<subseteq> set (cm_packages m)"
    and "cm_sourceCommit m = sourceCommit" and "cm_releaseVersion m = version" and "cm_scope m = ''release''"
proof -
  let ?packages = "map_of_entries (map (\<lambda>p. (cp_name p, p)) (cm_packages m))"
  have found: "cp_name p = name \<and> p \<in> set (cm_packages m)" if "js_get ?packages name = Some p" for name p
    using map_of_entries_get [of "[]" "map (\<lambda>p. (cp_name p, p)) (cm_packages m)" name p] that
    by (auto simp: map_of_entries_def)
  have "list_all2 (\<lambda>name p. js_get ?packages name = Some p) publicationOrder plan"
    using assms by (auto simp: publicationPlan_def Let_def result_simps list_all2_conv_all_nth split: if_splits option.splits)
  then have "map cp_name plan = publicationOrder \<and> set plan \<subseteq> set (cm_packages m)"
    by (induction rule: list_all2_induct) (auto dest: found)
  then show "map cp_name plan = publicationOrder" and "set plan \<subseteq> set (cm_packages m)" by auto
  show "cm_sourceCommit m = sourceCommit" and "cm_releaseVersion m = version" and "cm_scope m = ''release''"
    using assms by (auto simp: publicationPlan_def split: if_splits)
qed

text \<open>The packages of which no attempt up to \<open>final\<close>, this one excluded, has shown both tags, and those attempts in which the
  tags of such a package cannot be read.\<close>

definition unshown :: "(nat \<Rightarrow> string \<Rightarrow> dist_tags option) \<Rightarrow> string \<Rightarrow> nat \<Rightarrow> nat \<Rightarrow> string \<Rightarrow> bool" where
  "unshown readTags version first final name \<longleftrightarrow> list_all (\<lambda>a. \<not> shown (readTags a name) version) [first ..< final]"

definition unread :: "(nat \<Rightarrow> string \<Rightarrow> dist_tags option) \<Rightarrow> string \<Rightarrow> nat \<Rightarrow> nat \<Rightarrow> string list \<Rightarrow> bool" where
  "unread readTags version first attempts ps \<longleftrightarrow>
     list_ex (\<lambda>a. list_ex (\<lambda>name. readTags a name = None) (filter (unshown readTags version first a) ps)) [first ..< Suc attempts]"

lemma unshown_step:
  "a < final \<Longrightarrow> unshown r v a final name \<longleftrightarrow> \<not> shown (r a name) v \<and> unshown r v (a + 1) final name"
  unfolding unshown_def by (subst upt_conv_Cons) auto

lemma unshown_none [simp]: "final \<le> a \<Longrightarrow> unshown r v a final name"
  by (simp add: unshown_def)

lemma unread_step:
  assumes "a \<le> attempts"
  shows "unread r v a attempts ps \<longleftrightarrow> list_ex (\<lambda>name. r a name = None) ps
    \<or> unread r v (a + 1) attempts (filter (\<lambda>name. \<not> shown (r a name) v) ps)"
proof -
  have "filter (unshown r v a b) ps = filter (unshown r v (a + 1) b) (filter (\<lambda>name. \<not> shown (r a name) v) ps)" if "a < b" for b
    unfolding filter_filter by (rule filter_cong) (auto simp: unshown_step [OF that])
  then have "list_ex (\<lambda>b. list_ex (\<lambda>name. r b name = None) (filter (unshown r v a b) ps)) [a + 1 ..< Suc attempts]
    \<longleftrightarrow> unread r v (a + 1) attempts (filter (\<lambda>name. \<not> shown (r a name) v) ps)"
    unfolding unread_def by (intro list_ex_cong refl) auto
  moreover have "filter (unshown r v a a) ps = ps" by (simp add: filter_id_conv)
  ultimately show ?thesis using assms unfolding unread_def by (subst upt_conv_Cons) auto
qed

lemma unread_empty [simp]: "\<not> unread r v a attempts []"
  by (simp add: unread_def list_ex_iff)

lemma converge_result:
  "if unread readTags version attempt attempts ps
   then \<exists>name. fst (converge readTags version attempts attempt ps sleeps) = Inl (TagsUnread name)
   else fst (converge readTags version attempts attempt ps sleeps) =
     (if attempt \<le> attempts \<and> filter (unshown readTags version attempt (Suc attempts)) ps = [] then Inr ()
      else Inl (NotConverged (filter (unshown readTags version attempt (Suc attempts)) ps)))"
proof (induction readTags version attempts attempt ps sleeps rule: converge.induct)
  case (1 readTags version attempts attempt ps sleeps)
  show ?case
  proof (cases "attempt \<le> attempts")
    case False
    then have "\<not> unread readTags version attempt attempts ps" by (simp add: unread_def)
    with False show ?thesis by (simp add: converge.simps)
  next
    case True
    note unread = unread_step [OF True, of readTags version ps]
    show ?thesis
    proof (cases "find (\<lambda>name. readTags attempt name = None) ps")
      case (Some name)
      then have "list_ex (\<lambda>name. readTags attempt name = None) ps" by (auto simp: find_Some_iff list_ex_length)
      then show ?thesis using True Some unread by (subst (1 2) converge.simps) simp
    next
      case None
      then have read: "\<not> list_ex (\<lambda>name. readTags attempt name = None) ps" by (auto simp: find_None_iff list_ex_iff)
      let ?ps = "filter (\<lambda>name. \<not> shown (readTags attempt name) version) ps"
      have f: "filter (unshown readTags version (attempt + 1) (Suc attempts)) ?ps = filter (unshown readTags version attempt (Suc attempts)) ps"
        unfolding filter_filter by (rule filter_cong) (use True in \<open>auto simp: unshown_step\<close>)
      show ?thesis
      proof (cases "?ps = []")
        case done': True
        then have "filter (unshown readTags version attempt (Suc attempts)) ps = []" using f by simp
        moreover have "converge readTags version attempts attempt ps sleeps = (Inr (), sleeps)"
          using True None done' by (subst converge.simps) simp
        moreover have "\<not> unread readTags version attempt attempts ps" using unread read done' by simp
        ultimately show ?thesis using True by simp
      next
        case False
        let ?s = "if attempt < attempts then sleeps + 1 else sleeps"
        have "converge readTags version attempts attempt ps sleeps = converge readTags version attempts (attempt + 1) ?ps ?s"
          using True None False by (subst converge.simps) (simp add: Let_def)
        moreover have "\<not> attempt + 1 \<le> attempts \<Longrightarrow> filter (unshown readTags version (attempt + 1) (Suc attempts)) ?ps = ?ps"
          by (simp add: filter_id_conv)
        ultimately show ?thesis
          using "1.IH" [OF True None refl False] f True False unread read by (auto split: if_splits)
      qed
    qed
  qed
qed

lemma converge_sleeps:
  "snd (converge readTags version attempts attempt ps sleeps) \<le> sleeps + (attempts - attempt)"
proof (induction readTags version attempts attempt ps sleeps rule: converge.induct)
  case (1 readTags version attempts attempt ps sleeps)
  show ?case
  proof (cases "attempt \<le> attempts \<and> find (\<lambda>name. readTags attempt name = None) ps = None
      \<and> filter (\<lambda>name. \<not> shown (readTags attempt name) version) ps \<noteq> []")
    case True
    then show ?thesis using "1.IH" [OF _ _ refl] by (subst converge.simps) (auto simp: Let_def)
  qed (subst converge.simps, auto simp: Let_def split: option.split)
qed

section \<open>Properties\<close>

text \<open>The scripts, the loader and the list of platforms agree: every package the loader may ask for on a
  machine is the package of one entry of the list, and a release publishes all of these before the
  loader package that depends on them, and that before the server.\<close>

theorem platform_lists_agree:
  "map (\<lambda>p. (pf_os p @ '' '' @ pf_cpu p @ '' LE'' @ (case pf_libc p of None \<Rightarrow> '''' | Some l \<Rightarrow> '' '' @ l),
             ''@http3-server/'' @ pf_id p)) platforms = knownPlatformPackages
   \<and> publicationOrder = [''@http3-server/dev-certificates''] @ map snd knownPlatformPackages
       @ [''@http3-server/native'', ''@http3-server/server'']"
  by (simp add: platforms_def knownPlatformPackages_def publicationOrder_def)

text \<open>C37: The check of the tags ends after the given number of attempts at the latest, with one pause fewer. When the tags of a package
  cannot be read in an attempt before which it has not shown both tags, the check throws; otherwise it succeeds exactly when
  each package has shown both tags in some attempt, and it names exactly the packages that have not.\<close>

theorem convergence_checked:
  "(let missing = (\<lambda>final. filter (\<lambda>name. list_all (\<lambda>a. \<not> shown (readTags a name) version) [1 ..< final]) (unique names));
        result = verifyTagConvergence names version readTags attempts
    in (if list_ex (\<lambda>a. list_ex (\<lambda>name. readTags a name = None) (missing a)) [1 ..< Suc attempts]
        then \<exists>name. fst result = Inl (TagsUnread name)
        else fst result = (if 1 \<le> attempts \<and> missing (Suc attempts) = [] then Inr () else Inl (NotConverged (missing (Suc attempts)))))
       \<and> snd result \<le> attempts - 1)"
  using converge_result [of readTags version 1 attempts "unique names" 0]
    converge_sleeps [of readTags version attempts 1 "unique names" 0]
  unfolding unread_def unshown_def [abs_def] verifyTagConvergence_def Let_def by (intro conjI) simp_all

text \<open>The shapes in which npm versions print the result of a pack are read alike: an array of one
  result, the result itself, and an object with the result under the name of the package.\<close>

theorem pack_shapes_agree:
  assumes "js_has kvs ''name''" and "key \<noteq> ''name''"
  shows "parsePackOutput (JArray [JObject kvs]) = Inr (JObject kvs)
    \<and> parsePackOutput (JObject kvs) = Inr (JObject kvs)
    \<and> parsePackOutput (JObject [(key, JObject kvs)]) = Inr (JObject kvs)"
  using assms by (simp add: parsePackOutput_def js_has_def js_get_def js_values_def)

theorem pack_shapes_agree_witness:
  "parsePackOutput (JObject [(''p'', JObject [(''name'', JString [112])])]) = Inr (JObject [(''name'', JString [112])])"
  using pack_shapes_agree [of "[(''name'', JString [112])]" "''p''"] by (simp add: js_has_def js_get_def)

text \<open>A file that is cut off inside the header its first bytes announce makes the detection throw a range
  error instead of answering unknown.\<close>

theorem truncated_file_throws:
  "detectNativeArchitecture [0x4d, 0x5a, 0x90, 0] = Inl (OutOfRange 60)
   \<and> detectNativeArchitecture [0x7f, 0x45, 0x4c, 0x46] = Inl (OutOfRange 18)
   \<and> detectNativeArchitecture [1, 2] = Inl (OutOfRange 0)"
  by (simp add: detectNativeArchitecture_def readUIntLE_def subarray_def be_val_def)

end
