(* ===== verification/Release_Checks.thy ===== *)
theory Release_Checks
  imports Release_Scripts
begin

text \<open>
  The consistency of a release: scripts/set-version.js, scripts/check-release.js and the checks of
  scripts/import-binaries.js. A package.json or build-manifest.json is the record of the fields the
  scripts read; a field that may be missing is an option. Directories are maps from names to bytes.
\<close>

section \<open>Package files and build manifests\<close>

record publish_config =
  pc_access :: "string option"
  pc_provenance :: "bool option"
  pc_registry :: "string option"

datatype package_libc = NoLibc | LibcName string | LibcList "string list"

record package_json =
  pj_name :: string
  pj_version :: string
  pj_license :: "string option"
  pj_repositoryUrl :: "string option"
  pj_publishConfig :: "publish_config option"
  pj_files :: "string list"
  pj_os :: "string list option"
  pj_cpu :: "string list option"
  pj_libc :: package_libc
  pj_dependencies :: "(string, string) js_map option"
  pj_optionalDependencies :: "(string, string) js_map option"
  pj_exports :: "(string, string) js_map option"

record build_file =
  bf_name :: string
  bf_bytes :: nat
  bf_sha256 :: string
  bf_architecture :: "string option"

record build_target =
  bt_os :: "string option"
  bt_cpu :: "string option"
  bt_libc :: "string option"

record build_info =
  bi_baseline :: "string option"
  bi_minimumLibcVersion :: "string option"

text \<open>The five pins of the sources, in a build manifest and in native-baseline.json.\<close>

record source_pins =
  sp_producerCommit :: "string option"
  sp_msh3Commit :: "string option"
  sp_msquicCommit :: "string option"
  sp_msh3PatchSha256 :: "string option"
  sp_msquicPatchSha256 :: "string option"

record build_manifest =
  bm_formatVersion :: "nat option"
  bm_producer :: "string option"
  bm_platform :: "string option"
  bm_target :: "build_target option"
  bm_build :: "build_info option"
  bm_pins :: source_pins
  bm_files :: "build_file list"

record native_baseline =
  nb_formatVersion :: "nat option"
  nb_pins :: source_pins

text \<open>How a file is read: its hash, and the JSON value of a build manifest, whose \<open>files\<close> is taken to be
  an array; \<open>None\<close> is a text that is not JSON.\<close>

record file_reader =
  fr_sha256 :: "bytes \<Rightarrow> string"
  fr_manifest :: "bytes \<Rightarrow> build_manifest option"

type_synonym directory = "string \<Rightarrow> bytes option"

text \<open>The test \<open>/^\d+(?:\.\d+)+$/\<close>; on a missing value it looks at the text undefined.\<close>

definition libc_version :: "string option \<Rightarrow> bool" where
  "libc_version v =
     (case v of
        None \<Rightarrow> False
      | Some s \<Rightarrow> let parts = split_on (CHR ''.'') s in 2 \<le> length parts \<and> list_all (\<lambda>p. p \<noteq> [] \<and> list_all digit p) parts)"

definition target_matches :: "platform \<Rightarrow> build_manifest \<Rightarrow> bool" where
  "target_matches p m =
     (case bm_target m of
        None \<Rightarrow> False
      | Some t \<Rightarrow> bt_os t = Some (pf_os p) \<and> bt_cpu t = Some (pf_cpu p) \<and> bt_libc t = pf_libc p)"

definition concrete_libc :: "build_manifest \<Rightarrow> bool" where
  "concrete_libc m =
     (case bm_build m of
        None \<Rightarrow> False
      | Some b \<Rightarrow> (case bi_baseline b of None \<Rightarrow> False | Some s \<Rightarrow> s \<noteq> []) \<and> libc_version (bi_minimumLibcVersion b))"

section \<open>Importing binaries\<close>

datatype import_error =
    NoDeclarations
  | MissingFile string
  | UnsupportedManifest
  | OtherPlatform
  | MismatchedTarget
  | NoLibcBaseline
  | OtherBaseline
  | UnexpectedFiles
  | FileDiffers string
  | WrongArchitecture string
  | UnreadableBinary read_error

fun check_import_files :: "file_reader \<Rightarrow> platform \<Rightarrow> directory \<Rightarrow> build_file list \<Rightarrow> import_error + unit" where
  "check_import_files rd p source [] = Inr ()"
| "check_import_files rd p source (f # fs) =
     (case source (bf_name f) of
        None \<Rightarrow> Inl (MissingFile (bf_name f))
      | Some bs \<Rightarrow>
          if length bs \<noteq> bf_bytes f \<or> fr_sha256 rd bs \<noteq> bf_sha256 f then Inl (FileDiffers (bf_name f))
          else if bf_architecture f \<noteq> Some (pf_cpu p) then Inl (WrongArchitecture (bf_name f))
          else (case detectNativeArchitecture bs of
                  Inl err \<Rightarrow> Inl (UnreadableBinary err)
                | Inr a \<Rightarrow> if a \<noteq> pf_cpu p then Inl (WrongArchitecture (bf_name f)) else check_import_files rd p source fs))"

text \<open>The body of the loop over the platforms.\<close>

definition validate_import :: "file_reader \<Rightarrow> native_baseline \<Rightarrow> platform \<Rightarrow> directory \<Rightarrow> import_error + unit" where
  "validate_import rd nb p source =
     (if source ''http3.d.ts'' = None then Inl NoDeclarations
      else case Option.bind (source ''build-manifest.json'') (fr_manifest rd) of
        None \<Rightarrow> Inl (MissingFile ''build-manifest.json'')
      | Some m \<Rightarrow>
          if bm_formatVersion m \<noteq> nb_formatVersion nb \<or> bm_producer m \<noteq> Some ''msh3-node'' then Inl UnsupportedManifest
          else if bm_platform m \<noteq> Some (pf_id p) then Inl OtherPlatform
          else if \<not> target_matches p m then Inl MismatchedTarget
          else if pf_libc p \<noteq> None \<and> \<not> concrete_libc m then Inl NoLibcBaseline
          else if bm_pins m \<noteq> nb_pins nb then Inl OtherBaseline
          else if map bf_name (bm_files m) \<noteq> pf_files p then Inl UnexpectedFiles
          else check_import_files rd p source (bm_files m))"

section \<open>The checks of a release\<close>

datatype release_failure =
    NotPublicWithProvenance string
  | WrongLicense string
  | WrongRepository string
  | LicenseNotPublished string
  | ReadmeNotPublished string
  | RootVersion
  | NativeVersion
  | CertificatesVersion
  | ServerDependency
  | VersionDiffers string
  | WrongOs string
  | WrongCpu string
  | WrongLibc string
  | NotSelected string
  | NoLoader string
  | BinaryMissing string string
  | BinaryWrong string string
  | BinaryNotPublished string string
  | NoManifest string
  | InvalidProvenance string
  | ManifestTarget string
  | ManifestLibc string
  | ManifestBaseline string
  | ManifestFiles string
  | ManifestFile string string
  | ManifestNotPublished string

definition fails_if :: "bool \<Rightarrow> release_failure \<Rightarrow> release_failure list" where
  "fails_if b f = (if b then [f] else [])"

definition public_with_provenance :: "publish_config option \<Rightarrow> bool" where
  "public_with_provenance c =
     (case c of
        None \<Rightarrow> False
      | Some p \<Rightarrow> pc_access p = Some ''public'' \<and> pc_provenance p = Some True \<and> pc_registry p = Some ''https://registry.npmjs.org/'')"

definition checkPublishMetadata :: "package_json \<Rightarrow> release_failure list" where
  "checkPublishMetadata pkg =
     fails_if (\<not> public_with_provenance (pj_publishConfig pkg)) (NotPublicWithProvenance (pj_name pkg))
     @ fails_if (pj_license pkg \<noteq> Some ''MIT-0'') (WrongLicense (pj_name pkg))
     @ fails_if (pj_repositoryUrl pkg \<noteq> Some ''https://github.com/http3-server/http3-server.git'') (WrongRepository (pj_name pkg))
     @ fails_if (''LICENSE.md'' \<notin> set (pj_files pkg)) (LicenseNotPublished (pj_name pkg))
     @ fails_if (''README.md'' \<notin> set (pj_files pkg)) (ReadmeNotPublished (pj_name pkg))"

text \<open>The package files of the repository, and the directory of each platform.\<close>

record workspace =
  ws_rootVersion :: string
  ws_certificates :: package_json
  ws_native :: package_json
  ws_server :: package_json
  ws_binary :: "string \<Rightarrow> package_json"
  ws_files :: "string \<Rightarrow> directory"

abbreviation release_version :: "workspace \<Rightarrow> string" where
  "release_version w \<equiv> pj_version (ws_server w)"

text \<open>What makes the script throw instead of listing a failure.\<close>

datatype check_stop = UnreadableArchitecture read_error | NotJson string | NoObject string

text \<open>\<open>o?.[k]\<close>, and \<open>o[k]\<close>, which throws when there is no object.\<close>

definition property_of :: "(string, string) js_map option \<Rightarrow> string \<Rightarrow> string option" where
  "property_of m k = (case m of None \<Rightarrow> None | Some kvs \<Rightarrow> js_get kvs k)"

definition strict_property :: "string \<Rightarrow> (string, string) js_map option \<Rightarrow> string \<Rightarrow> check_stop + string option" where
  "strict_property object m k = (case m of None \<Rightarrow> Inl (NoObject object) | Some kvs \<Rightarrow> Inr (js_get kvs k))"

definition package_failures :: "workspace \<Rightarrow> check_stop + release_failure list" where
  "package_failures w =
     bind_result (strict_property ''dependencies'' (pj_dependencies (ws_server w)) ''@http3-server/native'') (\<lambda>dependency. Inr
     (checkPublishMetadata (ws_certificates w) @ checkPublishMetadata (ws_native w) @ checkPublishMetadata (ws_server w)
     @ fails_if (ws_rootVersion w \<noteq> release_version w) RootVersion
     @ fails_if (pj_version (ws_native w) \<noteq> release_version w) NativeVersion
     @ fails_if (pj_version (ws_certificates w) \<noteq> release_version w) CertificatesVersion
     @ fails_if (dependency \<noteq> Some (release_version w)) ServerDependency))"

definition libc_field :: "string option \<Rightarrow> package_libc" where
  "libc_field v = (case v of None \<Rightarrow> NoLibc | Some s \<Rightarrow> LibcName s)"

definition platform_package_failures :: "workspace \<Rightarrow> platform \<Rightarrow> check_stop + release_failure list" where
  "platform_package_failures w p =
     (let pkg = ws_binary w (pf_id p)
      in bind_result (strict_property ''optionalDependencies'' (pj_optionalDependencies (ws_native w)) (pj_name pkg)) (\<lambda>selected. Inr
         (checkPublishMetadata pkg
         @ fails_if (pj_version pkg \<noteq> release_version w) (VersionDiffers (pj_name pkg))
         @ fails_if (pj_os pkg \<noteq> Some [pf_os p]) (WrongOs (pj_name pkg))
         @ fails_if (pj_cpu pkg \<noteq> Some [pf_cpu p]) (WrongCpu (pj_name pkg))
         @ fails_if (pj_libc pkg \<noteq> libc_field (pf_libc p)) (WrongLibc (pj_name pkg))
         @ fails_if (selected \<noteq> Some (release_version w)) (NotSelected (pj_name pkg))
         @ fails_if (property_of (pj_exports pkg) ''.'' \<noteq> Some ''./http3.js'' \<or> property_of (pj_exports pkg) ''./http3.node'' \<noteq> Some ''./http3.node'')
             (NoLoader (pj_name pkg)))))"

text \<open>The loop over the binaries; an architecture that cannot be read ends the script.\<close>

definition binary_failures :: "bool \<Rightarrow> workspace \<Rightarrow> platform \<Rightarrow> string \<Rightarrow> check_stop + release_failure list" where
  "binary_failures workspaceOnly w p name =
     bind_result
       (case ws_files w (pf_id p) name of
          None \<Rightarrow> Inr [BinaryMissing (pf_id p) name]
        | Some bs \<Rightarrow>
            if bs = [] then Inr [BinaryMissing (pf_id p) name]
            else if workspaceOnly then Inr []
            else (case detectNativeArchitecture bs of
                    Inl err \<Rightarrow> Inl (UnreadableArchitecture err)
                  | Inr a \<Rightarrow> Inr (fails_if (a \<noteq> pf_cpu p) (BinaryWrong (pf_id p) name))))
       (\<lambda>fs. Inr (fs @ fails_if (name \<notin> set (pj_files (ws_binary w (pf_id p)))) (BinaryNotPublished (pj_name (ws_binary w (pf_id p))) name)))"

definition binaries_failures :: "bool \<Rightarrow> workspace \<Rightarrow> platform \<Rightarrow> check_stop + release_failure list" where
  "binaries_failures workspaceOnly w p =
     bind_result (map_result (binary_failures workspaceOnly w p) (pf_files p)) (\<lambda>fss. Inr (concat fss))"

definition file_differs :: "file_reader \<Rightarrow> directory \<Rightarrow> build_file \<Rightarrow> bool" where
  "file_differs rd dir f =
     (case dir (bf_name f) of None \<Rightarrow> True | Some bs \<Rightarrow> length bs \<noteq> bf_bytes f \<or> fr_sha256 rd bs \<noteq> bf_sha256 f)"

definition checked_manifest ::
  "file_reader \<Rightarrow> native_baseline \<Rightarrow> platform \<Rightarrow> directory \<Rightarrow> package_json \<Rightarrow> build_manifest \<Rightarrow> release_failure list" where
  "checked_manifest rd nb p dir pkg m =
     (if bm_formatVersion m \<noteq> nb_formatVersion nb \<or> bm_platform m \<noteq> Some (pf_id p) \<or> bm_producer m \<noteq> Some ''msh3-node''
      then [InvalidProvenance (pf_id p)]
      else fails_if (\<not> target_matches p m) (ManifestTarget (pf_id p))
        @ fails_if (pf_libc p \<noteq> None \<and> \<not> concrete_libc m) (ManifestLibc (pf_id p))
        @ fails_if (bm_pins m \<noteq> nb_pins nb) (ManifestBaseline (pf_id p))
        @ fails_if (map bf_name (bm_files m) \<noteq> pf_files p) (ManifestFiles (pf_id p))
        @ map (\<lambda>f. ManifestFile (pf_id p) (bf_name f)) (filter (file_differs rd dir) (bm_files m))
        @ fails_if (''build-manifest.json'' \<notin> set (pj_files pkg)) (ManifestNotPublished (pj_name pkg)))"

definition manifest_failures ::
  "file_reader \<Rightarrow> native_baseline \<Rightarrow> bool \<Rightarrow> workspace \<Rightarrow> platform \<Rightarrow> check_stop + release_failure list" where
  "manifest_failures rd nb requireManifests w p =
     (case ws_files w (pf_id p) ''build-manifest.json'' of
        None \<Rightarrow> Inr (fails_if requireManifests (NoManifest (pf_id p)))
      | Some bs \<Rightarrow> (case fr_manifest rd bs of
          None \<Rightarrow> Inl (NotJson (pf_id p))
        | Some m \<Rightarrow> Inr (checked_manifest rd nb p (ws_files w (pf_id p)) (ws_binary w (pf_id p)) m)))"

definition platform_failures ::
  "file_reader \<Rightarrow> native_baseline \<Rightarrow> bool \<Rightarrow> bool \<Rightarrow> workspace \<Rightarrow> platform \<Rightarrow> check_stop + release_failure list" where
  "platform_failures rd nb requireManifests workspaceOnly w p =
     bind_result (platform_package_failures w p) (\<lambda>as.
     bind_result (binaries_failures workspaceOnly w p) (\<lambda>bs.
     bind_result (manifest_failures rd nb requireManifests w p) (\<lambda>cs. Inr (as @ bs @ cs))))"

definition check_release ::
  "file_reader \<Rightarrow> native_baseline \<Rightarrow> bool \<Rightarrow> bool \<Rightarrow> workspace \<Rightarrow> check_stop + release_failure list" where
  "check_release rd nb requireManifests workspaceOnly w =
     bind_result (package_failures w) (\<lambda>fs.
     bind_result (map_result (platform_failures rd nb requireManifests workspaceOnly w) platforms) (\<lambda>fss.
       Inr (fs @ concat fss)))"

section \<open>Setting the version\<close>

text \<open>The test \<open>/^(0|[1-9]\d*)\.(0|[1-9]\d*)\.(0|[1-9]\d*)(?:-[0-9A-Za-z.-]+)?$/\<close>.\<close>

definition semver_pattern :: "string \<Rightarrow> bool" where
  "semver_pattern v \<longleftrightarrow>
     (let core = takeWhile (\<lambda>c. c \<noteq> CHR ''-'') v; rest = dropWhile (\<lambda>c. c \<noteq> CHR ''-'') v;
          parts = split_on (CHR ''.'') core
      in length parts = 3 \<and> list_all (\<lambda>p. p = ''0'' \<or> (p \<noteq> [] \<and> hd p \<noteq> CHR ''0'' \<and> list_all digit p)) parts
         \<and> (rest = [] \<or> (2 \<le> length rest \<and> list_all (\<lambda>c. digit c \<or> letter c \<or> c = CHR ''.'' \<or> c = CHR ''-'') (tl rest))))"

text \<open>One round of the loop; \<open>None\<close>: the object to change is missing, and the script stops. The files it
  has written before it stops are not modelled.\<close>

definition with_version :: "string \<Rightarrow> package_json \<Rightarrow> package_json option" where
  "with_version version pkg =
     (let p1 = pkg\<lparr>pj_version := version\<rparr>
      in if pj_name p1 = ''@http3-server/server''
         then map_option (\<lambda>d. p1\<lparr>pj_dependencies := Some (js_set d ''@http3-server/native'' version)\<rparr>) (pj_dependencies p1)
         else if pj_name p1 = ''@http3-server/native''
         then map_option (\<lambda>d. p1\<lparr>pj_optionalDependencies := Some (foldl (\<lambda>m name. js_set m name version) d (js_keys d))\<rparr>)
                (pj_optionalDependencies p1)
         else Some p1)"

definition set_version :: "string \<Rightarrow> workspace \<Rightarrow> workspace option" where
  "set_version version w =
     (if \<not> semver_pattern version then None
      else Option.bind (with_version version (ws_certificates w)) (\<lambda>c.
           Option.bind (with_version version (ws_native w)) (\<lambda>n.
           Option.bind (with_version version (ws_server w)) (\<lambda>s.
           if list_all (\<lambda>p. with_version version (ws_binary w (pf_id p)) \<noteq> None) platforms
           then Some (w\<lparr>ws_rootVersion := version, ws_certificates := c, ws_native := n, ws_server := s,
             ws_binary := (\<lambda>i. if i \<in> pf_id ` set platforms
                then (case with_version version (ws_binary w i) of None \<Rightarrow> ws_binary w i | Some b \<Rightarrow> b) else ws_binary w i)\<rparr>)
           else None))))"

section \<open>Facts\<close>

lemma fails_if_simps [simp]: "fails_if False f = []" "fails_if True f = [f]"
  by (simp_all add: fails_if_def)

lemma fails_if_set: "g \<in> set (fails_if b f) \<longleftrightarrow> b \<and> g = f"
  by (auto simp: fails_if_def)

lemma concat_Nil [simp]: "concat (map (\<lambda>x. []) xs) = []"
  by (induction xs) simp_all

lemma check_import_files_Inr:
  "check_import_files rd p source fs = Inr () \<longleftrightarrow>
     (\<forall>f \<in> set fs. bf_architecture f = Some (pf_cpu p)
        \<and> (\<exists>bs. source (bf_name f) = Some bs \<and> length bs = bf_bytes f \<and> fr_sha256 rd bs = bf_sha256 f
             \<and> detectNativeArchitecture bs = Inr (pf_cpu p)))"
  by (induction fs) (auto split: option.splits sum.splits if_splits)

lemma validate_import_Inr:
  assumes "validate_import rd nb p source = Inr ()"
  obtains bs m where "source ''build-manifest.json'' = Some bs" and "fr_manifest rd bs = Some m"
    and "bm_formatVersion m = nb_formatVersion nb" "bm_producer m = Some ''msh3-node''" "bm_platform m = Some (pf_id p)"
    and "target_matches p m" and "pf_libc p = None \<or> concrete_libc m" and "bm_pins m = nb_pins nb"
    and "map bf_name (bm_files m) = pf_files p" and "check_import_files rd p source (bm_files m) = Inr ()"
  using assms by (auto simp: validate_import_def bind_eq_Some_conv split: if_splits option.splits)

lemma no_architecture: "detectNativeArchitecture [] = Inl (OutOfRange 0)"
  by (simp add: detectNativeArchitecture_def readUIntLE_def)

lemma map_result_all:
  "(\<And>x. x \<in> set xs \<Longrightarrow> f x = Inr (g x)) \<Longrightarrow> map_result f xs = Inr (map g xs)"
  by (induction xs) auto

section \<open>Properties\<close>

text \<open>what the import accepts, the release check accepts. When the checks of import-binaries.js pass for a platform and the
  package directory then holds the binaries and the manifest of that source, check-release.js reads
  them without an error and lists no failure about them, in every mode.
\<close>

theorem import_passes_release_check:
  assumes "validate_import rd nb p source = Inr ()"
    and "\<And>name. name \<in> set (pf_files p) \<or> name = ''build-manifest.json'' \<Longrightarrow> ws_files w (pf_id p) name = source name"
    and "set (pf_files p) \<subseteq> set (pj_files (ws_binary w (pf_id p)))" "''build-manifest.json'' \<in> set (pj_files (ws_binary w (pf_id p)))"
  shows "binaries_failures workspaceOnly w p = Inr []
    \<and> manifest_failures rd nb requireManifests w p = Inr []"
proof -
  obtain bs m where m: "source ''build-manifest.json'' = Some bs" "fr_manifest rd bs = Some m"
    "bm_formatVersion m = nb_formatVersion nb" "bm_producer m = Some ''msh3-node''" "bm_platform m = Some (pf_id p)"
    "target_matches p m" "pf_libc p = None \<or> concrete_libc m" "bm_pins m = nb_pins nb"
    and names: "map bf_name (bm_files m) = pf_files p" and files: "check_import_files rd p source (bm_files m) = Inr ()"
    by (rule validate_import_Inr [OF assms(1)])
  have held: "\<exists>bs. ws_files w (pf_id p) (bf_name f) = Some bs \<and> length bs = bf_bytes f \<and> fr_sha256 rd bs = bf_sha256 f
      \<and> bs \<noteq> [] \<and> detectNativeArchitecture bs = Inr (pf_cpu p)" if f: "f \<in> set (bm_files m)" for f
  proof -
    have "bf_name f \<in> set (pf_files p)" using f arg_cong [OF names, of set] by auto
    then have "ws_files w (pf_id p) (bf_name f) = source (bf_name f)" by (intro assms(2) disjI1)
    moreover obtain bs where "source (bf_name f) = Some bs" "length bs = bf_bytes f" "fr_sha256 rd bs = bf_sha256 f"
      "detectNativeArchitecture bs = Inr (pf_cpu p)"
      using bspec [OF files [unfolded check_import_files_Inr] f] by blast
    moreover have "bs \<noteq> []" using calculation(5) by (rule contrapos_pn) (simp add: no_architecture)
    ultimately show ?thesis by (intro exI [of _ bs] conjI) simp_all
  qed
  have "binary_failures workspaceOnly w p name = Inr []" if name: "name \<in> set (pf_files p)" for name
  proof -
    obtain f where "f \<in> set (bm_files m)" "name = bf_name f" using name arg_cong [OF names, of set] by auto
    from held [OF this(1)] this(2) name assms(3) show ?thesis by (auto simp: binary_failures_def)
  qed
  then have "binaries_failures workspaceOnly w p = Inr []"
    using map_result_all [of "pf_files p" "binary_failures workspaceOnly w p" "\<lambda>name. []"] by (simp add: binaries_failures_def)
  moreover have "filter (file_differs rd (ws_files w (pf_id p))) (bm_files m) = []"
    using held by (fastforce simp: filter_empty_conv file_differs_def)
  then have "manifest_failures rd nb requireManifests w p = Inr []"
    using m names assms(2) [of "''build-manifest.json''"] assms(4) by (auto simp: manifest_failures_def checked_manifest_def fails_if_def)
  ultimately show ?thesis ..
qed

text \<open>A small binary: the first bytes of an ELF file for x64, a reader that takes the bytes for the hash.\<close>

definition toy_elf :: bytes where
  "toy_elf = [0x7f, 0x45, 0x4c, 0x46] @ replicate 14 0 @ [62, 0]"

definition toy_pins :: source_pins where
  "toy_pins = \<lparr>sp_producerCommit = Some (replicate 40 (CHR ''a'')), sp_msh3Commit = Some ''c'', sp_msquicCommit = Some ''d'', sp_msh3PatchSha256 = Some ''e'',
     sp_msquicPatchSha256 = Some ''f''\<rparr>"

definition toy_platform :: platform where
  "toy_platform = platform_entry ''linux-x64-gnu'' ''linux'' ''x64'' (Some ''glibc'') [''http3.node'']"

definition toy_build :: build_manifest where
  "toy_build = \<lparr>bm_formatVersion = Some 4, bm_producer = Some ''msh3-node'', bm_platform = Some ''linux-x64-gnu'',
     bm_target = Some \<lparr>bt_os = Some ''linux'', bt_cpu = Some ''x64'', bt_libc = Some ''glibc''\<rparr>,
     bm_build = Some \<lparr>bi_baseline = Some ''b'', bi_minimumLibcVersion = Some ''2.31''\<rparr>, bm_pins = toy_pins,
     bm_files = [\<lparr>bf_name = ''http3.node'', bf_bytes = 20, bf_sha256 = ''h'', bf_architecture = Some ''x64''\<rparr>]\<rparr>"

definition toy_reader :: file_reader where
  "toy_reader = \<lparr>fr_sha256 = (\<lambda>bs. ''h''), fr_manifest = (\<lambda>bs. if bs = [1] then Some toy_build else None)\<rparr>"

definition toy_source :: directory where
  "toy_source = [''http3.d.ts'' \<mapsto> [], ''build-manifest.json'' \<mapsto> [1], ''http3.node'' \<mapsto> toy_elf]"

lemma toy_import: "validate_import toy_reader \<lparr>nb_formatVersion = Some 4, nb_pins = toy_pins\<rparr> toy_platform toy_source = Inr ()"
proof -
  have "detectNativeArchitecture toy_elf = Inr ''x64''"
    by (simp add: detectNativeArchitecture_def readUIntLE_def subarray_def toy_elf_def be_val_def)
  moreover have "libc_version (Some ''2.31'')" by code_simp
  ultimately show ?thesis
    by (simp add: validate_import_def toy_source_def toy_reader_def toy_build_def toy_platform_def target_matches_def concrete_libc_def toy_elf_def)
qed

definition toy_package :: "string \<Rightarrow> string list \<Rightarrow> package_json" where
  "toy_package name files = \<lparr>pj_name = name, pj_version = ''1.0.0'', pj_license = Some ''MIT-0'', pj_repositoryUrl = None, pj_publishConfig = None,
     pj_files = files, pj_os = None, pj_cpu = None, pj_libc = NoLibc, pj_dependencies = Some [], pj_optionalDependencies = Some [],
     pj_exports = None\<rparr>"

definition toy_workspace :: workspace where
  "toy_workspace = \<lparr>ws_rootVersion = ''1.0.0'', ws_certificates = toy_package ''c'' [],
     ws_native = (toy_package ''@http3-server/native'' [])\<lparr>pj_optionalDependencies := Some (map (\<lambda>p. (pf_id p, ''1.0.0'')) platforms)\<rparr>,
     ws_server = toy_package ''@http3-server/server'' [], ws_binary = (\<lambda>i. toy_package i [''http3.node'', ''build-manifest.json'']),
     ws_files = (\<lambda>i. toy_source)\<rparr>"

theorem import_passes_release_check_witness:
  "binaries_failures False toy_workspace toy_platform = Inr []
    \<and> manifest_failures toy_reader \<lparr>nb_formatVersion = Some 4, nb_pins = toy_pins\<rparr> True toy_workspace toy_platform = Inr []"
proof (rule import_passes_release_check [OF toy_import])
  show "ws_files toy_workspace (pf_id toy_platform) name = toy_source name" for name by (simp add: toy_workspace_def)
  show "set (pf_files toy_platform) \<subseteq> set (pj_files (ws_binary toy_workspace (pf_id toy_platform)))"
    "''build-manifest.json'' \<in> set (pj_files (ws_binary toy_workspace (pf_id toy_platform)))"
    by (simp_all add: toy_workspace_def toy_platform_def toy_package_def)
qed

lemma set_all_get: "js_get (foldl (\<lambda>m name. js_set m name v) d ks) k = (if k \<in> set ks then Some v else js_get d k)"
  by (induction ks arbitrary: d) auto

lemma with_version_simps:
  assumes "with_version v pkg = Some p"
  shows "pj_version p = v" "pj_name p = pj_name pkg"
    "pj_name pkg = ''@http3-server/server'' \<Longrightarrow> \<exists>d. pj_dependencies p = Some d \<and> js_get d ''@http3-server/native'' = Some v"
    "pj_name pkg = ''@http3-server/native'' \<Longrightarrow> \<exists>d e. pj_optionalDependencies pkg = Some d \<and> pj_optionalDependencies p = Some e
       \<and> (\<forall>k. js_get d k \<noteq> None \<longrightarrow> js_get e k = Some v)"
  using assms by (auto simp: with_version_def Let_def set_all_get js_keys_set_iff split: if_splits)

text \<open>C33: after set-version.js the versions agree. When it succeeds on a workspace whose server and native packages have their names and
  whose native package selects every platform package, check-release.js finds no version or dependency that differs,
  for any package of the release.
\<close>

theorem version_set_everywhere:
  assumes "set_version v w = Some w'"
    and "pj_name (ws_server w) = ''@http3-server/server''" "pj_name (ws_native w) = ''@http3-server/native''"
    and "\<And>p. p \<in> set platforms \<Longrightarrow> property_of (pj_optionalDependencies (ws_native w)) (pj_name (ws_binary w (pf_id p))) \<noteq> None"
  shows "\<exists>fs. package_failures w' = Inr fs \<and> set fs \<inter> {RootVersion, NativeVersion, CertificatesVersion, ServerDependency} = {}
    \<and> (\<forall>p \<in> set platforms. \<exists>gs. platform_package_failures w' p = Inr gs \<and> (\<forall>name. VersionDiffers name \<notin> set gs \<and> NotSelected name \<notin> set gs))"
proof -
  obtain c n s where c: "with_version v (ws_certificates w) = Some c" and n: "with_version v (ws_native w) = Some n"
    and s: "with_version v (ws_server w) = Some s"
    and b: "\<And>p. p \<in> set platforms \<Longrightarrow> with_version v (ws_binary w (pf_id p)) \<noteq> None"
    and w': "w' = w\<lparr>ws_rootVersion := v, ws_certificates := c, ws_native := n, ws_server := s,
             ws_binary := (\<lambda>i. if i \<in> pf_id ` set platforms
                then (case with_version v (ws_binary w i) of None \<Rightarrow> ws_binary w i | Some b \<Rightarrow> b) else ws_binary w i)\<rparr>"
    using assms(1) by (auto simp: set_version_def bind_eq_Some_conv list_all_iff split: if_splits)
  obtain d where d: "pj_dependencies s = Some d" "js_get d ''@http3-server/native'' = Some v"
    using with_version_simps(3) [OF s assms(2)] by blast
  obtain e e' where e: "pj_optionalDependencies (ws_native w) = Some e" "pj_optionalDependencies n = Some e'"
    "\<And>k. js_get e k \<noteq> None \<Longrightarrow> js_get e' k = Some v"
    using with_version_simps(4) [OF n assms(3)] by blast
  have meta: "f \<notin> set (checkPublishMetadata q)"
    if "f \<in> {RootVersion, NativeVersion, CertificatesVersion, ServerDependency} \<union> range VersionDiffers \<union> range NotSelected" for f q
    using that by (auto simp: checkPublishMetadata_def fails_if_set)
  have packages: "\<exists>fs. package_failures w' = Inr fs \<and> set fs \<inter> {RootVersion, NativeVersion, CertificatesVersion, ServerDependency} = {}"
    using d meta with_version_simps(1) [OF c] with_version_simps(1) [OF n] with_version_simps(1) [OF s]
    by (auto simp: package_failures_def strict_property_def w' fails_if_set)
  have "\<exists>gs. platform_package_failures w' p = Inr gs \<and> (\<forall>name. VersionDiffers name \<notin> set gs \<and> NotSelected name \<notin> set gs)"
    if p: "p \<in> set platforms" for p
  proof -
    obtain q where q: "with_version v (ws_binary w (pf_id p)) = Some q" using b [OF p] by blast
    have "ws_binary w' (pf_id p) = q" using q p by (simp add: w')
    moreover have "js_get e' (pj_name q) = Some v"
      using assms(4) [OF p] e with_version_simps(2) [OF q] by (simp add: property_of_def)
    ultimately show ?thesis
      using e(2) meta with_version_simps(1) [OF q] with_version_simps(1) [OF s]
      by (auto simp: platform_package_failures_def Let_def strict_property_def w' fails_if_set)
  qed
  then show ?thesis using packages by blast
qed

theorem version_set_everywhere_witness:
  "\<exists>w'. set_version ''2.0.1'' toy_workspace = Some w' \<and> (\<exists>fs. package_failures w' = Inr fs \<and> NativeVersion \<notin> set fs)"
proof -
  have v: "semver_pattern ''2.0.1''" by code_simp
  obtain w' where w': "set_version ''2.0.1'' toy_workspace = Some w'"
    using v by (simp add: set_version_def toy_workspace_def toy_package_def with_version_def platforms_def)
  have "property_of (pj_optionalDependencies (ws_native toy_workspace)) (pj_name (ws_binary toy_workspace (pf_id p))) \<noteq> None"
    if "p \<in> set platforms" for p
    using that by (auto simp: property_of_def toy_workspace_def toy_package_def platforms_def js_get_def)
  moreover have "pj_name (ws_server toy_workspace) = ''@http3-server/server''" "pj_name (ws_native toy_workspace) = ''@http3-server/native''"
    by (simp_all add: toy_workspace_def toy_package_def)
  ultimately show ?thesis using version_set_everywhere [OF w'] w' by blast
qed

text \<open>the versions set-version.js accepts are those that promote-release.js accepts and that have no number with a
  leading zero, so every version that can be set can be promoted.
\<close>

theorem settable_versions:
  "semver_pattern v \<longleftrightarrow> version_pattern v
     \<and> list_all (\<lambda>p. p = ''0'' \<or> hd p \<noteq> CHR ''0'') (split_on (CHR ''.'') (takeWhile (\<lambda>c. c \<noteq> CHR ''-'') v))"
proof -
  have zero: "digit CHR ''0''" by code_simp
  have "list_all (\<lambda>p. p = ''0'' \<or> (p \<noteq> [] \<and> hd p \<noteq> CHR ''0'' \<and> list_all digit p)) ps
      \<longleftrightarrow> list_all (\<lambda>p. p \<noteq> [] \<and> list_all digit p) ps \<and> list_all (\<lambda>p. p = ''0'' \<or> hd p \<noteq> CHR ''0'') ps" for ps
    by (induction ps) (auto simp: zero)
  then show ?thesis by (auto simp: semver_pattern_def version_pattern_def Let_def)
qed

end
