(* ===== verification/Candidate.thy ===== *)
theory Candidate
  imports Release_Checks
begin

text \<open>
  The release candidate: scripts/pack-release.js, which packs it and puts it in place, and
  scripts/verify-candidate.js, which checks it. \<open>npm pack\<close> is a parameter.
\<close>

section \<open>The candidate manifest\<close>

record manifest_package = candidate_package +
  mp_version :: string
  mp_bytes :: nat
  mp_sha256 :: string
  mp_dependencies :: "(string, string) js_map option"
  mp_optionalDependencies :: "(string, string) js_map option"
  mp_publishConfig :: "publish_config option"
  mp_os :: "string list option"
  mp_cpu :: "string list option"
  mp_libc :: package_libc
  mp_files :: "(string \<times> nat) list"
  mp_buildManifest :: "build_manifest option"

record packed_manifest =
  pm_formatVersion :: nat
  pm_scope :: string
  pm_releaseVersion :: string
  pm_sourceCommit :: string
  pm_packages :: "manifest_package list"
  pm_securityFilename :: string
  pm_securityBytes :: nat
  pm_securitySha256 :: string

section \<open>Packing\<close>

text \<open>The entry npm prints for a package, and the bytes of the tarball it writes.\<close>

record packed =
  pk_name :: string
  pk_version :: string
  pk_filename :: string
  pk_integrity :: string
  pk_files :: "(string \<times> nat) list"
  pk_tarball :: bytes

datatype pack_error =
    NoPlatform
  | PackFailed string
  | UnexpectedIdentity string
  | Omitted string string
  | NoBuildManifest string
  | NoSecurityPolicy

text \<open>A directory to pack: its path, its package.json, and the platform when it is one of a platform.\<close>

type_synonym package_source = "string \<times> package_json \<times> string option"

definition package_sources :: "workspace \<Rightarrow> platform list \<Rightarrow> package_source list" where
  "package_sources w selected =
     map (\<lambda>p. (''binaries/'' @ pf_id p, ws_binary w (pf_id p), Some (pf_id p))) selected
     @ [(''packages/dev-certificates'', ws_certificates w, None), (''packages/native'', ws_native w, None),
        (''packages/server'', ws_server w, None)]"

text \<open>The keys of the records are sorted in the file; their order is not modelled.\<close>

definition packed_entry :: "file_reader \<Rightarrow> package_json \<Rightarrow> packed \<Rightarrow> build_manifest option \<Rightarrow> manifest_package" where
  "packed_entry rd pkg out manifest =
     \<lparr>cp_name = pj_name pkg, cp_filename = pk_filename out, cp_integrity = pk_integrity out, mp_version = pj_version pkg,
      mp_bytes = length (pk_tarball out), mp_sha256 = fr_sha256 rd (pk_tarball out), mp_dependencies = pj_dependencies pkg,
      mp_optionalDependencies = pj_optionalDependencies pkg, mp_publishConfig = pj_publishConfig pkg, mp_os = pj_os pkg,
      mp_cpu = pj_cpu pkg, mp_libc = pj_libc pkg, mp_files = pk_files out, mp_buildManifest = manifest\<rparr>"

definition pack_one ::
  "file_reader \<Rightarrow> (string \<Rightarrow> packed option) \<Rightarrow> workspace \<Rightarrow> package_source \<Rightarrow> directory \<Rightarrow> pack_error + directory \<times> manifest_package" where
  "pack_one rd npm w source dir =
     (case source of (path, pkg, platform_id) \<Rightarrow>
      case npm path of
        None \<Rightarrow> Inl (PackFailed path)
      | Some out \<Rightarrow>
          if pk_name out \<noteq> pj_name pkg \<or> pk_version out \<noteq> pj_version pkg then Inl (UnexpectedIdentity path)
          else (case find (\<lambda>f. f \<notin> fst ` set (pk_files out)) (pj_files pkg) of
              Some f \<Rightarrow> Inl (Omitted (pj_name pkg) f)
            | None \<Rightarrow>
                bind_result
                  (case platform_id of
                     None \<Rightarrow> Inr None
                   | Some i \<Rightarrow> (case Option.bind (ws_files w i ''build-manifest.json'') (fr_manifest rd) of
                       None \<Rightarrow> Inl (NoBuildManifest i) | Some m \<Rightarrow> Inr (Some m)))
                  (\<lambda>manifest. Inr (dir(pk_filename out \<mapsto> pk_tarball out), packed_entry rd pkg out manifest))))"

fun pack_all ::
  "file_reader \<Rightarrow> (string \<Rightarrow> packed option) \<Rightarrow> workspace \<Rightarrow> package_source list \<Rightarrow> directory
    \<Rightarrow> pack_error + directory \<times> manifest_package list" where
  "pack_all rd npm w [] dir = Inr (dir, [])"
| "pack_all rd npm w (s # ss) dir =
     bind_result (pack_one rd npm w s dir) (\<lambda>(dir1, entry).
     bind_result (pack_all rd npm w ss dir1) (\<lambda>(dir2, entries). Inr (dir2, entry # entries)))"

text \<open>Up to the manifest. \<open>commit\<close> is what git prints, \<open>security\<close> the file SECURITY.md.\<close>

definition pack_candidate ::
  "file_reader \<Rightarrow> (string \<Rightarrow> packed option) \<Rightarrow> workspace \<Rightarrow> bool \<Rightarrow> platform list \<Rightarrow> string \<Rightarrow> bytes option
    \<Rightarrow> pack_error + directory \<times> packed_manifest" where
  "pack_candidate rd npm w localOnly selected commit security =
     (if selected = [] then Inl NoPlatform
      else bind_result (pack_all rd npm w (package_sources w selected) Map.empty) (\<lambda>(dir, entries).
        case security of
          None \<Rightarrow> Inl NoSecurityPolicy
        | Some s \<Rightarrow>
            Inr (dir(''SECURITY.md'' \<mapsto> s),
              \<lparr>pm_formatVersion = 1, pm_scope = (if localOnly then ''local'' else ''release''),
               pm_releaseVersion = release_version w, pm_sourceCommit = commit, pm_packages = entries,
               pm_securityFilename = ''SECURITY.md'', pm_securityBytes = length s, pm_securitySha256 = fr_sha256 rd s\<rparr>)))"

definition selected_platforms :: "bool \<Rightarrow> string \<Rightarrow> string \<Rightarrow> report \<Rightarrow> platform list" where
  "selected_platforms localOnly os cpu rep =
     (if localOnly then filter (\<lambda>p. isCurrentPlatform p os cpu rep) platforms else platforms)"

section \<open>Verification\<close>

datatype candidate_error =
    UnsupportedFormat
  | UnsupportedScope
  | WrongPackageCount
  | DuplicatePackage string
  | WrongVersion string
  | NotPublic string
  | NoLicense string
  | TarballDiffers string
  | NoProvenance string
  | NoRevision string
  | TargetMismatch string
  | IncompleteChecksums string
  | SeveralProducers
  | NoCertificatesPackage
  | PackageMissing string
  | WrongEdge string
  | SecurityDiffers

definition hex40 :: "string option \<Rightarrow> bool" where
  "hex40 v = (case v of None \<Rightarrow> False
     | Some s \<Rightarrow> length s = 40 \<and> list_all (\<lambda>c. digit c \<or> (97 \<le> code c \<and> code c \<le> 102)) s)"

definition libc_first :: "package_libc \<Rightarrow> string option" where
  "libc_first l = (case l of NoLibc \<Rightarrow> None | LibcName s \<Rightarrow> Some s | LibcList [] \<Rightarrow> None | LibcList (s # _) \<Rightarrow> Some s)"

definition first_of :: "string list \<Rightarrow> string option" where
  "first_of xs = (case xs of [] \<Rightarrow> None | x # _ \<Rightarrow> Some x)"

definition complete_checksum :: "build_file \<Rightarrow> bool" where
  "complete_checksum f \<longleftrightarrow> bf_sha256 f \<noteq> [] \<and> bf_bytes f \<noteq> 0 \<and> bf_architecture f \<noteq> None \<and> bf_architecture f \<noteq> Some []"

text \<open>The part for a package with \<open>os\<close> and \<open>cpu\<close>: the revision it was built from.\<close>

definition verify_native ::
  "manifest_package \<Rightarrow> string list \<Rightarrow> string list \<Rightarrow> candidate_error + string" where
  "verify_native pkg os cpu =
     (case mp_buildManifest pkg of
        None \<Rightarrow> Inl (NoProvenance (cp_name pkg))
      | Some m \<Rightarrow>
          if bm_formatVersion m \<noteq> Some 4 \<or> bm_producer m \<noteq> Some ''msh3-node'' then Inl (NoProvenance (cp_name pkg))
          else if \<not> hex40 (sp_producerCommit (bm_pins m)) then Inl (NoRevision (cp_name pkg))
          else if Option.bind (bm_target m) bt_os \<noteq> first_of os \<or> Option.bind (bm_target m) bt_cpu \<noteq> first_of cpu
             \<or> Option.bind (bm_target m) bt_libc \<noteq> libc_first (mp_libc pkg) then Inl (TargetMismatch (cp_name pkg))
          else if \<not> list_all complete_checksum (bm_files m) then Inl (IncompleteChecksums (cp_name pkg))
          else Inr (the (sp_producerCommit (bm_pins m))))"

definition verify_package ::
  "file_reader \<Rightarrow> directory \<Rightarrow> string \<Rightarrow> string list \<times> string list \<Rightarrow> manifest_package \<Rightarrow> candidate_error + string list \<times> string list" where
  "verify_package rd dir version seen pkg =
     (case seen of (names, commits) \<Rightarrow>
      if cp_name pkg \<in> set names then Inl (DuplicatePackage (cp_name pkg))
      else if mp_version pkg \<noteq> version then Inl (WrongVersion (cp_name pkg))
      else if \<not> public_with_provenance (mp_publishConfig pkg) then Inl (NotPublic (cp_name pkg))
      else if ''LICENSE.md'' \<notin> fst ` set (mp_files pkg) \<or> ''README.md'' \<notin> fst ` set (mp_files pkg) then Inl (NoLicense (cp_name pkg))
      else if (case dir (cp_filename pkg) of None \<Rightarrow> True | Some bs \<Rightarrow> length bs \<noteq> mp_bytes pkg \<or> fr_sha256 rd bs \<noteq> mp_sha256 pkg)
      then Inl (TarballDiffers (cp_filename pkg))
      else (case (mp_os pkg, mp_cpu pkg) of
              (Some os, Some cpu) \<Rightarrow> bind_result (verify_native pkg os cpu) (\<lambda>commit. Inr (set_add names (cp_name pkg), set_add commits commit))
            | _ \<Rightarrow> Inr (set_add names (cp_name pkg), commits)))"

fun verify_packages ::
  "file_reader \<Rightarrow> directory \<Rightarrow> string \<Rightarrow> string list \<times> string list \<Rightarrow> manifest_package list \<Rightarrow> candidate_error + string list \<times> string list" where
  "verify_packages rd dir version seen [] = Inr seen"
| "verify_packages rd dir version seen (p # ps) =
     bind_result (verify_package rd dir version seen p) (\<lambda>seen'. verify_packages rd dir version seen' ps)"

text \<open>The loop over the names: each package for a platform is an optional dependency of the native one.\<close>

definition verify_edge :: "packed_manifest \<Rightarrow> string \<Rightarrow> candidate_error + unit" where
  "verify_edge m name =
     (case find (\<lambda>p. cp_name p = name) (pm_packages m) of
        None \<Rightarrow> Inr ()
      | Some pkg \<Rightarrow>
          if mp_os pkg = None \<or> mp_cpu pkg = None then Inr ()
          else (case find (\<lambda>p. cp_name p = ''@http3-server/native'') (pm_packages m) of
                  None \<Rightarrow> Inl (PackageMissing ''@http3-server/native'')
                | Some native \<Rightarrow> if property_of (mp_optionalDependencies native) name \<noteq> Some (pm_releaseVersion m)
                    then Inl (WrongEdge name) else Inr ()))"

definition verify_candidate :: "file_reader \<Rightarrow> directory \<Rightarrow> packed_manifest \<Rightarrow> candidate_error + unit" where
  "verify_candidate rd dir m =
     (if pm_formatVersion m \<noteq> 1 then Inl UnsupportedFormat
      else let expectedPackages = (if pm_scope m = ''local'' then 4 else 11)
      in if pm_scope m \<noteq> ''local'' \<and> pm_scope m \<noteq> ''release'' then Inl UnsupportedScope
      else if length (pm_packages m) \<noteq> expectedPackages then Inl WrongPackageCount
      else bind_result (verify_packages rd dir (pm_releaseVersion m) ([], []) (pm_packages m)) (\<lambda>(names, commits).
        if length commits \<noteq> 1 then Inl SeveralProducers
        else if find (\<lambda>p. cp_name p = ''@http3-server/dev-certificates'') (pm_packages m) = None then Inl NoCertificatesPackage
        else (case find (\<lambda>p. cp_name p = ''@http3-server/server'') (pm_packages m) of
            None \<Rightarrow> Inl (PackageMissing ''@http3-server/server'')
          | Some server \<Rightarrow>
              if property_of (mp_dependencies server) ''@http3-server/native'' \<noteq> Some (pm_releaseVersion m)
              then Inl (WrongEdge ''@http3-server/native'')
              else bind_result (map_result (verify_edge m) names) (\<lambda>_.
                case dir (pm_securityFilename m) of
                  None \<Rightarrow> Inl SecurityDiffers
                | Some s \<Rightarrow> if length s \<noteq> pm_securityBytes m \<or> fr_sha256 rd s \<noteq> pm_securitySha256 m then Inl SecurityDiffers
                    else Inr ()))))"

text \<open>The manifest as the publication reads it.\<close>

definition publication_manifest :: "packed_manifest \<Rightarrow> candidate_manifest" where
  "publication_manifest m = \<lparr>cm_scope = pm_scope m, cm_sourceCommit = pm_sourceCommit m, cm_releaseVersion = pm_releaseVersion m,
     cm_packages = map candidate_package.truncate (pm_packages m)\<rparr>"

section \<open>What is packed\<close>

text \<open>The entry \<open>e\<close> was made of the source: the fields of its package.json, its files, its manifest.\<close>

definition packed_from :: "file_reader \<Rightarrow> workspace \<Rightarrow> package_source \<Rightarrow> manifest_package \<Rightarrow> bool" where
  "packed_from rd w s e \<longleftrightarrow>
     (case s of (path, pkg, platform_id) \<Rightarrow>
        (\<exists>out. e = packed_entry rd pkg out (mp_buildManifest e) \<and> set (pj_files pkg) \<subseteq> fst ` set (pk_files out))
        \<and> (case platform_id of None \<Rightarrow> True | Some i \<Rightarrow>
            (\<exists>bs m. ws_files w i ''build-manifest.json'' = Some bs \<and> fr_manifest rd bs = Some m \<and> mp_buildManifest e = Some m)))"

definition tarball_there :: "file_reader \<Rightarrow> directory \<Rightarrow> manifest_package \<Rightarrow> bool" where
  "tarball_there rd dir e \<longleftrightarrow> (\<exists>bs. dir (cp_filename e) = Some bs \<and> length bs = mp_bytes e \<and> fr_sha256 rd bs = mp_sha256 e)"

lemma list_all2_member: "list_all2 P xs ys \<Longrightarrow> x \<in> set xs \<Longrightarrow> \<exists>y \<in> set ys. P x y"
  by (induction rule: list_all2_induct) auto

lemma list_all2_origin: "list_all2 P xs ys \<Longrightarrow> y \<in> set ys \<Longrightarrow> \<exists>x \<in> set xs. P x y"
  by (induction rule: list_all2_induct) auto

lemma pack_one_result:
  assumes "pack_one rd npm w s dir = Inr (dir', e)"
  shows "packed_from rd w s e \<and> tarball_there rd dir' e \<and> (\<forall>f. f \<noteq> cp_filename e \<longrightarrow> dir' f = dir f)"
proof -
  obtain path pkg i where s: "s = (path, pkg, i)" by (cases s) auto
  obtain out where out: "npm path = Some out" using assms by (auto simp: pack_one_def s split: option.splits)
  have files: "find (\<lambda>f. f \<notin> fst ` set (pk_files out)) (pj_files pkg) = None"
    using assms by (auto simp: pack_one_def s out split: if_splits option.splits)
  then have sub: "set (pj_files pkg) \<subseteq> fst ` set (pk_files out)" unfolding find_None_iff by blast
  obtain manifest where m: "case i of None \<Rightarrow> manifest = None | Some i \<Rightarrow>
      (\<exists>bs m. ws_files w i ''build-manifest.json'' = Some bs \<and> fr_manifest rd bs = Some m \<and> manifest = Some m)"
    and r: "dir' = dir(pk_filename out \<mapsto> pk_tarball out)" "e = packed_entry rd pkg out manifest"
    using assms files
    by (cases i) (auto simp: pack_one_def s out result_simps bind_eq_Some_conv split: if_splits option.splits)
  have "mp_buildManifest e = manifest" by (simp add: r packed_entry_def)
  then have "packed_from rd w s e"
    unfolding packed_from_def s prod.case using m sub by (intro conjI exI [of _ out]) (simp_all add: r(2) split: option.splits)
  moreover have "tarball_there rd dir' e" by (simp add: tarball_there_def r packed_entry_def)
  moreover have "cp_filename e = pk_filename out" by (simp add: r packed_entry_def)
  ultimately show ?thesis by (simp add: r(1))
qed

lemma pack_all_result:
  "pack_all rd npm w ss dir = Inr (dir', es) \<Longrightarrow>
     list_all2 (packed_from rd w) ss es \<and> (distinct (map cp_filename es) \<longrightarrow> (\<forall>e \<in> set es. tarball_there rd dir' e))
     \<and> (\<forall>f. f \<notin> cp_filename ` set es \<longrightarrow> dir' f = dir f)"
proof (induction ss arbitrary: dir es)
  case (Cons s ss)
  obtain dir1 e es' where one: "pack_one rd npm w s dir = Inr (dir1, e)" and rest: "pack_all rd npm w ss dir1 = Inr (dir', es')"
    and es: "es = e # es'"
    using Cons.prems by (auto simp: result_simps)
  note one' = pack_one_result [OF one] and rest' = Cons.IH [OF rest]
  have "tarball_there rd dir' e" if "distinct (map cp_filename es)"
  proof -
    have "cp_filename e \<notin> cp_filename ` set es'" using that by (auto simp: es)
    then have "dir' (cp_filename e) = dir1 (cp_filename e)" using rest' by blast
    then show ?thesis using one' by (auto simp: tarball_there_def)
  qed
  then show ?case using one' rest' by (auto simp: es)
qed simp

section \<open>A release without failures\<close>

lemma clean_release:
  assumes "check_release rd nb True False w = Inr []"
  shows "package_failures w = Inr []" and "p \<in> set platforms \<Longrightarrow> platform_package_failures w p = Inr []"
    and "p \<in> set platforms \<Longrightarrow> binaries_failures False w p = Inr []"
    and "p \<in> set platforms \<Longrightarrow> manifest_failures rd nb True w p = Inr []"
proof -
  obtain fs fss where fs: "package_failures w = Inr fs" and fss: "list_all2 (\<lambda>p f. platform_failures rd nb True False w p = Inr f) platforms fss"
    and nil: "fs @ concat fss = []"
    using assms by (auto simp: check_release_def result_simps)
  then show "package_failures w = Inr []" by simp
  have "platform_failures rd nb True False w p = Inr []" if "p \<in> set platforms" for p
  proof -
    obtain f where "f \<in> set fss" "platform_failures rd nb True False w p = Inr f"
      using list_all2_member [OF fss \<open>p \<in> set platforms\<close>] by blast
    then show ?thesis using nil by auto
  qed
  then show "p \<in> set platforms \<Longrightarrow> platform_package_failures w p = Inr []" "p \<in> set platforms \<Longrightarrow> binaries_failures False w p = Inr []"
    "p \<in> set platforms \<Longrightarrow> manifest_failures rd nb True w p = Inr []"
    by (auto simp: platform_failures_def result_simps)
qed

lemma fails_if_Nil [simp]: "fails_if b f = [] \<longleftrightarrow> \<not> b"
  by (simp add: fails_if_def)

lemma clean_metadata:
  "checkPublishMetadata pkg = [] \<Longrightarrow> public_with_provenance (pj_publishConfig pkg) \<and> ''LICENSE.md'' \<in> set (pj_files pkg) \<and> ''README.md'' \<in> set (pj_files pkg)"
  by (simp add: checkPublishMetadata_def)

lemma clean_packages:
  assumes "package_failures w = Inr []"
  shows "checkPublishMetadata (ws_certificates w) = []" "checkPublishMetadata (ws_native w) = []" "checkPublishMetadata (ws_server w) = []"
    "pj_version (ws_native w) = release_version w" "pj_version (ws_certificates w) = release_version w"
    "property_of (pj_dependencies (ws_server w)) ''@http3-server/native'' = Some (release_version w)"
proof -
  obtain d where d: "pj_dependencies (ws_server w) = Some d"
    using assms by (cases "pj_dependencies (ws_server w)") (simp_all add: package_failures_def strict_property_def)
  note parts = assms [unfolded package_failures_def strict_property_def d option.case bind_result.simps sum.inject append_is_Nil_conv fails_if_Nil not_not]
  show "checkPublishMetadata (ws_certificates w) = []" "checkPublishMetadata (ws_native w) = []" "checkPublishMetadata (ws_server w) = []"
    "pj_version (ws_native w) = release_version w" "pj_version (ws_certificates w) = release_version w"
    "property_of (pj_dependencies (ws_server w)) ''@http3-server/native'' = Some (release_version w)"
    unfolding property_of_def d option.case using parts by - (elim conjE, assumption)+
qed

lemma clean_platform:
  assumes "platform_package_failures w p = Inr []"
  shows "checkPublishMetadata (ws_binary w (pf_id p)) = []" "pj_version (ws_binary w (pf_id p)) = release_version w"
    "pj_os (ws_binary w (pf_id p)) = Some [pf_os p]" "pj_cpu (ws_binary w (pf_id p)) = Some [pf_cpu p]"
    "pj_libc (ws_binary w (pf_id p)) = libc_field (pf_libc p)"
    "property_of (pj_optionalDependencies (ws_native w)) (pj_name (ws_binary w (pf_id p))) = Some (release_version w)"
proof -
  obtain d where d: "pj_optionalDependencies (ws_native w) = Some d"
    using assms by (cases "pj_optionalDependencies (ws_native w)") (simp_all add: platform_package_failures_def strict_property_def)
  note parts = assms [unfolded platform_package_failures_def Let_def strict_property_def d option.case bind_result.simps sum.inject
      append_is_Nil_conv fails_if_Nil not_not]
  show "checkPublishMetadata (ws_binary w (pf_id p)) = []" "pj_version (ws_binary w (pf_id p)) = release_version w"
    "pj_os (ws_binary w (pf_id p)) = Some [pf_os p]" "pj_cpu (ws_binary w (pf_id p)) = Some [pf_cpu p]"
    "pj_libc (ws_binary w (pf_id p)) = libc_field (pf_libc p)"
    "property_of (pj_optionalDependencies (ws_native w)) (pj_name (ws_binary w (pf_id p))) = Some (release_version w)"
    unfolding property_of_def d option.case using parts by - (elim conjE, assumption)+
qed

lemma clean_binaries:
  assumes "binaries_failures False w p = Inr []" and "name \<in> set (pf_files p)"
  shows "\<exists>bs. ws_files w (pf_id p) name = Some bs \<and> bs \<noteq> []"
proof -
  obtain fss where fss: "list_all2 (\<lambda>n f. binary_failures False w p n = Inr f) (pf_files p) fss" and nil: "concat fss = []"
    using assms(1) by (auto simp: binaries_failures_def result_simps)
  obtain f where "f \<in> set fss" "binary_failures False w p name = Inr f"
    using list_all2_member [OF fss assms(2)] by blast
  then have "binary_failures False w p name = Inr []" using nil by auto
  then show ?thesis by (auto simp: binary_failures_def result_simps split: option.splits if_splits sum.splits)
qed

text \<open>What the theorem below asks of the repository: the names of its packages, a baseline of format 4 with a
  full commit, a hash that is never empty, and an architecture for each binary, which the import has checked.\<close>

definition named_packages :: "workspace \<Rightarrow> bool" where
  "named_packages w \<longleftrightarrow>
     pj_name (ws_certificates w) = ''@http3-server/dev-certificates'' \<and> pj_name (ws_native w) = ''@http3-server/native''
     \<and> pj_name (ws_server w) = ''@http3-server/server''
     \<and> pj_os (ws_certificates w) = None \<and> pj_os (ws_native w) = None \<and> pj_os (ws_server w) = None
     \<and> (\<forall>p \<in> set platforms. pj_name (ws_binary w (pf_id p)) = ''@http3-server/'' @ pf_id p)"

definition sound_inputs :: "file_reader \<Rightarrow> native_baseline \<Rightarrow> workspace \<Rightarrow> bool" where
  "sound_inputs rd nb w \<longleftrightarrow>
     nb_formatVersion nb = Some 4 \<and> hex40 (sp_producerCommit (nb_pins nb)) \<and> (\<forall>bs. fr_sha256 rd bs \<noteq> [])
     \<and> (\<forall>p \<in> set platforms. \<forall>bs m. ws_files w (pf_id p) ''build-manifest.json'' = Some bs \<longrightarrow> fr_manifest rd bs = Some m \<longrightarrow>
          (\<forall>f \<in> set (bm_files m). bf_architecture f = Some (pf_cpu p)))"

lemma clean_manifest:
  assumes "manifest_failures rd nb True w p = Inr []"
  obtains bs m where "ws_files w (pf_id p) ''build-manifest.json'' = Some bs" and "fr_manifest rd bs = Some m"
    and "bm_formatVersion m = nb_formatVersion nb" "bm_producer m = Some ''msh3-node''" "target_matches p m" "bm_pins m = nb_pins nb"
    and "map bf_name (bm_files m) = pf_files p" and "\<And>f. f \<in> set (bm_files m) \<Longrightarrow> \<not> file_differs rd (ws_files w (pf_id p)) f"
  using assms by (auto simp: manifest_failures_def checked_manifest_def filter_empty_conv split: option.splits if_splits)

lemma platform_cpu: "p \<in> set platforms \<Longrightarrow> pf_cpu p \<noteq> []"
  by (auto simp: platforms_def)

lemma native_verified:
  assumes clean: "check_release rd nb True False w = Inr []" and sound: "sound_inputs rd nb w" and p: "p \<in> set platforms"
    and made: "packed_from rd w (path, ws_binary w (pf_id p), Some (pf_id p)) e"
  shows "mp_os e = Some [pf_os p] \<and> mp_cpu e = Some [pf_cpu p]
    \<and> verify_native e [pf_os p] [pf_cpu p] = Inr (the (sp_producerCommit (nb_pins nb)))"
proof -
  note pkg = clean_platform [OF clean_release(2) [OF clean p]]
  obtain bs m where m: "ws_files w (pf_id p) ''build-manifest.json'' = Some bs" "fr_manifest rd bs = Some m"
    and facts: "bm_formatVersion m = nb_formatVersion nb" "bm_producer m = Some ''msh3-node''" "target_matches p m" "bm_pins m = nb_pins nb"
      "map bf_name (bm_files m) = pf_files p" "\<And>f. f \<in> set (bm_files m) \<Longrightarrow> \<not> file_differs rd (ws_files w (pf_id p)) f"
    using clean_manifest [OF clean_release(4) [OF clean p]] by blast
  have e: "mp_buildManifest e = Some m" and fields: "mp_os e = Some [pf_os p]" "mp_cpu e = Some [pf_cpu p]" "mp_libc e = libc_field (pf_libc p)"
    using made m pkg by (auto simp: packed_from_def packed_entry_def)
  have "complete_checksum f" if f: "f \<in> set (bm_files m)" for f
  proof -
    have "bf_name f \<in> set (pf_files p)" using f arg_cong [OF facts(5), of set] by auto
    then obtain c where "ws_files w (pf_id p) (bf_name f) = Some c" "c \<noteq> []" using clean_binaries [OF clean_release(3) [OF clean p]] by blast
    moreover have "bf_architecture f = Some (pf_cpu p)" using sound p m f by (auto simp: sound_inputs_def)
    moreover have "0 < length c" using \<open>c \<noteq> []\<close> by simp
    ultimately show ?thesis
      using facts(6) [OF f] sound platform_cpu [OF p]
      by (auto simp: file_differs_def complete_checksum_def sound_inputs_def simp flip: length_greater_0_conv)
  qed
  moreover obtain t where "bm_target m = Some t" "bt_os t = Some (pf_os p)" "bt_cpu t = Some (pf_cpu p)" "bt_libc t = pf_libc p"
    using facts(3) by (auto simp: target_matches_def split: option.splits)
  moreover have "libc_first (libc_field (pf_libc p)) = pf_libc p" by (simp add: libc_first_def libc_field_def split: option.split)
  ultimately show ?thesis
    using e fields facts sound by (simp add: verify_native_def list_all_iff sound_inputs_def first_of_def)
qed

lemma package_verified:
  assumes "cp_name e \<notin> set names" and "mp_version e = version" and "public_with_provenance (mp_publishConfig e)"
    and "''LICENSE.md'' \<in> fst ` set (mp_files e)" "''README.md'' \<in> fst ` set (mp_files e)" and "tarball_there rd dir e"
  shows "verify_package rd dir version (names, commits) e =
    (case (mp_os e, mp_cpu e) of
       (Some os, Some cpu) \<Rightarrow> bind_result (verify_native e os cpu) (\<lambda>commit. Inr (names @ [cp_name e], set_add commits commit))
     | _ \<Rightarrow> Inr (names @ [cp_name e], commits))"
  using assms by (auto simp: verify_package_def tarball_there_def set_add_def split: option.splits)

text \<open>The conditions for a list of entries, whose native ones all come from one commit.\<close>

definition entry_ok :: "file_reader \<Rightarrow> directory \<Rightarrow> string \<Rightarrow> string \<Rightarrow> manifest_package \<Rightarrow> bool" where
  "entry_ok rd dir version commit e \<longleftrightarrow>
     mp_version e = version \<and> public_with_provenance (mp_publishConfig e) \<and> ''LICENSE.md'' \<in> fst ` set (mp_files e)
     \<and> ''README.md'' \<in> fst ` set (mp_files e) \<and> tarball_there rd dir e
     \<and> (mp_os e = None \<or> (\<exists>os cpu. mp_os e = Some os \<and> mp_cpu e = Some cpu \<and> verify_native e os cpu = Inr commit))"

lemma single_commit: "set commits \<subseteq> {commit} \<Longrightarrow> distinct commits \<Longrightarrow> commits = [] \<or> commits = [commit]"
  by (cases commits rule: remdups_adj.cases) auto

lemma packages_verified:
  assumes "\<forall>e \<in> set es. entry_ok rd dir version commit e" and "distinct (names @ map cp_name es)" and "set commits \<subseteq> {commit}" "distinct commits"
  shows "verify_packages rd dir version (names, commits) es
    = Inr (names @ map cp_name es, if commits = [] \<and> (\<forall>e \<in> set es. mp_os e = None) then [] else [commit])"
  using assms
proof (induction es arbitrary: names commits)
  case Nil
  then show ?case using single_commit [of commits commit] by auto
next
  case (Cons e es)
  have e: "entry_ok rd dir version commit e" using Cons.prems(1) by simp
  have v: "verify_package rd dir version (names, commits) e =
    (case (mp_os e, mp_cpu e) of
       (Some os, Some cpu) \<Rightarrow> bind_result (verify_native e os cpu) (\<lambda>commit. Inr (names @ [cp_name e], set_add commits commit))
     | _ \<Rightarrow> Inr (names @ [cp_name e], commits))"
    by (rule package_verified) (use e Cons.prems(2) in \<open>auto simp: entry_ok_def\<close>)
  show ?case
  proof (cases "mp_os e")
    case None
    then show ?thesis using Cons v by simp
  next
    case (Some os)
    then obtain cpu where "mp_cpu e = Some cpu" "verify_native e os cpu = Inr commit" using e by (auto simp: entry_ok_def)
    moreover have "set_add commits commit = [commit]"
      using single_commit [OF Cons.prems(3,4)] by (auto simp: set_add_def)
    ultimately show ?thesis using Cons.IH [of "names @ [cp_name e]" "[commit]"] Cons.prems v Some by simp
  qed
qed

section \<open>Composition\<close>

lemma source_names:
  assumes "named_packages w"
  shows "map (\<lambda>(path, pkg, i). pj_name pkg) (package_sources w platforms) =
    map (\<lambda>p. ''@http3-server/'' @ pf_id p) platforms @ [''@http3-server/dev-certificates'', ''@http3-server/native'', ''@http3-server/server'']"
  using assms by (simp add: named_packages_def package_sources_def)

lemma release_names: "map (\<lambda>p. ''@http3-server/'' @ pf_id p) platforms @ [''@http3-server/dev-certificates'', ''@http3-server/native'', ''@http3-server/server'']
    = tl (butlast (butlast publicationOrder)) @ [''@http3-server/dev-certificates'', ''@http3-server/native'', ''@http3-server/server'']"
  by (simp add: platforms_def publicationOrder_def)

lemma packed_fields:
  assumes "packed_from rd w (path, pkg, i) e"
  shows "cp_name e = pj_name pkg" "mp_version e = pj_version pkg" "mp_publishConfig e = pj_publishConfig pkg" "mp_os e = pj_os pkg"
    "mp_dependencies e = pj_dependencies pkg" "mp_optionalDependencies e = pj_optionalDependencies pkg"
    "set (pj_files pkg) \<subseteq> fst ` set (mp_files e)"
proof -
  obtain out where e: "e = packed_entry rd pkg out (mp_buildManifest e)" and files: "set (pj_files pkg) \<subseteq> fst ` set (pk_files out)"
    using assms by (auto simp: packed_from_def)
  show "cp_name e = pj_name pkg" "mp_version e = pj_version pkg" "mp_publishConfig e = pj_publishConfig pkg" "mp_os e = pj_os pkg"
    "mp_dependencies e = pj_dependencies pkg" "mp_optionalDependencies e = pj_optionalDependencies pkg"
    "set (pj_files pkg) \<subseteq> fst ` set (mp_files e)"
    using files by (subst e, simp add: packed_entry_def)+
qed

lemma packed_names: "list_all2 (packed_from rd w) ss es \<Longrightarrow> map cp_name es = map (\<lambda>(path, pkg, i). pj_name pkg) ss"
  by (induction rule: list_all2_induct) (auto dest: packed_fields(1))

text \<open>An entry of a clean release is in order.\<close>

lemma entry_in_order:
  assumes clean: "check_release rd nb True False w = Inr []" and sound: "sound_inputs rd nb w" and named: "named_packages w"
    and s: "s \<in> set (package_sources w platforms)" "packed_from rd w s e" and there: "tarball_there rd dir e"
  shows "entry_ok rd dir (release_version w) (the (sp_producerCommit (nb_pins nb))) e"
proof -
  obtain path pkg i where i: "s = (path, pkg, i)" by (cases s) auto
  note general = clean_packages [OF clean_release(1) [OF clean]]
  have meta: "checkPublishMetadata pkg = []" "pj_version pkg = release_version w"
    using s(1) general clean_platform(1,2) [OF clean_release(2) [OF clean]] by (auto simp: package_sources_def i)
  note e = packed_fields(2,3,7) [OF s(2) [unfolded i]] and os = packed_fields(4) [OF s(2) [unfolded i]]
  have native: "mp_os e = None \<or> (\<exists>os cpu. mp_os e = Some os \<and> mp_cpu e = Some cpu \<and> verify_native e os cpu = Inr (the (sp_producerCommit (nb_pins nb))))"
  proof (cases "i = None")
    case True
    then show ?thesis using s(1) named os by (auto simp: package_sources_def i named_packages_def)
  next
    case False
    then obtain p where p: "p \<in> set platforms" "s = (path, ws_binary w (pf_id p), Some (pf_id p))"
      using s(1) by (auto simp: package_sources_def i)
    from native_verified [OF clean sound p(1) s(2) [unfolded p(2)]] show ?thesis by blast
  qed
  show ?thesis using clean_metadata [OF meta(1)] meta(2) e there native by (auto simp: entry_ok_def)
qed

lemma entries_stored:
  "distinct (map fst kvs) \<Longrightarrow> (\<forall>k \<in> fst ` set kvs. js_get m k = None) \<Longrightarrow>
   js_get (foldl (\<lambda>m (k, v). js_set m k v) m kvs) k = (case map_of kvs k of None \<Rightarrow> js_get m k | Some v \<Rightarrow> Some v)
   \<and> js_size (foldl (\<lambda>m (k, v). js_set m k v) m kvs) = js_size m + length kvs"
proof (induction kvs arbitrary: m)
  case (Cons kv kvs)
  obtain a b where kv: "kv = (a, b)" by fastforce
  have a: "a \<notin> fst ` set kvs" using Cons.prems(1) by (simp add: kv)
  then have "\<forall>k \<in> fst ` set kvs. js_get (js_set m a b) k = None" using Cons.prems(2) by auto
  moreover have "distinct (map fst kvs)" "js_get m a = None" using Cons.prems by (simp_all add: kv)
  moreover have "map_of kvs a = None" using a by (simp add: map_of_eq_None_iff)
  ultimately show ?case using Cons.IH [of "js_set m a b"] by (simp add: kv js_size_set_new split: option.split)
qed simp

lemma publication_possible:
  assumes "cm_scope m = ''release''" and "distinct (map cp_name (cm_packages m))"
    and "set (map cp_name (cm_packages m)) = set publicationOrder"
  shows "\<exists>plan. publicationPlan m (cm_sourceCommit m) (cm_releaseVersion m) = Inr plan"
proof -
  let ?kvs = "map (\<lambda>p. (cp_name p, p)) (cm_packages m)"
  have d: "distinct (map fst ?kvs)" using assms(2) by (simp add: comp_def)
  have got: "js_get (map_of_entries ?kvs) k = map_of ?kvs k" "js_size (map_of_entries ?kvs) = length (cm_packages m)" for k
    using entries_stored [OF d, of "[]" k] by (auto simp: map_of_entries_def js_get_def js_size_def split: option.split)
  have "distinct publicationOrder" by code_simp
  then have "length (cm_packages m) = length publicationOrder"
    using assms(2,3) distinct_card [of "map cp_name (cm_packages m)"] distinct_card [of publicationOrder] by simp
  moreover have "\<exists>p. map_of ?kvs name = Some p" if "name \<in> set publicationOrder" for name
  proof -
    have "name \<in> set (map cp_name (cm_packages m))" unfolding assms(3) by (rule that)
    then have "name \<in> fst ` set ?kvs" by (simp add: image_image)
    then have "map_of ?kvs name \<noteq> None" by (simp only: map_of_eq_None_iff not_not)
    then show ?thesis by blast
  qed
  then have "map_result (\<lambda>name. case map_of ?kvs name of None \<Rightarrow> Inl (MissingPackage name) | Some p \<Rightarrow> Inr p) publicationOrder
      = Inr (map (\<lambda>name. the (map_of ?kvs name)) publicationOrder)"
    by (intro map_result_all) force
  ultimately show ?thesis using assms(1) by (simp add: publicationPlan_def Let_def got)
qed

lemma find_named:
  assumes "x \<in> set xs" and "cp_name x = name"
  obtains y where "find (\<lambda>p. cp_name p = name) xs = Some y" "y \<in> set xs" "cp_name y = name"
proof -
  have "\<exists>y. find (\<lambda>p. cp_name p = name) xs = Some y \<and> y \<in> set xs \<and> cp_name y = name"
    using assms by (induction xs) auto
  then show thesis using that by blast
qed

text \<open>A clean release and what was packed of it: each entry of the manifest with its tarball in the directory.\<close>

definition release_packed :: "file_reader \<Rightarrow> native_baseline \<Rightarrow> workspace \<Rightarrow> directory \<Rightarrow> packed_manifest \<Rightarrow> bool" where
  "release_packed rd nb w dir m \<longleftrightarrow>
     check_release rd nb True False w = Inr [] \<and> sound_inputs rd nb w \<and> named_packages w
     \<and> list_all2 (packed_from rd w) (package_sources w platforms) (pm_packages m)
     \<and> (\<forall>e \<in> set (pm_packages m). tarball_there rd dir e) \<and> pm_releaseVersion m = release_version w"

lemma packed_release:
  assumes "check_release rd nb True False w = Inr []" and "sound_inputs rd nb w" and "named_packages w"
    and "pack_candidate rd npm w False platforms commit security = Inr (dir, m)"
    and apart: "distinct (map cp_filename (pm_packages m))" "''SECURITY.md'' \<notin> cp_filename ` set (pm_packages m)"
  shows "release_packed rd nb w dir m"
    and "\<exists>s. security = Some s \<and> dir ''SECURITY.md'' = Some s \<and> m = \<lparr>pm_formatVersion = 1, pm_scope = ''release'',
      pm_releaseVersion = release_version w, pm_sourceCommit = commit, pm_packages = pm_packages m, pm_securityFilename = ''SECURITY.md'',
      pm_securityBytes = length s, pm_securitySha256 = fr_sha256 rd s\<rparr>"
proof -
  obtain dir1 es s where all: "pack_all rd npm w (package_sources w platforms) Map.empty = Inr (dir1, es)" and s: "security = Some s"
    and r: "dir = dir1(''SECURITY.md'' \<mapsto> s)" "m = \<lparr>pm_formatVersion = 1, pm_scope = ''release'', pm_releaseVersion = release_version w,
      pm_sourceCommit = commit, pm_packages = es, pm_securityFilename = ''SECURITY.md'', pm_securityBytes = length s,
      pm_securitySha256 = fr_sha256 rd s\<rparr>"
    using assms(4) by (auto simp: pack_candidate_def result_simps split: if_splits option.splits)
  have es: "pm_packages m = es" by (simp add: r)
  have made: "list_all2 (packed_from rd w) (package_sources w platforms) es" and tarballs: "\<forall>e \<in> set es. tarball_there rd dir1 e"
    using pack_all_result [OF all] apart es by auto
  have "tarball_there rd dir e" if e: "e \<in> set es" for e
  proof -
    have "cp_filename e \<noteq> ''SECURITY.md''" using imageI [OF e, of cp_filename] apart(2) unfolding es by metis
    then show ?thesis using tarballs e by (simp add: tarball_there_def r)
  qed
  then show "release_packed rd nb w dir m" using assms(1-3) made by (simp add: release_packed_def es) (simp add: r)
  show "\<exists>s. security = Some s \<and> dir ''SECURITY.md'' = Some s \<and> m = \<lparr>pm_formatVersion = 1, pm_scope = ''release'',
      pm_releaseVersion = release_version w, pm_sourceCommit = commit, pm_packages = pm_packages m, pm_securityFilename = ''SECURITY.md'',
      pm_securityBytes = length s, pm_securitySha256 = fr_sha256 rd s\<rparr>"
    using s r by simp
qed

lemma release_packedD:
  assumes "release_packed rd nb w dir m"
  shows "check_release rd nb True False w = Inr []" and "sound_inputs rd nb w" and "named_packages w"
    and "list_all2 (packed_from rd w) (package_sources w platforms) (pm_packages m)"
    and "e \<in> set (pm_packages m) \<Longrightarrow> tarball_there rd dir e" and "pm_releaseVersion m = release_version w"
  using assms unfolding release_packed_def by blast+

lemma release_set:
  assumes "release_packed rd nb w dir m"
  shows "distinct (map cp_name (pm_packages m))" and "length (pm_packages m) = 11"
    and "set (map cp_name (pm_packages m)) = set publicationOrder"
proof -
  have order: "map cp_name (pm_packages m) = map (\<lambda>p. ''@http3-server/'' @ pf_id p) platforms
      @ [''@http3-server/dev-certificates'', ''@http3-server/native'', ''@http3-server/server'']"
    using packed_names [OF release_packedD(4) [OF assms]] source_names [OF release_packedD(3) [OF assms]] by simp
  show "distinct (map cp_name (pm_packages m))" and "length (pm_packages m) = 11"
    and "set (map cp_name (pm_packages m)) = set publicationOrder"
    unfolding order using arg_cong [OF order, of length] by (auto simp: platforms_def publicationOrder_def)
qed

lemma release_origin:
  assumes "release_packed rd nb w dir m" and "e \<in> set (pm_packages m)"
  obtains path pkg i where "(path, pkg, i) \<in> set (package_sources w platforms)" and "packed_from rd w (path, pkg, i) e"
  using list_all2_origin [OF release_packedD(4) [OF assms(1)] assms(2)] by (metis prod_cases3)

lemma release_verified:
  assumes "release_packed rd nb w dir m"
  shows "verify_packages rd dir (release_version w) ([], []) (pm_packages m)
    = Inr (map cp_name (pm_packages m), [the (sp_producerCommit (nb_pins nb))])"
proof -
  note facts = release_packedD(1-3) [OF assms]
  have ok: "\<forall>e \<in> set (pm_packages m). entry_ok rd dir (release_version w) (the (sp_producerCommit (nb_pins nb))) e"
    using list_all2_origin [OF release_packedD(4) [OF assms]] entry_in_order [OF facts _ _ release_packedD(5) [OF assms]] by blast
  have "platforms \<noteq> []" by (simp add: platforms_def)
  then obtain p where p: "p \<in> set platforms" by (metis list.set_intros(1) neq_Nil_conv)
  then have "(''binaries/'' @ pf_id p, ws_binary w (pf_id p), Some (pf_id p)) \<in> set (package_sources w platforms)"
    by (simp add: package_sources_def)
  from list_all2_member [OF release_packedD(4) [OF assms] this] native_verified [OF facts(1,2) p]
  have "\<exists>e \<in> set (pm_packages m). mp_os e \<noteq> None" by blast
  then show ?thesis using packages_verified [OF ok, of "[]" "[]"] release_set(1) [OF assms] by auto
qed

lemma release_entry:
  assumes "release_packed rd nb w dir m" and "(path, pkg, i) \<in> set (package_sources w platforms)" and "pj_name pkg = name"
  obtains e where "find (\<lambda>p. cp_name p = name) (pm_packages m) = Some e" and "packed_from rd w (path, pkg, i) e"
proof -
  obtain e where e: "e \<in> set (pm_packages m)" "packed_from rd w (path, pkg, i) e"
    using list_all2_member [OF release_packedD(4) [OF assms(1)] assms(2)] by blast
  have n: "cp_name e = name" using packed_fields(1) [OF e(2)] assms(3) by simp
  obtain y where y: "find (\<lambda>p. cp_name p = name) (pm_packages m) = Some y" "y \<in> set (pm_packages m)" "cp_name y = name"
    by (rule find_named [OF e(1) n])
  have "y = e" using release_set(1) [OF assms(1)] y(2,3) e(1) n by (simp add: distinct_map inj_on_def)
  then show thesis using y(1) e(2) that by blast
qed

lemma named_packagesD:
  assumes "named_packages w"
  shows "pj_name (ws_certificates w) = ''@http3-server/dev-certificates''" "pj_name (ws_native w) = ''@http3-server/native''"
    "pj_name (ws_server w) = ''@http3-server/server''" "pj_os (ws_certificates w) = None" "pj_os (ws_native w) = None" "pj_os (ws_server w) = None"
  using assms unfolding named_packages_def by - (elim conjE, assumption)+

lemma loader_sources:
  "(''packages/dev-certificates'', ws_certificates w, None) \<in> set (package_sources w platforms)"
  "(''packages/native'', ws_native w, None) \<in> set (package_sources w platforms)"
  "(''packages/server'', ws_server w, None) \<in> set (package_sources w platforms)"
  by (simp_all add: package_sources_def)

lemma release_edge:
  assumes "release_packed rd nb w dir m" and "name \<in> set (map cp_name (pm_packages m))"
  shows "verify_edge m name = Inr ()"
proof -
  note named = named_packagesD [OF release_packedD(3) [OF assms(1)]]
  obtain native where native: "find (\<lambda>p. cp_name p = ''@http3-server/native'') (pm_packages m) = Some native"
    and native': "mp_optionalDependencies native = pj_optionalDependencies (ws_native w)"
    by (rule release_entry [OF assms(1) loader_sources(2) named(2)]) (use packed_fields(6) in blast)
  obtain e0 where e0: "e0 \<in> set (pm_packages m)" "cp_name e0 = name" using assms(2) by auto
  obtain e where e: "find (\<lambda>p. cp_name p = name) (pm_packages m) = Some e" "e \<in> set (pm_packages m)" "cp_name e = name"
    by (rule find_named [OF e0])
  obtain path pkg i where x: "(path, pkg, i) \<in> set (package_sources w platforms)" "packed_from rd w (path, pkg, i) e"
    by (rule release_origin [OF assms(1) e(2)])
  show ?thesis
  proof (cases "mp_os e = None")
    case True
    then show ?thesis using e(1) by (simp add: verify_edge_def)
  next
    case False
    then have "pj_os pkg \<noteq> None" using packed_fields(4) [OF x(2)] by simp
    then obtain p where p: "p \<in> set platforms" "pkg = ws_binary w (pf_id p)" using x(1) named by (auto simp: package_sources_def)
    have "property_of (mp_optionalDependencies native) name = Some (release_version w)"
      using clean_platform(6) [OF clean_release(2) [OF release_packedD(1) [OF assms(1)] p(1)]] packed_fields(1) [OF x(2)] e(3) native' p(2) by simp
    then show ?thesis using e(1) native release_packedD(6) [OF assms(1)] by (simp add: verify_edge_def)
  qed
qed

lemma clean_candidate_verifies:
  assumes "check_release rd nb True False w = Inr []" and "sound_inputs rd nb w" and "named_packages w"
    and "pack_candidate rd npm w False platforms commit security = Inr (dir, m)"
    and "distinct (map cp_filename (pm_packages m))" "''SECURITY.md'' \<notin> cp_filename ` set (pm_packages m)"
  shows "verify_candidate rd dir m = Inr ()"
proof -
  note r = packed_release(1) [OF assms]
  obtain s where s: "dir ''SECURITY.md'' = Some s" and m: "m = \<lparr>pm_formatVersion = 1, pm_scope = ''release'',
      pm_releaseVersion = release_version w, pm_sourceCommit = commit, pm_packages = pm_packages m, pm_securityFilename = ''SECURITY.md'',
      pm_securityBytes = length s, pm_securitySha256 = fr_sha256 rd s\<rparr>"
    using packed_release(2) [OF assms] by blast
  have fields: "pm_formatVersion m = 1" "pm_scope m = ''release''" "pm_releaseVersion m = release_version w"
    "pm_securityFilename m = ''SECURITY.md''" "pm_securityBytes m = length s" "pm_securitySha256 m = fr_sha256 rd s"
    by (subst m, simp)+
  note named = named_packagesD [OF assms(3)]
  obtain certs where certs: "find (\<lambda>p. cp_name p = ''@http3-server/dev-certificates'') (pm_packages m) = Some certs"
    by (rule release_entry [OF r loader_sources(1) named(1)]) blast
  obtain server where server: "find (\<lambda>p. cp_name p = ''@http3-server/server'') (pm_packages m) = Some server"
    and server': "mp_dependencies server = pj_dependencies (ws_server w)"
    by (rule release_entry [OF r loader_sources(3) named(3)]) (use packed_fields(5) in blast)
  have edges: "map_result (verify_edge m) (map cp_name (pm_packages m)) = Inr (map (\<lambda>x. ()) (map cp_name (pm_packages m)))"
    by (rule map_result_all) (rule release_edge [OF r])
  show ?thesis
    unfolding verify_candidate_def Let_def fields
    using release_set(2) [OF r] release_verified [OF r] certs server server' clean_packages(6) [OF clean_release(1) [OF assms(1)]] edges s
    by (simp add: fields)
qed

lemma clean_candidate_planned:
  assumes "check_release rd nb True False w = Inr []" and "sound_inputs rd nb w" and "named_packages w"
    and "pack_candidate rd npm w False platforms commit security = Inr (dir, m)"
    and "distinct (map cp_filename (pm_packages m))" "''SECURITY.md'' \<notin> cp_filename ` set (pm_packages m)"
  shows "\<exists>plan. publicationPlan (publication_manifest m) commit (release_version w) = Inr plan \<and> map cp_name plan = publicationOrder"
proof -
  note r = packed_release(1) [OF assms]
  obtain s where m: "m = \<lparr>pm_formatVersion = 1, pm_scope = ''release'',
      pm_releaseVersion = release_version w, pm_sourceCommit = commit, pm_packages = pm_packages m, pm_securityFilename = ''SECURITY.md'',
      pm_securityBytes = length s, pm_securitySha256 = fr_sha256 rd s\<rparr>"
    using packed_release(2) [OF assms] by blast
  have names: "map cp_name (cm_packages (publication_manifest m)) = map cp_name (pm_packages m)"
    by (simp add: publication_manifest_def candidate_package.defs comp_def)
  have "pm_scope m = ''release''" "pm_sourceCommit m = commit" "pm_releaseVersion m = release_version w" by (subst m, simp)+
  then have "\<exists>plan. publicationPlan (publication_manifest m) commit (release_version w) = Inr plan"
    using publication_possible [of "publication_manifest m"] release_set(1,3) [OF r] unfolding names by (simp add: publication_manifest_def)
  then show ?thesis using publicationPlan_Inr(1) by blast
qed

text \<open>C11: a release without failures packs into a candidate that verifies and can be published. When check-release.js in its strict mode lists no
  failure, and npm names its tarballs apart, then what pack-release.js packs of all platforms passes
  verify-candidate.js, and publish-candidate.js finds every package of the publication in it.
\<close>

theorem clean_release_verifies:
  assumes clean: "check_release rd nb True False w = Inr []" and sound: "sound_inputs rd nb w" and named: "named_packages w"
    and packed: "pack_candidate rd npm w False platforms commit security = Inr (dir, m)"
    and apart: "distinct (map cp_filename (pm_packages m))" "''SECURITY.md'' \<notin> cp_filename ` set (pm_packages m)"
  shows "verify_candidate rd dir m = Inr ()
    \<and> (\<exists>plan. publicationPlan (publication_manifest m) commit (release_version w) = Inr plan \<and> map cp_name plan = publicationOrder)"
  using clean_candidate_verifies [OF assms] clean_candidate_planned [OF assms] by blast

end
