(* ===== verification/Import_Transaction.thy ===== *)
theory Import_Transaction
  imports Prelude
begin

text \<open>
  \<open>commitImports\<close> of scripts/import-binaries.js: replacing several package directories in one
  transaction that can be rolled back. Each directory has a number; a place holds a directory tree,
  named by a number, or nothing. Every call of the file system and of the hook \<open>beforeInstall\<close>
  counts as an operation, and \<open>fails\<close> tells which operations throw.
\<close>

section \<open>The file system of a transaction\<close>

record import_fs =
  live :: "nat \<Rightarrow> nat option"
  staged :: "nat \<Rightarrow> nat option"
  backup :: "nat \<Rightarrow> nat option"
  transactionRoot :: bool
  operations :: nat

type_synonym failures = "nat \<Rightarrow> bool"

text \<open>One operation: the state after it, and whether it succeeded.\<close>

definition operation :: "failures \<Rightarrow> (import_fs \<Rightarrow> import_fs) \<Rightarrow> import_fs \<Rightarrow> import_fs \<times> bool" where
  "operation fails f s =
     (let s1 = s\<lparr>operations := operations s + 1\<rparr> in if fails (operations s) then (s1, False) else (f s1, True))"

text \<open>The effects: \<open>renameSync\<close> between the places, \<open>rmSync\<close> of a live directory, and of the whole
  transaction. A rename needs its source; here it is always there.\<close>

definition live_to_backup :: "nat \<Rightarrow> import_fs \<Rightarrow> import_fs" where
  "live_to_backup i s = s\<lparr>backup := (backup s)(i := live s i), live := (live s)(i := None)\<rparr>"

definition backup_to_live :: "nat \<Rightarrow> import_fs \<Rightarrow> import_fs" where
  "backup_to_live i s = s\<lparr>live := (live s)(i := backup s i), backup := (backup s)(i := None)\<rparr>"

definition staged_to_live :: "nat \<Rightarrow> import_fs \<Rightarrow> import_fs" where
  "staged_to_live i s = s\<lparr>live := (live s)(i := staged s i), staged := (staged s)(i := None)\<rparr>"

definition remove_live :: "nat \<Rightarrow> import_fs \<Rightarrow> import_fs" where
  "remove_live i s = s\<lparr>live := (live s)(i := None)\<rparr>"

definition remove_root :: "import_fs \<Rightarrow> import_fs" where
  "remove_root s = s\<lparr>staged := (\<lambda>_. None), backup := (\<lambda>_. None), transactionRoot := False\<rparr>"

section \<open>The transaction\<close>

text \<open>Staging a directory copies the live one and then the \<open>copies\<close> new files over it; the result is
  the tree \<open>new i\<close>.\<close>

fun copy_files :: "failures \<Rightarrow> nat \<Rightarrow> import_fs \<Rightarrow> import_fs \<times> bool" where
  "copy_files fails 0 s = (s, True)"
| "copy_files fails (Suc n) s =
     (case operation fails (\<lambda>t. t) s of (s1, ok) \<Rightarrow> if ok then copy_files fails n s1 else (s1, False))"

definition stage_one :: "failures \<Rightarrow> (nat \<Rightarrow> nat) \<Rightarrow> (nat \<Rightarrow> nat) \<Rightarrow> nat \<Rightarrow> import_fs \<Rightarrow> import_fs \<times> bool" where
  "stage_one fails copies new i s =
     (case copy_files fails (Suc (copies i)) s of
        (s1, ok) \<Rightarrow> if ok then (s1\<lparr>staged := (staged s1)(i \<mapsto> new i)\<rparr>, True) else (s1, False))"

fun stage_all :: "failures \<Rightarrow> (nat \<Rightarrow> nat) \<Rightarrow> (nat \<Rightarrow> nat) \<Rightarrow> nat list \<Rightarrow> import_fs \<Rightarrow> import_fs \<times> bool" where
  "stage_all fails copies new [] s = (s, True)"
| "stage_all fails copies new (i # is) s =
     (case stage_one fails copies new i s of
        (s1, ok) \<Rightarrow> if ok then stage_all fails copies new is s1 else (s1, False))"

text \<open>The body of the loop: \<open>mkdirSync\<close>, the rename to the backup, the hook, the rename of the staged
  directory, and the inner \<open>catch\<close>, whose error is the one that is thrown when the way back fails too.\<close>

definition replace_one :: "failures \<Rightarrow> nat \<Rightarrow> import_fs \<Rightarrow> import_fs \<times> bool" where
  "replace_one fails i s =
     (case operation fails (\<lambda>t. t) s of (s1, ok1) \<Rightarrow>
      if \<not> ok1 then (s1, False) else
      case operation fails (live_to_backup i) s1 of (s2, ok2) \<Rightarrow>
      if \<not> ok2 then (s2, False) else
      case operation fails (\<lambda>t. t) s2 of (s3, ok3) \<Rightarrow>
      case (if ok3 then operation fails (staged_to_live i) s3 else (s3, False)) of (s4, ok4) \<Rightarrow>
      if ok4 then (s4, True) else (fst (operation fails (backup_to_live i) s4), False))"

fun replace_all :: "failures \<Rightarrow> nat list \<Rightarrow> nat list \<Rightarrow> import_fs \<Rightarrow> import_fs \<times> nat list \<times> bool" where
  "replace_all fails [] replaced s = (s, replaced, True)"
| "replace_all fails (i # is) replaced s =
     (case replace_one fails i s of
        (s1, ok) \<Rightarrow> if ok then replace_all fails is (replaced @ [i]) s1 else (s1, replaced, False))"

text \<open>The outer \<open>catch\<close> undoes the replaced directories from the last to the first, and stops when an
  operation throws.\<close>

fun roll_back :: "failures \<Rightarrow> nat list \<Rightarrow> import_fs \<Rightarrow> import_fs" where
  "roll_back fails [] s = s"
| "roll_back fails (i # is) s =
     (case operation fails (remove_live i) s of (s1, ok1) \<Rightarrow>
      if \<not> ok1 then s1 else
      case operation fails (backup_to_live i) s1 of (s2, ok2) \<Rightarrow>
      if \<not> ok2 then s2 else roll_back fails is s2)"

text \<open>The result tells whether the function returns, and does not throw; \<open>finally\<close> removes the
  directory of the transaction in any case. Before the \<open>try\<close> nothing does.\<close>

definition commitImports :: "failures \<Rightarrow> (nat \<Rightarrow> nat) \<Rightarrow> (nat \<Rightarrow> nat) \<Rightarrow> nat \<Rightarrow> import_fs \<Rightarrow> import_fs \<times> bool" where
  "commitImports fails copies new n s =
     (case operation fails (\<lambda>t. t\<lparr>transactionRoot := True\<rparr>) s of (s0, ok0) \<Rightarrow>
      if \<not> ok0 then (s0, False) else
      case stage_all fails copies new [0 ..< n] s0 of (s1, ok1) \<Rightarrow>
      if \<not> ok1 then (s1, False) else
      case replace_all fails [0 ..< n] [] s1 of (s2, replaced, ok2) \<Rightarrow>
      case operation fails remove_root (if ok2 then s2 else roll_back fails (rev replaced) s2) of (s3, ok3) \<Rightarrow>
      (s3, ok2 \<and> ok3))"

section \<open>What happens when one operation fails\<close>

definition single :: "failures \<Rightarrow> bool" where
  "single fails \<longleftrightarrow> (\<forall>j k. fails j \<and> fails k \<longrightarrow> j = k)"

definition quiet_from :: "failures \<Rightarrow> import_fs \<Rightarrow> bool" where
  "quiet_from fails s \<longleftrightarrow> (\<forall>j \<ge> operations s. \<not> fails j)"

lemma operation_cases:
  assumes "single fails" and "operation fails f s = (t, ok)"
  shows "(ok \<and> t = f (s\<lparr>operations := operations s + 1\<rparr>)) \<or> (\<not> ok \<and> t = s\<lparr>operations := operations s + 1\<rparr> \<and> quiet_from fails t)"
proof (cases "fails (operations s)")
  case True
  have "\<not> fails j" if "operations s + 1 \<le> j" for j
  proof
    assume "fails j"
    with True assms(1) have "j = operations s" unfolding single_def by blast
    with that show False by simp
  qed
  then show ?thesis using True assms(2) by (auto simp: operation_def quiet_from_def Let_def)
qed (use assms(2) in \<open>auto simp: operation_def Let_def\<close>)

lemma quiet_operation:
  "quiet_from fails s \<Longrightarrow> operation fails f s = (f (s\<lparr>operations := operations s + 1\<rparr>), True)"
  by (simp add: operation_def quiet_from_def)

text \<open>After \<open>k\<close> directories are replaced.\<close>

definition replaced_upto :: "(nat \<Rightarrow> nat option) \<Rightarrow> (nat \<Rightarrow> nat) \<Rightarrow> nat \<Rightarrow> import_fs \<Rightarrow> bool" where
  "replaced_upto old new k s \<longleftrightarrow>
     live s = (\<lambda>i. if i < k then Some (new i) else old i) \<and> backup s = (\<lambda>i. if i < k then old i else None)"

definition staged_from :: "(nat \<Rightarrow> nat) \<Rightarrow> nat \<Rightarrow> nat \<Rightarrow> import_fs \<Rightarrow> bool" where
  "staged_from new k n s \<longleftrightarrow> (\<forall>i. k \<le> i \<and> i < n \<longrightarrow> staged s i = Some (new i))"

lemmas effect_defs = live_to_backup_def backup_to_live_def staged_to_live_def remove_live_def

lemma replace_one_step:
  assumes "single fails" and "replaced_upto old new k s" and "staged_from new k n s" and "k < n"
    and "replace_one fails k s = (t, ok)"
  shows "(ok \<and> replaced_upto old new (Suc k) t \<and> staged_from new (Suc k) n t)
    \<or> (\<not> ok \<and> replaced_upto old new k t \<and> quiet_from fails t)"
proof -
  obtain s1 ok1 where op1: "operation fails (\<lambda>t. t) s = (s1, ok1)" by fastforce
  obtain s2 ok2 where op2: "operation fails (live_to_backup k) s1 = (s2, ok2)" by fastforce
  obtain s3 ok3 where op3: "operation fails (\<lambda>t. t) s2 = (s3, ok3)" by fastforce
  obtain s4 ok4 where op4: "operation fails (staged_to_live k) s3 = (s4, ok4)" by fastforce
  note ops = operation_cases [OF assms(1) op1] operation_cases [OF assms(1) op2] operation_cases [OF assms(1) op3] operation_cases [OF assms(1) op4]
  have way_back: "quiet_from fails u \<Longrightarrow> quiet_from fails (fst (operation fails (backup_to_live k) u))
      \<and> fst (operation fails (backup_to_live k) u) = backup_to_live k (u\<lparr>operations := operations u + 1\<rparr>)" for u
    by (simp add: quiet_operation) (simp add: quiet_from_def effect_defs)
  show ?thesis
  proof (cases "ok1 \<and> ok2 \<and> ok3 \<and> ok4")
    case True
    then have "t = s4" "ok" using assms(5) op1 op2 op3 op4 by (auto simp: replace_one_def)
    then show ?thesis using True ops assms(2-4) by (auto simp: replaced_upto_def staged_from_def effect_defs fun_eq_iff)
  next
    case False
    then consider (a) "\<not> ok1" | (b) "ok1" "\<not> ok2" | (c) "ok1" "ok2" "\<not> ok3" | (d) "ok1" "ok2" "ok3" "\<not> ok4" by blast
    then show ?thesis
    proof cases
      case a
      then show ?thesis using assms(2,5) op1 ops by (auto simp: replace_one_def replaced_upto_def)
    next
      case b
      then show ?thesis using assms(2,5) op1 op2 ops by (auto simp: replace_one_def replaced_upto_def)
    next
      case c
      then have "t = fst (operation fails (backup_to_live k) s3)" "\<not> ok" using assms(5) op1 op2 op3 by (auto simp: replace_one_def)
      then show ?thesis using way_back [of s3] c ops assms(2) by (auto simp: replaced_upto_def effect_defs fun_eq_iff)
    next
      case d
      then have "t = fst (operation fails (backup_to_live k) s4)" "\<not> ok" using assms(5) op1 op2 op3 op4 by (auto simp: replace_one_def)
      then show ?thesis using way_back [of s4] d ops assms(2) by (auto simp: replaced_upto_def effect_defs fun_eq_iff)
    qed
  qed
qed

lemma replace_all_steps:
  assumes "single fails"
  shows "k \<le> n \<Longrightarrow> replaced_upto old new k s \<Longrightarrow> staged_from new k n s \<Longrightarrow>
    replace_all fails [k ..< n] [0 ..< k] s = (t, done', ok) \<Longrightarrow>
    (ok \<and> replaced_upto old new n t) \<or> (\<not> ok \<and> (\<exists>m \<le> n. done' = [0 ..< m] \<and> replaced_upto old new m t \<and> quiet_from fails t))"
proof (induction "n - k" arbitrary: k s)
  case 0
  then show ?case by simp
next
  case (Suc d)
  then have k: "k < n" by simp
  then have list: "[k ..< n] = k # [Suc k ..< n]" by (simp add: upt_conv_Cons)
  obtain s1 ok1 where one: "replace_one fails k s = (s1, ok1)" by fastforce
  from replace_one_step [OF assms Suc.prems(2,3) k one] show ?case
  proof (elim disjE conjE)
    assume ok: "ok1" and r: "replaced_upto old new (Suc k) s1" and st: "staged_from new (Suc k) n s1"
    have "replace_all fails [Suc k ..< n] [0 ..< Suc k] s1 = (t, done', ok)"
      using Suc.prems(4) ok one by (simp add: list)
    from Suc.hyps(1) [OF _ _ r st this] Suc.hyps(2) k show ?thesis by simp
  next
    assume "\<not> ok1" "replaced_upto old new k s1" "quiet_from fails s1"
    then show ?thesis using Suc.prems(4) one k by (auto simp: list intro!: exI [of _ k])
  qed
qed

text \<open>Rolling back, when nothing fails any more, leaves what was there before.\<close>

lemma roll_back_all:
  "quiet_from fails s \<Longrightarrow> replaced_upto old new m s \<Longrightarrow> live (roll_back fails (rev [0 ..< m]) s) = old"
proof (induction m arbitrary: s)
  case 0
  then show ?case by (simp add: replaced_upto_def)
next
  case (Suc m)
  let ?s1 = "remove_live m (s\<lparr>operations := operations s + 1\<rparr>)"
  let ?s2 = "backup_to_live m (?s1\<lparr>operations := operations ?s1 + 1\<rparr>)"
  have q: "quiet_from fails ?s1" "quiet_from fails ?s2"
    using Suc.prems(1) by (simp_all add: quiet_from_def effect_defs)
  have "replaced_upto old new m ?s2"
    using Suc.prems(2) by (auto simp: replaced_upto_def effect_defs fun_eq_iff)
  moreover have "roll_back fails (rev [0 ..< Suc m]) s = roll_back fails (rev [0 ..< m]) ?s2"
    using quiet_operation [OF Suc.prems(1), of "remove_live m"] quiet_operation [OF q(1), of "backup_to_live m"] by simp
  ultimately show ?case using Suc.IH [OF q(2)] by simp
qed

lemma copy_files_same: "copy_files fails n s = (t, ok) \<Longrightarrow> live t = live s \<and> backup t = backup s \<and> staged t = staged s \<and> transactionRoot t = transactionRoot s"
proof (induction n arbitrary: s)
  case (Suc n)
  obtain s1 ok1 where o: "operation fails (\<lambda>t. t) s = (s1, ok1)" by fastforce
  then have "live s1 = live s \<and> backup s1 = backup s \<and> staged s1 = staged s \<and> transactionRoot s1 = transactionRoot s"
    by (auto simp: operation_def Let_def split: if_splits)
  then show ?case using Suc.IH [of s1] Suc.prems o by (auto split: if_splits)
qed simp

lemma stage_all_result:
  "stage_all fails copies new is s = (t, ok) \<Longrightarrow>
   live t = live s \<and> backup t = backup s \<and> transactionRoot t = transactionRoot s
   \<and> (ok \<longrightarrow> (\<forall>i. staged t i = (if i \<in> set is then Some (new i) else staged s i)))"
proof (induction "is" arbitrary: s)
  case (Cons i "is")
  obtain s1 ok1 where c: "copy_files fails (Suc (copies i)) s = (s1, ok1)" by fastforce
  note same = copy_files_same [OF c]
  show ?case
  proof (cases ok1)
    case False
    then show ?thesis using Cons.prems c same by (simp add: stage_one_def del: copy_files.simps)
  next
    case True
    then have "stage_all fails copies new is (s1\<lparr>staged := (staged s1)(i \<mapsto> new i)\<rparr>) = (t, ok)"
      using Cons.prems c by (simp add: stage_one_def del: copy_files.simps)
    from Cons.IH [OF this] same show ?thesis by auto
  qed
qed simp

section \<open>Properties\<close>

definition all_new :: "(nat \<Rightarrow> nat) \<Rightarrow> nat \<Rightarrow> import_fs \<Rightarrow> (nat \<Rightarrow> nat option)" where
  "all_new new n s = (\<lambda>i. if i < n then Some (new i) else live s i)"

text \<open>C17: When at most one operation fails, wherever it is, the import is all or nothing: it throws or not,
  afterwards every directory is the new one or every directory is as it was, and it returns only when
  they are new.\<close>

theorem import_all_or_nothing:
  assumes "single fails" and "commitImports fails copies new n s = (t, ok)" and "backup s = (\<lambda>i. None)"
  shows "(live t = live s \<or> live t = all_new new n s) \<and> (if ok then live t = all_new new n s else True)"
proof -
  obtain s0 ok0 where s0: "operation fails (\<lambda>t. t\<lparr>transactionRoot := True\<rparr>) s = (s0, ok0)" by fastforce
  have same0: "live s0 = live s" "backup s0 = backup s" using s0 by (auto simp: operation_def Let_def split: if_splits)
  obtain s1 ok1 where s1: "stage_all fails copies new [0 ..< n] s0 = (s1, ok1)" by fastforce
  note st = stage_all_result [OF s1]
  obtain s2 done' ok2 where s2: "replace_all fails [0 ..< n] [] s1 = (s2, done', ok2)" by (cases "replace_all fails [0 ..< n] [] s1")
  have r: "replaced_upto (live s) new 0 s1" using st same0 assms(3) by (auto simp: replaced_upto_def)
  have final: "live (fst (operation fails remove_root u)) = live u" for u
    by (simp add: operation_def remove_root_def Let_def)
  show ?thesis
  proof (cases "ok0 \<and> ok1")
    case False
    then consider "\<not> ok0" | "ok0" "\<not> ok1" by blast
    then have "(t = s0 \<or> t = s1) \<and> \<not> ok"
      by cases (use assms(2) s0 s1 in \<open>simp_all add: commitImports_def\<close>)
    then show ?thesis using same0 st by auto
  next
    case True
    have "staged_from new 0 n s1" using st True by (simp add: staged_from_def)
    from replace_all_steps [OF assms(1) _ r this, of s2 done' ok2] s2
    have steps: "(ok2 \<and> replaced_upto (live s) new n s2)
      \<or> (\<not> ok2 \<and> (\<exists>m \<le> n. done' = [0 ..< m] \<and> replaced_upto (live s) new m s2 \<and> quiet_from fails s2))" by simp
    let ?u = "if ok2 then s2 else roll_back fails (rev done') s2"
    have "live t = live ?u" and "ok \<Longrightarrow> ok2"
      using assms(2) True s0 s1 s2 final [of ?u] by (auto simp: commitImports_def split: prod.splits)
    moreover have "ok2 \<Longrightarrow> live ?u = all_new new n s" using steps by (auto simp: replaced_upto_def all_new_def)
    moreover have "\<not> ok2 \<Longrightarrow> live ?u = live s" using steps roll_back_all by auto
    ultimately show ?thesis by (cases ok2) auto
  qed
qed

definition two_packages :: import_fs where
  "two_packages = \<lparr>live = (\<lambda>i. if i < 2 then Some i else None), staged = (\<lambda>i. None), backup = (\<lambda>i. None),
     transactionRoot = False, operations = 0\<rparr>"

theorem import_all_or_nothing_witness:
  "live (fst (commitImports (\<lambda>k. k = 12) (\<lambda>i. 1) (\<lambda>i. i + 10) 2 two_packages)) = live two_packages"
proof -
  obtain t ok where t: "commitImports (\<lambda>k. k = 12) (\<lambda>i. 1) (\<lambda>i. i + 10) 2 two_packages = (t, ok)" by fastforce
  have "live t = live two_packages \<or> live t = all_new (\<lambda>i. i + 10) 2 two_packages"
    using import_all_or_nothing [OF _ t] by (simp add: single_def two_packages_def)
  moreover have "live t 0 = Some 0"
    using t by (auto simp: commitImports_def operation_def stage_one_def replace_one_def remove_root_def effect_defs
        two_packages_def upt_conv_Cons numeral_2_eq_2 Let_def split: prod.splits if_splits)
  ultimately show ?thesis using t by (auto simp: all_new_def)
qed

text \<open>When the way back fails as well, the directory is lost: the staged directory cannot be put in place,
  the backup cannot be put back, and \<open>finally\<close> removes the only copy there is.\<close>

theorem failed_rollback_loses_package:
  "(let (t, ok) = commitImports (\<lambda>k. k = 4 \<or> k = 5) (\<lambda>i. 0) (\<lambda>i. i + 10) 1
                    (two_packages\<lparr>live := (\<lambda>i. if i = 0 then Some 0 else None)\<rparr>)
    in \<not> ok \<and> live t 0 = None \<and> backup t 0 = None \<and> staged t 0 = None \<and> \<not> transactionRoot t)"
  by (simp add: commitImports_def operation_def stage_one_def replace_one_def remove_root_def effect_defs
      two_packages_def Let_def)

end
