(* ===== verification/Import_Run.thy ===== *)
theory Import_Run
  imports Candidate Import_Transaction Js_Path
begin

text \<open>
  The main function of scripts/import-binaries.js: the validation of the builds, the transaction that puts them in
  place, and the comparison of the packages with a local build. The directories of the transaction, which are
  numbered trees there, are decoded by a function \<open>tree\<close>.
\<close>

section \<open>Arguments and directories\<close>

text \<open>The first argument that is not an option, and the options; the machine, the directories and MSH3\_NODE\_ROOT.\<close>

record import_arguments =
  ia_source :: "string option"
  ia_checkOnly :: bool
  ia_localOnly :: bool

record import_environment =
  ie_os :: string
  ie_cpu :: string
  ie_report :: report
  ie_cwd :: string
  ie_projectRoot :: string
  ie_msh3NodeRoot :: "string option"

definition present :: "string option \<Rightarrow> bool" where
  "present v = (case v of None \<Rightarrow> False | Some s \<Rightarrow> s \<noteq> [])"

definition defaultLocalRoot :: "import_environment \<Rightarrow> string" where
  "defaultLocalRoot e =
     join_path (resolve (ie_cwd e) (if present (ie_msh3NodeRoot e) then the (ie_msh3NodeRoot e)
       else resolve (ie_projectRoot e) ''../msh3-node'')) ''src''"

definition sourceRoot :: "import_environment \<Rightarrow> import_arguments \<Rightarrow> string option" where
  "sourceRoot e a =
     (if present (ia_source a) then Some (resolve (ie_cwd e) (the (ia_source a)))
      else if ia_localOnly a then Some (defaultLocalRoot e) else None)"

text \<open>A build that is imported: the platform and its source directory. The target directories are named relative
  to the root of the project, and the builds are taken to lie outside of them.\<close>

definition import_list :: "string \<Rightarrow> bool \<Rightarrow> platform list \<Rightarrow> (platform \<times> string) list" where
  "import_list root localOnly selected = map (\<lambda>p. (p, if localOnly then root else join_path root (pf_id p))) selected"

definition target_directory :: "platform \<Rightarrow> string" where
  "target_directory p = ''binaries/'' @ pf_id p"

definition native_directory :: string where
  "native_directory = ''packages/native''"

section \<open>Validation and comparison\<close>

datatype import_failure =
    Usage
  | NoMatchingPlatform
  | InvalidBuild string import_error
  | DifferentDeclarations
  | MissingImport string string
  | NotImported string string
  | DeclarationsDiffer

fun validate_builds ::
  "file_reader \<Rightarrow> native_baseline \<Rightarrow> (string \<Rightarrow> directory) \<Rightarrow> (platform \<times> string) list \<Rightarrow> import_failure + unit" where
  "validate_builds rd nb builds [] = Inr ()"
| "validate_builds rd nb builds ((p, source) # rest) =
     (case validate_import rd nb p (builds source) of
        Inl err \<Rightarrow> Inl (InvalidBuild (pf_id p) err)
      | Inr _ \<Rightarrow> validate_builds rd nb builds rest)"

definition declaration_hashes :: "file_reader \<Rightarrow> (string \<Rightarrow> directory) \<Rightarrow> (platform \<times> string) list \<Rightarrow> string list" where
  "declaration_hashes rd builds imports =
     unique (map (\<lambda>(p, source). case builds source ''http3.d.ts'' of None \<Rightarrow> [] | Some bs \<Rightarrow> fr_sha256 rd bs) imports)"

text \<open>One comparison; hashing a file that is missing throws.\<close>

definition same_file :: "file_reader \<Rightarrow> string \<Rightarrow> string \<Rightarrow> import_failure \<Rightarrow> directory \<Rightarrow> directory \<Rightarrow> import_failure + unit" where
  "same_file rd label name failure source target =
     (case (source name, target name) of
        (Some a, Some b) \<Rightarrow> if fr_sha256 rd a \<noteq> fr_sha256 rd b then Inl failure else Inr ()
      | _ \<Rightarrow> Inl (MissingImport label name))"

definition compare_import ::
  "file_reader \<Rightarrow> (string \<Rightarrow> directory) \<Rightarrow> (string \<Rightarrow> directory) \<Rightarrow> platform \<times> string \<Rightarrow> import_failure + unit" where
  "compare_import rd builds project i =
     (case i of (p, source) \<Rightarrow>
        bind_result (map_result (\<lambda>name. same_file rd (pf_id p) name (NotImported (pf_id p) name) (builds source) (project (target_directory p)))
          (pf_files p)) (\<lambda>_.
        same_file rd (pf_id p) ''build-manifest.json'' (NotImported (pf_id p) ''build-manifest.json'')
          (builds source) (project (target_directory p))))"

definition compare_local ::
  "file_reader \<Rightarrow> (string \<Rightarrow> directory) \<Rightarrow> (string \<Rightarrow> directory) \<Rightarrow> (platform \<times> string) list \<Rightarrow> import_failure + unit" where
  "compare_local rd builds project imports =
     bind_result (map_result (compare_import rd builds project) imports) (\<lambda>_.
       same_file rd ''native'' ''http3.d.ts'' DeclarationsDiffer (builds (snd (hd imports))) (project native_directory))"

section \<open>The script\<close>

text \<open>What staging writes over the copy of a live directory.\<close>

definition staged_tree :: "platform \<Rightarrow> directory \<Rightarrow> directory \<Rightarrow> directory" where
  "staged_tree p source old = (\<lambda>name. if name \<in> set (pf_files p) \<or> name = ''build-manifest.json'' then source name else old name)"

definition staged_native :: "directory \<Rightarrow> directory \<Rightarrow> directory" where
  "staged_native source old = (\<lambda>name. if name = ''http3.d.ts'' then source name else old name)"

definition staged_trees :: "(string \<Rightarrow> directory) \<Rightarrow> (string \<Rightarrow> directory) \<Rightarrow> (platform \<times> string) list \<Rightarrow> directory list" where
  "staged_trees builds project imports =
     map (\<lambda>(p, source). staged_tree p (builds source) (project (target_directory p))) imports
     @ [staged_native (builds (snd (hd imports))) (project native_directory)]"

definition copied_files :: "(platform \<times> string) list \<Rightarrow> nat \<Rightarrow> nat" where
  "copied_files imports i = (if i < length imports then length (pf_files (fst (imports ! i))) + 1 else 1)"

datatype import_outcome = Verified | Current | Committed import_fs bool

definition import_main ::
  "file_reader \<Rightarrow> native_baseline \<Rightarrow> import_environment \<Rightarrow> failures \<Rightarrow> (nat \<Rightarrow> nat) \<Rightarrow> import_fs
    \<Rightarrow> (string \<Rightarrow> directory) \<Rightarrow> (string \<Rightarrow> directory) \<Rightarrow> import_arguments \<Rightarrow> import_failure + import_outcome" where
  "import_main rd nb e fails new s builds project a =
     (case sourceRoot e a of
        None \<Rightarrow> Inl Usage
      | Some root \<Rightarrow>
          let selected = selected_platforms (ia_localOnly a) (ie_os e) (ie_cpu e) (ie_report e);
              imports = import_list root (ia_localOnly a) selected
          in if selected = [] then Inl NoMatchingPlatform
             else bind_result (validate_builds rd nb builds imports) (\<lambda>_.
               if length (declaration_hashes rd builds imports) \<noteq> 1 then Inl DifferentDeclarations
               else if \<not> ia_checkOnly a
               then (case commitImports fails (copied_files imports) new (length imports + 1) s of (t, ok) \<Rightarrow> Inr (Committed t ok))
               else if ia_localOnly a then bind_result (compare_local rd builds project imports) (\<lambda>_. Inr Current)
               else Inr Verified))"

text \<open>The directories of the project after a transaction.\<close>

definition target_directories :: "platform list \<Rightarrow> string list" where
  "target_directories selected = map target_directory selected @ [native_directory]"

definition project_after ::
  "(nat \<Rightarrow> directory) \<Rightarrow> platform list \<Rightarrow> import_fs \<Rightarrow> (string \<Rightarrow> directory) \<Rightarrow> string \<Rightarrow> directory" where
  "project_after tree selected t project path =
     (case find (\<lambda>i. target_directories selected ! i = path) [0 ..< length selected + 1] of
        None \<Rightarrow> project path
      | Some i \<Rightarrow> (case live t i of None \<Rightarrow> Map.empty | Some k \<Rightarrow> tree k))"

section \<open>Lemmas\<close>

lemma sourceRoot_check [simp]: "sourceRoot e (a\<lparr>ia_checkOnly := b\<rparr>) = sourceRoot e a"
  by (simp add: sourceRoot_def)

lemma validate_builds_Inr:
  "validate_builds rd nb builds imports = Inr () \<longleftrightarrow>
     (\<forall>(p, source) \<in> set imports. validate_import rd nb p (builds source) = Inr ())"
  by (induction "imports") (auto split: sum.splits)

lemma find_position:
  assumes "distinct xs" and "i < length xs" and "n = length xs"
  shows "find (\<lambda>j. xs ! j = xs ! i) [0 ..< n] = Some i"
proof -
  have "find (\<lambda>j. xs ! j = xs ! i) [0 ..< n] \<noteq> None" using assms by (auto simp: find_None_iff)
  then obtain j where j: "find (\<lambda>j. xs ! j = xs ! i) [0 ..< n] = Some j" by blast
  then have "j < n" "xs ! j = xs ! i" by (auto simp: find_Some_iff)
  then have "j = i" using assms by (simp add: nth_eq_iff_index_eq)
  then show ?thesis using j by simp
qed

lemma target_directories_distinct: "distinct (map pf_id selected) \<Longrightarrow> distinct (target_directories selected)"
proof -
  assume d: "distinct (map pf_id selected)"
  have "inj_on (\<lambda>i. ''binaries/'' @ i) (pf_id ` set selected)" by (rule inj_onI) simp
  then have "distinct (map (\<lambda>i. ''binaries/'' @ i) (map pf_id selected))" using d by (simp only: distinct_map set_map simp_thms)
  then have "distinct (map target_directory selected)" by (simp add: target_directory_def [abs_def] comp_def)
  then show ?thesis by (auto simp: target_directories_def target_directory_def native_directory_def)
qed

lemma committed_all_new:
  assumes "single fails" and "backup s = (\<lambda>i. None)" and "commitImports fails copies new n s = (t, True)" and "i < n"
  shows "live t i = Some (new i)"
proof -
  obtain s0 ok0 where s0: "operation fails (\<lambda>t. t\<lparr>transactionRoot := True\<rparr>) s = (s0, ok0)" by fastforce
  have same0: "live s0 = live s" "backup s0 = backup s" using s0 by (auto simp: operation_def Let_def split: if_splits)
  obtain s1 ok1 where s1: "stage_all fails copies new [0 ..< n] s0 = (s1, ok1)" by fastforce
  obtain s2 rs ok2 where s2: "replace_all fails [0 ..< n] [] s1 = (s2, rs, ok2)" by (cases "replace_all fails [0 ..< n] [] s1")
  have ok: "ok0" "ok1" "ok2" "t = fst (operation fails remove_root s2)"
    using assms(3) s0 s1 s2 by (auto simp: commitImports_def split: if_splits prod.splits)
  have "replaced_upto (live s) new 0 s1" "staged_from new 0 n s1"
    using stage_all_result [OF s1] same0 assms(2) ok by (auto simp: replaced_upto_def staged_from_def)
  from replace_all_steps [OF assms(1) _ this, of s2 rs ok2] s2 ok have "replaced_upto (live s) new n s2" by simp
  then show ?thesis using ok assms(4) by (simp add: operation_def remove_root_def Let_def replaced_upto_def)
qed

lemma after_target:
  assumes "distinct (map pf_id selected)" and "\<And>i. i < length selected + 1 \<Longrightarrow> live t i = Some (new i)" and "i < length selected + 1"
  shows "project_after tree selected t project (target_directories selected ! i) = tree (new i)"
proof -
  have "find (\<lambda>j. target_directories selected ! j = target_directories selected ! i) [0 ..< length selected + 1] = Some i"
    using target_directories_distinct [OF assms(1)] assms(3) by (intro find_position) (simp_all add: target_directories_def)
  then show ?thesis using assms(2) [OF assms(3)] by (simp add: project_after_def)
qed

lemma selected_distinct: "distinct (map pf_id (selected_platforms localOnly os cpu rep))"
proof -
  have "distinct (map pf_id platforms)" by code_simp
  then show ?thesis by (simp add: selected_platforms_def distinct_map_filter)
qed

lemma compare_staged:
  assumes "validate_import rd nb p (builds source) = Inr ()"
    and "project (target_directory p) = staged_tree p (builds source) old"
  shows "compare_import rd builds project (p, source) = Inr ()"
proof -
  obtain bs and m :: build_manifest where "builds source ''build-manifest.json'' = Some bs" and names: "map bf_name (bm_files m) = pf_files p"
    and files: "check_import_files rd p (builds source) (bm_files m) = Inr ()"
    using assms(1) by (auto simp: validate_import_def bind_eq_Some_conv split: if_splits option.splits)
  moreover have there: "\<exists>bs. builds source name = Some bs" if "name \<in> set (pf_files p)" for name
  proof -
    have "name \<in> bf_name ` set (bm_files m)" using that arg_cong [OF names, of set] by simp
    then show ?thesis using files unfolding check_import_files_Inr by blast
  qed
  have "map_result (\<lambda>name. same_file rd (pf_id p) name (NotImported (pf_id p) name) (builds source) (project (target_directory p))) (pf_files p)
      = Inr (map (\<lambda>name. ()) (pf_files p))"
    by (intro map_result_all) (auto simp: same_file_def assms(2) staged_tree_def dest: there)
  moreover have "same_file rd (pf_id p) ''build-manifest.json'' (NotImported (pf_id p) ''build-manifest.json'')
      (builds source) (project (target_directory p)) = Inr ()"
    using calculation(1) by (simp add: same_file_def assms(2) staged_tree_def)
  ultimately show ?thesis by (simp add: compare_import_def)
qed

section \<open>Properties\<close>

text \<open>C15: What an import has put in place passes the checks of its files. When import-binaries.js returns from its transaction, during
  which one operation may have failed, a run with --check finds the same builds current; and for every package it replaced whose
  package.json publishes its binaries and its manifest, those two checks of check-release.js read the files without an error and list no
  failure, in every mode. The other checks of check-release.js (versions, dependencies and metadata, and platforms that were not
  imported) are not spoken of.
\<close>

theorem import_then_checks_pass:
  assumes "single fails" and "backup s = (\<lambda>i. None)"
    and "import_main rd nb e fails new s builds project a = Inr (Committed t True)"
    and "map (tree \<circ> new) [0 ..< length (selected_platforms (ia_localOnly a) (ie_os e) (ie_cpu e) (ie_report e)) + 1]
      = staged_trees builds project (import_list (the (sourceRoot e a)) (ia_localOnly a)
          (selected_platforms (ia_localOnly a) (ie_os e) (ie_cpu e) (ie_report e)))"
  shows "let selected = selected_platforms (ia_localOnly a) (ie_os e) (ie_cpu e) (ie_report e);
             project' = project_after tree selected t project
    in import_main rd nb e fails' new' s' builds project' (a\<lparr>ia_checkOnly := True\<rparr>)
         = Inr (if ia_localOnly a then Current else Verified)
       \<and> (\<forall>p \<in> set selected. \<forall>w.
           ws_files w (pf_id p) = project' (target_directory p)
             \<and> set (''build-manifest.json'' # pf_files p) \<subseteq> set (pj_files (ws_binary w (pf_id p)))
           \<longrightarrow> binaries_failures workspaceOnly w p = Inr [] \<and> manifest_failures rd nb requireManifests w p = Inr [])"
proof -
  let ?selected = "selected_platforms (ia_localOnly a) (ie_os e) (ie_cpu e) (ie_report e)"
  let ?project = "project_after tree ?selected t project"
  obtain root where root: "sourceRoot e a = Some root"
    using assms(3) by (auto simp: import_main_def split: option.splits)
  let ?imports = "import_list root (ia_localOnly a) ?selected"
  have nonempty: "?selected \<noteq> []" and valid: "validate_builds rd nb builds ?imports = Inr ()"
    and hashes: "length (declaration_hashes rd builds ?imports) = 1" and committing: "\<not> ia_checkOnly a"
    and commit: "commitImports fails (copied_files ?imports) new (length ?imports + 1) s = (t, True)"
    using assms(3) root by (auto simp: import_main_def Let_def bind_result_Inr_iff split: if_splits prod.splits)
  let ?source = "\<lambda>p. if ia_localOnly a then root else join_path root (pf_id p)"
  have imp: "?imports = map (\<lambda>p. (p, ?source p)) ?selected" by (simp add: import_list_def)
  have builds_valid: "validate_import rd nb p (builds (?source p)) = Inr ()" if "p \<in> set ?selected" for p
    using valid that unfolding validate_builds_Inr by (auto simp: imp)
  have live: "live t i = Some (new i)" if "i < length ?selected + 1" for i
    using committed_all_new [OF assms(1,2) commit, of i] that by (simp add: imp)
  have tree: "?project (target_directories ?selected ! i) = staged_trees builds project ?imports ! i"
    if i: "i < length ?selected + 1" for i
  proof -
    have "?project (target_directories ?selected ! i) = tree (new i)"
      by (rule after_target [OF selected_distinct live i])
    also have "tree (new i) = map (tree \<circ> new) [0 ..< length ?selected + 1] ! i" using i by (simp del: upt_Suc)
    finally show ?thesis using assms(4) by (simp add: root)
  qed
  have package: "?project (target_directory p) = staged_tree p (builds (?source p)) (project (target_directory p))"
    if p: "p \<in> set ?selected" for p
  proof -
    obtain i where i: "i < length ?selected" "p = ?selected ! i" using p by (metis in_set_conv_nth)
    then show ?thesis using tree [of i]
      by (simp add: target_directories_def staged_trees_def imp nth_append)
  qed
  have native: "?project native_directory = staged_native (builds (snd (hd ?imports))) (project native_directory)"
    using tree [of "length ?selected"] by (simp add: target_directories_def staged_trees_def imp nth_append)
  have "compare_local rd builds ?project ?imports = Inr ()"
  proof -
    have "map_result (compare_import rd builds ?project) ?imports = Inr (map (\<lambda>i. ()) ?imports)"
      by (intro map_result_all) (auto simp: imp intro!: compare_staged builds_valid package)
    moreover have "builds (snd (hd ?imports)) ''http3.d.ts'' \<noteq> None"
    proof -
      have "hd ?selected \<in> set ?selected" using nonempty by simp
      from builds_valid [OF this] have "builds (?source (hd ?selected)) ''http3.d.ts'' \<noteq> None"
        by (auto simp: validate_import_def split: if_splits)
      then show ?thesis using nonempty by (simp add: imp hd_map)
    qed
    ultimately show ?thesis by (auto simp: compare_local_def same_file_def native staged_native_def)
  qed
  then have "import_main rd nb e fails' new' s' builds ?project (a\<lparr>ia_checkOnly := True\<rparr>)
      = Inr (if ia_localOnly a then Current else Verified)"
    using root nonempty valid hashes by (cases "ia_localOnly a") (simp_all add: import_main_def Let_def)
  moreover have "binaries_failures workspaceOnly w p = Inr [] \<and> manifest_failures rd nb requireManifests w p = Inr []"
    if p: "p \<in> set ?selected" and w: "ws_files w (pf_id p) = ?project (target_directory p)"
      and published: "set (''build-manifest.json'' # pf_files p) \<subseteq> set (pj_files (ws_binary w (pf_id p)))" for p w
    by (rule import_passes_release_check [OF builds_valid [OF p]])
      (use w package [OF p] published in \<open>auto simp: staged_tree_def\<close>)
  ultimately show ?thesis by (simp add: Let_def)
qed

text \<open>A local import on a machine with the x64 GNU platform; the build has the three files.\<close>

definition local_build :: build_manifest where
  "local_build = toy_build\<lparr>bm_files := map (\<lambda>name. \<lparr>bf_name = name, bf_bytes = 20, bf_sha256 = ''h'', bf_architecture = Some ''x64''\<rparr>)
     [''http3.node'', ''libmsh3.so'', ''libmsquic.so'']\<rparr>"

definition local_reader :: file_reader where
  "local_reader = \<lparr>fr_sha256 = (\<lambda>bs. ''h''), fr_manifest = (\<lambda>bs. if bs = [1] then Some local_build else None)\<rparr>"

definition local_source :: directory where
  "local_source = [''http3.d.ts'' \<mapsto> [], ''build-manifest.json'' \<mapsto> [1], ''http3.node'' \<mapsto> toy_elf, ''libmsh3.so'' \<mapsto> toy_elf,
     ''libmsquic.so'' \<mapsto> toy_elf]"

definition local_environment :: import_environment where
  "local_environment = \<lparr>ie_os = ''linux'', ie_cpu = ''x64'', ie_report = ReportHeader (Some ''2.31''), ie_cwd = ''/p'', ie_projectRoot = ''/p'',
     ie_msh3NodeRoot = None\<rparr>"

definition local_arguments :: import_arguments where
  "local_arguments = \<lparr>ia_source = None, ia_checkOnly = False, ia_localOnly = True\<rparr>"

definition local_platform :: platform where
  "local_platform = platform_entry ''linux-x64-gnu'' ''linux'' ''x64'' (Some ''glibc'') [''http3.node'', ''libmsh3.so'', ''libmsquic.so'']"

lemma local_selected: "selected_platforms True ''linux'' ''x64'' (ReportHeader (Some ''2.31'')) = [local_platform]"
  by (simp add: selected_platforms_def platforms_def isCurrentPlatform_def local_platform_def)

lemma local_valid:
  "validate_import local_reader \<lparr>nb_formatVersion = Some 4, nb_pins = toy_pins\<rparr> local_platform local_source = Inr ()"
proof -
  have "detectNativeArchitecture toy_elf = Inr ''x64''"
    by (simp add: detectNativeArchitecture_def readUIntLE_def subarray_def toy_elf_def be_val_def)
  moreover have "libc_version (Some ''2.31'')" by code_simp
  ultimately show ?thesis
    by (simp add: validate_import_def local_source_def local_reader_def local_build_def toy_build_def local_platform_def target_matches_def
        concrete_libc_def toy_elf_def)
qed

lemma quiet_commit: "\<exists>t. commitImports (\<lambda>k. False) copies new n s = (t, True)"
proof -
  have op: "operation (\<lambda>k. False) f u = (f (u\<lparr>operations := operations u + 1\<rparr>), True)" for f u
    by (simp add: operation_def Let_def)
  have copy: "\<exists>t. copy_files (\<lambda>k. False) k u = (t, True)" for k u by (induction k arbitrary: u) (simp_all add: op)
  have stage: "\<exists>t. stage_all (\<lambda>k. False) copies new is u = (t, True)" for "is" u
  proof (induction "is" arbitrary: u)
    case (Cons i "is")
    obtain t where "copy_files (\<lambda>k. False) (Suc (copies i)) u = (t, True)" using copy by blast
    then show ?case using Cons by (simp add: stage_one_def del: copy_files.simps)
  qed simp
  have replace: "\<exists>t rs. replace_all (\<lambda>k. False) is done' u = (t, rs, True)" for "is" done' u
    by (induction "is" arbitrary: done' u) (simp_all add: replace_one_def op)
  obtain t where t: "stage_all (\<lambda>k. False) copies new [0 ..< n] (s\<lparr>operations := operations s + 1, transactionRoot := True\<rparr>) = (t, True)"
    using stage by blast
  obtain u rs where "replace_all (\<lambda>k. False) [0 ..< n] [] t = (u, rs, True)" using replace by blast
  with t show ?thesis by (simp add: commitImports_def op)
qed

theorem import_then_checks_pass_witness:
  "\<exists>project'. import_main local_reader \<lparr>nb_formatVersion = Some 4, nb_pins = toy_pins\<rparr> local_environment (\<lambda>k. False) (\<lambda>i. i) two_packages
     (\<lambda>path. local_source) project' (local_arguments\<lparr>ia_checkOnly := True\<rparr>) = Inr Current"
proof -
  let ?nb = "\<lparr>nb_formatVersion = Some 4, nb_pins = toy_pins\<rparr>"
  have fields: "ia_localOnly local_arguments" "\<not> ia_checkOnly local_arguments" "ie_os local_environment = ''linux''"
    "ie_cpu local_environment = ''x64''" "ie_report local_environment = ReportHeader (Some ''2.31'')"
    by (simp_all add: local_arguments_def local_environment_def)
  obtain root where root: "sourceRoot local_environment local_arguments = Some root"
    by (simp add: sourceRoot_def present_def local_arguments_def)
  let ?imports = "import_list root True [local_platform]"
  let ?tree = "\<lambda>k. staged_trees (\<lambda>path. local_source) (\<lambda>path. Map.empty) ?imports ! k"
  obtain t where t: "commitImports (\<lambda>k. False) (copied_files ?imports) (\<lambda>i. i) (length ?imports + 1) two_packages = (t, True)"
    using quiet_commit by blast
  have "validate_builds local_reader ?nb (\<lambda>path. local_source) ?imports = Inr ()"
    using local_valid by (simp add: import_list_def)
  moreover have "length (declaration_hashes local_reader (\<lambda>path. local_source) ?imports) = 1"
    by (simp add: declaration_hashes_def import_list_def unique_def set_add_def)
  ultimately have run: "import_main local_reader ?nb local_environment (\<lambda>k. False) (\<lambda>i. i) two_packages (\<lambda>path. local_source)
      (\<lambda>path. Map.empty) local_arguments = Inr (Committed t True)"
    using t by (simp add: import_main_def Let_def root fields local_selected)
  have trees: "map (?tree \<circ> (\<lambda>i. i)) [0 ..< length [local_platform] + 1]
      = staged_trees (\<lambda>path. local_source) (\<lambda>path. Map.empty) ?imports"
    by (simp add: staged_trees_def import_list_def)
  have "single (\<lambda>k. False)" "backup two_packages = (\<lambda>i. None)" by (simp_all add: single_def two_packages_def)
  from import_then_checks_pass [OF this run, of ?tree "\<lambda>k. False" "\<lambda>i. i" two_packages] trees
  show ?thesis by (auto simp: fields local_selected root Let_def)
qed

end
