(* ===== verification/Promotion_Run.thy ===== *)
theory Promotion_Run
  imports Candidate
begin

text \<open>
  The main function of scripts/promote-release.js: the promotion of a version to the tag latest. The registry is
  a state; npm gets the arguments of the command, and what it does to the registry is a parameter under what it documents.
\<close>

section \<open>The registry\<close>

text \<open>What \<open>npm view\<close> prints: the version of the package when it is published, and the tags of the package;
  \<open>None\<close> when the command fails.\<close>

record tag_registry =
  tr_published :: "string \<Rightarrow> string option"
  tr_tags :: "string \<Rightarrow> dist_tags option"

datatype promotion_error =
    NoNpm
  | NoVersion
  | NotInWorkflow
  | CannotInspect string
  | PromotionRefused release_error
  | AddFailed string

definition registryState :: "tag_registry \<Rightarrow> string \<Rightarrow> promotion_error + registry_state" where
  "registryState reg name =
     (case (tr_published reg name, tr_tags reg name) of
        (Some version, Some tags) \<Rightarrow> Inr \<lparr>rs_publishedVersion = version, rs_next = tag_next tags, rs_latest = tag_latest tags\<rparr>
      | _ \<Rightarrow> Inl (CannotInspect name))"

definition registry_states :: "tag_registry \<Rightarrow> promotion_error + (string, registry_state) js_map" where
  "registry_states reg =
     bind_result (map_result (\<lambda>name. bind_result (registryState reg name) (\<lambda>state. Inr (name, state))) publicationOrder)
       (\<lambda>entries. Inr (map_of_entries entries))"

section \<open>The script\<close>

text \<open>What follows the path of npm on its command line.\<close>

definition dist_tag_arguments :: "string \<Rightarrow> string \<Rightarrow> string \<Rightarrow> string list" where
  "dist_tag_arguments name version tag = [''dist-tag'', ''add'', name @ ''@'' @ version, tag]"

text \<open>\<open>npm\<close> gives the registry after the command and whether its status is zero; a failure ends the process.\<close>

type_synonym npm_command = "string list \<Rightarrow> tag_registry \<Rightarrow> tag_registry \<times> bool"

fun promote_loop ::
  "npm_command \<Rightarrow> string \<Rightarrow> bool \<Rightarrow> tag_registry \<Rightarrow> (string \<times> bool) list \<Rightarrow> tag_registry \<times> (promotion_error + unit)" where
  "promote_loop npm version promote reg [] = (reg, Inr ())"
| "promote_loop npm version promote reg ((name, alreadyPromoted) # plan) =
     (if alreadyPromoted \<or> \<not> promote then promote_loop npm version promote reg plan
      else case npm (dist_tag_arguments name version ''latest'') reg of
        (reg', ok) \<Rightarrow> if ok then promote_loop npm version promote reg' plan else (reg', Inl (AddFailed name)))"

definition no_argument :: "string option \<Rightarrow> bool" where
  "no_argument v = (case v of None \<Rightarrow> True | Some s \<Rightarrow> s = [])"

text \<open>\<open>readTags\<close> is what the registry shows afterwards, attempt by attempt; it may lag behind, and the command may fail.\<close>

definition promote_release ::
  "npm_command \<Rightarrow> (nat \<Rightarrow> string \<Rightarrow> dist_tags option) \<Rightarrow> string option \<Rightarrow> bool \<Rightarrow> bool
    \<Rightarrow> string option \<Rightarrow> tag_registry \<Rightarrow> tag_registry \<times> (promotion_error + unit)" where
  "promote_release npm readTags npmExecPath promote inWorkflow version reg =
     (if no_argument npmExecPath then (reg, Inl NoNpm)
      else if no_argument version then (reg, Inl NoVersion)
      else if promote \<and> \<not> inWorkflow then (reg, Inl NotInWorkflow)
      else case registry_states reg of
        Inl err \<Rightarrow> (reg, Inl err)
      | Inr states \<Rightarrow> (case promotionPlan states (the version) of
          Inl err \<Rightarrow> (reg, Inl (PromotionRefused err))
        | Inr plan \<Rightarrow> (case promote_loop npm (the version) promote reg plan of
            (reg', Inl err) \<Rightarrow> (reg', Inl err)
          | (reg', Inr _) \<Rightarrow>
              if \<not> promote then (reg', Inr ())
              else (case fst (verifyTagConvergence publicationOrder (the version) readTags 6) of
                Inl err \<Rightarrow> (reg', Inl (PromotionRefused err))
              | Inr _ \<Rightarrow> (reg', Inr ())))))"

text \<open>The documented effect of the command: it sets this tag of this package to this version; when it fails it may have done so. The
  last at sign of the package argument is the one before the version. Of the tags the model keeps latest and next.\<close>

definition set_tag :: "string \<Rightarrow> string \<Rightarrow> string \<Rightarrow> tag_registry \<Rightarrow> tag_registry" where
  "set_tag tag version name reg =
     reg\<lparr>tr_tags := (tr_tags reg)(name := map_option
       (\<lambda>tags. if tag = ''latest'' then tags\<lparr>tag_latest := Some version\<rparr>
               else if tag = ''next'' then tags\<lparr>tag_next := Some version\<rparr> else tags) (tr_tags reg name))\<rparr>"

definition tag_contract :: "npm_command \<Rightarrow> bool" where
  "tag_contract npm \<longleftrightarrow>
     (\<forall>reg name version tag. CHR ''@'' \<notin> set version \<longrightarrow>
        (case npm (dist_tag_arguments name version tag) reg of
           (reg', ok) \<Rightarrow> reg' = set_tag tag version name reg \<or> (reg' = reg \<and> \<not> ok)))"

abbreviation set_latest :: "string \<Rightarrow> string \<Rightarrow> tag_registry \<Rightarrow> tag_registry" where
  "set_latest \<equiv> set_tag ''latest''"

section \<open>Lemmas\<close>

lemma tag_contractD:
  assumes "tag_contract npm" and "CHR ''@'' \<notin> set version" and "npm (dist_tag_arguments name version ''latest'') reg = (reg', ok)"
  shows "reg' = set_latest version name reg \<or> (reg' = reg \<and> \<not> ok)"
proof -
  have "case npm (dist_tag_arguments name version ''latest'') reg of
      (reg', ok) \<Rightarrow> reg' = set_latest version name reg \<or> (reg' = reg \<and> \<not> ok)"
    by (rule assms(1) [unfolded tag_contract_def, rule_format, OF assms(2)])
  then show ?thesis by (simp add: assms(3))
qed

text \<open>A version that passes the pattern contains no at sign.\<close>

lemma split_on_covers: "set xs \<subseteq> insert sep (\<Union> (set ` set (split_on sep xs)))"
proof (induction xs)
  case (Cons x xs)
  then show ?case by (cases "split_on sep xs") auto
qed simp

lemma version_no_at:
  assumes "version_pattern version"
  shows "CHR ''@'' \<notin> set version"
proof -
  let ?core = "takeWhile (\<lambda>c. c \<noteq> CHR ''-'') version" and ?rest = "dropWhile (\<lambda>c. c \<noteq> CHR ''-'') version"
  have digits: "list_all (\<lambda>p. p \<noteq> [] \<and> list_all digit p) (split_on (CHR ''.'') ?core)"
    and rest: "?rest = [] \<or> list_all (\<lambda>c. digit c \<or> letter c \<or> c = CHR ''.'' \<or> c = CHR ''-'') (tl ?rest)"
    using assms by (auto simp: version_pattern_def Let_def)
  have at: "\<not> digit (CHR ''@'')" "\<not> letter (CHR ''@'')" by code_simp+
  have "CHR ''@'' \<notin> set ?core"
  proof
    assume "CHR ''@'' \<in> set ?core"
    then obtain part where "part \<in> set (split_on (CHR ''.'') ?core)" "CHR ''@'' \<in> set part"
      using split_on_covers [of ?core "CHR ''.''"] by fastforce
    then have "digit (CHR ''@'')" using digits by (auto simp: list_all_iff)
    then show False using at by simp
  qed
  moreover have "CHR ''@'' \<notin> set ?rest"
  proof (cases ?rest)
    case (Cons c cs)
    then have "c = CHR ''-''" using hd_dropWhile [of "\<lambda>c. c \<noteq> CHR ''-''" version] by simp
    moreover have "CHR ''@'' \<notin> set cs" using rest Cons at by (auto simp: list_all_iff)
    ultimately show ?thesis using Cons by simp
  next
    case Nil
    show ?thesis unfolding Nil by simp
  qed
  ultimately show ?thesis using takeWhile_dropWhile_id [of "\<lambda>c. c \<noteq> CHR ''-''" version] by (metis Un_iff set_append)
qed

text \<open>A package is ready when the version is published and is next.\<close>

definition ready_for :: "string \<Rightarrow> tag_registry \<Rightarrow> string \<Rightarrow> bool" where
  "ready_for version reg name \<longleftrightarrow> tr_published reg name = Some version
     \<and> (\<exists>tags. tr_tags reg name = Some tags \<and> tag_next tags = Some version)"

definition latest_of :: "tag_registry \<Rightarrow> string \<Rightarrow> string option" where
  "latest_of reg name = Option.bind (tr_tags reg name) tag_latest"

lemma set_latest_simps [simp]:
  "ready_for version (set_latest v n reg) name = ready_for version reg name"
  "tr_published (set_latest v n reg) = tr_published reg"
  "name \<noteq> n \<Longrightarrow> tr_tags (set_latest v n reg) name = tr_tags reg name"
  "latest_of (set_latest v n reg) name = (if name = n \<and> tr_tags reg name \<noteq> None then Some v else latest_of reg name)"
  by (auto simp: ready_for_def set_tag_def latest_of_def split: option.splits)

text \<open>The plan there is when the script is not refused.\<close>

definition ready_plan :: "string \<Rightarrow> tag_registry \<Rightarrow> (string \<times> bool) list" where
  "ready_plan version reg = map (\<lambda>name. (name, latest_of reg name = Some version)) publicationOrder"

lemma registryState_Inr:
  "registryState reg name = Inr st \<longleftrightarrow>
     (\<exists>v tags. tr_published reg name = Some v \<and> tr_tags reg name = Some tags
       \<and> st = \<lparr>rs_publishedVersion = v, rs_next = tag_next tags, rs_latest = tag_latest tags\<rparr>)"
  by (auto simp: registryState_def split: option.splits)

lemma states_entries:
  "map_result (\<lambda>name. bind_result (registryState reg name) (\<lambda>state. Inr (name, state))) names = Inr entries \<Longrightarrow>
   map fst entries = names \<and> (\<forall>(name, st) \<in> set entries. registryState reg name = Inr st)"
  by (induction names arbitrary: entries) (auto simp: bind_result_Inr_iff)

lemma registry_states_facts:
  assumes "registry_states reg = Inr states"
  shows "js_size states = length publicationOrder"
    and "name \<in> set publicationOrder \<Longrightarrow> \<exists>st. js_get states name = Some st \<and> registryState reg name = Inr st"
proof -
  obtain entries where r: "map_result (\<lambda>name. bind_result (registryState reg name) (\<lambda>state. Inr (name, state))) publicationOrder = Inr entries"
    and s: "states = map_of_entries entries"
    using assms by (auto simp: registry_states_def bind_result_Inr_iff)
  note e = states_entries [OF r, THEN conjunct1] states_entries [OF r, THEN conjunct2]
  have d: "distinct (map fst entries)" unfolding e by code_simp
  have length: "length entries = length publicationOrder" using arg_cong [OF e(1), of length] by simp
  note stored = entries_stored [OF d, of "[]" name]
  show "js_size states = length publicationOrder"
    using stored length by (simp add: s map_of_entries_def js_get_def js_size_def)
  assume "name \<in> set publicationOrder"
  then have "name \<in> fst ` set entries" using arg_cong [OF e(1), of set] by simp
  then obtain st where st: "map_of entries name = Some st" using map_of_eq_None_iff [of entries name] by auto
  then have "registryState reg name = Inr st" using e(2) map_of_SomeD by fastforce
  then show "\<exists>st. js_get states name = Some st \<and> registryState reg name = Inr st"
    using stored st by (simp add: s map_of_entries_def js_get_def)
qed

lemma promotion_ready:
  assumes "registry_states reg = Inr states"
  shows "promotionPlan states version = Inr plan \<longleftrightarrow>
     version_pattern version \<and> (\<forall>name \<in> set publicationOrder. ready_for version reg name) \<and> plan = ready_plan version reg"
proof -
  have "map_result (\<lambda>name. case js_get states name of
               None \<Rightarrow> Inl (MissingPackage name)
             | Some st \<Rightarrow> if rs_publishedVersion st \<noteq> version then Inl (NotPublished name)
                          else if rs_next st \<noteq> Some version then Inl (OtherNext name)
                          else Inr (name, rs_latest st = Some version)) names = Inr plan
    \<longleftrightarrow> (\<forall>name \<in> set names. ready_for version reg name) \<and> plan = map (\<lambda>name. (name, latest_of reg name = Some version)) names"
    if "set names \<subseteq> set publicationOrder" for names
    using that
  proof (induction names arbitrary: plan)
    case (Cons name names)
    then have "name \<in> set publicationOrder" by simp
    from registry_states_facts(2) [OF assms this]
    obtain st where "js_get states name = Some st" "registryState reg name = Inr st" by blast
    with Cons show ?case by (auto simp: bind_result_Inr_iff registryState_Inr ready_for_def latest_of_def)
  qed auto
  from this [OF subset_refl] show ?thesis
    by (simp add: promotionPlan_def registry_states_facts(1) [OF assms] ready_plan_def)
qed

lemma states_readable:
  assumes "\<forall>name \<in> set publicationOrder. ready_for version reg name"
  obtains states where "registry_states reg = Inr states"
proof -
  have "map_result (\<lambda>name. bind_result (registryState reg name) (\<lambda>state. Inr (name, state))) publicationOrder
    = Inr (map (\<lambda>name. (name, \<lparr>rs_publishedVersion = version, rs_next = Some version, rs_latest = latest_of reg name\<rparr>)) publicationOrder)"
    by (intro map_result_all) (use assms in \<open>auto simp: registryState_def ready_for_def latest_of_def\<close>)
  then show thesis by (intro that) (simp add: registry_states_def)
qed

lemma promote_loop_result:
  assumes "tag_contract npm" and at: "CHR ''@'' \<notin> set version" and "promote_loop npm version promote reg plan = (reg', r)"
  shows "tr_published reg' = tr_published reg
    \<and> (\<forall>name. ready_for version reg' name = ready_for version reg name)
    \<and> (\<forall>name. tr_tags reg' name = tr_tags reg name \<or> latest_of reg' name = Some version)
    \<and> (\<forall>name. name \<notin> fst ` set plan \<longrightarrow> tr_tags reg' name = tr_tags reg name)
    \<and> (\<not> promote \<longrightarrow> reg' = reg \<and> r = Inr ())"
  using assms(3)
proof (induction plan arbitrary: reg)
  case (Cons step plan)
  obtain n already where step: "step = (n, already)" by fastforce
  show ?case
  proof (cases "already \<or> \<not> promote")
    case True
    then show ?thesis using Cons.IH [of reg] Cons.prems by (auto simp: step)
  next
    case False
    obtain reg1 ok where add: "npm (dist_tag_arguments n version ''latest'') reg = (reg1, ok)" by fastforce
    note one = tag_contractD [OF assms(1) at add]
    show ?thesis
    proof (cases ok)
      case True
      then have reg1: "reg1 = set_latest version n reg" using one by simp
      have "promote_loop npm version promote reg1 plan = (reg', r)" using Cons.prems False True by (simp add: step add)
      note rest = Cons.IH [OF this]
      have "tr_tags reg' name = tr_tags reg name \<or> latest_of reg' name = Some version" for name
      proof -
        have "tr_tags reg' name = tr_tags reg1 name \<or> latest_of reg' name = Some version" using rest by blast
        moreover have "tr_tags reg1 name = tr_tags reg name \<or> latest_of reg1 name = Some version"
          by (cases "tr_tags reg name") (auto simp: reg1 set_tag_def latest_of_def)
        ultimately show ?thesis by (auto simp: latest_of_def)
      qed
      then show ?thesis using rest False by (auto simp: step reg1)
    next
      case no: False
      then have "reg' = reg1" using Cons.prems False by (simp add: step add)
      then show ?thesis using one False
        by (cases "tr_tags reg n") (auto simp: step, auto simp: set_tag_def latest_of_def)
    qed
  qed
qed simp

lemma promote_loop_success:
  assumes "tag_contract npm" and at: "CHR ''@'' \<notin> set version" and "promote_loop npm version True reg plan = (reg', Inr ())"
    and "\<forall>(name, already) \<in> set plan. ready_for version reg name \<and> (already \<longrightarrow> latest_of reg name = Some version)"
  shows "\<forall>name \<in> fst ` set plan. latest_of reg' name = Some version"
  using assms(3,4)
proof (induction plan arbitrary: reg)
  case (Cons step plan)
  obtain n already where step: "step = (n, already)" by fastforce
  have keeps: "latest_of reg' name = Some version"
    if "promote_loop npm version True reg1 plan = (reg', Inr ())" "latest_of reg1 name = Some version" for reg1 name
  proof -
    have "tr_tags reg' name = tr_tags reg1 name \<or> latest_of reg' name = Some version"
      using promote_loop_result [OF assms(1) at that(1)] by blast
    then show ?thesis using that(2) by (auto simp: latest_of_def)
  qed
  show ?case
  proof (cases already)
    case True
    then show ?thesis using Cons.IH [of reg] Cons.prems keeps [of reg n] by (auto simp: step)
  next
    case False
    obtain reg1 ok where add: "npm (dist_tag_arguments n version ''latest'') reg = (reg1, ok)" by fastforce
    then have ok: "ok" and loop: "promote_loop npm version True reg1 plan = (reg', Inr ())"
      using Cons.prems False by (auto simp: step split: if_splits)
    then have reg1: "reg1 = set_latest version n reg" using tag_contractD [OF assms(1) at add] by simp
    have "latest_of reg1 n = Some version" using Cons.prems(2) by (auto simp: step reg1 ready_for_def)
    moreover have "\<forall>(name, already) \<in> set plan. ready_for version reg1 name \<and> (already \<longrightarrow> latest_of reg1 name = Some version)"
      using Cons.prems(2) by (auto simp: step reg1)
    ultimately show ?thesis using Cons.IH [OF loop] keeps [OF loop, of n] by (auto simp: step)
  qed
qed simp

section \<open>Properties\<close>

text \<open>C19: a promotion that is cut short can be run again. When the script gets as far as the registry's tags being accepted, then
  whatever command fails, afterwards the registry passes the same checks, nothing but tags latest has changed, and each
  tag is as it was or the version. Without --promote nothing changes; when the script succeeds with it, every package
  of the release has the version as its tag latest. npm is a parameter: given the arguments of its command it does what it documents, or fails.
\<close>

theorem promotion_resumable:
  assumes "tag_contract npm"
    and "promote_release npm readTags npmExecPath promote inWorkflow (Some version) reg = (reg', result)"
    and "registry_states reg = Inr states" and "promotionPlan states version = Inr plan"
  shows "(\<exists>states'. registry_states reg' = Inr states' \<and> promotionPlan states' version = Inr (ready_plan version reg'))
    \<and> tr_published reg' = tr_published reg
    \<and> (\<forall>name. tr_tags reg' name = tr_tags reg name \<or> (name \<in> set publicationOrder \<and> latest_of reg' name = Some version))
    \<and> (if promote then True else reg' = reg)
    \<and> (if promote \<and> result = Inr () then \<forall>name \<in> set publicationOrder. latest_of reg' name = Some version else True)"
proof -
  note ready = promotion_ready [OF assms(3), THEN iffD1, OF assms(4)]
  have at: "CHR ''@'' \<notin> set version" using ready version_no_at by blast
  obtain r where "reg' = reg \<and> result \<noteq> Inr () \<or> promote_loop npm version promote reg plan = (reg', r) \<and> (result = Inr () \<longrightarrow> r = Inr ())"
    using assms(2-4) by (auto simp: promote_release_def split: if_splits prod.splits sum.splits)
  then consider "reg' = reg" "result \<noteq> Inr ()" | "promote_loop npm version promote reg plan = (reg', r)" "result = Inr () \<Longrightarrow> r = Inr ()" by blast
  then show ?thesis
  proof cases
    case 1
    then show ?thesis using assms(3) promotion_ready [OF assms(3)] ready by auto
  next
    case 2
    note loop = promote_loop_result [OF assms(1) at 2(1)]
    have names: "fst ` set plan = set publicationOrder" using ready by (force simp: ready_plan_def)
    have again: "\<forall>name \<in> set publicationOrder. ready_for version reg' name" using loop ready by blast
    obtain states' where s: "registry_states reg' = Inr states'" by (rule states_readable [OF again])
    have "promotionPlan states' version = Inr (ready_plan version reg')" using promotion_ready [OF s] ready again by blast
    moreover have "\<forall>name \<in> set publicationOrder. latest_of reg' name = Some version" if p: "promote" "result = Inr ()"
      using promote_loop_success [OF assms(1) at, of reg plan reg'] 2 p ready names by (auto simp: ready_plan_def)
    moreover have "\<forall>name. tr_tags reg' name = tr_tags reg name \<or> (name \<in> set publicationOrder \<and> latest_of reg' name = Some version)"
      using loop names by metis
    moreover have "tr_published reg' = tr_published reg" "\<not> promote \<longrightarrow> reg' = reg" using loop by blast+
    ultimately show ?thesis using s by (intro conjI exI [of _ states']) simp_all
  qed
qed

text \<open>A registry with everything published, and an npm that never fails.\<close>

definition toy_tags :: tag_registry where
  "toy_tags = \<lparr>tr_published = (\<lambda>name. Some ''1.0.0''), tr_tags = (\<lambda>name. Some \<lparr>tag_next = Some ''1.0.0'', tag_latest = None\<rparr>)\<rparr>"

definition toy_npm :: npm_command where
  "toy_npm args reg =
     (let spec = args ! 2; back = rev spec; version = rev (takeWhile (\<lambda>c. c \<noteq> CHR ''@'') back);
          name = rev (tl (dropWhile (\<lambda>c. c \<noteq> CHR ''@'') back))
      in (set_tag (args ! 3) version name reg, True))"

lemma toy_npm_sets: "CHR ''@'' \<notin> set version \<Longrightarrow> toy_npm (dist_tag_arguments name version tag) reg = (set_tag tag version name reg, True)"
proof -
  assume no: "CHR ''@'' \<notin> set version"
  then have "takeWhile (\<lambda>c. c \<noteq> CHR ''@'') (rev version @ CHR ''@'' # rev name) = rev version"
    "dropWhile (\<lambda>c. c \<noteq> CHR ''@'') (rev version @ CHR ''@'' # rev name) = CHR ''@'' # rev name"
    by (simp_all add: takeWhile_tail dropWhile_append3) (auto simp: dropWhile_append)
  then show ?thesis by (simp add: toy_npm_def dist_tag_arguments_def)
qed

lemma toy_loop: "CHR ''@'' \<notin> set version \<Longrightarrow> \<exists>reg'. promote_loop toy_npm version promote reg plan = (reg', Inr ())"
  by (induction plan arbitrary: reg) (auto simp: toy_npm_sets)

theorem promotion_resumable_witness:
  "latest_of (fst (promote_release toy_npm (\<lambda>a name. Some \<lparr>tag_next = Some ''1.0.0'', tag_latest = Some ''1.0.0''\<rparr>)
       (Some ''npm'') True True (Some ''1.0.0'') toy_tags)) ''@http3-server/server'' = Some ''1.0.0''"
proof -
  let ?tags = "\<lambda>a name. Some \<lparr>tag_next = Some ''1.0.0'', tag_latest = Some ''1.0.0''\<rparr>"
  let ?run = "promote_release toy_npm ?tags (Some ''npm'') True True (Some ''1.0.0'') toy_tags"
  have ready: "\<forall>name \<in> set publicationOrder. ready_for ''1.0.0'' toy_tags name" by (simp add: ready_for_def toy_tags_def)
  obtain states where s: "registry_states toy_tags = Inr states" by (rule states_readable [OF ready])
  have v: "version_pattern ''1.0.0''" by code_simp
  have plan: "promotionPlan states ''1.0.0'' = Inr (ready_plan ''1.0.0'' toy_tags)"
    using promotion_ready [OF s] ready v by blast
  obtain reg' where loop: "promote_loop toy_npm ''1.0.0'' True toy_tags (ready_plan ''1.0.0'' toy_tags) = (reg', Inr ())"
    using toy_loop [OF version_no_at [OF v]] by blast
  have "unshown ?tags ''1.0.0'' 1 7 = (\<lambda>name. False)"
    by (rule ext) (auto simp: unshown_def shown_def converged_def list_all_iff)
  moreover have "\<not> unread ?tags ''1.0.0'' 1 6 names" for names by (simp add: unread_def list_ex_iff)
  ultimately have "fst (verifyTagConvergence publicationOrder ''1.0.0'' ?tags 6) = Inr ()"
    using converge_result [of ?tags "''1.0.0''" 1 6 "unique publicationOrder" 0] by (simp add: verifyTagConvergence_def)
  then have run: "?run = (reg', Inr ())" using s plan loop by (simp add: promote_release_def no_argument_def)
  have contract: "tag_contract toy_npm" by (simp add: tag_contract_def toy_npm_sets)
  have "''@http3-server/server'' \<in> set publicationOrder" by (simp add: publicationOrder_def)
  then show ?thesis using promotion_resumable [OF contract run s plan] by (simp add: run)
qed

end
