(* ===== verification/Candidate_Example.thy ===== *)
theory Candidate_Example
  imports Candidate
begin

text \<open>A workspace that check-release.js accepts, for the theorems of Candidate.\<close>

definition example_version :: string where
  "example_version = ''1.2.3''"

definition example_package :: "string \<Rightarrow> string list \<Rightarrow> package_json" where
  "example_package name files = \<lparr>pj_name = name, pj_version = example_version, pj_license = Some ''MIT-0'',
     pj_repositoryUrl = Some ''https://github.com/http3-server/http3-server.git'',
     pj_publishConfig = Some \<lparr>pc_access = Some ''public'', pc_provenance = Some True, pc_registry = Some ''https://registry.npmjs.org/''\<rparr>,
     pj_files = [''LICENSE.md'', ''README.md''] @ files, pj_os = None, pj_cpu = None, pj_libc = NoLibc, pj_dependencies = None,
     pj_optionalDependencies = None, pj_exports = None\<rparr>"

definition platform_package :: "platform \<Rightarrow> package_json" where
  "platform_package p = (example_package (''@http3-server/'' @ pf_id p) (''build-manifest.json'' # pf_files p))
     \<lparr>pj_os := Some [pf_os p], pj_cpu := Some [pf_cpu p], pj_libc := libc_field (pf_libc p),
      pj_exports := Some [(''.'', ''./http3.js''), (''./http3.node'', ''./http3.node'')]\<rparr>"

definition platform_of :: "string \<Rightarrow> platform" where
  "platform_of i = the (find (\<lambda>p. pf_id p = i) platforms)"

definition example_binary :: "platform \<Rightarrow> bytes" where
  "example_binary p = [0x7f, 0x45, 0x4c, 0x46] @ replicate 14 0 @ [if pf_cpu p = ''arm64'' then 183 else 62, 0]"

definition platform_manifest :: "platform \<Rightarrow> build_manifest" where
  "platform_manifest p = \<lparr>bm_formatVersion = Some 4, bm_producer = Some ''msh3-node'', bm_platform = Some (pf_id p),
     bm_target = Some \<lparr>bt_os = Some (pf_os p), bt_cpu = Some (pf_cpu p), bt_libc = pf_libc p\<rparr>,
     bm_build = Some \<lparr>bi_baseline = Some ''b'', bi_minimumLibcVersion = Some ''2.31''\<rparr>, bm_pins = toy_pins,
     bm_files = map (\<lambda>n. \<lparr>bf_name = n, bf_bytes = 20, bf_sha256 = ''h'', bf_architecture = Some (pf_cpu p)\<rparr>) (pf_files p)\<rparr>"

definition id_bytes :: "string \<Rightarrow> bytes" where
  "id_bytes = map (\<lambda>c. of_nat (code c))"

definition example_reader :: file_reader where
  "example_reader = \<lparr>fr_sha256 = (\<lambda>bs. ''h''),
     fr_manifest = (\<lambda>bs. map_option platform_manifest (find (\<lambda>p. pf_id p = map (\<lambda>b. char_of (unat b)) bs) platforms))\<rparr>"

definition example_files :: "string \<Rightarrow> directory" where
  "example_files i name =
     (if name = ''build-manifest.json'' then Some (id_bytes i)
      else if name \<in> set (pf_files (platform_of i)) then Some (example_binary (platform_of i)) else None)"

definition example_workspace :: workspace where
  "example_workspace = \<lparr>ws_rootVersion = example_version, ws_certificates = example_package ''@http3-server/dev-certificates'' [],
     ws_native = (example_package ''@http3-server/native'' [])
       \<lparr>pj_optionalDependencies := Some (map (\<lambda>p. (''@http3-server/'' @ pf_id p, example_version)) platforms)\<rparr>,
     ws_server = (example_package ''@http3-server/server'' [])\<lparr>pj_dependencies := Some [(''@http3-server/native'', example_version)]\<rparr>,
     ws_binary = (\<lambda>i. platform_package (platform_of i)), ws_files = example_files\<rparr>"

definition example_baseline :: native_baseline where
  "example_baseline = \<lparr>nb_formatVersion = Some 4, nb_pins = toy_pins\<rparr>"

lemma find_key: "distinct (map k xs) \<Longrightarrow> x \<in> set xs \<Longrightarrow> find (\<lambda>y. k y = k x) xs = Some x"
  by (induction xs) auto

lemma map_of_member: "x \<in> set xs \<Longrightarrow> map_of (map (\<lambda>y. (k y, v)) xs) (k x) = Some v"
  by (induction xs) auto

lemma distinct_ids: "distinct (map pf_id platforms)"
  by code_simp

lemma platform_found: "p \<in> set platforms \<Longrightarrow> platform_of (pf_id p) = p"
  by (simp add: platform_of_def find_key [OF distinct_ids])

lemma id_decoded: "map (\<lambda>b. char_of (unat b)) (id_bytes i) = i"
proof -
  have "char_of (unat (of_nat (code c) :: byte)) = c" for c
    by (simp add: code_def unat_of_nat of_char_mod_256)
  then show ?thesis by (simp add: id_bytes_def comp_def)
qed

lemma manifest_found: "p \<in> set platforms \<Longrightarrow> fr_manifest example_reader (id_bytes (pf_id p)) = Some (platform_manifest p)"
  by (simp add: example_reader_def id_decoded find_key [OF distinct_ids])

lemma platform_facts:
  assumes "p \<in> set platforms"
  shows "pf_cpu p = ''arm64'' \<or> pf_cpu p = ''x64''" "''build-manifest.json'' \<notin> set (pf_files p)"
    "map_of (map (\<lambda>p. (''@http3-server/'' @ pf_id p, v)) platforms) (''@http3-server/'' @ pf_id p) = Some v"
proof -
  have "list_all (\<lambda>p. (pf_cpu p = ''arm64'' \<or> pf_cpu p = ''x64'') \<and> ''build-manifest.json'' \<notin> set (pf_files p)) platforms" by code_simp
  then show "pf_cpu p = ''arm64'' \<or> pf_cpu p = ''x64''" "''build-manifest.json'' \<notin> set (pf_files p)" using assms by (auto simp: list_all_iff)
  show "map_of (map (\<lambda>p. (''@http3-server/'' @ pf_id p, v)) platforms) (''@http3-server/'' @ pf_id p) = Some v"
    by (rule map_of_member [OF assms])
qed

lemma example_architecture:
  "pf_cpu p = ''arm64'' \<or> pf_cpu p = ''x64'' \<Longrightarrow> detectNativeArchitecture (example_binary p) = Inr (pf_cpu p)"
  by (auto simp: detectNativeArchitecture_def readUIntLE_def subarray_def example_binary_def be_val_def)

lemma example_metadata: "checkPublishMetadata (example_package name files) = []"
  by (simp add: checkPublishMetadata_def example_package_def public_with_provenance_def)

lemma platform_metadata: "checkPublishMetadata (platform_package p) = []"
  by (simp add: checkPublishMetadata_def platform_package_def example_package_def public_with_provenance_def)

lemma example_platform:
  assumes p: "p \<in> set platforms"
  shows "platform_failures example_reader example_baseline True False example_workspace p = Inr []"
proof -
  have b: "ws_binary example_workspace (pf_id p) = platform_package p" by (simp add: example_workspace_def platform_found [OF p])
  have "platform_package_failures example_workspace p = Inr []"
    by (simp add: platform_package_failures_def Let_def b platform_metadata)
      (simp add: platform_package_def example_package_def strict_property_def property_of_def example_workspace_def js_get_def platform_facts(3) [OF p, simplified])
  moreover have f: "ws_files example_workspace (pf_id p) n = Some (example_binary p)" if "n \<in> set (pf_files p)" for n
    using that platform_facts(2) [OF p] by (auto simp: example_workspace_def example_files_def platform_found [OF p])
  have "binary_failures False example_workspace p n = Inr []" if "n \<in> set (pf_files p)" for n
    unfolding binary_failures_def f [OF that] b
    using that example_architecture [OF platform_facts(1) [OF p]]
    by (simp add: platform_package_def example_package_def) (simp add: example_binary_def)
  then have "binaries_failures False example_workspace p = Inr []"
    using map_result_all [of "pf_files p" "binary_failures False example_workspace p" "\<lambda>n. []"] by (simp add: binaries_failures_def)
  moreover have "manifest_failures example_reader example_baseline True example_workspace p = Inr []"
  proof -
    have m: "ws_files example_workspace (pf_id p) ''build-manifest.json'' = Some (id_bytes (pf_id p))"
      by (simp add: example_workspace_def example_files_def)
    have "libc_version (Some ''2.31'')" by code_simp
    then have "target_matches p (platform_manifest p)" "concrete_libc (platform_manifest p)"
      by (simp_all add: target_matches_def concrete_libc_def platform_manifest_def)
    moreover have "filter (file_differs example_reader (ws_files example_workspace (pf_id p))) (bm_files (platform_manifest p)) = []"
      by (auto simp: filter_empty_conv file_differs_def platform_manifest_def f) (auto simp: example_reader_def example_binary_def)
    moreover have "map bf_name (bm_files (platform_manifest p)) = pf_files p" by (simp add: platform_manifest_def comp_def)
    ultimately show ?thesis
      by (simp add: manifest_failures_def m manifest_found [OF p] checked_manifest_def b)
        (simp add: platform_manifest_def example_baseline_def platform_package_def example_package_def)
  qed
  ultimately show ?thesis by (simp add: platform_failures_def)
qed

lemma example_clean: "check_release example_reader example_baseline True False example_workspace = Inr []"
proof -
  have "package_failures example_workspace = Inr []"
    by (simp add: package_failures_def strict_property_def example_workspace_def checkPublishMetadata_def public_with_provenance_def
        example_package_def js_get_def)
  moreover have "map_result (platform_failures example_reader example_baseline True False example_workspace) platforms
      = Inr (map (\<lambda>p. []) platforms)"
    by (rule map_result_all) (rule example_platform)
  ultimately show ?thesis by (simp add: check_release_def)
qed

section \<open>Packing it\<close>

text \<open>npm packs each directory to a tarball that is named after its path.\<close>

definition example_npm :: "string \<Rightarrow> packed option" where
  "example_npm path =
     map_option (\<lambda>(pkg, i). \<lparr>pk_name = pj_name pkg, pk_version = pj_version pkg, pk_filename = path @ ''.tgz'', pk_integrity = ''i'',
         pk_files = map (\<lambda>f. (f, 1)) (pj_files pkg), pk_tarball = [1]\<rparr>)
       (map_of (package_sources example_workspace platforms) path)"

lemma sources_distinct: "distinct (map fst (package_sources example_workspace platforms))"
proof -
  have "map fst (package_sources example_workspace platforms)
      = map (\<lambda>i. ''binaries/'' @ i) (map pf_id platforms) @ [''packages/dev-certificates'', ''packages/native'', ''packages/server'']"
    by (simp add: package_sources_def comp_def)
  moreover have "distinct (map (\<lambda>i. ''binaries/'' @ i) (map pf_id platforms) @ [''packages/dev-certificates'', ''packages/native'', ''packages/server''])"
    by code_simp
  ultimately show ?thesis by simp
qed

lemma example_packed_one:
  assumes "(path, pkg, i) \<in> set (package_sources example_workspace platforms)"
  shows "\<exists>dir' e. pack_one example_reader example_npm example_workspace (path, pkg, i) dir = Inr (dir', e) \<and> cp_filename e = path @ ''.tgz''"
proof -
  have n: "example_npm path = Some \<lparr>pk_name = pj_name pkg, pk_version = pj_version pkg, pk_filename = path @ ''.tgz'', pk_integrity = ''i'',
         pk_files = map (\<lambda>f. (f, 1)) (pj_files pkg), pk_tarball = [1]\<rparr>"
    using map_of_is_SomeI [OF sources_distinct assms] by (simp add: example_npm_def)
  have files: "find (\<lambda>f. f \<notin> fst ` set (map (\<lambda>f. (f, 1 :: nat)) (pj_files pkg))) (pj_files pkg) = None"
    by (auto simp: find_None_iff image_image)
  have "\<exists>m. Option.bind (ws_files example_workspace j ''build-manifest.json'') (fr_manifest example_reader) = Some m" if "i = Some j" for j
    using assms manifest_found that by (auto simp: package_sources_def example_workspace_def example_files_def)
  then show ?thesis using files
    by (cases i) (auto simp: pack_one_def n packed_entry_def)
qed

lemma example_packed_all:
  "set ss \<subseteq> set (package_sources example_workspace platforms) \<Longrightarrow>
   \<exists>dir' es. pack_all example_reader example_npm example_workspace ss dir = Inr (dir', es)
     \<and> map cp_filename es = map (\<lambda>s. fst s @ ''.tgz'') ss"
proof (induction ss arbitrary: dir)
  case (Cons s ss)
  obtain path pkg i where s: "s = (path, pkg, i)" by (cases s) auto
  obtain dir1 e where one: "pack_one example_reader example_npm example_workspace s dir = Inr (dir1, e)" "cp_filename e = path @ ''.tgz''"
    using example_packed_one [of path pkg i dir] Cons.prems s by auto
  obtain dir2 es where "pack_all example_reader example_npm example_workspace ss dir1 = Inr (dir2, es)"
    "map cp_filename es = map (\<lambda>s. fst s @ ''.tgz'') ss"
    using Cons.IH [of dir1] Cons.prems by auto
  then show ?case using one s by simp
qed simp

lemma example_inputs: "sound_inputs example_reader example_baseline example_workspace" "named_packages example_workspace"
  by (auto simp: sound_inputs_def example_baseline_def toy_pins_def hex40_def example_workspace_def example_files_def manifest_found
      platform_manifest_def digit_def code_def list_all_iff) (simp_all add: example_reader_def named_packages_def example_workspace_def
      example_package_def platform_package_def platform_found)

lemma example_candidate:
  obtains dir m where "pack_candidate example_reader example_npm example_workspace False platforms ''commit'' (Some [7]) = Inr (dir, m)"
    and "distinct (map cp_filename (pm_packages m))" and "''SECURITY.md'' \<notin> cp_filename ` set (pm_packages m)"
proof -
  obtain dir1 es where all: "pack_all example_reader example_npm example_workspace (package_sources example_workspace platforms) Map.empty = Inr (dir1, es)"
    and names: "map cp_filename es = map (\<lambda>s. fst s @ ''.tgz'') (package_sources example_workspace platforms)"
    using example_packed_all [OF subset_refl] by blast
  obtain dir m where m: "pack_candidate example_reader example_npm example_workspace False platforms ''commit'' (Some [7]) = Inr (dir, m)"
    "pm_packages m = es"
    using all by (simp add: pack_candidate_def platforms_def)
  have "distinct (map cp_filename es)"
    unfolding names using sources_distinct by (simp add: distinct_map inj_on_def)
  moreover have "''SECURITY.md'' \<notin> set (map cp_filename es)"
    unfolding names by (auto simp: package_sources_def)
  ultimately show thesis using that m by simp
qed

theorem clean_release_verifies_witness:
  "\<exists>dir m. pack_candidate example_reader example_npm example_workspace False platforms ''commit'' (Some [7]) = Inr (dir, m)
    \<and> verify_candidate example_reader dir m = Inr ()"
proof -
  obtain dir m where m: "pack_candidate example_reader example_npm example_workspace False platforms ''commit'' (Some [7]) = Inr (dir, m)"
    "distinct (map cp_filename (pm_packages m))" "''SECURITY.md'' \<notin> cp_filename ` set (pm_packages m)"
    by (rule example_candidate)
  show ?thesis using clean_release_verifies [OF example_clean example_inputs m] m(1) by blast
qed

end
