(* ===== verification/Publication_Run.thy ===== *)
theory Publication_Run
  imports Promotion_Run Candidate_Example
begin

text \<open>
  The main function of scripts/publish-candidate.js on a registry that holds versions and tags, and what it leaves
  for scripts/promote-release.js. The registry is a service: what \<open>npm view\<close> and \<open>npm publish\<close> do is a
  parameter under what npm documents.
\<close>

section \<open>The registry\<close>

text \<open>The integrity of each published version of a package, and the version of each of its tags.\<close>

record npm_registry =
  nr_versions :: "string \<Rightarrow> string \<Rightarrow> string option"
  nr_tags :: "string \<Rightarrow> string \<Rightarrow> string option"

text \<open>What \<open>npm view\<close> of a version prints: its integrity, a 404, or another failure.\<close>

datatype view_result = Viewed string | NotFound | ViewFailed

datatype publish_error =
    NoNpmPath
  | NoCandidateVersion
  | InvalidTag string
  | OutsideWorkflow
  | NotVerified candidate_error
  | NoCommit
  | Refused release_error
  | CannotCheck string
  | PublishFailed

text \<open>An empty text counts as no integrity.\<close>

definition exactPublishedIntegrity :: "(string \<Rightarrow> view_result) \<Rightarrow> string \<Rightarrow> publish_error + string option" where
  "exactPublishedIntegrity view name =
     (case view name of
        Viewed integrity \<Rightarrow> Inr (if integrity = [] then None else Some integrity)
      | NotFound \<Rightarrow> Inr None
      | ViewFailed \<Rightarrow> Inl (CannotCheck name))"

section \<open>The script\<close>

text \<open>The first loop: the integrities by name.\<close>

fun read_published :: "(string \<Rightarrow> view_result) \<Rightarrow> candidate_package list \<Rightarrow> registry \<Rightarrow> publish_error + registry" where
  "read_published view [] found = Inr found"
| "read_published view (p # ps) found =
     bind_result (exactPublishedIntegrity view (cp_name p)) (\<lambda>integrity.
       if integrity \<noteq> None \<and> integrity \<noteq> Some (cp_integrity p) then Inl (Refused (DifferentContents (cp_name p)))
       else read_published view ps (found(cp_name p := integrity)))"

record publish_arguments =
  pa_npmExecPath :: "string option"
  pa_version :: "string option"
  pa_tag :: "string option"
  pa_publish :: bool
  pa_inWorkflow :: bool

definition publish_tag :: "publish_arguments \<Rightarrow> string" where
  "publish_tag a = (if no_argument (pa_tag a) then ''next'' else the (pa_tag a))"

text \<open>The test \<open>/^[a-z][a-z0-9._-]*$/\<close>.\<close>

definition tag_pattern :: "string \<Rightarrow> bool" where
  "tag_pattern t \<longleftrightarrow>
     (case t of
        [] \<Rightarrow> False
      | c # cs \<Rightarrow> 97 \<le> code c \<and> code c \<le> 122
          \<and> list_all (\<lambda>d. (97 \<le> code d \<and> code d \<le> 122) \<or> digit d \<or> d = CHR ''.'' \<or> d = CHR ''_'' \<or> d = CHR ''-'') cs)"

text \<open>The two loops of \<open>main\<close>, from the manifest on. \<open>npm\<close> gets the arguments of the command and the package the
  tarball holds.\<close>

definition publish_candidate ::
  "(npm_registry \<Rightarrow> string \<Rightarrow> string \<Rightarrow> view_result)
    \<Rightarrow> (string list \<Rightarrow> npm_registry \<Rightarrow> candidate_package \<Rightarrow> npm_registry \<times> bool)
    \<Rightarrow> string \<Rightarrow> bool \<Rightarrow> string \<Rightarrow> candidate_manifest \<Rightarrow> string \<Rightarrow> string \<Rightarrow> npm_registry \<Rightarrow> npm_registry \<times> (publish_error + unit)" where
  "publish_candidate view npm tag publish candidateDirectory m sourceCommit version reg =
     (case publicationPlan m sourceCommit version of
        Inl err \<Rightarrow> (reg, Inl (Refused err))
      | Inr plan \<Rightarrow> (case read_published (\<lambda>name. view reg name version) plan Map.empty of
          Inl err \<Rightarrow> (reg, Inl err)
        | Inr published \<Rightarrow>
            (case publish_loop (\<lambda>r p. npm (publishArguments (join_path candidateDirectory (cp_filename p)) tag publish) r p) published reg plan of
              (reg', ok) \<Rightarrow> (reg', if ok then Inr () else Inl PublishFailed))))"

text \<open>The candidate is the directory and the manifest in it; \<open>commit\<close> is what git prints, if it does not fail.\<close>

definition publish_main ::
  "file_reader \<Rightarrow> (npm_registry \<Rightarrow> string \<Rightarrow> string \<Rightarrow> view_result)
    \<Rightarrow> (string list \<Rightarrow> npm_registry \<Rightarrow> candidate_package \<Rightarrow> npm_registry \<times> bool)
    \<Rightarrow> publish_arguments \<Rightarrow> string \<Rightarrow> directory \<Rightarrow> packed_manifest \<Rightarrow> string option \<Rightarrow> npm_registry \<Rightarrow> npm_registry \<times> (publish_error + unit)" where
  "publish_main rd view npm a candidateDirectory dir m commit reg =
     (if no_argument (pa_npmExecPath a) then (reg, Inl NoNpmPath)
      else if no_argument (pa_version a) then (reg, Inl NoCandidateVersion)
      else if \<not> tag_pattern (publish_tag a) then (reg, Inl (InvalidTag (publish_tag a)))
      else if pa_publish a \<and> \<not> pa_inWorkflow a then (reg, Inl OutsideWorkflow)
      else case verify_candidate rd dir m of
        Inl err \<Rightarrow> (reg, Inl (NotVerified err))
      | Inr _ \<Rightarrow> (case commit of
          None \<Rightarrow> (reg, Inl NoCommit)
        | Some sourceCommit \<Rightarrow>
            publish_candidate view npm (publish_tag a) (pa_publish a) candidateDirectory (publication_manifest m) sourceCommit
              (the (pa_version a)) reg))"

section \<open>What npm documents\<close>

definition view_contract :: "(npm_registry \<Rightarrow> string \<Rightarrow> string \<Rightarrow> view_result) \<Rightarrow> bool" where
  "view_contract view \<longleftrightarrow> (\<forall>reg name version. view reg name version = ViewFailed
     \<or> view reg name version = (case nr_versions reg name version of None \<Rightarrow> NotFound | Some integrity \<Rightarrow> Viewed integrity))"

text \<open>A publication adds the version under the tag; the registry makes it latest as well when the package had no
  latest version.\<close>

definition published_as :: "string \<Rightarrow> string \<Rightarrow> candidate_package \<Rightarrow> npm_registry \<Rightarrow> npm_registry \<Rightarrow> bool" where
  "published_as tag version p reg reg' \<longleftrightarrow>
     nr_versions reg' = (nr_versions reg)(cp_name p := (nr_versions reg (cp_name p))(version \<mapsto> cp_integrity p))
     \<and> (\<forall>name. name \<noteq> cp_name p \<longrightarrow> nr_tags reg' name = nr_tags reg name)
     \<and> nr_tags reg' (cp_name p) tag = Some version
     \<and> (\<forall>t. t \<noteq> tag \<longrightarrow> nr_tags reg' (cp_name p) t = nr_tags reg (cp_name p) t
          \<or> (t = ''latest'' \<and> nr_tags reg (cp_name p) t = None))"

text \<open>With \<open>--dry-run\<close> nothing is published; otherwise the command publishes when it succeeds, and may have done so
  when it fails.\<close>

definition publish_contract ::
  "string \<Rightarrow> (string list \<Rightarrow> npm_registry \<Rightarrow> candidate_package \<Rightarrow> npm_registry \<times> bool) \<Rightarrow> bool" where
  "publish_contract version npm \<longleftrightarrow>
     (\<forall>tarball tag reg p. fst (npm (publishArguments tarball tag False) reg p) = reg
        \<and> (case npm (publishArguments tarball tag True) reg p of
             (reg', ok) \<Rightarrow> (reg' = reg \<and> \<not> ok) \<or> published_as tag version p reg reg'))"

text \<open>The registry as promote-release.js reads it for a version.\<close>

definition promotion_view :: "string \<Rightarrow> npm_registry \<Rightarrow> tag_registry" where
  "promotion_view version reg =
     \<lparr>tr_published = (\<lambda>name. map_option (\<lambda>integrity. version) (nr_versions reg name version)),
      tr_tags = (\<lambda>name. Some \<lparr>tag_next = nr_tags reg name ''next'', tag_latest = nr_tags reg name ''latest''\<rparr>)\<rparr>"

section \<open>Lemmas\<close>

lemma read_published_Inr:
  "read_published view ps found = Inr published \<Longrightarrow> distinct (map cp_name ps) \<Longrightarrow>
     (\<forall>name. name \<notin> cp_name ` set ps \<longrightarrow> published name = found name)
     \<and> (\<forall>p \<in> set ps. exactPublishedIntegrity view (cp_name p) = Inr (published (cp_name p))
          \<and> (published (cp_name p) = None \<or> published (cp_name p) = Some (cp_integrity p)))"
proof (induction ps arbitrary: found)
  case (Cons p ps)
  obtain integrity where i: "exactPublishedIntegrity view (cp_name p) = Inr integrity"
    "integrity = None \<or> integrity = Some (cp_integrity p)"
    "read_published view ps (found(cp_name p := integrity)) = Inr published"
    using Cons.prems(1) by (auto simp: bind_result_Inr_iff split: if_splits)
  from Cons.IH [OF i(3)] Cons.prems(2) i(1,2) show ?case by auto
qed simp

lemma publish_contractD:
  assumes "publish_contract version npm"
  shows "fst (npm (publishArguments tarball tag False) reg p) = reg"
    and "npm (publishArguments tarball tag True) reg p = (reg', ok) \<Longrightarrow> (reg' = reg \<and> \<not> ok) \<or> published_as tag version p reg reg'"
  using assms [unfolded publish_contract_def, THEN spec [of _ tarball], THEN spec [of _ tag], THEN spec [of _ reg], THEN spec [of _ p]]
  by auto

lemma published_as_other: "published_as tag version p reg reg' \<Longrightarrow> name \<noteq> cp_name p \<Longrightarrow>
   nr_versions reg' name = nr_versions reg name \<and> nr_tags reg' name = nr_tags reg name"
  by (simp add: published_as_def)

lemma dry_run_loop:
  assumes "publish_contract version npm"
  shows "fst (publish_loop (\<lambda>r p. npm (publishArguments (tarball p) tag False) r p) before reg ps) = reg"
proof (induction ps)
  case (Cons p ps)
  then show ?case using publish_contractD(1) [OF assms, of "tarball p" tag reg p] by (auto split: prod.split)
qed simp

text \<open>What the loop has done to a package: it is as it was, or it was published.\<close>

definition kept :: "npm_registry \<Rightarrow> npm_registry \<Rightarrow> string \<Rightarrow> bool" where
  "kept reg reg' name \<longleftrightarrow> nr_versions reg' name = nr_versions reg name \<and> nr_tags reg' name = nr_tags reg name"

definition handled_package :: "string \<Rightarrow> string \<Rightarrow> registry \<Rightarrow> bool \<Rightarrow> npm_registry \<Rightarrow> npm_registry \<Rightarrow> candidate_package \<Rightarrow> bool" where
  "handled_package tag version before ok reg reg' p \<longleftrightarrow>
     (kept reg reg' (cp_name p) \<and> (ok \<longrightarrow> before (cp_name p) \<noteq> None))
     \<or> (before (cp_name p) = None \<and> nr_versions reg' (cp_name p) = (nr_versions reg (cp_name p))(version \<mapsto> cp_integrity p)
        \<and> nr_tags reg' (cp_name p) tag = Some version)"

lemma handled_from: "kept reg reg1 (cp_name p) \<Longrightarrow> handled_package tag version before ok reg1 reg' p = handled_package tag version before ok reg reg' p"
  by (simp add: handled_package_def kept_def)

lemma kept_trans: "kept reg reg1 name \<Longrightarrow> kept reg1 reg2 name \<Longrightarrow> kept reg reg2 name"
  by (simp add: kept_def)

lemma kept_refl [simp]: "kept reg reg name"
  by (simp add: kept_def)

lemma tagged_loop:
  assumes "publish_contract version npm" and "distinct (map cp_name ps)"
    and "publish_loop (\<lambda>r p. npm (publishArguments (tarball p) tag True) r p) before reg ps = (reg', ok)"
  shows "(\<forall>name. name \<notin> cp_name ` set ps \<longrightarrow> kept reg reg' name) \<and> (\<forall>p \<in> set ps. handled_package tag version before ok reg reg' p)"
  using assms(2,3)
proof (induction ps arbitrary: reg)
  case (Cons p ps)
  have d: "distinct (map cp_name ps)" and out: "cp_name p \<notin> cp_name ` set ps" using Cons.prems(1) by simp_all
  then have other: "q \<in> set ps \<Longrightarrow> cp_name q \<noteq> cp_name p" for q by (metis imageI)
  show ?case
  proof (cases "before (cp_name p) = None")
    case False
    then have "publish_loop (\<lambda>r p. npm (publishArguments (tarball p) tag True) r p) before reg ps = (reg', ok)" using Cons.prems(2) by simp
    note rest = Cons.IH [OF d this]
    have "handled_package tag version before ok reg reg' p" using rest out False by (simp add: handled_package_def)
    then show ?thesis using rest by simp
  next
    case new: True
    obtain reg1 ok1 where npm: "npm (publishArguments (tarball p) tag True) reg p = (reg1, ok1)" by fastforce
    note one = publish_contractD(2) [OF assms(1) npm]
    have same: "name \<noteq> cp_name p \<Longrightarrow> kept reg reg1 name" for name
      using one published_as_other by (auto simp: kept_def)
    show ?thesis
    proof (cases ok1)
      case False
      then have r: "reg' = reg1" "\<not> ok" using Cons.prems(2) new npm by auto
      have "handled_package tag version before ok reg reg' p" using one new r by (auto simp: handled_package_def published_as_def)
      moreover have "handled_package tag version before ok reg reg' q" if "q \<in> set ps" for q
        using same [OF other [OF that]] r by (simp add: handled_package_def)
      ultimately show ?thesis using same r by simp
    next
      case True
      then have loop: "publish_loop (\<lambda>r p. npm (publishArguments (tarball p) tag True) r p) before reg1 ps = (reg', ok)"
        using Cons.prems(2) new npm by simp
      note rest = Cons.IH [OF d loop]
      have "published_as tag version p reg reg1" using one True by simp
      moreover have "kept reg1 reg' (cp_name p)" using rest out by blast
      ultimately have "handled_package tag version before ok reg reg' p"
        using new by (simp add: handled_package_def published_as_def kept_def)
      moreover have "handled_package tag version before ok reg reg' q" if "q \<in> set ps" for q
        using rest that handled_from [OF same [OF other [OF that]]] by blast
      moreover have "kept reg reg' name" if "name \<notin> cp_name ` set (p # ps)" for name
        using rest that same [of name] kept_trans by auto
      ultimately show ?thesis by simp
    qed
  qed
qed simp

lemma states_shown:
  assumes "\<And>name. tr_published reg name = None \<Longrightarrow> name \<notin> set publicationOrder" and "\<And>name. tr_tags reg name \<noteq> None"
  obtains states where "registry_states reg = Inr states"
proof -
  have "map_result (\<lambda>name. bind_result (registryState reg name) (\<lambda>state. Inr (name, state))) publicationOrder
    = Inr (map (\<lambda>name. (name, \<lparr>rs_publishedVersion = the (tr_published reg name), rs_next = tag_next (the (tr_tags reg name)),
        rs_latest = tag_latest (the (tr_tags reg name))\<rparr>)) publicationOrder)"
  proof (intro map_result_all)
    fix name
    assume "name \<in> set publicationOrder"
    then obtain v tags where "tr_published reg name = Some v" "tr_tags reg name = Some tags" using assms by fastforce
    then show "bind_result (registryState reg name) (\<lambda>state. Inr (name, state)) = Inr (name, \<lparr>rs_publishedVersion = the (tr_published reg name),
        rs_next = tag_next (the (tr_tags reg name)), rs_latest = tag_latest (the (tr_tags reg name))\<rparr>)"
      by (simp add: registryState_def)
  qed
  then show thesis by (intro that) (simp add: registry_states_def)
qed

lemma promotion_view_ready:
  "ready_for version (promotion_view version reg) name \<longleftrightarrow> nr_versions reg name version \<noteq> None \<and> nr_tags reg name ''next'' = Some version"
  by (auto simp: ready_for_def promotion_view_def)

lemma publish_main_success:
  assumes "publish_main rd view npm a candidateDirectory dir m commit reg = (reg', Inr ())" and "pa_version a = Some version"
  obtains sourceCommit plan before
  where "publicationPlan (publication_manifest m) sourceCommit version = Inr plan" and "map cp_name plan = publicationOrder"
    and "read_published (\<lambda>name. view reg name version) plan Map.empty = Inr before"
    and "publish_loop (\<lambda>r p. npm (publishArguments (join_path candidateDirectory (cp_filename p)) (publish_tag a) (pa_publish a)) r p) before reg plan
      = (reg', True)"
  using assms publicationPlan_Inr(1)
  by (auto simp: publish_main_def publish_candidate_def split: if_splits sum.splits option.splits prod.splits)

text \<open>What the first loop has read is what the registry holds.\<close>

lemma read_before:
  assumes "view_contract view" and "\<And>name v. nr_versions reg name v \<noteq> Some []" and "distinct (map cp_name plan)"
    and "read_published (\<lambda>name. view reg name version) plan Map.empty = Inr before" and p: "p \<in> set plan"
  shows "before (cp_name p) = nr_versions reg (cp_name p) version" "before (cp_name p) = None \<or> before (cp_name p) = Some (cp_integrity p)"
proof -
  have r: "exactPublishedIntegrity (\<lambda>name. view reg name version) (cp_name p) = Inr (before (cp_name p))"
    "before (cp_name p) = None \<or> before (cp_name p) = Some (cp_integrity p)"
    using read_published_Inr [OF assms(4,3)] p by auto
  have "view reg (cp_name p) version = ViewFailed
      \<or> view reg (cp_name p) version = (case nr_versions reg (cp_name p) version of None \<Rightarrow> NotFound | Some i \<Rightarrow> Viewed i)"
    using assms(1) unfolding view_contract_def by blast
  then show "before (cp_name p) = nr_versions reg (cp_name p) version" "before (cp_name p) = None \<or> before (cp_name p) = Some (cp_integrity p)"
    using r assms(2) [of "cp_name p" version] by (auto simp: exactPublishedIntegrity_def split: option.splits if_splits)
qed

text \<open>A registry that holds nothing else than the plan passes the first loop, when the commands do not fail.\<close>

lemma read_passes:
  assumes "view_contract view" and "list_all (\<lambda>p. view reg (cp_name p) version \<noteq> ViewFailed
      \<and> (nr_versions reg (cp_name p) version = None \<or> nr_versions reg (cp_name p) version = Some (cp_integrity p))) plan"
  shows "\<exists>before. read_published (\<lambda>name. view reg name version) plan found = Inr before"
  using assms(2)
proof (induction plan arbitrary: found)
  case (Cons p plan)
  have "view reg (cp_name p) version = (case nr_versions reg (cp_name p) version of None \<Rightarrow> NotFound | Some i \<Rightarrow> Viewed i)"
    using assms(1) Cons.prems unfolding view_contract_def by auto
  then have "\<exists>integrity. exactPublishedIntegrity (\<lambda>name. view reg name version) (cp_name p) = Inr integrity
      \<and> (integrity = None \<or> integrity = Some (cp_integrity p))"
    using Cons.prems by (auto simp: exactPublishedIntegrity_def)
  then show ?case using Cons by auto
qed simp

section \<open>Properties\<close>



text \<open>C18: what a successful publication leaves. A dry run changes nothing. A publication under the tag next leaves every package of the release
  published with the contents of the candidate, and the promotion is possible exactly when the packages that
  were published before it already had the version as next: the script does not move the tag of a package it skips.
\<close>

theorem publication_then_promotion:
  assumes "publish_contract version npm" and "view_contract view" and "\<And>name v. nr_versions reg name v \<noteq> Some []"
    and "publish_main rd view npm a candidateDirectory dir m commit reg = (reg', Inr ())" and "pa_version a = Some version"
    and "publish_tag a = ''next''" and "version_pattern version"
  shows "if pa_publish a
    then (\<exists>(plan :: candidate_package list) states. map cp_name plan = publicationOrder \<and> (\<forall>p \<in> set plan. nr_versions reg' (cp_name p) version = Some (cp_integrity p))
        \<and> registry_states (promotion_view version reg') = Inr states
        \<and> ((\<exists>steps. promotionPlan states version = Inr steps)
            \<longleftrightarrow> (\<forall>name \<in> set publicationOrder. nr_versions reg name version = None \<or> nr_tags reg name ''next'' = Some version)))
    else reg' = reg"
proof -
  obtain sourceCommit plan before where names: "map cp_name plan = publicationOrder"
    and read: "read_published (\<lambda>name. view reg name version) plan Map.empty = Inr before"
    and loop: "publish_loop (\<lambda>r p. npm (publishArguments (join_path candidateDirectory (cp_filename p)) (publish_tag a) (pa_publish a)) r p) before reg plan
      = (reg', True)"
    by (rule publish_main_success [OF assms(4,5)])
  have d: "distinct (map cp_name plan)" unfolding names by code_simp
  show ?thesis
  proof (cases "pa_publish a")
    case False
    then show ?thesis using dry_run_loop [OF assms(1), of "\<lambda>p. join_path candidateDirectory (cp_filename p)" "publish_tag a" before reg plan] loop
      by simp
  next
    case True
    note before = read_before [OF assms(2,3) d read]
    have after: "(nr_versions reg' (cp_name p) = nr_versions reg (cp_name p) \<and> nr_tags reg' (cp_name p) = nr_tags reg (cp_name p) \<and> before (cp_name p) \<noteq> None)
        \<or> (before (cp_name p) = None \<and> nr_versions reg' (cp_name p) version = Some (cp_integrity p) \<and> nr_tags reg' (cp_name p) ''next'' = Some version)"
      if "p \<in> set plan" for p
      using tagged_loop [OF assms(1) d, of "\<lambda>p. join_path candidateDirectory (cp_filename p)" "''next''" before reg reg' True] loop that True
      by (auto simp: assms(6) handled_package_def kept_def)
    have all: "\<forall>p \<in> set plan. nr_versions reg' (cp_name p) version = Some (cp_integrity p)"
      using after before by force
    have order: "set publicationOrder = cp_name ` set plan" using arg_cong [OF names, of set] by simp
    obtain states where s: "registry_states (promotion_view version reg') = Inr states"
      by (rule states_shown) (use all order in \<open>auto simp: promotion_view_def\<close>)
    have "(\<exists>steps. promotionPlan states version = Inr steps) \<longleftrightarrow> (\<forall>name \<in> set publicationOrder. ready_for version (promotion_view version reg') name)"
      using promotion_ready [OF s] assms(7) by blast
    also have "\<dots> \<longleftrightarrow> (\<forall>name \<in> set publicationOrder. nr_versions reg name version = None \<or> nr_tags reg name ''next'' = Some version)"
      unfolding order promotion_view_ready using after before all by force
    finally have possible: "(\<exists>steps. promotionPlan states version = Inr steps)
        \<longleftrightarrow> (\<forall>name \<in> set publicationOrder. nr_versions reg name version = None \<or> nr_tags reg name ''next'' = Some version)" .
    show ?thesis unfolding if_P [OF True] by (rule exI [of _ plan], rule exI [of _ states]) (intro conjI names all s possible)
  qed
qed

text \<open>An empty registry, and an npm that publishes what it is told to.\<close>

definition toy_publish :: "string list \<Rightarrow> npm_registry \<Rightarrow> candidate_package \<Rightarrow> npm_registry \<times> bool" where
  "toy_publish args reg p =
     (if last args \<noteq> ''--provenance'' then (reg, True)
      else (\<lparr>nr_versions = (nr_versions reg)(cp_name p := (nr_versions reg (cp_name p))(example_version \<mapsto> cp_integrity p)),
             nr_tags = (nr_tags reg)(cp_name p := (nr_tags reg (cp_name p))(drop 6 (args ! 3) \<mapsto> example_version))\<rparr>, True))"

definition toy_view :: "npm_registry \<Rightarrow> string \<Rightarrow> string \<Rightarrow> view_result" where
  "toy_view reg name version = (case nr_versions reg name version of None \<Rightarrow> NotFound | Some i \<Rightarrow> Viewed i)"

definition live_arguments :: publish_arguments where
  "live_arguments = \<lparr>pa_npmExecPath = Some ''npm'', pa_version = Some example_version, pa_tag = None, pa_publish = True, pa_inWorkflow = True\<rparr>"

abbreviation empty_registry :: npm_registry where
  "empty_registry \<equiv> \<lparr>nr_versions = (\<lambda>name v. None), nr_tags = (\<lambda>name t. None)\<rparr>"

lemma toy_publish_contract: "publish_contract example_version toy_publish"
  by (simp add: publish_contract_def toy_publish_def publishArguments_def published_as_def)

lemma toy_read: "\<exists>before. read_published (\<lambda>name. toy_view empty_registry name v) ps found = Inr before"
  by (induction ps arbitrary: found) (simp_all add: exactPublishedIntegrity_def toy_view_def)

lemma toy_publish_loop: "\<exists>reg'. publish_loop (\<lambda>r p. toy_publish (f p) r p) before reg ps = (reg', True)"
  by (induction ps arbitrary: reg) (simp_all add: toy_publish_def)

theorem publication_then_promotion_witness:
  "\<exists>dir m reg' states. publish_main example_reader toy_view toy_publish live_arguments ''/c'' dir m (Some ''commit'') empty_registry = (reg', Inr ())
     \<and> registry_states (promotion_view example_version reg') = Inr states \<and> (\<exists>steps. promotionPlan states example_version = Inr steps)"
proof -
  obtain dir m where m: "pack_candidate example_reader example_npm example_workspace False platforms ''commit'' (Some [7]) = Inr (dir, m)"
    "distinct (map cp_filename (pm_packages m))" "''SECURITY.md'' \<notin> cp_filename ` set (pm_packages m)"
    by (rule example_candidate)
  have verified: "verify_candidate example_reader dir m = Inr ()"
    by (rule clean_candidate_verifies [OF example_clean example_inputs m])
  obtain plan where plan: "publicationPlan (publication_manifest m) ''commit'' example_version = Inr plan"
    using clean_candidate_planned [OF example_clean example_inputs m] by (auto simp: example_workspace_def example_package_def)
  obtain before where read: "read_published (\<lambda>name. toy_view empty_registry name example_version) plan Map.empty = Inr before"
    using toy_read by blast
  obtain reg' where loop: "publish_loop (\<lambda>r p. toy_publish (publishArguments (join_path ''/c'' (cp_filename p)) ''next'' True) r p) before empty_registry plan
      = (reg', True)"
    using toy_publish_loop [of "\<lambda>p. publishArguments (join_path ''/c'' (cp_filename p)) ''next'' True" before empty_registry plan] by blast
  have fields: "pa_publish live_arguments" "pa_inWorkflow live_arguments" "pa_version live_arguments = Some example_version"
    "publish_tag live_arguments = ''next''" "\<not> no_argument (pa_npmExecPath live_arguments)" "\<not> no_argument (Some example_version)"
    by (simp_all add: live_arguments_def publish_tag_def no_argument_def example_version_def)
  have tag: "tag_pattern ''next''" "version_pattern example_version" by code_simp+
  have run: "publish_main example_reader toy_view toy_publish live_arguments ''/c'' dir m (Some ''commit'') empty_registry = (reg', Inr ())"
    using verified plan read loop by (simp add: publish_main_def publish_candidate_def fields tag)
  have view: "view_contract toy_view" by (simp add: view_contract_def toy_view_def)
  have "nr_versions empty_registry name v \<noteq> Some []" for name v by simp
  from publication_then_promotion [OF toy_publish_contract view this run fields(3,4) tag(2)] fields(1)
  have "\<exists>states. registry_states (promotion_view example_version reg') = Inr states \<and> (\<exists>steps. promotionPlan states example_version = Inr steps)"
    by auto
  then show ?thesis using run by blast
qed

text \<open>An npm that fails at the loader package, after it has published the packages before it.\<close>

definition failing_publish :: "string list \<Rightarrow> npm_registry \<Rightarrow> candidate_package \<Rightarrow> npm_registry \<times> bool" where
  "failing_publish args reg p = (if cp_name p = ''@http3-server/native'' \<and> last args = ''--provenance'' then (reg, False) else toy_publish args reg p)"

lemma failing_contract: "publish_contract example_version failing_publish"
  by (simp add: publish_contract_def failing_publish_def toy_publish_def publishArguments_def published_as_def)

definition toy_manifest :: candidate_manifest where
  "toy_manifest = \<lparr>cm_scope = ''release'', cm_sourceCommit = ''c'', cm_releaseVersion = example_version,
     cm_packages = map (\<lambda>n. \<lparr>cp_name = n, cp_filename = n, cp_integrity = n\<rparr>) publicationOrder\<rparr>"

lemma toy_plan: "publicationPlan toy_manifest ''c'' example_version = Inr (cm_packages toy_manifest)"
  by (simp add: publicationPlan_def toy_manifest_def publicationOrder_def map_of_entries_def js_set_def js_size_def js_get_def)


end
