(* ===== verification/Candidate_Install.thy ===== *)
theory Candidate_Install
  imports Promotion_Run Candidate_Example
begin

text \<open>
  scripts/candidate.js: the installation of a packed candidate in an empty project, where the loader of the machine has to find
  its platform package. What \<open>npm install\<close> does is a parameter.
\<close>

section \<open>The script\<close>

datatype install_error =
    NoPlatformPackage native_error
  | NotInCandidate string
  | NpmPathMissing
  | InstallFailed

text \<open>The package.json of the project: the dependencies, and the packages for other machines.\<close>

record installation =
  in_platformName :: string
  in_dependencies :: "(string, string) js_map"
  in_optionalDependencies :: "(string, string) js_map"

definition packageByName :: "packed_manifest \<Rightarrow> (string, manifest_package) js_map" where
  "packageByName m = map_of_entries (map (\<lambda>pkg. (cp_name pkg, pkg)) (pm_packages m))"

definition required_packages :: "string \<Rightarrow> string list" where
  "required_packages platformName = [''@http3-server/server'', ''@http3-server/dev-certificates'', ''@http3-server/native'', platformName]"

definition fileSpec :: "string \<Rightarrow> packed_manifest \<Rightarrow> string \<Rightarrow> string" where
  "fileSpec directory m name =
     ''file:'' @ join_path directory (case js_get (packageByName m) name of None \<Rightarrow> [] | Some pkg \<Rightarrow> cp_filename pkg)"

definition installation_for :: "string \<Rightarrow> packed_manifest \<Rightarrow> string \<Rightarrow> installation" where
  "installation_for directory m platformName =
     \<lparr>in_platformName = platformName,
      in_dependencies = map_of_entries (map (\<lambda>name. (name, fileSpec directory m name)) (required_packages platformName)),
      in_optionalDependencies = map_of_entries (map (\<lambda>pkg. (cp_name pkg, fileSpec directory m (cp_name pkg)))
        (filter (\<lambda>pkg. mp_os pkg \<noteq> None \<and> mp_cpu pkg \<noteq> None \<and> cp_name pkg \<noteq> platformName) (pm_packages m)))\<rparr>"

definition installCandidate ::
  "string \<Rightarrow> packed_manifest \<Rightarrow> runtime \<Rightarrow> string option \<Rightarrow> (installation \<Rightarrow> bool) \<Rightarrow> install_error + installation" where
  "installCandidate directory m machine npmExecPath npm =
     (case getPackageForCurrentPlatform machine of
        Inl err \<Rightarrow> Inl (NoPlatformPackage err)
      | Inr platformName \<Rightarrow>
          (case find (\<lambda>name. js_get (packageByName m) name = None) (required_packages platformName) of
             Some name \<Rightarrow> Inl (NotInCandidate name)
           | None \<Rightarrow>
               let inst = installation_for directory m platformName
               in if no_argument npmExecPath then Inl NpmPathMissing else if npm inst then Inr inst else Inl InstallFailed))"

section \<open>Lemmas\<close>

lemma map_of_entries_lookup:
  "distinct (map fst kvs) \<Longrightarrow> js_get (map_of_entries kvs) k = map_of kvs k"
  using entries_stored [of kvs "[]" k] by (simp add: map_of_entries_def js_get_def split: option.splits)

lemma names_lookup:
  "distinct ns \<Longrightarrow> js_get (map_of_entries (map (\<lambda>n. (n, f n)) ns)) k = (if k \<in> set ns then Some (f k) else None)"
  using map_of_entries_lookup [of "map (\<lambda>n. (n, f n)) ns" k] by (simp add: comp_def map_of_map_restrict restrict_map_def)

lemma byName_lookup:
  assumes "distinct (map cp_name (pm_packages m))" and "e \<in> set (pm_packages m)"
  shows "js_get (packageByName m) (cp_name e) = Some e"
proof -
  have d: "distinct (map fst (map (\<lambda>pkg. (cp_name pkg, pkg)) (pm_packages m)))" using assms(1) by (simp add: comp_def)
  have "map_of (map (\<lambda>pkg. (cp_name pkg, pkg)) (pm_packages m)) (cp_name e) = Some e"
    by (rule map_of_is_SomeI [OF d]) (use assms(2) in auto)
  then show ?thesis using map_of_entries_lookup [OF d] by (simp add: packageByName_def)
qed

lemma known_names: "p \<in> set (map snd knownPlatformPackages) \<longleftrightarrow> p \<in> (\<lambda>q. ''@http3-server/'' @ pf_id q) ` set platforms"
  by (auto simp: knownPlatformPackages_def platforms_def)

lemma required_distinct:
  assumes "p \<in> set (map snd knownPlatformPackages)"
  shows "distinct (required_packages p)" and "set (required_packages p) \<subseteq> set publicationOrder"
  using assms by (auto simp: knownPlatformPackages_def required_packages_def publicationOrder_def)

text \<open>Which packages of a clean release are for a platform.\<close>

lemma platform_entries:
  assumes "release_packed rd nb w dir m" and "e \<in> set (pm_packages m)"
  shows "(mp_os e \<noteq> None \<and> mp_cpu e \<noteq> None \<and> cp_name e \<in> set (map snd knownPlatformPackages))
    \<or> (mp_os e = None \<and> cp_name e \<in> {''@http3-server/server'', ''@http3-server/dev-certificates'', ''@http3-server/native''}
        \<and> cp_name e \<notin> set (map snd knownPlatformPackages))"
proof -
  obtain path pkg i where x: "(path, pkg, i) \<in> set (package_sources w platforms)" "packed_from rd w (path, pkg, i) e"
    by (rule release_origin [OF assms])
  note named = release_packedD(3) [OF assms(1)]
  note name = packed_fields(1) [OF x(2)]
  consider q where "q \<in> set platforms" "path = ''binaries/'' @ pf_id q" "pkg = ws_binary w (pf_id q)" "i = Some (pf_id q)"
    | "pkg \<in> {ws_certificates w, ws_native w, ws_server w}"
    using x(1) by (auto simp: package_sources_def)
  then show ?thesis
  proof cases
    case 1
    have "pj_name pkg = ''@http3-server/'' @ pf_id q" using named 1 unfolding named_packages_def by blast
    then have "cp_name e \<in> set (map snd knownPlatformPackages)" unfolding known_names using 1(1) name by simp
    moreover have "mp_os e = Some [pf_os q] \<and> mp_cpu e = Some [pf_cpu q]"
      using native_verified [OF release_packedD(1,2) [OF assms(1)] 1(1)] x(2) 1 by blast
    ultimately show ?thesis by simp
  next
    case 2
    then have "pj_os pkg = None" "pj_name pkg \<in> {''@http3-server/server'', ''@http3-server/dev-certificates'', ''@http3-server/native''}"
      using named_packagesD [OF named] by auto
    then show ?thesis using name packed_fields(4) [OF x(2)] by (auto simp: knownPlatformPackages_def)
  qed
qed

section \<open>Properties\<close>

text \<open>C25: For a candidate of a clean release the installation gets as far as npm, with the right packages. When check-release.js lists no failure
  of a workspace whose inputs have the shapes the repository gives them (\<open>sound_inputs\<close>, \<open>named_packages\<close>) and the
  packed tarballs have names of their own, then on each machine the loader knows a package for the script ends as npm does; what it gives npm
  to install has every package of the candidate in exactly one of the two groups of dependencies, with the tarball that holds it:
  the package of this machine and those no machine can do without are required, the others optional. Whether npm then installs them is npm's.
\<close>

theorem npm_install_prepared:
  assumes "check_release rd nb True False w = Inr []" and "sound_inputs rd nb w" and "named_packages w"
    and "pack_candidate rd npm_pack w False platforms commit security = Inr (dir, m)"
    and "distinct (map cp_filename (pm_packages m))" "''SECURITY.md'' \<notin> cp_filename ` set (pm_packages m)"
    and "getPackageForCurrentPlatform machine = Inr p" and "npmExecPath = Some (c # cs)"
  shows "installCandidate directory m machine npmExecPath npm
      = (if npm (installation_for directory m p) then Inr (installation_for directory m p) else Inl InstallFailed)
    \<and> (\<forall>e \<in> set (pm_packages m).
        js_get (if cp_name e \<in> set (required_packages p) then in_dependencies (installation_for directory m p)
                else in_optionalDependencies (installation_for directory m p)) (cp_name e) = Some (''file:'' @ join_path directory (cp_filename e))
        \<and> js_get (if cp_name e \<in> set (required_packages p) then in_optionalDependencies (installation_for directory m p)
                else in_dependencies (installation_for directory m p)) (cp_name e) = None)"
proof -
  note r = packed_release(1) [OF assms(1-6)]
  note names = release_set [OF r]
  have p: "p \<in> set (map snd knownPlatformPackages)" using package_known [OF assms(7)] by force
  note req = required_distinct [OF p]
  have "js_get (packageByName m) name \<noteq> None" if "name \<in> set (required_packages p)" for name
  proof -
    have "name \<in> set (map cp_name (pm_packages m))" using that req(2) names(3) by blast
    then obtain e where "e \<in> set (pm_packages m)" "name = cp_name e" by auto
    then show ?thesis using byName_lookup [OF names(1)] by simp
  qed
  then have found: "find (\<lambda>name. js_get (packageByName m) name = None) (required_packages p) = None" by (auto simp: find_None_iff)
  let ?spec = "fileSpec directory m"
  let ?others = "filter (\<lambda>pkg. mp_os pkg \<noteq> None \<and> mp_cpu pkg \<noteq> None \<and> cp_name pkg \<noteq> p) (pm_packages m)"
  have dep: "js_get (in_dependencies (installation_for directory m p)) name = (if name \<in> set (required_packages p) then Some (?spec name) else None)" for name
    using names_lookup [OF req(1), of ?spec name] by (simp add: installation_for_def)
  have opt: "js_get (in_optionalDependencies (installation_for directory m p)) name
      = (if name \<in> cp_name ` set ?others then Some (?spec name) else None)" for name
  proof -
    have m: "map (\<lambda>pkg. (cp_name pkg, ?spec (cp_name pkg))) ?others = map (\<lambda>n. (n, ?spec n)) (map cp_name ?others)" by simp
    have "distinct (map cp_name ?others)" using names(1) by (simp add: distinct_map_filter)
    from names_lookup [OF this, of ?spec name] show ?thesis
      unfolding installation_for_def installation.simps m by (simp only: set_map)
  qed
  have spec: "?spec (cp_name e) = ''file:'' @ join_path directory (cp_filename e)" if "e \<in> set (pm_packages m)" for e
    by (simp add: fileSpec_def byName_lookup [OF names(1) that])
  have other: "cp_name e \<in> cp_name ` set ?others \<longleftrightarrow> cp_name e \<notin> set (required_packages p)" if e: "e \<in> set (pm_packages m)" for e
  proof -
    have "cp_name e \<in> cp_name ` set ?others \<longleftrightarrow> e \<in> set ?others"
      using names(1) e by (auto simp: distinct_map inj_on_def)
    moreover have "e \<in> set ?others \<longleftrightarrow> cp_name e \<notin> set (required_packages p)"
    proof (rule disjE [OF platform_entries [OF r e]])
      assume "mp_os e \<noteq> None \<and> mp_cpu e \<noteq> None \<and> cp_name e \<in> set (map snd knownPlatformPackages)"
      moreover have "cp_name e \<notin> {''@http3-server/server'', ''@http3-server/dev-certificates'', ''@http3-server/native''}"
        using calculation required_distinct(1) [of "cp_name e"] by (auto simp: required_packages_def)
      ultimately show ?thesis using e by (simp add: required_packages_def)
    qed (auto simp: required_packages_def)
    ultimately show ?thesis by simp
  qed
  show ?thesis using found assms(7,8) dep opt spec other by (auto simp: installCandidate_def no_argument_def Let_def)
qed

theorem npm_install_prepared_witness:
  "\<exists>dir m. pack_candidate example_reader example_npm example_workspace False platforms ''commit'' (Some [7]) = Inr (dir, m)
    \<and> installCandidate ''/c'' m \<lparr>rt_platform = ''darwin'', rt_architecture = ''arm64'', rt_byteOrder = ''LE'', rt_report = ReportThrows\<rparr> (Some ''npm'')
        (\<lambda>i. True) = Inr (installation_for ''/c'' m ''@http3-server/darwin-arm64'')"
proof -
  obtain dir m where m: "pack_candidate example_reader example_npm example_workspace False platforms ''commit'' (Some [7]) = Inr (dir, m)"
    "distinct (map cp_filename (pm_packages m))" "''SECURITY.md'' \<notin> cp_filename ` set (pm_packages m)"
    by (rule example_candidate)
  have "getPackageForCurrentPlatform \<lparr>rt_platform = ''darwin'', rt_architecture = ''arm64'', rt_byteOrder = ''LE'', rt_report = ReportThrows\<rparr>
      = Inr ''@http3-server/darwin-arm64''"
    by code_simp
  from npm_install_prepared [OF example_clean example_inputs m this, of "Some ''npm''" "CHR ''n''" "''pm''" "''/c''" "\<lambda>i. True"]
  show ?thesis using m(1) by auto
qed

end
