(* ===== verification/Candidate_Swap.thy ===== *)
theory Candidate_Swap
  imports Prelude
begin

text \<open>
  The end of scripts/pack-release.js: the packed candidate takes the place of the previous one at the
  destination. The directories are slots that hold a number or nothing; the \<open>n\<close>-th operation fails as
  \<open>fails n\<close> says, and a directory whose removal fails may be left damaged.
\<close>

section \<open>The directories\<close>

datatype contents = Whole nat | Damaged

record swap_state =
  sw_candidate :: "contents option"
  sw_next :: "contents option"
  sw_destination :: "contents option"
  sw_backup :: "contents option"
  sw_operations :: nat

text \<open>A rename needs its source and, for a directory, a free target.\<close>

definition swap_operation :: "(nat \<Rightarrow> bool) \<Rightarrow> (swap_state \<Rightarrow> swap_state) \<Rightarrow> (swap_state \<Rightarrow> swap_state option) \<Rightarrow> swap_state \<Rightarrow> swap_state \<times> bool" where
  "swap_operation fails broken f s =
     (let s' = s\<lparr>sw_operations := sw_operations s + 1\<rparr>
      in if fails (sw_operations s) then (broken s', False)
         else case f s' of None \<Rightarrow> (s', False) | Some t \<Rightarrow> (t, True))"

definition remove_next :: "(nat \<Rightarrow> bool) \<Rightarrow> swap_state \<Rightarrow> swap_state \<times> bool" where
  "remove_next fails = swap_operation fails (\<lambda>s. s\<lparr>sw_next := map_option (\<lambda>_. Damaged) (sw_next s)\<rparr>) (\<lambda>s. Some (s\<lparr>sw_next := None\<rparr>))"

definition remove_backup :: "(nat \<Rightarrow> bool) \<Rightarrow> swap_state \<Rightarrow> swap_state \<times> bool" where
  "remove_backup fails = swap_operation fails (\<lambda>s. s\<lparr>sw_backup := map_option (\<lambda>_. Damaged) (sw_backup s)\<rparr>) (\<lambda>s. Some (s\<lparr>sw_backup := None\<rparr>))"

definition candidate_to_next :: "(nat \<Rightarrow> bool) \<Rightarrow> swap_state \<Rightarrow> swap_state \<times> bool" where
  "candidate_to_next fails = swap_operation fails (\<lambda>s. s) (\<lambda>s.
     if sw_candidate s = None \<or> sw_next s \<noteq> None then None else Some (s\<lparr>sw_next := sw_candidate s, sw_candidate := None\<rparr>))"

definition destination_to_backup :: "(nat \<Rightarrow> bool) \<Rightarrow> swap_state \<Rightarrow> swap_state \<times> bool" where
  "destination_to_backup fails = swap_operation fails (\<lambda>s. s) (\<lambda>s.
     if sw_destination s = None \<or> sw_backup s \<noteq> None then None else Some (s\<lparr>sw_backup := sw_destination s, sw_destination := None\<rparr>))"

definition next_to_destination :: "(nat \<Rightarrow> bool) \<Rightarrow> swap_state \<Rightarrow> swap_state \<times> bool" where
  "next_to_destination fails = swap_operation fails (\<lambda>s. s) (\<lambda>s.
     if sw_next s = None \<or> sw_destination s \<noteq> None then None else Some (s\<lparr>sw_destination := sw_next s, sw_next := None\<rparr>))"

definition backup_to_destination :: "(nat \<Rightarrow> bool) \<Rightarrow> swap_state \<Rightarrow> swap_state \<times> bool" where
  "backup_to_destination fails = swap_operation fails (\<lambda>s. s) (\<lambda>s.
     if sw_backup s = None \<or> sw_destination s \<noteq> None then None else Some (s\<lparr>sw_destination := sw_backup s, sw_backup := None\<rparr>))"

section \<open>The swap\<close>

text \<open>The \<open>try\<close> block: whether \<open>backedUp\<close> was set, and whether all went well.\<close>

definition swap_try :: "(nat \<Rightarrow> bool) \<Rightarrow> swap_state \<Rightarrow> swap_state \<times> bool \<times> bool" where
  "swap_try fails s =
     (let existed = (sw_destination s \<noteq> None)
      in case (if existed then destination_to_backup fails s else (s, True)) of
           (s1, False) \<Rightarrow> (s1, False, False)
         | (s1, True) \<Rightarrow> (case next_to_destination fails s1 of
             (s2, False) \<Rightarrow> (s2, existed, False)
           | (s2, True) \<Rightarrow> (case (if existed then remove_backup fails s2 else (s2, True)) of (s3, ok) \<Rightarrow> (s3, existed, ok))))"

text \<open>The swap with its \<open>catch\<close> and \<open>finally\<close> blocks. A candidate that was not moved stays in the temporary directory.\<close>

definition put_in_place :: "(nat \<Rightarrow> bool) \<Rightarrow> swap_state \<Rightarrow> swap_state \<times> bool" where
  "put_in_place fails s =
     (case remove_next fails s of
        (s1, False) \<Rightarrow> (s1, False)
      | (s1, True) \<Rightarrow> (case candidate_to_next fails s1 of
          (s2, False) \<Rightarrow> (s2, False)
        | (s2, True) \<Rightarrow> (case swap_try fails s2 of (s3, backedUp, ok) \<Rightarrow>
            let s4 = (if \<not> ok \<and> backedUp \<and> sw_destination s3 = None then fst (backup_to_destination fails s3) else s3)
            in case remove_next fails s4 of (s5, ok5) \<Rightarrow> (s5, ok \<and> ok5))))"

lemmas swap_code = put_in_place_def swap_try_def swap_operation_def remove_next_def remove_backup_def candidate_to_next_def
  destination_to_backup_def next_to_destination_def backup_to_destination_def Let_def

lemma swap_outcome:
  assumes "sw_candidate s = Some (Whole c)" and "sw_backup s = None" and "put_in_place fails s = (s', ok)"
  shows "(sw_destination s' = Some (Whole c) \<or> sw_destination s' = sw_destination s
      \<or> (sw_destination s' = None \<and> sw_backup s' = sw_destination s \<and> fails (sw_operations s + 3) \<and> fails (sw_operations s + 4)))
    \<and> (ok \<longrightarrow> sw_destination s' = Some (Whole c) \<and> sw_backup s' = None)"
proof -
  obtain a x d b n where s: "s = \<lparr>sw_candidate = a, sw_next = x, sw_destination = d, sw_backup = b, sw_operations = n\<rparr>" by (cases s)
  have ab: "a = Some (Whole c)" "b = None" using assms(1,2) by (simp_all add: s)
  have "case put_in_place fails \<lparr>sw_candidate = Some (Whole c), sw_next = x, sw_destination = d, sw_backup = None, sw_operations = n\<rparr> of (t, ok) \<Rightarrow>
    (sw_destination t = Some (Whole c) \<or> sw_destination t = d
      \<or> (sw_destination t = None \<and> sw_backup t = d \<and> fails (n + 3) \<and> fails (n + 4)))
    \<and> (ok \<longrightarrow> sw_destination t = Some (Whole c) \<and> sw_backup t = None)"
    by (cases "fails n"; cases "fails (n + 1)"; cases "fails (n + 2)"; cases "fails (n + 3)"; cases "fails (n + 4)"; cases "fails (n + 5)"; cases d)
      (simp_all add: swap_code eval_nat_numeral)
  then show ?thesis using assms(3) by (simp add: s ab)
qed

section \<open>Properties\<close>

text \<open>C21: the previous release candidate is never lost while a new one takes its place. Whatever operations fail, the destination holds the
  new candidate, or what it held before (which may be nothing), or it is empty and what it held before is in the backup; it holds the new
  one when the swap succeeds, and with at most one failure it is never empty if it was not before.
\<close>

theorem candidate_never_lost:
  assumes "sw_candidate s = Some (Whole c)" and "sw_backup s = None" and "put_in_place fails s = (s', ok)"
  shows "(sw_destination s' = Some (Whole c) \<or> sw_destination s' = sw_destination s
      \<or> (sw_destination s' = None \<and> sw_backup s' = sw_destination s))
    \<and> (ok \<longrightarrow> sw_destination s' = Some (Whole c) \<and> sw_backup s' = None)
    \<and> ((\<forall>n k. fails n \<longrightarrow> fails k \<longrightarrow> n = k) \<longrightarrow> sw_destination s' = None \<longrightarrow> sw_destination s = None)"
proof -
  note out = swap_outcome [OF assms]
  have "sw_destination s = None" if single: "\<forall>n k. fails n \<longrightarrow> fails k \<longrightarrow> n = k" and "sw_destination s' = None"
  proof (rule ccontr)
    assume "sw_destination s \<noteq> None"
    then have "fails (sw_operations s + 3)" "fails (sw_operations s + 4)" using out that(2) by auto
    then have "sw_operations s + 3 = sw_operations s + 4" using single by blast
    then show False by simp
  qed
  then show ?thesis using out by blast
qed

theorem candidate_never_lost_witness:
  "put_in_place (\<lambda>n. n = 3) \<lparr>sw_candidate = Some (Whole 2), sw_next = None, sw_destination = Some (Whole 1), sw_backup = None, sw_operations = 0\<rparr>
    = (\<lparr>sw_candidate = None, sw_next = None, sw_destination = Some (Whole 1), sw_backup = None, sw_operations = 6\<rparr>, False)
   \<and> sw_destination (fst (put_in_place (\<lambda>n. n = 3) \<lparr>sw_candidate = Some (Whole 2), sw_next = None, sw_destination = Some (Whole 1),
       sw_backup = None, sw_operations = 0\<rparr>)) \<noteq> None"
proof -
  have r: "put_in_place (\<lambda>n. n = 3) \<lparr>sw_candidate = Some (Whole 2), sw_next = None, sw_destination = Some (Whole 1), sw_backup = None, sw_operations = 0\<rparr>
    = (\<lparr>sw_candidate = None, sw_next = None, sw_destination = Some (Whole 1), sw_backup = None, sw_operations = 6\<rparr>, False)"
    by (simp add: swap_code)
  show ?thesis using candidate_never_lost [OF _ _ r, of 2] r by simp
qed

end
