(* ===== verification/Dev_Cache.thy ===== *)
theory Dev_Cache
  imports Js_Path Certificate
begin

text \<open>
  packages/dev-certificates/node.js: \<open>ensureDevelopmentCertificate\<close>, cut at its awaits, with the
  file system as the state that overlapping calls of any number of processes share. \<open>node:crypto\<close> is
  a parameter; a path is resolved against the directory \<open>cwd\<close> of a POSIX system.
\<close>

section \<open>Errors and options\<close>

text \<open>An error of the file system has a code; the other errors count as recoverable.\<close>

datatype cache_error =
    DirectoryRequired
  | BadRenewal
  | ArrayExpected string
  | NoNames
  | FileFailure string
  | CacheProblem string
  | GenerationFailed der_error

fun isRecoverableCacheError :: "cache_error \<Rightarrow> bool" where
  "isRecoverableCacheError (FileFailure c) = (c \<noteq> ''EACCES'' \<and> c \<noteq> ''EPERM'')"
| "isRecoverableCacheError _ = True"

text \<open>A number of milliseconds, rounded down, or a value that \<open>Number.isFinite\<close> refuses.\<close>

datatype milliseconds = Milliseconds int | NotFinite

record profile =
  pr_commonName :: "code_points option option"
  pr_dnsNames :: "js_text list"
  pr_ipAddresses :: "js_text list"
  pr_validityDays :: js_number

text \<open>\<open>eo_certificate\<close> holds the options that are passed on; \<open>eo_directory\<close> is \<open>None\<close> when it is no string.\<close>

record ensure_options =
  eo_directory :: "string option"
  eo_renewBeforeMs :: "milliseconds option"
  eo_validityDays :: "js_number option"
  eo_certificate :: certificate_options

fun array_or :: "'a list \<Rightarrow> 'a js_array \<Rightarrow> 'a list" where
  "array_or d (ArrayOf xs) = xs"
| "array_or d _ = d"

definition cache_profile :: "ensure_options \<Rightarrow> profile" where
  "cache_profile e =
     \<lparr>pr_commonName = o_commonName (eo_certificate e),
      pr_dnsNames = array_or [TextValue ''localhost''] (o_dnsNames (eo_certificate e)),
      pr_ipAddresses = array_or [TextValue ''127.0.0.1'', TextValue ''::1''] (o_ipAddresses (eo_certificate e)),
      pr_validityDays = (case eo_validityDays e of None \<Rightarrow> IntegerNumber 10 | Some n \<Rightarrow> n)\<rparr>"

text \<open>The checks before the first await: the directory, the margin of the renewal and the profile.\<close>

definition ensure_arguments :: "ensure_options \<Rightarrow> cache_error + string \<times> int \<times> profile" where
  "ensure_arguments e =
     (let dns = o_dnsNames (eo_certificate e); ips = o_ipAddresses (eo_certificate e); p = cache_profile e
      in case eo_directory e of
           None \<Rightarrow> Inl DirectoryRequired
         | Some directory \<Rightarrow>
             if directory = [] then Inl DirectoryRequired
             else case (case eo_renewBeforeMs e of None \<Rightarrow> Milliseconds day_ms | Some ms \<Rightarrow> ms) of
               NotFinite \<Rightarrow> Inl BadRenewal
             | Milliseconds ms \<Rightarrow>
                 if ms < 0 then Inl BadRenewal
                 else if dns = NotAnArrayValue then Inl (ArrayExpected ''dnsNames'')
                 else if ips = NotAnArrayValue then Inl (ArrayExpected ''ipAddresses'')
                 else if length (pr_dnsNames p) + length (pr_ipAddresses p) = 0 then Inl NoNames
                 else Inr (directory, ms, p))"

definition generation_options :: "profile \<Rightarrow> certificate_options \<Rightarrow> certificate_options" where
  "generation_options p o' =
     o'\<lparr>o_commonName := pr_commonName p, o_dnsNames := ArrayOf (pr_dnsNames p), o_ipAddresses := ArrayOf (pr_ipAddresses p)\<rparr>"

section \<open>The stored certificate\<close>

text \<open>What \<open>node:crypto\<close> reads from PEM text: a certificate, and the public key of a private key.\<close>

record x509 =
  x_raw :: bytes
  x_ca :: bool
  x_keyType :: string
  x_namedCurve :: "string option"
  x_publicKey :: bytes
  x_verify :: "bytes \<Rightarrow> bool"
  x_checkHost :: "string \<Rightarrow> bool"
  x_checkIP :: "string \<Rightarrow> bool"
  x_validFrom :: int
  x_validTo :: int

record node_crypto =
  parse_x509 :: "string \<Rightarrow> x509 option"
  public_key_of :: "string \<Rightarrow> bytes option"
  sha256_of :: "bytes \<Rightarrow> bytes"

record cached_certificate =
  cc_certificateFile :: string
  cc_privateKeyFile :: string
  cc_certificateHash :: bytes
  cc_serverCertificateHashes :: "(string \<times> bytes) list"
  cc_reused :: bool
  cc_validFrom :: int
  cc_validTo :: int

definition hashes :: "node_crypto \<Rightarrow> x509 \<Rightarrow> bytes \<times> (string \<times> bytes) list" where
  "hashes api x = (let certificateHash = sha256_of api (x_raw x) in (certificateHash, [(''sha-256'', certificateHash)]))"

definition matchesPrivateKey :: "node_crypto \<Rightarrow> x509 \<Rightarrow> string \<Rightarrow> cache_error + bool" where
  "matchesPrivateKey api x pem_text =
     (case public_key_of api pem_text of
        None \<Rightarrow> Inl (CacheProblem ''private key'')
      | Some k \<Rightarrow> Inr (k = x_publicKey x))"

text \<open>A name that is no string makes the check throw; the error is as recoverable as the refusal.\<close>

definition all_names :: "(string \<Rightarrow> bool) \<Rightarrow> js_text list \<Rightarrow> bool" where
  "all_names check = list_all (\<lambda>v. case v of TextValue s \<Rightarrow> check s | OtherValue \<Rightarrow> False)"

definition cached_certificate_usable :: "int option \<Rightarrow> int \<Rightarrow> x509 \<Rightarrow> bool" where
  "cached_certificate_usable now renewBeforeMs x \<longleftrightarrow>
     (case now of None \<Rightarrow> False | Some t \<Rightarrow> x_validFrom x \<le> t \<and> x_validTo x - t > renewBeforeMs)
     \<and> x_validTo x - x_validFrom x < 14 * day_ms \<and> \<not> x_ca x \<and> x_keyType x = ''ec''
     \<and> x_namedCurve x = Some ''prime256v1'' \<and> x_verify x (x_publicKey x)"

definition readStoredCertificate ::
  "node_crypto \<Rightarrow> int \<Rightarrow> string \<Rightarrow> string \<Rightarrow> certificate_options \<Rightarrow> profile \<Rightarrow> int \<Rightarrow> string \<Rightarrow> string
    \<Rightarrow> cache_error + cached_certificate" where
  "readStoredCertificate api clock certificateFile privateKeyFile o' p renewBeforeMs certificate_text key_text =
     (case parse_x509 api certificate_text of
        None \<Rightarrow> Inl (CacheProblem ''certificate'')
      | Some x \<Rightarrow>
          let now = (case o_now o' of NoDate \<Rightarrow> Some clock | InvalidDate \<Rightarrow> None | DateAt t \<Rightarrow> Some t)
          in if \<not> cached_certificate_usable now renewBeforeMs x then Inl (CacheProblem ''not reusable'')
             else bind_result (matchesPrivateKey api x key_text) (\<lambda>matches.
               if \<not> matches \<or> \<not> all_names (x_checkHost x) (pr_dnsNames p) \<or> \<not> all_names (x_checkIP x) (pr_ipAddresses p)
               then Inl (CacheProblem ''not reusable'')
               else Inr \<lparr>cc_certificateFile = certificateFile, cc_privateKeyFile = privateKeyFile,
                          cc_certificateHash = fst (hashes api x), cc_serverCertificateHashes = snd (hashes api x), cc_reused = True,
                          cc_validFrom = x_validFrom x, cc_validTo = x_validTo x\<rparr>))"

section \<open>The pointer of the cache\<close>

text \<open>The JSON value of current.json. A field is \<open>None\<close> when it is not of the kind the code writes.\<close>

record cache_pointer =
  pt_formatVersion :: "int option"
  pt_certificateFile :: "string option"
  pt_privateKeyFile :: "string option"
  pt_profile :: "profile option"

text \<open>A file: being written, the text of a pointer, or any other text.\<close>

datatype cached_file = Unfinished | Pointer cache_pointer | TextFile string

type_synonym cache_files = "string \<Rightarrow> cached_file option"

definition cachePath :: "string \<Rightarrow> string option \<Rightarrow> cache_error + string" where
  "cachePath directory filename =
     (case filename of
        None \<Rightarrow> Inl (CacheProblem ''invalid filename'')
      | Some f \<Rightarrow>
          if basename f \<noteq> f then Inl (CacheProblem ''invalid filename'')
          else let path = resolve directory f
               in if dirname path \<noteq> directory then Inl (CacheProblem ''outside its directory'') else Inr path)"

text \<open>The file after it was read: not JSON unless it is a pointer.\<close>

definition readCache :: "cached_file \<Rightarrow> string \<Rightarrow> profile \<Rightarrow> cache_error + string \<times> string" where
  "readCache f directory p =
     (case f of
        Pointer c \<Rightarrow>
          if pt_formatVersion c \<noteq> Some 1 then Inl (CacheProblem ''unsupported format'')
          else if pt_profile c \<noteq> Some p then Inl (CacheProblem ''different profile'')
          else bind_result (cachePath directory (pt_certificateFile c)) (\<lambda>c_path.
               bind_result (cachePath directory (pt_privateKeyFile c)) (\<lambda>k_path. Inr (c_path, k_path)))
      | _ \<Rightarrow> Inl (CacheProblem ''not JSON''))"

section \<open>A call of ensureDevelopmentCertificate\<close>

text \<open>The files a call writes, and how far it is with each: opened with the flag \<open>wx\<close>, being written,
  written, or failed.\<close>

datatype target = CertificateTarget | KeyTarget | TemporaryTarget

datatype write_state = NotOpen | Opening | Writing | Written | WriteFailed

text \<open>What the call waits for. The two reads of a stored pair go on side by side, and hold the texts
  read so far.\<close>

datatype ensure_phase =
    MakingDirectory
  | ReadingPointer
  | ReadingPair string string "string option" "string option"
  | Generating
  | WritingPair
  | WritingTemporary
  | Renaming
  | RemovingTemporary "cache_error + cached_certificate"
  | Finished "cache_error + cached_certificate"

record ensure_call =
  ec_directory :: string
  ec_pid :: nat
  ec_profile :: profile
  ec_options :: certificate_options
  ec_renewBeforeMs :: int
  ec_phase :: ensure_phase
  ec_identifier :: string
  ec_temporary :: string
  ec_generated :: "development_certificate option"
  ec_writes :: "target \<Rightarrow> write_state"

definition pointer_path :: "string \<Rightarrow> string" where
  "pointer_path directory = join_path directory ''current.json''"

fun target_name :: "ensure_call \<Rightarrow> target \<Rightarrow> string" where
  "target_name c CertificateTarget = ''certificate-'' @ ec_identifier c @ ''.pem''"
| "target_name c KeyTarget = ''private-key-'' @ ec_identifier c @ ''.pem''"
| "target_name c TemporaryTarget = ''current.json.'' @ decimal (ec_pid c) @ ''.'' @ ec_temporary c @ ''.tmp''"

definition target_path :: "ensure_call \<Rightarrow> target \<Rightarrow> string" where
  "target_path c t = join_path (ec_directory c) (target_name c t)"

fun target_content :: "ensure_call \<Rightarrow> target \<Rightarrow> cached_file" where
  "target_content c CertificateTarget =
     TextFile (case ec_generated c of None \<Rightarrow> [] | Some g \<Rightarrow> certificatePEM (dc_certificate g))"
| "target_content c KeyTarget =
     TextFile (case ec_generated c of None \<Rightarrow> [] | Some g \<Rightarrow> privateKeyPEM (dc_certificate g))"
| "target_content c TemporaryTarget =
     Pointer \<lparr>pt_formatVersion = Some 1, pt_certificateFile = Some (basename (target_path c CertificateTarget)),
              pt_privateKeyFile = Some (basename (target_path c KeyTarget)), pt_profile = Some (ec_profile c)\<rparr>"

definition new_certificate :: "ensure_call \<Rightarrow> cache_error + cached_certificate" where
  "new_certificate c =
     (case ec_generated c of
        None \<Rightarrow> Inl (CacheProblem ''nothing generated'')
      | Some g \<Rightarrow> Inr \<lparr>cc_certificateFile = target_path c CertificateTarget, cc_privateKeyFile = target_path c KeyTarget,
                     cc_certificateHash = dc_certificateHash g, cc_serverCertificateHashes = dc_serverCertificateHashes g,
                     cc_reused = False, cc_validFrom = validFrom (dc_certificate g), cc_validTo = validTo (dc_certificate g)\<rparr>)"

definition begin_ensure :: "string \<Rightarrow> nat \<Rightarrow> ensure_options \<Rightarrow> ensure_call" where
  "begin_ensure cwd pid e =
     (let c = \<lparr>ec_directory = ''/'', ec_pid = pid, ec_profile = cache_profile e, ec_options = generation_options (cache_profile e) (eo_certificate e),
               ec_renewBeforeMs = 0, ec_phase = MakingDirectory, ec_identifier = [], ec_temporary = [],
               ec_generated = None, ec_writes = (\<lambda>t. NotOpen)\<rparr>
      in case ensure_arguments e of
           Inl err \<Rightarrow> c\<lparr>ec_phase := Finished (Inl err)\<rparr>
         | Inr (directory, ms, p) \<Rightarrow>
             c\<lparr>ec_directory := resolve cwd directory, ec_profile := p, ec_renewBeforeMs := ms\<rparr>)"

text \<open>The \<open>catch\<close> around the cached certificate.\<close>

definition recover :: "cache_error \<Rightarrow> ensure_call \<Rightarrow> ensure_call" where
  "recover err c = c\<lparr>ec_phase := (if isRecoverableCacheError err then Generating else Finished (Inl err))\<rparr>"

datatype file_outcome = Succeeds | Fails string

definition directory_made :: "file_outcome \<Rightarrow> ensure_call \<Rightarrow> ensure_call" where
  "directory_made r c =
     (case ec_phase c of
        MakingDirectory \<Rightarrow> c\<lparr>ec_phase := (case r of Succeeds \<Rightarrow> ReadingPointer | Fails code' \<Rightarrow> Finished (Inl (FileFailure code')))\<rparr>
      | _ \<Rightarrow> c)"

definition pointer_read :: "file_outcome \<Rightarrow> cache_files \<Rightarrow> ensure_call \<Rightarrow> ensure_call" where
  "pointer_read r files c =
     (case ec_phase c of
        ReadingPointer \<Rightarrow>
          (case r of
             Fails code' \<Rightarrow> recover (FileFailure code') c
           | Succeeds \<Rightarrow> (case files (pointer_path (ec_directory c)) of
               None \<Rightarrow> recover (FileFailure ''ENOENT'') c
             | Some f \<Rightarrow> (case readCache f (ec_directory c) (ec_profile c) of
                 Inl err \<Rightarrow> recover err c
               | Inr (c_path, k_path) \<Rightarrow> c\<lparr>ec_phase := ReadingPair c_path k_path None None\<rparr>)))
      | _ \<Rightarrow> c)"

text \<open>Reading a file that is being written gives some text.\<close>

fun text_read :: "cached_file \<Rightarrow> string \<Rightarrow> string" where
  "text_read (TextFile t) guess = t"
| "text_read _ guess = guess"

text \<open>One of the two files is read; the second text decides. \<open>clock\<close> is the time when it arrives.\<close>

definition pair_read ::
  "node_crypto \<Rightarrow> bool \<Rightarrow> int \<Rightarrow> string \<Rightarrow> file_outcome \<Rightarrow> cache_files \<Rightarrow> ensure_call \<Rightarrow> ensure_call" where
  "pair_read api key clock guess r files c =
     (case ec_phase c of
        ReadingPair c_path k_path ct kt \<Rightarrow>
          if (if key then kt else ct) \<noteq> None then c
          else (case r of
            Fails code' \<Rightarrow> recover (FileFailure code') c
          | Succeeds \<Rightarrow> (case files (if key then k_path else c_path) of
              None \<Rightarrow> recover (FileFailure ''ENOENT'') c
            | Some f \<Rightarrow>
                let ct' = (if key then ct else Some (text_read f guess));
                    kt' = (if key then Some (text_read f guess) else kt)
                in (case (ct', kt') of
                      (Some certificate_text, Some key_text) \<Rightarrow>
                        (case readStoredCertificate api clock c_path k_path (ec_options c) (ec_profile c)
                                (ec_renewBeforeMs c) certificate_text key_text of
                           Inl err \<Rightarrow> recover err c
                         | Inr cached \<Rightarrow> c\<lparr>ec_phase := Finished (Inr cached)\<rparr>)
                    | _ \<Rightarrow> c\<lparr>ec_phase := ReadingPair c_path k_path ct' kt'\<rparr>)))
      | _ \<Rightarrow> c)"

text \<open>\<open>createDevelopmentCertificate\<close> returned, and the two identifiers of this call are drawn.\<close>

definition certificate_generated ::
  "node_crypto \<Rightarrow> crypto \<Rightarrow> int \<Rightarrow> string \<Rightarrow> string \<Rightarrow> ensure_call \<Rightarrow> ensure_call" where
  "certificate_generated api k clock identifier temporary c =
     (case ec_phase c of
        Generating \<Rightarrow>
          (case createDevelopmentCertificate k (sha256_of api) clock (Some (pr_validityDays (ec_profile c))) (ec_options c) of
             Inl err \<Rightarrow> c\<lparr>ec_phase := Finished (Inl (GenerationFailed err))\<rparr>
           | Inr g \<Rightarrow> c\<lparr>ec_phase := WritingPair, ec_identifier := identifier, ec_temporary := temporary,
                        ec_generated := Some g,
                        ec_writes := (\<lambda>t. if t = TemporaryTarget then NotOpen else Opening)\<rparr>)
      | _ \<Rightarrow> c)"

section \<open>The shared file system\<close>

definition reject_write :: "target \<Rightarrow> string \<Rightarrow> ensure_call \<Rightarrow> ensure_call" where
  "reject_write t code' c =
     (let c1 = c\<lparr>ec_writes := (ec_writes c)(t := WriteFailed)\<rparr>
      in if t = TemporaryTarget
         then c1\<lparr>ec_phase := RemovingTemporary (Inl (FileFailure code'))\<rparr>
         else (case ec_phase c of WritingPair \<Rightarrow> c1\<lparr>ec_phase := Finished (Inl (FileFailure code'))\<rparr> | _ \<Rightarrow> c1))"

definition write_done :: "target \<Rightarrow> ensure_call \<Rightarrow> ensure_call" where
  "write_done t c =
     (let c1 = c\<lparr>ec_writes := (ec_writes c)(t := Written)\<rparr>
      in if t = TemporaryTarget then c1\<lparr>ec_phase := Renaming\<rparr>
         else (case ec_phase c of
                 WritingPair \<Rightarrow>
                   if ec_writes c1 CertificateTarget = Written \<and> ec_writes c1 KeyTarget = Written
                   then c1\<lparr>ec_phase := WritingTemporary, ec_writes := (ec_writes c1)(TemporaryTarget := Opening)\<rparr> else c1
               | _ \<Rightarrow> c1))"

text \<open>The next step of a write: opening, which fails when there is such a file, and writing. The write
  that is not awaited any more goes on when the other one of the pair has failed.\<close>

definition write_moves :: "target \<Rightarrow> file_outcome \<Rightarrow> cache_files \<times> ensure_call \<Rightarrow> cache_files \<times> ensure_call" where
  "write_moves t r s =
     (case s of (files, c) \<Rightarrow>
      case ec_writes c t of
        Opening \<Rightarrow> (case r of
            Fails code' \<Rightarrow> (files, reject_write t code' c)
          | Succeeds \<Rightarrow>
              if files (target_path c t) \<noteq> None then (files, reject_write t ''EEXIST'' c)
              else (files(target_path c t \<mapsto> Unfinished), c\<lparr>ec_writes := (ec_writes c)(t := Writing)\<rparr>))
      | Writing \<Rightarrow> (case r of
            Fails code' \<Rightarrow> (files, reject_write t code' c)
          | Succeeds \<Rightarrow> (files(target_path c t \<mapsto> target_content c t), write_done t c))
      | _ \<Rightarrow> (files, c))"

definition rename_done :: "file_outcome \<Rightarrow> cache_files \<times> ensure_call \<Rightarrow> cache_files \<times> ensure_call" where
  "rename_done r s =
     (case s of (files, c) \<Rightarrow>
      case ec_phase c of
        Renaming \<Rightarrow> (case r of
            Fails code' \<Rightarrow> (files, c\<lparr>ec_phase := RemovingTemporary (Inl (FileFailure code'))\<rparr>)
          | Succeeds \<Rightarrow> (case files (target_path c TemporaryTarget) of
              None \<Rightarrow> (files, c\<lparr>ec_phase := RemovingTemporary (Inl (FileFailure ''ENOENT''))\<rparr>)
            | Some f \<Rightarrow> (files(target_path c TemporaryTarget := None, pointer_path (ec_directory c) := Some f),
                        c\<lparr>ec_phase := RemovingTemporary (new_certificate c)\<rparr>)))
      | _ \<Rightarrow> (files, c))"

text \<open>The \<open>finally\<close> of \<open>writeAtomically\<close>; a failure of \<open>rm\<close> is ignored.\<close>

definition temporary_removed :: "file_outcome \<Rightarrow> cache_files \<times> ensure_call \<Rightarrow> cache_files \<times> ensure_call" where
  "temporary_removed r s =
     (case s of (files, c) \<Rightarrow>
      case ec_phase c of
        RemovingTemporary result \<Rightarrow>
          (if r = Succeeds then files(target_path c TemporaryTarget := None) else files, c\<lparr>ec_phase := Finished result\<rparr>)
      | _ \<Rightarrow> (files, c))"

record cache_system =
  cs_files :: cache_files
  cs_calls :: "ensure_call list"

datatype call_event =
    DirectoryMade file_outcome
  | PointerRead file_outcome
  | PairRead bool int string file_outcome
  | CertificateGenerated crypto int string string
  | WriteMoves target file_outcome
  | RenameDone file_outcome
  | TemporaryRemoved file_outcome

fun call_step :: "node_crypto \<Rightarrow> call_event \<Rightarrow> cache_files \<times> ensure_call \<Rightarrow> cache_files \<times> ensure_call" where
  "call_step api (DirectoryMade r) (files, c) = (files, directory_made r c)"
| "call_step api (PointerRead r) (files, c) = (files, pointer_read r files c)"
| "call_step api (PairRead key clock guess r) (files, c) = (files, pair_read api key clock guess r files c)"
| "call_step api (CertificateGenerated k clock identifier temporary) (files, c) =
     (files, certificate_generated api k clock identifier temporary c)"
| "call_step api (WriteMoves t r) (files, c) = write_moves t r (files, c)"
| "call_step api (RenameDone r) (files, c) = rename_done r (files, c)"
| "call_step api (TemporaryRemoved r) (files, c) = temporary_removed r (files, c)"

text \<open>A call starts, in some process, or the \<open>n\<close>-th call goes on. A process that dies is one whose
  calls do not go on.\<close>

datatype cache_event = StartEnsure nat ensure_options | CallGoesOn nat call_event

definition cache_step :: "string \<Rightarrow> node_crypto \<Rightarrow> cache_system \<Rightarrow> cache_event \<Rightarrow> cache_system" where
  "cache_step cwd api s e =
     (case e of
        StartEnsure pid o' \<Rightarrow> s\<lparr>cs_calls := cs_calls s @ [begin_ensure cwd pid o']\<rparr>
      | CallGoesOn n ev \<Rightarrow>
          if n < length (cs_calls s)
          then case call_step api ev (cs_files s, cs_calls s ! n) of
                 (files, c) \<Rightarrow> s\<lparr>cs_files := files, cs_calls := (cs_calls s)[n := c]\<rparr>
          else s)"

definition cache_run :: "string \<Rightarrow> node_crypto \<Rightarrow> cache_system \<Rightarrow> cache_event list \<Rightarrow> cache_system" where
  "cache_run cwd api s es = foldl (cache_step cwd api) s es"

definition empty_cache :: cache_system where
  "empty_cache = \<lparr>cs_files = (\<lambda>p. None), cs_calls = []\<rparr>"

text \<open>What \<open>randomUUID\<close> draws.\<close>

fun drawn :: "cache_event \<Rightarrow> string list" where
  "drawn (CallGoesOn n (CertificateGenerated k clock identifier temporary)) = [identifier, temporary]"
| "drawn _ = []"

definition uuid :: "string \<Rightarrow> bool" where
  "uuid s \<longleftrightarrow> length s = 36 \<and> CHR ''/'' \<notin> set s"

abbreviation all_drawn :: "cache_event list \<Rightarrow> string list" where
  "all_drawn es \<equiv> concat (map drawn es)"

section \<open>Paths\<close>

lemma plain_pointer [simp]: "plain ''current.json''"
  by (simp add: plain_def)

lemma decimal_no_slash [simp]: "CHR ''/'' \<notin> set (decimal n)"
  using decimal_digits(1) [of n] by (auto simp: list_all_iff digit_def code_def)

lemma plain_target: "uuid (ec_identifier c) \<Longrightarrow> uuid (ec_temporary c) \<Longrightarrow> plain (target_name c t)"
  by (cases t) (auto simp: plain_def uuid_def)

lemma last_target [simp]: "last (target_path c t) = (if t = TemporaryTarget then CHR ''p'' else CHR ''m'')"
  by (cases t) (auto simp: target_path_def)

lemma last_pointer [simp]: "last (pointer_path d) = CHR ''n''"
  by (simp add: pointer_path_def)

lemma target_not_pointer [simp]: "target_path c t \<noteq> pointer_path d" "pointer_path d \<noteq> target_path c t"
proof -
  have "last (target_path c t) \<noteq> last (pointer_path d)" by simp
  then show "target_path c t \<noteq> pointer_path d" and "pointer_path d \<noteq> target_path c t" by metis+
qed

lemma pointer_path_inject: "resolved d \<Longrightarrow> resolved d' \<Longrightarrow> pointer_path d = pointer_path d' \<longleftrightarrow> d = d'"
  by (metis dirname_join plain_pointer pointer_path_def)

section \<open>The invariant of the cache\<close>

definition generated_pair :: "node_crypto \<Rightarrow> profile \<Rightarrow> development_certificate \<Rightarrow> bool" where
  "generated_pair api p g \<longleftrightarrow>
     (\<exists>k clock o'. createDevelopmentCertificate k (sha256_of api) clock (Some (pr_validityDays p)) (generation_options p o') = Inr g)"

text \<open>Two files hold the certificate and the private key of one call of \<open>createDevelopmentCertificate\<close>
  for the profile.\<close>

definition pair_at :: "node_crypto \<Rightarrow> cache_files \<Rightarrow> profile \<Rightarrow> string \<Rightarrow> string \<Rightarrow> bool" where
  "pair_at api files p cf kf \<longleftrightarrow>
     (\<exists>g. generated_pair api p g \<and> files cf = Some (TextFile (certificatePEM (dc_certificate g)))
          \<and> files kf = Some (TextFile (privateKeyPEM (dc_certificate g))))"

definition pointer_ok :: "node_crypto \<Rightarrow> cache_files \<Rightarrow> string \<Rightarrow> cached_file \<Rightarrow> bool" where
  "pointer_ok api files d f \<longleftrightarrow>
     (\<exists>p prof cn kn. f = Pointer p \<and> pt_profile p = Some prof \<and> pt_certificateFile p = Some cn
        \<and> pt_privateKeyFile p = Some kn \<and> plain cn \<and> plain kn \<and> pair_at api files prof (join_path d cn) (join_path d kn))"

definition files_ok :: "node_crypto \<Rightarrow> cache_files \<Rightarrow> bool" where
  "files_ok api files \<longleftrightarrow>
     (\<forall>x t. files x = Some (TextFile t) \<longrightarrow> last x = CHR ''m'')
     \<and> (\<forall>d f. resolved d \<and> files (pointer_path d) = Some f \<longrightarrow> pointer_ok api files d f)"

definition result_ok :: "node_crypto \<Rightarrow> cache_files \<Rightarrow> profile \<Rightarrow> cache_error + cached_certificate \<Rightarrow> bool" where
  "result_ok api files p r \<longleftrightarrow>
     (case r of Inl _ \<Rightarrow> True | Inr x \<Rightarrow> pair_at api files p (cc_certificateFile x) (cc_privateKeyFile x))"

definition pair_written :: "ensure_call \<Rightarrow> bool" where
  "pair_written c \<longleftrightarrow> ec_generated c \<noteq> None \<and> ec_writes c CertificateTarget = Written \<and> ec_writes c KeyTarget = Written"

definition phase_ok :: "node_crypto \<Rightarrow> cache_files \<Rightarrow> ensure_call \<Rightarrow> bool" where
  "phase_ok api files c \<longleftrightarrow>
     (case ec_phase c of
        ReadingPair cp kp ct kt \<Rightarrow> ec_generated c = None \<and> pair_at api files (ec_profile c) cp kp
      | Finished r \<Rightarrow> result_ok api files (ec_profile c) r
      | RemovingTemporary r \<Rightarrow> ec_generated c \<noteq> None \<and> result_ok api files (ec_profile c) r
      | Renaming \<Rightarrow> pair_written c \<and> files (target_path c TemporaryTarget) = Some (target_content c TemporaryTarget)
      | WritingTemporary \<Rightarrow> pair_written c
      | WritingPair \<Rightarrow> ec_generated c \<noteq> None
      | _ \<Rightarrow> ec_generated c = None)"

definition write_ok :: "cache_files \<Rightarrow> ensure_call \<Rightarrow> target \<Rightarrow> bool" where
  "write_ok files c t \<longleftrightarrow>
     (ec_writes c t = Writing \<longrightarrow> files (target_path c t) = Some Unfinished)
     \<and> (ec_writes c t = Written \<and> t \<noteq> TemporaryTarget \<longrightarrow> files (target_path c t) = Some (target_content c t))
     \<and> (ec_writes c t \<in> {Opening, Writing} \<and> t = TemporaryTarget \<longrightarrow> ec_phase c = WritingTemporary)"

definition drawn_ok :: "node_crypto \<Rightarrow> ensure_call \<Rightarrow> bool" where
  "drawn_ok api c \<longleftrightarrow>
     (case ec_generated c of
        None \<Rightarrow> ec_writes c = (\<lambda>t. NotOpen)
      | Some g \<Rightarrow> generated_pair api (ec_profile c) g \<and> uuid (ec_identifier c) \<and> uuid (ec_temporary c))"

definition call_ok :: "node_crypto \<Rightarrow> cache_files \<Rightarrow> ensure_call \<Rightarrow> bool" where
  "call_ok api files c \<longleftrightarrow>
     resolved (ec_directory c) \<and> (\<exists>o'. ec_options c = generation_options (ec_profile c) o') \<and> drawn_ok api c
     \<and> phase_ok api files c \<and> (\<forall>t. write_ok files c t)"

text \<open>What a step of one call may do to the files: no text is changed, and only files of this call and
  the pointer of its directory are touched.\<close>

definition texts_kept :: "cache_files \<Rightarrow> cache_files \<Rightarrow> bool" where
  "texts_kept files files' \<longleftrightarrow> (\<forall>x t. files x = Some (TextFile t) \<longrightarrow> files' x = Some (TextFile t))"

definition touches_own :: "ensure_call \<Rightarrow> cache_files \<Rightarrow> cache_files \<Rightarrow> bool" where
  "touches_own c files files' \<longleftrightarrow>
     (\<forall>x. files' x \<noteq> files x \<longrightarrow> x = pointer_path (ec_directory c) \<or> (ec_generated c \<noteq> None \<and> (\<exists>t. x = target_path c t)))"

lemma texts_kept_refl [simp]: "texts_kept files files"
  by (simp add: texts_kept_def)

lemma touches_own_refl [simp]: "touches_own c files files"
  by (simp add: touches_own_def)

lemma pair_at_kept: "texts_kept files files' \<Longrightarrow> pair_at api files p cf kf \<Longrightarrow> pair_at api files' p cf kf"
  by (auto simp: pair_at_def texts_kept_def)

lemma pointer_ok_kept: "texts_kept files files' \<Longrightarrow> pointer_ok api files d f \<Longrightarrow> pointer_ok api files' d f"
  by (auto simp: pointer_ok_def intro: pair_at_kept)

lemma result_ok_kept: "texts_kept files files' \<Longrightarrow> result_ok api files p r \<Longrightarrow> result_ok api files' p r"
  by (auto simp: result_ok_def intro: pair_at_kept split: sum.splits)

lemma result_ok_Inl [simp]: "result_ok api files p (Inl e)"
  by (simp add: result_ok_def)

lemma call_ok_frame:
  assumes "call_ok api files c" and "texts_kept files files'"
    and "ec_generated c \<noteq> None \<Longrightarrow> \<forall>t. files' (target_path c t) = files (target_path c t)"
  shows "call_ok api files' c"
proof -
  have w: "write_ok files' c t" for t
  proof (cases "ec_generated c")
    case None
    then have "ec_writes c t = NotOpen" using assms(1) by (simp add: call_ok_def drawn_ok_def)
    then show ?thesis by (simp add: write_ok_def)
  next
    case (Some g)
    then show ?thesis using assms(1,3) by (simp add: call_ok_def write_ok_def)
  qed
  have "phase_ok api files' c"
    using assms pair_at_kept [OF assms(2)] result_ok_kept [OF assms(2)]
    by (auto simp: call_ok_def phase_ok_def pair_written_def split: ensure_phase.splits)
  then show ?thesis using assms(1) w by (simp add: call_ok_def)
qed

lemma recover_ok: "call_ok api files c \<Longrightarrow> ec_generated c = None \<Longrightarrow> call_ok api files (recover err c)"
  by (auto simp: call_ok_def recover_def drawn_ok_def phase_ok_def write_ok_def)

lemma cachePath_plain: "resolved d \<Longrightarrow> plain f \<Longrightarrow> cachePath d (Some f) = Inr (join_path d f)"
  by (simp add: cachePath_def basename_same plain_no_slash resolve_plain)

lemma readCache_ok:
  assumes "pointer_ok api files d f" and "resolved d" and "readCache f d p = Inr (cp, kp)"
  shows "pair_at api files p cp kp"
  using assms by (auto simp: pointer_ok_def readCache_def cachePath_plain split: if_splits)

definition step_good :: "node_crypto \<Rightarrow> cache_files \<times> ensure_call \<Rightarrow> cache_files \<times> ensure_call \<Rightarrow> bool" where
  "step_good api s s' \<longleftrightarrow>
     (case (s, s') of ((files, c), (files', c')) \<Rightarrow>
        call_ok api files' c' \<and> files_ok api files' \<and> texts_kept files files' \<and> touches_own c files files'
        \<and> (ec_generated c \<noteq> None \<longrightarrow> ec_generated c' \<noteq> None \<and> ec_identifier c' = ec_identifier c \<and> ec_temporary c' = ec_temporary c))"

lemma step_good_same: "call_ok api files c \<Longrightarrow> files_ok api files \<Longrightarrow> step_good api (files, c) (files, c)"
  by (simp add: step_good_def)

lemma step_good_call:
  "call_ok api files c' \<Longrightarrow> files_ok api files \<Longrightarrow> ec_generated c = None \<Longrightarrow> step_good api (files, c) (files, c')"
  by (simp add: step_good_def)

lemmas call_ok_defs = call_ok_def drawn_ok_def phase_ok_def write_ok_def

lemma directory_made_good:
  assumes "call_ok api files c" and "files_ok api files"
  shows "step_good api (files, c) (files, directory_made r c)"
proof (cases "ec_phase c = MakingDirectory")
  case True
  then have "ec_generated c = None" using assms(1) by (simp add: call_ok_def phase_ok_def)
  moreover from this have "call_ok api files (directory_made r c)"
    using assms(1) True by (auto simp: call_ok_defs directory_made_def split: file_outcome.split)
  ultimately show ?thesis using assms(2) by (simp add: step_good_call)
qed (use assms in \<open>auto simp: directory_made_def step_good_same split: ensure_phase.split\<close>)

lemma pointer_read_good:
  assumes "call_ok api files c" and "files_ok api files"
  shows "step_good api (files, c) (files, pointer_read r files c)"
proof (cases "ec_phase c = ReadingPointer")
  case True
  then have g: "ec_generated c = None" using assms(1) by (simp add: call_ok_def phase_ok_def)
  note rec = recover_ok [OF assms(1) g]
  have d: "resolved (ec_directory c)" using assms(1) by (simp add: call_ok_def)
  have "call_ok api files (pointer_read r files c)"
  proof (cases "files (pointer_path (ec_directory c))")
    case None
    then show ?thesis using True rec by (auto simp: pointer_read_def split: file_outcome.split)
  next
    case (Some f)
    then have p: "pointer_ok api files (ec_directory c) f" using assms(2) d by (simp add: files_ok_def)
    show ?thesis
    proof (cases "readCache f (ec_directory c) (ec_profile c)")
      case (Inl e)
      then show ?thesis using True Some rec by (auto simp: pointer_read_def split: file_outcome.split)
    next
      case (Inr paths)
      obtain cp kp where [simp]: "paths = (cp, kp)" by fastforce
      have "pair_at api files (ec_profile c) cp kp" using readCache_ok [OF p d] Inr by simp
      then have "call_ok api files (c\<lparr>ec_phase := ReadingPair cp kp None None\<rparr>)"
        using assms(1) g by (auto simp: call_ok_defs)
      then show ?thesis using True Some Inr rec by (auto simp: pointer_read_def split: file_outcome.split)
    qed
  qed
  then show ?thesis using assms(2) g by (simp add: step_good_call)
qed (use assms in \<open>auto simp: pointer_read_def step_good_same split: ensure_phase.split\<close>)

lemma readStored_paths:
  "readStoredCertificate api clock cp kp o' p ms ct kt = Inr x \<Longrightarrow> cc_certificateFile x = cp \<and> cc_privateKeyFile x = kp"
  by (auto simp: readStoredCertificate_def hashes_def Let_def bind_result_Inr_iff split: option.splits if_splits)

lemma pair_read_good:
  assumes "call_ok api files c" and "files_ok api files"
  shows "step_good api (files, c) (files, pair_read api key clock guess r files c)"
proof (cases "\<exists>cp kp ct kt. ec_phase c = ReadingPair cp kp ct kt")
  case True
  then obtain cp kp ct kt where ph: "ec_phase c = ReadingPair cp kp ct kt" by blast
  then have g: "ec_generated c = None" and pair: "pair_at api files (ec_profile c) cp kp"
    using assms(1) by (simp_all add: call_ok_def phase_ok_def)
  note rec = recover_ok [OF assms(1) g]
  have on: "call_ok api files (c\<lparr>ec_phase := ReadingPair cp kp ct' kt'\<rparr>)" for ct' kt'
    using assms(1) g pair by (auto simp: call_ok_defs)
  have fin: "call_ok api files (c\<lparr>ec_phase := Finished (Inr x)\<rparr>)"
    if "readStoredCertificate api clock cp kp (ec_options c) (ec_profile c) (ec_renewBeforeMs c) t u = Inr x" for t u x
    using assms(1) g pair readStored_paths [OF that] by (auto simp: call_ok_defs result_ok_def)
  have "call_ok api files (pair_read api key clock guess r files c)"
    unfolding pair_read_def ph using assms(1) rec on fin
    by (auto simp: Let_def split: file_outcome.split option.split sum.split)
  then show ?thesis using assms(2) g by (simp add: step_good_call)
qed (use assms in \<open>auto simp: pair_read_def step_good_same split: ensure_phase.split\<close>)

lemma certificate_generated_good:
  assumes "call_ok api files c" and "files_ok api files" and "uuid identifier" and "uuid temporary"
  shows "step_good api (files, c) (files, certificate_generated api k clock identifier temporary c)"
proof (cases "ec_phase c = Generating")
  case True
  then have g: "ec_generated c = None" using assms(1) by (simp add: call_ok_def phase_ok_def)
  obtain o' where o': "ec_options c = generation_options (ec_profile c) o'" using assms(1) by (auto simp: call_ok_def)
  have "call_ok api files (certificate_generated api k clock identifier temporary c)"
  proof (cases "createDevelopmentCertificate k (sha256_of api) clock (Some (pr_validityDays (ec_profile c))) (ec_options c)")
    case (Inl e)
    then show ?thesis using True assms(1) g by (auto simp: certificate_generated_def call_ok_defs)
  next
    case (Inr d)
    then have "generated_pair api (ec_profile c) d" unfolding generated_pair_def o' by blast
    then show ?thesis using True Inr assms g by (auto simp: certificate_generated_def call_ok_defs)
  qed
  then show ?thesis using assms(2) g by (simp add: step_good_call)
qed (use assms in \<open>auto simp: certificate_generated_def step_good_same split: ensure_phase.split\<close>)

lemma target_update [simp]:
  "target_path (c\<lparr>ec_phase := ph\<rparr>) t = target_path c t" "target_path (c\<lparr>ec_writes := w\<rparr>) t = target_path c t"
  "target_content (c\<lparr>ec_phase := ph\<rparr>) t = target_content c t" "target_content (c\<lparr>ec_writes := w\<rparr>) t = target_content c t"
  by (cases t; simp add: target_path_def)+

lemma target_path_own [simp]: "target_path c t = target_path c t' \<longleftrightarrow> t = t'"
proof
  assume *: "target_path c t = target_path c t'"
  then have "target_name c t = target_name c t'" by (simp add: target_path_def join_path_inject)
  moreover have "t = TemporaryTarget \<longleftrightarrow> t' = TemporaryTarget" using last_target [of c t] last_target [of c t'] * by (auto split: if_splits)
  ultimately show "t = t'" by (cases t; cases t') auto
qed simp

lemma target_content_text: "target_content c t = TextFile s \<Longrightarrow> t \<noteq> TemporaryTarget"
  by (cases t) auto

lemma files_ok_target:
  assumes "files_ok api files" and "texts_kept files (files(target_path c t := f))"
    and "\<And>s. f = Some (TextFile s) \<Longrightarrow> t \<noteq> TemporaryTarget"
  shows "files_ok api (files(target_path c t := f))"
  using assms pointer_ok_kept [OF assms(2)] by (auto simp: files_ok_def)

lemma write_step_good:
  assumes c: "call_ok api files c" and f: "files_ok api files" and g: "ec_generated c \<noteq> None"
    and kept: "texts_kept files (files(target_path c t := x))"
    and kind: "\<And>s. x = Some (TextFile s) \<Longrightarrow> t \<noteq> TemporaryTarget"
    and c': "ec_generated c' = ec_generated c" "ec_identifier c' = ec_identifier c" "ec_temporary c' = ec_temporary c"
    and ok: "call_ok api (files(target_path c t := x)) c'"
  shows "step_good api (files, c) (files(target_path c t := x), c')"
  using files_ok_target [OF f kept kind] assms by (auto simp: step_good_def touches_own_def)

lemma reject_good:
  assumes c: "call_ok api files c" and f: "files_ok api files" and g: "ec_generated c \<noteq> None"
    and w: "ec_writes c t \<in> {Opening, Writing}"
  shows "step_good api (files, c) (files, reject_write t code' c)"
proof -
  have "call_ok api files (reject_write t code' c)"
    using c g w unfolding call_ok_def
    by (cases t; cases "ec_phase c")
       (auto simp: drawn_ok_def phase_ok_def write_ok_def reject_write_def Let_def pair_written_def)
  then show ?thesis using f by (auto simp: step_good_def reject_write_def Let_def split: ensure_phase.split)
qed

lemma write_moves_good:
  assumes c: "call_ok api files c" and f: "files_ok api files"
  shows "step_good api (files, c) (write_moves t r (files, c))"
proof (cases "ec_generated c")
  case None
  then have "ec_writes c t = NotOpen" using c by (simp add: call_ok_def drawn_ok_def)
  then show ?thesis using step_good_same [OF c f] by (simp add: write_moves_def)
next
  case (Some d)
  then have g: "ec_generated c \<noteq> None" by simp
  note rej = reject_good [OF c f g]
  consider (opens) "ec_writes c t = Opening" "r = Succeeds" "files (target_path c t) = None"
    | (writes) "ec_writes c t = Writing" "r = Succeeds" | (other) "\<not> (ec_writes c t = Opening \<and> r = Succeeds \<and> files (target_path c t) = None)"
      "\<not> (ec_writes c t = Writing \<and> r = Succeeds)" by argo
  then show ?thesis
  proof cases
    case opens
    have kept: "texts_kept files (files(target_path c t \<mapsto> Unfinished))" using opens(3) by (auto simp: texts_kept_def)
    have "call_ok api (files(target_path c t \<mapsto> Unfinished)) (c\<lparr>ec_writes := (ec_writes c)(t := Writing)\<rparr>)"
      using c opens(1) g pair_at_kept [OF kept] result_ok_kept [OF kept] unfolding call_ok_def
      by (cases t; cases "ec_phase c") (auto simp: drawn_ok_def phase_ok_def write_ok_def pair_written_def)
    then show ?thesis using write_step_good [OF c f g kept] opens by (simp add: write_moves_def)
  next
    case writes
    have "files (target_path c t) = Some Unfinished" using c writes(1) by (simp add: call_ok_def write_ok_def)
    then have kept: "texts_kept files (files(target_path c t \<mapsto> target_content c t))" by (auto simp: texts_kept_def)
    have "call_ok api (files(target_path c t \<mapsto> target_content c t)) (write_done t c)"
      using c writes(1) g pair_at_kept [OF kept] result_ok_kept [OF kept] unfolding call_ok_def
      by (cases t; cases "ec_phase c") (auto simp: drawn_ok_def phase_ok_def write_ok_def pair_written_def write_done_def Let_def)
    moreover have "ec_generated (write_done t c) = ec_generated c \<and> ec_identifier (write_done t c) = ec_identifier c
        \<and> ec_temporary (write_done t c) = ec_temporary c"
      by (auto simp: write_done_def Let_def split: ensure_phase.split)
    ultimately show ?thesis using write_step_good [OF c f g kept] writes target_content_text
      by (auto simp: write_moves_def)
  next
    case other
    then show ?thesis using step_good_same [OF c f] rej
      by (auto simp: write_moves_def split: write_state.split file_outcome.split)
  qed
qed

lemma result_new_certificate:
  assumes "call_ok api files c" and "pair_written c"
  shows "result_ok api files (ec_profile c) (new_certificate c)"
proof -
  obtain g where g: "ec_generated c = Some g" using assms(2) by (auto simp: pair_written_def)
  have "generated_pair api (ec_profile c) g" using assms(1) g by (simp add: call_ok_def drawn_ok_def)
  moreover have "files (target_path c t) = Some (target_content c t)" if "t \<noteq> TemporaryTarget" for t
    using assms that by (cases t) (auto simp: call_ok_def write_ok_def pair_written_def)
  from this [of CertificateTarget] this [of KeyTarget]
  have "files (target_path c CertificateTarget) = Some (TextFile (certificatePEM (dc_certificate g)))"
    "files (target_path c KeyTarget) = Some (TextFile (privateKeyPEM (dc_certificate g)))" using g by simp_all
  ultimately show ?thesis using g by (auto simp: result_ok_def new_certificate_def pair_at_def)
qed

lemma pointer_ok_new:
  assumes "call_ok api files c" and "pair_written c"
  shows "pointer_ok api files (ec_directory c) (target_content c TemporaryTarget)"
proof -
  obtain g where g: "ec_generated c = Some g" using assms(2) by (auto simp: pair_written_def)
  then have "plain (target_name c t)" for t using assms(1) by (simp add: call_ok_def drawn_ok_def plain_target)
  from this [of CertificateTarget] this [of KeyTarget]
  have p: "plain (target_name c CertificateTarget)" "plain (target_name c KeyTarget)" .
  have "result_ok api files (ec_profile c) (new_certificate c)" by (rule result_new_certificate [OF assms])
  then have "pair_at api files (ec_profile c) (target_path c CertificateTarget) (target_path c KeyTarget)"
    using g by (simp add: result_ok_def new_certificate_def)
  then show ?thesis using p by (auto simp: pointer_ok_def target_path_def)
qed

lemma rename_done_good:
  assumes c: "call_ok api files c" and f: "files_ok api files"
  shows "step_good api (files, c) (rename_done r (files, c))"
proof (cases "ec_phase c = Renaming")
  case False
  then show ?thesis using step_good_same [OF c f] by (auto simp: rename_done_def split: ensure_phase.split)
next
  case True
  then have w: "pair_written c" and tmp: "files (target_path c TemporaryTarget) = Some (target_content c TemporaryTarget)"
    using c by (simp_all add: call_ok_def phase_ok_def)
  then have g: "ec_generated c \<noteq> None" by (simp add: pair_written_def)
  have d: "resolved (ec_directory c)" using c by (simp add: call_ok_def)
  let ?files = "files(target_path c TemporaryTarget := None, pointer_path (ec_directory c) := Some (target_content c TemporaryTarget))"
  have kept: "texts_kept files ?files"
    unfolding texts_kept_def
  proof (intro allI impI)
    fix x t
    assume x: "files x = Some (TextFile t)"
    then have "last x = CHR ''m''" using f by (auto simp: files_ok_def)
    then have "x \<noteq> target_path c TemporaryTarget" "x \<noteq> pointer_path (ec_directory c)" by auto
    then show "?files x = Some (TextFile t)" using x by simp
  qed
  have r: "result_ok api files (ec_profile c) (new_certificate c)" by (rule result_new_certificate [OF c w])
  have failed: "step_good api (files, c) (files, c\<lparr>ec_phase := RemovingTemporary (Inl e)\<rparr>)" for e
  proof -
    have "call_ok api files (c\<lparr>ec_phase := RemovingTemporary (Inl e)\<rparr>)"
      using c g True by (auto simp: call_ok_def drawn_ok_def phase_ok_def write_ok_def)
    then show ?thesis using f by (simp add: step_good_def)
  qed
  have call: "call_ok api ?files (c\<lparr>ec_phase := RemovingTemporary (new_certificate c)\<rparr>)"
  proof -
    have "write_ok ?files (c\<lparr>ec_phase := RemovingTemporary (new_certificate c)\<rparr>) t" for t
      using c True by (cases "t = TemporaryTarget") (auto simp: call_ok_def write_ok_def)
    then show ?thesis using c g result_ok_kept [OF kept r] by (auto simp: call_ok_def drawn_ok_def phase_ok_def)
  qed
  have "files_ok api ?files"
    unfolding files_ok_def
  proof (intro conjI allI impI)
    show "last x = CHR ''m''" if "?files x = Some (TextFile t)" for x t
      using that f by (auto simp: files_ok_def split: if_splits dest: target_content_text)
    show "pointer_ok api ?files d' f'" if "resolved d' \<and> ?files (pointer_path d') = Some f'" for d' f'
    proof (cases "d' = ec_directory c")
      case True
      then show ?thesis using that pointer_ok_kept [OF kept pointer_ok_new [OF c w]] by simp
    next
      case False
      then have "files (pointer_path d') = Some f'" using that d pointer_path_inject [of d' "ec_directory c"] by simp
      then show ?thesis using that f pointer_ok_kept [OF kept] by (simp add: files_ok_def)
    qed
  qed
  moreover have "touches_own c files ?files" using g by (auto simp: touches_own_def)
  ultimately have "step_good api (files, c) (?files, c\<lparr>ec_phase := RemovingTemporary (new_certificate c)\<rparr>)"
    using call kept by (simp add: step_good_def)
  then show ?thesis using True tmp failed by (cases r) (simp_all add: rename_done_def)
qed

lemma temporary_removed_good:
  assumes c: "call_ok api files c" and f: "files_ok api files"
  shows "step_good api (files, c) (temporary_removed r (files, c))"
proof (cases "\<exists>res. ec_phase c = RemovingTemporary res")
  case False
  then show ?thesis using step_good_same [OF c f] by (auto simp: temporary_removed_def split: ensure_phase.split)
next
  case True
  then obtain res where ph: "ec_phase c = RemovingTemporary res" by blast
  have g: "ec_generated c \<noteq> None" and res: "result_ok api files (ec_profile c) res"
    using c ph by (simp_all add: call_ok_def phase_ok_def)
  have not_text: "files (target_path c TemporaryTarget) \<noteq> Some (TextFile t)" for t
    using f last_target [of c TemporaryTarget] unfolding files_ok_def by force
  have "step_good api (files, c) (files(target_path c TemporaryTarget := x), c\<lparr>ec_phase := Finished res\<rparr>)"
    if "x = None \<or> x = files (target_path c TemporaryTarget)" for x
  proof (rule write_step_good [OF c f g])
    show kept: "texts_kept files (files(target_path c TemporaryTarget := x))"
      using not_text that by (auto simp: texts_kept_def)
    show "TemporaryTarget \<noteq> TemporaryTarget" if "x = Some (TextFile s)" for s
      using that \<open>x = None \<or> x = files (target_path c TemporaryTarget)\<close> not_text by (metis option.distinct(1))
    have "write_ok (files(target_path c TemporaryTarget := x)) (c\<lparr>ec_phase := Finished res\<rparr>) t" for t
      using c ph by (cases "t = TemporaryTarget") (auto simp: call_ok_def write_ok_def)
    then show "call_ok api (files(target_path c TemporaryTarget := x)) (c\<lparr>ec_phase := Finished res\<rparr>)"
      using c g result_ok_kept [OF kept res] by (auto simp: call_ok_def drawn_ok_def phase_ok_def)
  qed simp_all
  from this [of None] this [of "files (target_path c TemporaryTarget)"]
  show ?thesis using ph by (simp add: temporary_removed_def)
qed

lemma call_step_good:
  assumes "call_ok api files c" and "files_ok api files"
    and "list_all uuid (drawn (CallGoesOn n ev))"
  shows "step_good api (files, c) (call_step api ev (files, c))"
  using assms
  by (cases ev) (simp_all add: directory_made_good pointer_read_good pair_read_good certificate_generated_good
      write_moves_good rename_done_good temporary_removed_good)

section \<open>Overlapping calls\<close>

definition cache_inv :: "node_crypto \<Rightarrow> cache_system \<Rightarrow> bool" where
  "cache_inv api s \<longleftrightarrow>
     files_ok api (cs_files s) \<and> (\<forall>c \<in> set (cs_calls s). call_ok api (cs_files s) c)"

text \<open>The identifiers of the calls: each has its own, and all were drawn.\<close>

definition ids_of :: "ensure_call \<Rightarrow> string set" where
  "ids_of c = (if ec_generated c = None then {} else {ec_identifier c, ec_temporary c})"

definition ids_ok :: "string list \<Rightarrow> cache_system \<Rightarrow> bool" where
  "ids_ok us s \<longleftrightarrow>
     (\<forall>i < length (cs_calls s). ids_of (cs_calls s ! i) \<subseteq> set us
        \<and> (\<forall>j < length (cs_calls s). i \<noteq> j \<longrightarrow> ids_of (cs_calls s ! i) \<inter> ids_of (cs_calls s ! j) = {}))"

lemma target_paths_differ:
  assumes "call_ok api files c" and "call_ok api files c'" and "ec_generated c \<noteq> None" and "ec_generated c' \<noteq> None"
    and "ids_of c \<inter> ids_of c' = {}"
  shows "target_path c t \<noteq> target_path c' t'"
proof
  assume eq: "target_path c t = target_path c' t'"
  have ids: "uuid (ec_identifier c)" "uuid (ec_temporary c)" "uuid (ec_identifier c')" "uuid (ec_temporary c')"
    using assms(1-4) by (auto simp: call_ok_def drawn_ok_def)
  have "target_name c t = target_name c' t'"
    using arg_cong [OF eq, of basename] ids by (simp add: target_path_def plain_target)
  moreover have "t = TemporaryTarget \<longleftrightarrow> t' = TemporaryTarget"
    using last_target [of c t] last_target [of c' t'] eq by (auto split: if_splits)
  moreover have "ec_temporary c = ec_temporary c'" if "target_name c TemporaryTarget = target_name c' TemporaryTarget"
  proof -
    have "(decimal (ec_pid c) @ ''.'') @ ec_temporary c = (decimal (ec_pid c') @ ''.'') @ ec_temporary c'"
      using that by simp
    moreover have "length (ec_temporary c) = length (ec_temporary c')" using ids by (simp add: uuid_def)
    ultimately show ?thesis by (metis append_eq_append_conv)
  qed
  ultimately have "ec_identifier c = ec_identifier c' \<or> ec_temporary c = ec_temporary c'"
  proof (cases "t = TemporaryTarget")
    case False
    assume n: "target_name c t = target_name c' t'" and tt: "t = TemporaryTarget \<longleftrightarrow> t' = TemporaryTarget"
    from n tt False have "ec_identifier c = ec_identifier c'" by (cases t; cases t') simp_all
    then show ?thesis by blast
  qed blast
  then show False using assms(3-5) by (auto simp: ids_of_def)
qed

lemma ensure_arguments_profile: "ensure_arguments e = Inr (d, ms, p) \<Longrightarrow> p = cache_profile e"
  by (auto simp: ensure_arguments_def Let_def split: option.splits if_splits milliseconds.splits)

lemma begin_ensure_ok: "call_ok api files (begin_ensure cwd pid o') \<and> ec_generated (begin_ensure cwd pid o') = None"
proof -
  have "resolved ''/''" unfolding resolved_def by (rule exI [of _ "[]"]) simp
  then show ?thesis
    by (auto simp: begin_ensure_def call_ok_defs Let_def dest: ensure_arguments_profile split: sum.split prod.split)
qed

lemma call_step_ids:
  assumes "call_step api ev (files, c) = (files', c')"
  shows "ids_of c' \<subseteq> ids_of c \<union> set (drawn (CallGoesOn n ev))"
proof (cases ev)
  case (CertificateGenerated k clock u v)
  then show ?thesis using assms
    by (auto simp: certificate_generated_def ids_of_def split: ensure_phase.splits sum.splits if_splits)
next
  case (WriteMoves t r)
  have "ec_generated c' = ec_generated c \<and> ec_identifier c' = ec_identifier c \<and> ec_temporary c' = ec_temporary c"
    using assms WriteMoves
    by (auto simp: write_moves_def reject_write_def write_done_def Let_def
        split: write_state.splits file_outcome.splits ensure_phase.splits if_splits)
  then show ?thesis by (simp add: ids_of_def)
next
  case (PairRead key clock guess r)
  have "ec_generated c' = ec_generated c \<and> ec_identifier c' = ec_identifier c \<and> ec_temporary c' = ec_temporary c"
    using assms PairRead
    by (auto simp: pair_read_def recover_def Let_def split: ensure_phase.splits file_outcome.splits option.splits sum.splits if_splits)
  then show ?thesis by (simp add: ids_of_def)
qed (use assms in \<open>auto simp: ids_of_def directory_made_def pointer_read_def recover_def rename_done_def temporary_removed_def
      split: ensure_phase.splits file_outcome.splits option.splits sum.splits if_splits\<close>)

lemma cache_step_inv:
  assumes "cache_inv api s" and "ids_ok us s" and "list_all uuid (drawn e)" and "set (drawn e) \<inter> set us = {}"
  shows "cache_inv api (cache_step cwd api s e) \<and> ids_ok (us @ drawn e) (cache_step cwd api s e)
    \<and> texts_kept (cs_files s) (cs_files (cache_step cwd api s e))"
proof (cases e)
  case (StartEnsure pid o')
  have "ids_of (begin_ensure cwd pid o') = {}" using begin_ensure_ok [of api "cs_files s" cwd pid o'] by (simp add: ids_of_def)
  then show ?thesis
    using assms StartEnsure begin_ensure_ok [of api "cs_files s" cwd pid o']
    by (auto simp: cache_step_def cache_inv_def ids_ok_def nth_append less_Suc_eq)
next
  case (CallGoesOn n ev)
  show ?thesis
  proof (cases "n < length (cs_calls s)")
    case False
    then show ?thesis using assms CallGoesOn by (auto simp: cache_step_def ids_ok_def)
  next
    case n: True
    let ?c = "cs_calls s ! n"
    obtain files c where step: "call_step api ev (cs_files s, ?c) = (files, c)" by fastforce
    have s': "cache_step cwd api s e = s\<lparr>cs_files := files, cs_calls := (cs_calls s)[n := c]\<rparr>"
      using CallGoesOn n step by (simp add: cache_step_def)
    have ok: "call_ok api (cs_files s) ?c" using assms(1) n by (simp add: cache_inv_def)
    have f: "files_ok api (cs_files s)" using assms(1) by (simp add: cache_inv_def)
    have "step_good api (cs_files s, ?c) (files, c)"
      using call_step_good [OF ok f, of n ev] assms(3) CallGoesOn step by simp
    then have good: "call_ok api files c" "files_ok api files" "texts_kept (cs_files s) files"
      "touches_own ?c (cs_files s) files" by (auto simp: step_good_def)
    have other: "call_ok api files c'" if m: "m < length (cs_calls s)" "m \<noteq> n" and c': "c' = cs_calls s ! m" for m c'
    proof (rule call_ok_frame [OF _ good(3)])
      show ok': "call_ok api (cs_files s) c'" using assms(1) m c' by (simp add: cache_inv_def)
      assume g': "ec_generated c' \<noteq> None"
      have ids: "ids_of ?c \<inter> ids_of c' = {}" using assms(2) n m c' by (auto simp: ids_ok_def)
      show "\<forall>t. files (target_path c' t) = cs_files s (target_path c' t)"
      proof (rule allI, rule ccontr)
        fix t
        assume "files (target_path c' t) \<noteq> cs_files s (target_path c' t)"
        then obtain t' where "ec_generated ?c \<noteq> None" "target_path c' t = target_path ?c t'"
          using good(4) unfolding touches_own_def by fastforce
        then show False using target_paths_differ [OF ok ok' _ g' ids, of t' t] by simp
      qed
    qed
    have "call_ok api files ((cs_calls s)[n := c] ! i)" if "i < length (cs_calls s)" for i
      using good(1) other [OF that _ refl] n by (cases "i = n") simp_all
    then have "cache_inv api (cache_step cwd api s e)"
      unfolding s' cache_inv_def using good(2) by (auto simp: in_set_conv_nth)
    moreover have "ids_ok (us @ drawn e) (cache_step cwd api s e)"
    proof -
      have new: "ids_of c \<subseteq> ids_of ?c \<union> set (drawn e)" using call_step_ids [OF step, of n] CallGoesOn by simp
      have old: "ids_of (cs_calls s ! i) \<subseteq> set us" if "i < length (cs_calls s)" for i
        using assms(2) that by (simp add: ids_ok_def)
      have disj: "ids_of (cs_calls s ! i) \<inter> ids_of (cs_calls s ! j) = {}"
        if "i < length (cs_calls s)" "j < length (cs_calls s)" "i \<noteq> j" for i j
        using assms(2) that by (simp add: ids_ok_def)
      have "ids_of c \<inter> ids_of (cs_calls s ! j) = {}" if "j < length (cs_calls s)" "j \<noteq> n" for j
        using new old [OF that(1)] disj [OF n that(1)] that(2) assms(4) by blast
      then show ?thesis
        unfolding ids_ok_def s' using new old n disj by (auto simp: nth_list_update) blast+
    qed
    ultimately show ?thesis using good(3) s' by simp
  qed
qed

lemma cache_reachable:
  assumes "list_all uuid (all_drawn es)" and "distinct (all_drawn es)"
  shows "cache_inv api (cache_run cwd api empty_cache es) \<and> ids_ok (all_drawn es) (cache_run cwd api empty_cache es)"
  using assms
proof (induction es rule: rev_induct)
  case Nil
  then show ?case by (simp add: cache_run_def empty_cache_def cache_inv_def ids_ok_def files_ok_def)
next
  case (snoc e es)
  let ?s = "cache_run cwd api empty_cache es"
  have "cache_inv api ?s \<and> ids_ok (all_drawn es) ?s" using snoc by simp
  moreover have "list_all uuid (drawn e)" and "set (drawn e) \<inter> set (all_drawn es) = {}" using snoc.prems by auto
  moreover have "cache_run cwd api empty_cache (es @ [e]) = cache_step cwd api ?s e" by (simp add: cache_run_def)
  ultimately show ?case using cache_step_inv [of api ?s "all_drawn es" e cwd] by simp
qed

lemma texts_kept_trans: "texts_kept f g \<Longrightarrow> texts_kept g h \<Longrightarrow> texts_kept f h"
  by (simp add: texts_kept_def)

lemma cache_texts_kept:
  assumes "list_all uuid (all_drawn (es @ fs))" and "distinct (all_drawn (es @ fs))"
  shows "texts_kept (cs_files (cache_run cwd api empty_cache es)) (cs_files (cache_run cwd api empty_cache (es @ fs)))"
  using assms
proof (induction fs rule: rev_induct)
  case (snoc e fs)
  let ?s = "cache_run cwd api empty_cache (es @ fs)"
  have kept: "texts_kept (cs_files (cache_run cwd api empty_cache es)) (cs_files ?s)" using snoc by (auto simp: Int_Un_distrib)
  have "cache_inv api ?s \<and> ids_ok (all_drawn (es @ fs)) ?s"
    using cache_reachable [of "es @ fs"] snoc.prems by (auto simp: Int_Un_distrib)
  moreover have "list_all uuid (drawn e)" and "set (drawn e) \<inter> set (all_drawn (es @ fs)) = {}" using snoc.prems by auto
  moreover have "cache_run cwd api empty_cache (es @ fs @ [e]) = cache_step cwd api ?s e" by (simp add: cache_run_def)
  ultimately show ?case using texts_kept_trans [OF kept] cache_step_inv [of api ?s "all_drawn (es @ fs)" e cwd] by simp
qed simp

end
