(* ===== verification/Trust_Store.thy ===== *)
theory Trust_Store
  imports Js_Path Cert_Names
begin

text \<open>
  The trust store of the operating system in packages/dev-certificates/trusted.js: the commands that
  look up, install and remove an authority on each platform. What a command does to the system, and
  what it prints, is a parameter, and so are the files the code only looks at; the system is a value
  of type \<open>'s\<close> that every command may change.
\<close>

section \<open>Calls that change the system or throw\<close>

datatype trust_error =
    SpawnFailed string
  | CommandFailed string
  | UnsupportedSystem string
  | NoTrustCommand
  | NotVerified
  | FingerprintExpected
  | UnreadableCertificate

type_synonym ('e, 's, 'a) effect = "'s \<Rightarrow> 's \<times> ('e + 'a)"

definition gives :: "'a \<Rightarrow> ('e, 's, 'a) effect" where
  "gives x = (\<lambda>s. (s, Inr x))"

definition fails_with :: "'e \<Rightarrow> ('e, 's, 'a) effect" where
  "fails_with e = (\<lambda>s. (s, Inl e))"

definition and_then :: "('e, 's, 'a) effect \<Rightarrow> ('a \<Rightarrow> ('e, 's, 'b) effect) \<Rightarrow> ('e, 's, 'b) effect" where
  "and_then m f = (\<lambda>s. case m s of (t, r) \<Rightarrow> (case r of Inl e \<Rightarrow> (t, Inl e) | Inr x \<Rightarrow> f x t))"

lemma gives_simps [simp]: "gives x s = (s, Inr x)" "fails_with e s = (s, Inl e)"
  by (simp_all add: gives_def fails_with_def)

lemma and_then_result:
  "and_then m f s = (t, Inr y) \<longleftrightarrow> (\<exists>u x. m s = (u, Inr x) \<and> f x u = (t, Inr y))"
  by (auto simp: and_then_def split: prod.splits sum.splits)

section \<open>Fingerprints\<close>

definition upper_letter :: "char \<Rightarrow> char" where
  "upper_letter c = (if 97 \<le> code c \<and> code c \<le> 122 then char_of (code c - 32) else c)"

text \<open>A colon is no hexadecimal digit. After the filter all characters are digits or the letters A to F.\<close>

definition normalized_fingerprint :: "string \<Rightarrow> string" where
  "normalized_fingerprint v = map upper_letter (filter hex_digit (filter (\<lambda>c. c \<noteq> CHR '':'') v))"

definition normalizeFingerprint :: "string option \<Rightarrow> trust_error + string" where
  "normalizeFingerprint v = (case v of None \<Rightarrow> Inl FingerprintExpected | Some s \<Rightarrow> Inr (normalized_fingerprint s))"

text \<open>\<open>String.prototype.includes\<close>.\<close>

fun contains_text :: "string \<Rightarrow> string \<Rightarrow> bool" where
  "contains_text [] t = (t = [])"
| "contains_text (c # s) t = (starts_with (c # s) t \<or> contains_text s t)"

section \<open>Commands\<close>

text \<open>How a process ends: it was not started, with the code of the error, or it ended with a code, which is absent after a signal.\<close>

datatype exit_status = NotStarted string | Exited "nat option" string

record 's trust_host =
  th_platform :: string
  th_getuid :: "nat option"
  th_path :: "string option"
  th_executable :: "string \<Rightarrow> string \<Rightarrow> bool"
  th_exec :: "'s \<Rightarrow> string \<Rightarrow> string list \<Rightarrow> 's \<times> exit_status"
  th_anchor :: "'s \<Rightarrow> string \<Rightarrow> string option"
  th_readable :: "'s \<Rightarrow> string \<Rightarrow> bool"

text \<open>\<open>th_anchor s p\<close> is the fingerprint of the certificate in the file \<open>p\<close>, if there is one;
  \<open>th_readable s p\<close> tells whether \<open>readFile\<close> can read what is there.\<close>

definition run :: "'s trust_host \<Rightarrow> bool \<Rightarrow> string \<Rightarrow> string list \<Rightarrow> (trust_error, 's, nat \<times> string) effect" where
  "run h allowFailure command arguments = (\<lambda>s.
     case th_exec h s command arguments of
       (t, NotStarted code') \<Rightarrow> (t, Inl (SpawnFailed code'))
     | (t, Exited code' output) \<Rightarrow>
         let exitCode = (case code' of None \<Rightarrow> 1 | Some n \<Rightarrow> n)
         in if exitCode = 0 \<or> allowFailure then (t, Inr (exitCode, output)) else (t, Inl (CommandFailed command)))"

definition runElevated :: "'s trust_host \<Rightarrow> string \<Rightarrow> string list \<Rightarrow> (trust_error, 's, nat \<times> string) effect" where
  "runElevated h command arguments =
     (if th_getuid h = Some 0 then run h False command arguments else run h False ''sudo'' (command # arguments))"

text \<open>The directories are those of a set, in the order of insertion.\<close>

definition commandExists :: "'s trust_host \<Rightarrow> string \<Rightarrow> bool" where
  "commandExists h command =
     list_ex (\<lambda>dir. th_executable h dir command)
       (unique ([''/usr/bin'', ''/usr/sbin'', ''/bin'', ''/sbin'']
          @ split_on (CHR '':'') (case th_path h of None \<Rightarrow> [] | Some p \<Rightarrow> p)))"

record anchor =
  an_method :: string
  an_path :: string
  an_refreshCommand :: string
  an_refreshArguments :: "string list"

definition linuxAnchor :: "'s trust_host \<Rightarrow> string \<Rightarrow> trust_error + anchor" where
  "linuxAnchor h fingerprint =
     (let suffix = toLowerCase fingerprint
      in if commandExists h ''update-ca-certificates'' then
           Inr \<lparr>an_method = ''debian'', an_path = ''/usr/local/share/ca-certificates/http3-server-'' @ suffix @ ''.crt'',
                an_refreshCommand = ''update-ca-certificates'', an_refreshArguments = []\<rparr>
         else if commandExists h ''update-ca-trust'' then
           Inr \<lparr>an_method = ''fedora'', an_path = ''/etc/pki/ca-trust/source/anchors/http3-server-'' @ suffix @ ''.pem'',
                an_refreshCommand = ''update-ca-trust'', an_refreshArguments = [''extract'']\<rparr>
         else if commandExists h ''trust'' then
           Inr \<lparr>an_method = ''p11-kit'', an_path = ''/etc/http3-server-'' @ suffix @ ''.pem'',
                an_refreshCommand = ''trust'', an_refreshArguments = []\<rparr>
         else Inl NoTrustCommand)"

definition lift_result :: "'e + 'a \<Rightarrow> ('e, 's, 'a) effect" where
  "lift_result r = (\<lambda>s. (s, r))"

section \<open>Looking up, installing and removing\<close>

definition system_keychain :: string where
  "system_keychain = ''/Library/Keychains/System.keychain''"

text \<open>On Linux the \<open>catch\<close> is about the file of the anchor: there is none, it cannot be read, or it holds no certificate.\<close>

definition linux_trusted :: "'s trust_host \<Rightarrow> string \<Rightarrow> string \<Rightarrow> anchor \<Rightarrow> (trust_error, 's, bool) effect" where
  "linux_trusted h fingerprint authorityName a = (\<lambda>s.
     case (if th_readable h s (an_path a) then th_anchor h s (an_path a) else None) of
       Some f \<Rightarrow> (s, Inr (normalized_fingerprint f = fingerprint))
     | None \<Rightarrow>
         if an_method a \<noteq> ''p11-kit'' then (s, Inr False)
         else and_then (run h True ''trust'' [''list'', ''--filter=ca-anchors''])
                (\<lambda>(code', output). gives (code' = 0 \<and> contains_text output authorityName)) s)"

definition authorityIsTrusted :: "'s trust_host \<Rightarrow> string \<Rightarrow> string \<Rightarrow> (trust_error, 's, bool) effect" where
  "authorityIsTrusted h fingerprint authorityName =
     (if th_platform h = ''darwin'' then
        and_then (run h True ''/usr/bin/security'' [''find-certificate'', ''-a'', ''-Z'', ''-c'', authorityName, system_keychain])
          (\<lambda>(code', output). gives (code' = 0 \<and> contains_text (normalized_fingerprint output) fingerprint))
      else if th_platform h = ''win32'' then
        and_then (run h True ''certutil'' [''-user'', ''-store'', ''Root'', fingerprint]) (\<lambda>(code', output). gives (code' = 0))
      else if th_platform h = ''linux'' then
        and_then (lift_result (linuxAnchor h fingerprint)) (linux_trusted h fingerprint authorityName)
      else fails_with (UnsupportedSystem (th_platform h)))"

definition refresh_anchors :: "'s trust_host \<Rightarrow> anchor \<Rightarrow> (trust_error, 's, unit) effect" where
  "refresh_anchors h a = and_then (runElevated h (an_refreshCommand a) (an_refreshArguments a)) (\<lambda>_. gives ())"

definition installAuthorityTrust :: "'s trust_host \<Rightarrow> string \<Rightarrow> string \<Rightarrow> (trust_error, 's, unit) effect" where
  "installAuthorityTrust h certificateFile fingerprint =
     (if th_platform h = ''darwin'' then
        and_then (runElevated h ''/usr/bin/security''
          [''add-trusted-cert'', ''-d'', ''-r'', ''trustRoot'', ''-k'', system_keychain, certificateFile]) (\<lambda>_. gives ())
      else if th_platform h = ''win32'' then
        and_then (run h False ''certutil'' [''-user'', ''-addstore'', ''Root'', certificateFile]) (\<lambda>_. gives ())
      else if th_platform h = ''linux'' then
        and_then (lift_result (linuxAnchor h fingerprint)) (\<lambda>a.
          if an_method a = ''p11-kit''
          then and_then (runElevated h ''trust'' [''anchor'', certificateFile]) (\<lambda>_. gives ())
          else and_then (runElevated h ''install'' [''-m'', ''0644'', certificateFile, an_path a]) (\<lambda>_. refresh_anchors h a))
      else fails_with (UnsupportedSystem (th_platform h)))"

text \<open>The switch of \<open>removeAuthorityTrust\<close> has no default: on any other platform the lookup before it throws.\<close>

definition remove_commands :: "'s trust_host \<Rightarrow> string \<Rightarrow> string \<Rightarrow> (trust_error, 's, unit) effect" where
  "remove_commands h certificateFile fingerprint =
     (if th_platform h = ''darwin'' then
        and_then (runElevated h ''/usr/bin/security'' [''delete-certificate'', ''-Z'', fingerprint, system_keychain]) (\<lambda>_. gives ())
      else if th_platform h = ''win32'' then
        and_then (run h False ''certutil'' [''-user'', ''-delstore'', ''Root'', fingerprint]) (\<lambda>_. gives ())
      else if th_platform h = ''linux'' then
        and_then (lift_result (linuxAnchor h fingerprint)) (\<lambda>a.
          if an_method a = ''p11-kit''
          then and_then (runElevated h ''trust'' [''anchor'', ''--remove'', certificateFile]) (\<lambda>_. gives ())
          else and_then (runElevated h ''rm'' [''-f'', an_path a]) (\<lambda>_. refresh_anchors h a))
      else gives ())"

definition removeAuthorityTrust :: "'s trust_host \<Rightarrow> string \<Rightarrow> string \<Rightarrow> string \<Rightarrow> (trust_error, 's, unit) effect" where
  "removeAuthorityTrust h certificateFile fingerprint authorityName =
     and_then (authorityIsTrusted h fingerprint authorityName) (\<lambda>trusted.
       if \<not> trusted then gives () else remove_commands h certificateFile fingerprint)"

text \<open>\<open>read_fingerprint\<close> is the fingerprint of the certificate in the file, which is read first.\<close>

definition ensureAuthorityTrusted :: "'s trust_host \<Rightarrow> string option \<Rightarrow> string \<Rightarrow> string \<Rightarrow> (trust_error, 's, bool) effect" where
  "ensureAuthorityTrusted h read_fingerprint certificateFile authorityName =
     (case read_fingerprint of
        None \<Rightarrow> fails_with UnreadableCertificate
      | Some f \<Rightarrow>
          let fingerprint = normalized_fingerprint f
          in and_then (authorityIsTrusted h fingerprint authorityName) (\<lambda>trusted.
             if trusted then gives True
             else and_then (installAuthorityTrust h certificateFile fingerprint) (\<lambda>_.
                  and_then (authorityIsTrusted h fingerprint authorityName) (\<lambda>verified.
                  if verified then gives True else fails_with NotVerified))))"

section \<open>Fingerprints are compared by their digits\<close>

lemma normalized_append: "normalized_fingerprint (s @ t) = normalized_fingerprint s @ normalized_fingerprint t"
  by (simp add: normalized_fingerprint_def)

lemma upper_hex: "hex_digit c \<Longrightarrow> hex_digit (upper_letter c) \<and> upper_letter (upper_letter c) = upper_letter c \<and> upper_letter c \<noteq> CHR '':''"
proof -
  assume h: "hex_digit c"
  then have "code c < 128" by (auto simp: hex_digit_def digit_def)
  then have *: "code (char_of n :: char) = n" if "n \<le> code c" for n using that by (simp add: code_def)
  show ?thesis
  proof (cases "97 \<le> code c \<and> code c \<le> 122")
    case True
    then have "code (upper_letter c) = code c - 32" "code c \<le> 102" using h * by (auto simp: upper_letter_def hex_digit_def digit_def)
    then show ?thesis using True by (auto simp: hex_digit_def digit_def upper_letter_def [of "upper_letter c"]) (auto simp: code_def)
  next
    case False
    then show ?thesis using h by (auto simp: upper_letter_def hex_digit_def digit_def code_def)
  qed
qed

lemma normalized_idem [simp]: "normalized_fingerprint (normalized_fingerprint v) = normalized_fingerprint v"
proof -
  have "filter hex_digit (filter (\<lambda>c. c \<noteq> CHR '':'') (map upper_letter xs)) = map upper_letter xs \<and> map upper_letter (map upper_letter xs) = map upper_letter xs"
    if "list_all hex_digit xs" for xs
    using that by (induction xs) (use upper_hex in \<open>auto\<close>)
  moreover have "list_all hex_digit (filter hex_digit (filter (\<lambda>c. c \<noteq> CHR '':'') v))" by (simp add: list_all_iff)
  ultimately show ?thesis unfolding normalized_fingerprint_def by metis
qed

lemma contains_prefix: "contains_text (t @ s) t"
  by (cases t; cases s) (auto simp: starts_with_def)

lemma contains_append: "contains_text (a @ t @ b) t"
proof (induction a)
  case Nil
  show ?case using contains_prefix [of t b] by simp
next
  case (Cons c a)
  then show ?case by simp
qed

lemma char_of_code: "char_of (code c) = c"
  by (simp add: code_def)

lemma lower_upper: "hex_digit c \<Longrightarrow> upper_letter (lower_char (upper_letter c)) = upper_letter c"
proof -
  assume h: "hex_digit c"
  let ?u = "upper_letter c"
  have u: "code ?u \<in> {48 ..< 58} \<or> code ?u \<in> {65 ..< 71}"
    using h by (auto simp: hex_digit_def digit_def upper_letter_def)
  show ?thesis
  proof (cases "code ?u < 58")
    case True
    then show ?thesis using u by (auto simp: lower_char_def upper_letter_def [of ?u])
  next
    case False
    then have c: "65 \<le> code ?u" "code ?u < 71" using u by auto
    then have "lower_char ?u = char_of (code ?u + 32)" by (simp add: lower_char_def)
    moreover have "code (char_of (code ?u + 32) :: char) = code ?u + 32" using c by simp
    ultimately show ?thesis using c by (simp add: upper_letter_def [of "char_of (code ?u + 32)"] char_of_code)
  qed
qed

text \<open>Different fingerprints have different files, as the file has the fingerprint in lower case.\<close>

lemma suffix_inject:
  assumes "normalized_fingerprint f = f" and "normalized_fingerprint g = g" and "toLowerCase f = toLowerCase g"
  shows "f = g"
proof -
  have up: "map upper_letter (toLowerCase x) = x" if x: "normalized_fingerprint x = x" for x
  proof -
    define hs where "hs = filter hex_digit (filter (\<lambda>c. c \<noteq> CHR '':'') x)"
    have hs: "x = map upper_letter hs" using x by (simp add: normalized_fingerprint_def hs_def)
    have "\<forall>c \<in> set hs. hex_digit c" by (simp add: hs_def)
    then have "map upper_letter (map lower_char (map upper_letter hs)) = map upper_letter hs" by (simp add: lower_upper)
    then show ?thesis by (simp only: hs [symmetric] toLowerCase_def)
  qed
  show ?thesis by (rule trans [OF up [OF assms(1), symmetric, unfolded assms(3)] up [OF assms(2)]])
qed

section \<open>Anchors in a directory\<close>

definition elevated :: "'s trust_host \<Rightarrow> 's \<Rightarrow> string \<Rightarrow> string list \<Rightarrow> 's \<times> exit_status" where
  "elevated h s command arguments =
     (if th_getuid h = Some 0 then th_exec h s command arguments else th_exec h s ''sudo'' (command # arguments))"

text \<open>What the documentation of \<open>install\<close>, \<open>rm\<close> and the two commands that refresh the store says of
  the files of a system that has one of these commands, as far as the code relies on it; and the anchors can be read.\<close>

definition directory_host :: "'s trust_host \<Rightarrow> bool" where
  "directory_host h \<longleftrightarrow>
     th_platform h = ''linux'' \<and> (commandExists h ''update-ca-certificates'' \<or> commandExists h ''update-ca-trust'')
     \<and> (\<forall>s f p. case elevated h s ''install'' [''-m'', ''0644'', f, p] of (t, st) \<Rightarrow>
          (\<forall>q. q \<noteq> p \<longrightarrow> th_anchor h t q = th_anchor h s q)
          \<and> (\<forall>out. st = Exited (Some 0) out \<longrightarrow> th_anchor h t p = th_anchor h s f))
     \<and> (\<forall>s p. case elevated h s ''rm'' [''-f'', p] of (t, st) \<Rightarrow>
          (\<forall>q. q \<noteq> p \<longrightarrow> th_anchor h t q = th_anchor h s q) \<and> (\<forall>out. st = Exited (Some 0) out \<longrightarrow> th_anchor h t p = None))
     \<and> (\<forall>s. th_anchor h (fst (elevated h s ''update-ca-certificates'' [])) = th_anchor h s
          \<and> th_anchor h (fst (elevated h s ''update-ca-trust'' [''extract''])) = th_anchor h s)
     \<and> (\<forall>s p. th_readable h s p)"

lemma directory_hostD:
  assumes "directory_host h"
  shows "th_platform h = ''linux''" and "commandExists h ''update-ca-certificates'' \<or> commandExists h ''update-ca-trust''"
    and "q \<noteq> p \<Longrightarrow> th_anchor h (fst (elevated h s ''install'' [''-m'', ''0644'', f, p])) q = th_anchor h s q"
    and "elevated h s ''install'' [''-m'', ''0644'', f, p] = (t, Exited (Some 0) out) \<Longrightarrow> th_anchor h t p = th_anchor h s f"
    and "q \<noteq> p \<Longrightarrow> th_anchor h (fst (elevated h s ''rm'' [''-f'', p])) q = th_anchor h s q"
    and "elevated h s ''rm'' [''-f'', p] = (t, Exited (Some 0) out) \<Longrightarrow> th_anchor h t p = None"
    and "th_readable h s p"
proof -
  show "th_platform h = ''linux''" and "commandExists h ''update-ca-certificates'' \<or> commandExists h ''update-ca-trust''"
    using assms by (simp_all add: directory_host_def)
  show "th_readable h s p" using assms by (simp add: directory_host_def)
  obtain t1 st1 where i: "elevated h s ''install'' [''-m'', ''0644'', f, p] = (t1, st1)" by fastforce
  obtain t2 st2 where r: "elevated h s ''rm'' [''-f'', p] = (t2, st2)" by fastforce
  have "\<forall>s f p. case elevated h s ''install'' [''-m'', ''0644'', f, p] of (t, st) \<Rightarrow>
      (\<forall>q. q \<noteq> p \<longrightarrow> th_anchor h t q = th_anchor h s q)
      \<and> (\<forall>out. st = Exited (Some 0) out \<longrightarrow> th_anchor h t p = th_anchor h s f)"
    and "\<forall>s p. case elevated h s ''rm'' [''-f'', p] of (t, st) \<Rightarrow>
      (\<forall>q. q \<noteq> p \<longrightarrow> th_anchor h t q = th_anchor h s q) \<and> (\<forall>out. st = Exited (Some 0) out \<longrightarrow> th_anchor h t p = None)"
    using assms unfolding directory_host_def by - (elim conjE, assumption)+
  from this(1) [THEN spec [of _ s], THEN spec [of _ f], THEN spec [of _ p]] this(2) [THEN spec [of _ s], THEN spec [of _ p]]
  have laws: "q \<noteq> p \<Longrightarrow> th_anchor h t1 q = th_anchor h s q" "st1 = Exited (Some 0) out' \<Longrightarrow> th_anchor h t1 p = th_anchor h s f"
    "q \<noteq> p \<Longrightarrow> th_anchor h t2 q = th_anchor h s q" "st2 = Exited (Some 0) out' \<Longrightarrow> th_anchor h t2 p = None" for q out'
    unfolding i r prod.case by blast+
  show "q \<noteq> p \<Longrightarrow> th_anchor h (fst (elevated h s ''install'' [''-m'', ''0644'', f, p])) q = th_anchor h s q"
    and "q \<noteq> p \<Longrightarrow> th_anchor h (fst (elevated h s ''rm'' [''-f'', p])) q = th_anchor h s q"
    unfolding i r fst_conv by (rule laws(1), assumption) (rule laws(3), assumption)
  show "elevated h s ''install'' [''-m'', ''0644'', f, p] = (t, Exited (Some 0) out) \<Longrightarrow> th_anchor h t p = th_anchor h s f"
    unfolding i using laws(2) [of out] by blast
  show "elevated h s ''rm'' [''-f'', p] = (t, Exited (Some 0) out) \<Longrightarrow> th_anchor h t p = None"
    unfolding r using laws(4) [of out] by blast
qed

definition anchor_for :: "'s trust_host \<Rightarrow> string \<Rightarrow> anchor" where
  "anchor_for h fp = (case linuxAnchor h fp of Inl _ \<Rightarrow> \<lparr>an_method = [], an_path = [], an_refreshCommand = [], an_refreshArguments = []\<rparr> | Inr a \<Rightarrow> a)"

lemma run_Inr: "run h b c as s = (t, Inr x) \<Longrightarrow> \<not> b \<Longrightarrow> \<exists>out. th_exec h s c as = (t, Exited (Some 0) out)"
  by (auto simp: run_def Let_def split: prod.splits exit_status.splits option.splits if_splits)

lemma runElevated_fst: "fst (runElevated h c as s) = fst (elevated h s c as)"
  by (auto simp: runElevated_def elevated_def run_def Let_def split: prod.split exit_status.split)

lemma runElevated_Inr: "runElevated h c as s = (t, Inr x) \<Longrightarrow> \<exists>out. elevated h s c as = (t, Exited (Some 0) out)"
  by (auto simp: runElevated_def elevated_def dest!: run_Inr split: if_splits)

lemma directory_anchor:
  assumes "directory_host h"
  shows "linuxAnchor h fp = Inr (anchor_for h fp)" and "an_method (anchor_for h fp) \<noteq> ''p11-kit''"
    and "th_anchor h (fst (elevated h s (an_refreshCommand (anchor_for h fp)) (an_refreshArguments (anchor_for h fp)))) = th_anchor h s"
  using assms by (auto simp: directory_host_def linuxAnchor_def anchor_for_def Let_def)

lemma anchor_path_inject:
  assumes "directory_host h" and "normalized_fingerprint f = f" and "normalized_fingerprint g = g"
  shows "an_path (anchor_for h f) = an_path (anchor_for h g) \<longleftrightarrow> f = g"
  using assms suffix_inject [OF assms(2,3)] by (auto simp: directory_host_def linuxAnchor_def anchor_for_def Let_def)

text \<open>The anchor of a fingerprint is in place.\<close>

definition anchored :: "'s trust_host \<Rightarrow> 's \<Rightarrow> string \<Rightarrow> bool" where
  "anchored h s fp \<longleftrightarrow> map_option normalized_fingerprint (th_anchor h s (an_path (anchor_for h fp))) = Some fp"

lemma directory_trusted:
  assumes "directory_host h"
  shows "authorityIsTrusted h fp name s = (s, Inr (anchored h s fp))"
  using directory_hostD(1,7) [OF assms] directory_anchor(1,2) [OF assms, of fp]
  by (auto simp: authorityIsTrusted_def and_then_def lift_result_def linux_trusted_def anchored_def
      split: option.split)

lemma directory_refresh:
  assumes "directory_host h" and "refresh_anchors h (anchor_for h fp) s = (t, r)"
  shows "th_anchor h t = th_anchor h s"
  using assms(2) directory_anchor(3) [OF assms(1), of s fp] runElevated_fst [of h "an_refreshCommand (anchor_for h fp)" "an_refreshArguments (anchor_for h fp)" s]
  by (auto simp: refresh_anchors_def and_then_def split: prod.splits sum.splits)

lemma directory_install:
  assumes h: "directory_host h" and i: "installAuthorityTrust h file fp s = (t, r)" and q: "q \<noteq> an_path (anchor_for h fp)"
  shows "th_anchor h t q = th_anchor h s q"
proof -
  let ?a = "anchor_for h fp" and ?as = "[''-m'', ''0644'', file, an_path (anchor_for h fp)]"
  obtain u x where u: "runElevated h ''install'' ?as s = (u, x)" by fastforce
  have "th_anchor h (fst (elevated h s ''install'' ?as)) q = th_anchor h s q"
    by (rule directory_hostD(3) [OF h q])
  then have same: "th_anchor h u q = th_anchor h s q" using runElevated_fst [of h "''install''" ?as s] u by simp
  have "installAuthorityTrust h file fp s = (case x of Inl e \<Rightarrow> (u, Inl e) | Inr _ \<Rightarrow> refresh_anchors h ?a u)"
    using directory_hostD(1) [OF h] directory_anchor(1,2) [OF h, of fp] u
    by (simp add: installAuthorityTrust_def and_then_def lift_result_def)
  then show ?thesis using i same directory_refresh [OF h, of fp u t r] by (cases x) auto
qed

lemma directory_remove:
  assumes h: "directory_host h" and r: "remove_commands h file fp s = (t, r)"
  shows "q \<noteq> an_path (anchor_for h fp) \<Longrightarrow> th_anchor h t q = th_anchor h s q"
    and "r = Inr () \<Longrightarrow> th_anchor h t (an_path (anchor_for h fp)) = None"
proof -
  let ?a = "anchor_for h fp" and ?as = "[''-f'', an_path (anchor_for h fp)]"
  obtain u x where u: "runElevated h ''rm'' ?as s = (u, x)" by fastforce
  have eq: "remove_commands h file fp s = (case x of Inl e \<Rightarrow> (u, Inl e) | Inr _ \<Rightarrow> refresh_anchors h ?a u)"
    using directory_hostD(1) [OF h] directory_anchor(1,2) [OF h, of fp] u
    by (simp add: remove_commands_def and_then_def lift_result_def)
  { assume q: "q \<noteq> an_path ?a"
    have "th_anchor h (fst (elevated h s ''rm'' ?as)) q = th_anchor h s q"
      by (rule directory_hostD(5) [OF h q])
    then have "th_anchor h u q = th_anchor h s q" using runElevated_fst [of h "''rm''" ?as s] u by simp
    then show "th_anchor h t q = th_anchor h s q" using r eq directory_refresh [OF h, of fp u t r] by (cases x) auto }
  { assume "r = Inr ()"
    then obtain y where y: "x = Inr y" and re: "refresh_anchors h ?a u = (t, Inr ())" using r eq by (cases x) auto
    obtain out where "elevated h s ''rm'' ?as = (u, Exited (Some 0) out)" using runElevated_Inr u y by metis
    then have "th_anchor h u (an_path ?a) = None" by (rule directory_hostD(6) [OF h])
    then show "th_anchor h t (an_path ?a) = None" using directory_refresh [OF h re] by simp }
qed

lemma directory_ensure:
  assumes h: "directory_host h" and e: "ensureAuthorityTrusted h (Some f) file name s = (t, Inr b)"
  shows "b \<and> anchored h t (normalized_fingerprint f) \<and> (\<forall>q. q \<noteq> an_path (anchor_for h (normalized_fingerprint f)) \<longrightarrow> th_anchor h t q = th_anchor h s q)"
proof (cases "anchored h s (normalized_fingerprint f)")
  case True
  then show ?thesis using e by (simp add: ensureAuthorityTrusted_def and_then_def directory_trusted [OF h] Let_def)
next
  case False
  obtain u r where i: "installAuthorityTrust h file (normalized_fingerprint f) s = (u, r)" by fastforce
  then show ?thesis using e False directory_install [OF h i]
    by (auto simp: ensureAuthorityTrusted_def and_then_def directory_trusted [OF h] Let_def split: sum.splits if_splits)
qed

lemma directory_removed:
  assumes h: "directory_host h" and r: "removeAuthorityTrust h file fp name s = (t, Inr ())"
  shows "\<not> anchored h t fp \<and> (\<forall>q. q \<noteq> an_path (anchor_for h fp) \<longrightarrow> th_anchor h t q = th_anchor h s q)"
proof (cases "anchored h s fp")
  case False
  then show ?thesis using r by (simp add: removeAuthorityTrust_def and_then_def directory_trusted [OF h])
next
  case True
  then have "remove_commands h file fp s = (t, Inr ())" using r by (simp add: removeAuthorityTrust_def and_then_def directory_trusted [OF h])
  from directory_remove [OF h this] show ?thesis by (simp add: anchored_def)
qed

section \<open>Anchors of p11-kit\<close>

text \<open>What p11-kit documents of \<open>trust\<close>: \<open>list\<close> prints the labels of the anchors, \<open>anchor\<close> adds the
  certificate in a file and \<open>anchor --remove\<close> takes it out. \<open>held s\<close> are the anchors, each a fingerprint
  with its label, and \<open>in_file f\<close> is the certificate in a file. The store is kept elsewhere, so the
  paths the code looks at hold nothing.\<close>

definition p11_host :: "'s trust_host \<Rightarrow> ('s \<Rightarrow> (string \<times> string) set) \<Rightarrow> (string \<Rightarrow> string \<times> string) \<Rightarrow> bool" where
  "p11_host h held in_file \<longleftrightarrow>
     th_platform h = ''linux'' \<and> \<not> commandExists h ''update-ca-certificates'' \<and> \<not> commandExists h ''update-ca-trust''
     \<and> commandExists h ''trust'' \<and> (\<forall>s p. th_anchor h s p = None)
     \<and> (\<forall>s. \<exists>out. th_exec h s ''trust'' [''list'', ''--filter=ca-anchors''] = (s, Exited (Some 0) out)
          \<and> (\<forall>name \<in> snd ` held s. contains_text out name))
     \<and> (\<forall>s f. case elevated h s ''trust'' [''anchor'', ''--remove'', f] of (t, st) \<Rightarrow>
          (\<forall>out. st = Exited (Some 0) out \<longrightarrow> held t = held s - {in_file f}))"

lemma p11_hostD:
  assumes "p11_host h held in_file"
  shows "th_platform h = ''linux''" and "th_anchor h s p = None"
    and "\<exists>out. th_exec h s ''trust'' [''list'', ''--filter=ca-anchors''] = (s, Exited (Some 0) out)
          \<and> (\<forall>name \<in> snd ` held s. contains_text out name)"
    and "elevated h s ''trust'' [''anchor'', ''--remove'', f] = (t, Exited (Some 0) out) \<Longrightarrow> held t = held s - {in_file f}"
    and "linuxAnchor h fp = Inr \<lparr>an_method = ''p11-kit'', an_path = ''/etc/http3-server-'' @ toLowerCase fp @ ''.pem'',
      an_refreshCommand = ''trust'', an_refreshArguments = []\<rparr>"
proof -
  note parts = assms [unfolded p11_host_def, THEN conjunct1] assms [unfolded p11_host_def, THEN conjunct2]
  show "th_platform h = ''linux''" by (rule parts(1))
  show "linuxAnchor h fp = Inr \<lparr>an_method = ''p11-kit'', an_path = ''/etc/http3-server-'' @ toLowerCase fp @ ''.pem'',
      an_refreshCommand = ''trust'', an_refreshArguments = []\<rparr>"
    using parts(2) by (simp add: linuxAnchor_def Let_def)
  show "th_anchor h s p = None" using parts(2) by simp
  show "\<exists>out. th_exec h s ''trust'' [''list'', ''--filter=ca-anchors''] = (s, Exited (Some 0) out)
          \<and> (\<forall>name \<in> snd ` held s. contains_text out name)"
    using parts(2) by (elim conjE) (erule allE [of _ s])
  assume e: "elevated h s ''trust'' [''anchor'', ''--remove'', f] = (t, Exited (Some 0) out)"
  have "case elevated h s ''trust'' [''anchor'', ''--remove'', f] of (t, st) \<Rightarrow>
      (\<forall>out. st = Exited (Some 0) out \<longrightarrow> held t = held s - {in_file f})"
    using parts(2) by (elim conjE) (erule allE [of _ s], erule allE [of _ f])
  then show "held t = held s - {in_file f}" by (simp add: e)
qed

lemma p11_trusted:
  assumes "p11_host h held in_file" and "name \<in> snd ` held s"
  shows "authorityIsTrusted h fp name s = (s, Inr True)"
  using p11_hostD(3) [OF assms(1), of s] assms(2)
  by (auto simp: authorityIsTrusted_def and_then_def lift_result_def linux_trusted_def run_def p11_hostD(1,2,5) [OF assms(1)])

section \<open>Properties\<close>

text \<open>On a system that keeps its anchors in a directory (Debian, Fedora) a rotation leaves exactly the new
  authority trusted: when the new one was ensured and the old one removed without an error, the
  lookup finds the new one and not the old one, and every other file is as it was.\<close>

theorem rotation_trusts_new_only:
  assumes "directory_host h" and "ensureAuthorityTrusted h (Some f) file name s = (t, Inr b)"
    and "removeAuthorityTrust h old_file old name' t = (u, Inr ())"
    and "normalized_fingerprint old = old" and "old \<noteq> normalized_fingerprint f"
  shows "b \<and> authorityIsTrusted h (normalized_fingerprint f) name u = (u, Inr True)
    \<and> authorityIsTrusted h old name' u = (u, Inr False)
    \<and> (\<forall>q. q \<notin> {an_path (anchor_for h (normalized_fingerprint f)), an_path (anchor_for h old)} \<longrightarrow> th_anchor h u q = th_anchor h s q)"
proof -
  have "an_path (anchor_for h old) \<noteq> an_path (anchor_for h (normalized_fingerprint f))"
    using anchor_path_inject [OF assms(1,4) normalized_idem] assms(5) by blast
  then show ?thesis
    using directory_ensure [OF assms(1,2)] directory_removed [OF assms(1,3)]
    by (simp add: directory_trusted [OF assms(1)] anchored_def)
qed

text \<open>On a system where the store is p11-kit a rotation ends with no trusted authority: the lookup goes by
  the name, which the new authority shares with the old one, so the new one counts as trusted and is
  not installed, and then the old one, the only one there, is removed.\<close>

theorem p11_rotation_loses_trust:
  assumes "p11_host h held in_file" and "held s = {(old, name)}" and "in_file old_file = (old, name)"
    and "ensureAuthorityTrusted h (Some f) file name s = (t, r)"
    and "removeAuthorityTrust h old_file old name t = (u, Inr ())"
  shows "r = Inr True \<and> t = s \<and> held u = {}"
proof -
  have n: "name \<in> snd ` held s" by (simp add: assms(2))
  have e: "r = Inr True \<and> t = s"
    using assms(4) by (simp add: ensureAuthorityTrusted_def Let_def and_then_def p11_trusted [OF assms(1) n])
  have "remove_commands h old_file old s = (u, Inr ())"
    using assms(5) e by (simp add: removeAuthorityTrust_def and_then_def p11_trusted [OF assms(1) n])
  then obtain x where "runElevated h ''trust'' [''anchor'', ''--remove'', old_file] s = (u, Inr x)"
    by (auto simp: remove_commands_def and_then_def lift_result_def p11_hostD(1,5) [OF assms(1)] split: prod.splits sum.splits)
  then obtain out where "elevated h s ''trust'' [''anchor'', ''--remove'', old_file] = (u, Exited (Some 0) out)"
    using runElevated_Inr by metis
  from p11_hostD(4) [OF assms(1) this] show ?thesis using e assms(2,3) by simp
qed

text \<open>On a system with a directory of anchors an installation whose refresh failed is not repaired: the
  first call throws, but the anchor is in place, so the next call finds it and returns without
  running the refresh.\<close>

theorem failed_refresh_not_repeated:
  assumes "directory_host h" and "ensureAuthorityTrusted h (Some f) file name s = (t, Inl e)"
    and "anchored h t (normalized_fingerprint f)"
  shows "ensureAuthorityTrusted h (Some f) file name t = (t, Inr True)"
  using assms(3) by (simp add: ensureAuthorityTrusted_def Let_def and_then_def directory_trusted [OF assms(1)])

text \<open>An anchor that is there but cannot be read counts as not trusted: the removal of its authority succeeds and leaves it in the store.\<close>

theorem unreadable_anchor_kept:
  assumes "th_platform h = ''linux''" and "linuxAnchor h fp = Inr a" and "an_method a \<noteq> ''p11-kit''" and "\<not> th_readable h s (an_path a)"
  shows "authorityIsTrusted h fp name s = (s, Inr False) \<and> removeAuthorityTrust h file fp name s = (s, Inr ())"
  using assms by (simp add: removeAuthorityTrust_def authorityIsTrusted_def linux_trusted_def and_then_def lift_result_def)

section \<open>Concrete hosts\<close>

text \<open>A system as a list of paths with fingerprints: \<open>install\<close> copies, \<open>rm\<close> removes, and the refresh works or not.\<close>

fun toy_exec :: "bool \<Rightarrow> (string \<rightharpoonup> string) \<Rightarrow> string \<Rightarrow> string list \<Rightarrow> (string \<rightharpoonup> string) \<times> exit_status" where
  "toy_exec refreshes s c as =
     (if c = ''install'' \<and> length as = 4 then (s(as ! 3 := s (as ! 2)), Exited (Some 0) [])
      else if c = ''rm'' \<and> length as = 2 then (s(as ! 1 := None), Exited (Some 0) [])
      else (s, Exited (Some (if refreshes then 0 else 1)) []))"

definition toy_host :: "bool \<Rightarrow> (string \<rightharpoonup> string) trust_host" where
  "toy_host refreshes = \<lparr>th_platform = ''linux'', th_getuid = Some 0, th_path = None,
     th_executable = (\<lambda>d c. c = ''update-ca-certificates''), th_exec = toy_exec refreshes, th_anchor = (\<lambda>s p. s p), th_readable = (\<lambda>s p. True)\<rparr>"

lemma toy_directory_host: "directory_host (toy_host refreshes)"
  by (simp add: directory_host_def toy_host_def commandExists_def elevated_def unique_def set_add_def)

fun toy_p11_exec :: "(string \<times> string) list \<Rightarrow> string \<Rightarrow> string list \<Rightarrow> (string \<times> string) list \<times> exit_status" where
  "toy_p11_exec s c as =
     (if as = [''list'', ''--filter=ca-anchors''] then (s, Exited (Some 0) (concat (map snd s)))
      else if length as = 3 then (removeAll (as ! 2, ''ca'') s, Exited (Some 0) [])
      else (s, Exited (Some 0) []))"

lemma toy_paths:
  "an_path (anchor_for (toy_host b) fp) = ''/usr/local/share/ca-certificates/http3-server-'' @ toLowerCase fp @ ''.crt''"
  by (simp add: anchor_for_def linuxAnchor_def toy_host_def commandExists_def unique_def set_add_def Let_def)

lemma toy_anchor: "linuxAnchor (toy_host b) fp = Inr \<lparr>an_method = ''debian'',
    an_path = ''/usr/local/share/ca-certificates/http3-server-'' @ toLowerCase fp @ ''.crt'',
    an_refreshCommand = ''update-ca-certificates'', an_refreshArguments = []\<rparr>"
  by (simp add: linuxAnchor_def toy_host_def commandExists_def unique_def set_add_def Let_def)

lemma toy_normal: "normalized_fingerprint ''a'' = ''A''" "normalized_fingerprint ''B'' = ''B''" "toLowerCase ''A'' = ''a''" "toLowerCase ''B'' = ''b''"
  by code_simp+

lemma toy_fields: "th_platform (toy_host b) = ''linux''" "th_getuid (toy_host b) = Some 0" "th_exec (toy_host b) = toy_exec b"
  "th_anchor (toy_host b) s p = s p" "th_readable (toy_host b) s p"
  by (simp_all add: toy_host_def)

lemmas toy_steps = ensureAuthorityTrusted_def installAuthorityTrust_def removeAuthorityTrust_def remove_commands_def refresh_anchors_def
  authorityIsTrusted_def linux_trusted_def and_then_def lift_result_def runElevated_def run_def toy_anchor toy_normal toy_fields Let_def

definition toy_system :: "string \<rightharpoonup> string" where
  "toy_system = [''/n'' \<mapsto> ''a'', ''/usr/local/share/ca-certificates/http3-server-b.crt'' \<mapsto> ''B'']"

theorem rotation_trusts_new_only_witness:
  "\<exists>t u. ensureAuthorityTrusted (toy_host True) (Some ''a'') ''/n'' ''ca'' toy_system = (t, Inr True)
    \<and> removeAuthorityTrust (toy_host True) ''/o'' ''B'' ''ca'' t = (u, Inr ())
    \<and> authorityIsTrusted (toy_host True) ''A'' ''ca'' u = (u, Inr True)"
proof -
  obtain t where t: "ensureAuthorityTrusted (toy_host True) (Some ''a'') ''/n'' ''ca'' toy_system = (t, Inr True)"
    "t ''/usr/local/share/ca-certificates/http3-server-b.crt'' = Some ''B''"
    by (simp add: toy_steps toy_system_def)
  then obtain u where u: "removeAuthorityTrust (toy_host True) ''/o'' ''B'' ''ca'' t = (u, Inr ())"
    by (simp add: toy_steps)
  from rotation_trusts_new_only [OF toy_directory_host t(1) u] show ?thesis using t u by (auto simp: toy_normal)
qed

theorem failed_refresh_not_repeated_witness:
  "\<exists>t. ensureAuthorityTrusted (toy_host False) (Some ''a'') ''/n'' ''ca'' toy_system = (t, Inl (CommandFailed ''update-ca-certificates''))
    \<and> ensureAuthorityTrusted (toy_host False) (Some ''a'') ''/n'' ''ca'' t = (t, Inr True)"
proof -
  obtain t where t: "ensureAuthorityTrusted (toy_host False) (Some ''a'') ''/n'' ''ca'' toy_system = (t, Inl (CommandFailed ''update-ca-certificates''))"
    "t ''/usr/local/share/ca-certificates/http3-server-a.crt'' = Some ''a''"
    by (simp add: toy_steps toy_system_def)
  have "anchored (toy_host False) t (normalized_fingerprint ''a'')"
    using t(2) by (simp add: anchored_def toy_paths toy_normal toy_fields)
  from failed_refresh_not_repeated [OF toy_directory_host t(1) this] t(1) show ?thesis by blast
qed

theorem unreadable_anchor_kept_witness:
  "removeAuthorityTrust (toy_host True\<lparr>th_readable := \<lambda>s p. False\<rparr>) ''/o'' ''B'' ''ca'' toy_system = (toy_system, Inr ())
   \<and> toy_system ''/usr/local/share/ca-certificates/http3-server-b.crt'' = Some ''B''"
proof -
  let ?h = "toy_host True\<lparr>th_readable := \<lambda>s p. False\<rparr>"
  have a: "linuxAnchor ?h ''B'' = Inr \<lparr>an_method = ''debian'', an_path = ''/usr/local/share/ca-certificates/http3-server-b.crt'',
      an_refreshCommand = ''update-ca-certificates'', an_refreshArguments = []\<rparr>"
    by (simp add: linuxAnchor_def commandExists_def toy_host_def unique_def set_add_def toy_normal Let_def)
  have "removeAuthorityTrust ?h ''/o'' ''B'' ''ca'' toy_system = (toy_system, Inr ())"
    using unreadable_anchor_kept [OF _ a, of toy_system "''ca''" "''/o''"] by (simp add: toy_fields)
  then show ?thesis by (simp add: toy_system_def)
qed

definition toy_p11_host :: "(string \<times> string) list trust_host" where
  "toy_p11_host = \<lparr>th_platform = ''linux'', th_getuid = Some 0, th_path = None,
     th_executable = (\<lambda>d c. c = ''trust''), th_exec = toy_p11_exec, th_anchor = (\<lambda>s p. None), th_readable = (\<lambda>s p. True)\<rparr>"

lemma toy_p11: "p11_host toy_p11_host set (\<lambda>f. (f, ''ca''))"
proof -
  have "contains_text (concat (map snd s)) name" if "name \<in> snd ` set s" for s :: "(string \<times> string) list" and name
  proof -
    obtain p where "p \<in> set s" "name = snd p" using \<open>name \<in> snd ` set s\<close> by auto
    then obtain a b where "s = a @ p # b" by (metis split_list)
    then show ?thesis using contains_append [of "concat (map snd a)" name "concat (map snd b)"] \<open>name = snd p\<close> by simp
  qed
  then show ?thesis
    by (auto simp: p11_host_def toy_p11_host_def commandExists_def unique_def set_add_def elevated_def)
qed

theorem p11_rotation_loses_trust_witness:
  "ensureAuthorityTrusted toy_p11_host (Some ''a'') ''/n'' ''ca'' [(''/o'', ''ca'')] = ([(''/o'', ''ca'')], Inr True)
   \<and> removeAuthorityTrust toy_p11_host ''/o'' ''/o'' ''ca'' [(''/o'', ''ca'')] = ([], Inr ())"
proof -
  obtain t r where e: "ensureAuthorityTrusted toy_p11_host (Some ''a'') ''/n'' ''ca'' [(''/o'', ''ca'')] = (t, r)" by fastforce
  have n: "''ca'' \<in> snd ` set [(''/o'', ''ca'')]" by simp
  have t: "t = [(''/o'', ''ca'')]"
    using e by (simp add: ensureAuthorityTrusted_def Let_def and_then_def p11_trusted [OF toy_p11 n])
  have rem: "removeAuthorityTrust toy_p11_host ''/o'' ''/o'' ''ca'' t = ([], Inr ())"
    unfolding t removeAuthorityTrust_def and_then_def p11_trusted [OF toy_p11 n] remove_commands_def lift_result_def p11_hostD(5) [OF toy_p11]
    by (simp add: runElevated_def run_def toy_p11_host_def)
  from p11_rotation_loses_trust [OF toy_p11 _ _ e rem] e rem show ?thesis by (simp add: t)
qed

text \<open>On macOS the lookup succeeds when the keychain prints the fingerprint anywhere, in any notation.\<close>

lemma printed_fingerprint_found:
  assumes "th_platform h = ''darwin''" and "normalized_fingerprint printed = fp"
    and "th_exec h s ''/usr/bin/security'' [''find-certificate'', ''-a'', ''-Z'', ''-c'', name, system_keychain]
      = (t, Exited (Some 0) (a @ printed @ b))"
  shows "authorityIsTrusted h fp name s = (t, Inr True)"
  using assms contains_append [of "normalized_fingerprint a" fp "normalized_fingerprint b"]
  by (simp add: authorityIsTrusted_def and_then_def run_def normalized_append)

end
