(* ===== verification/Trusted_Cache.thy ===== *)
theory Trusted_Cache
  imports Dev_Cache Trust_Store
begin

text \<open>
  packages/dev-certificates/trusted.js: the cache of a certificate with its own authority, and the way
  it changes the trust store. Calls for one directory run one after the other (Trusted_Queue), so the
  model runs one call; the \<open>n\<close>-th operation on the file system fails as \<open>fails n\<close> says.
\<close>

section \<open>Options, errors and files\<close>

datatype trusted_error = OnTrust trust_error | OnCache cache_error

fun trusted_recoverable :: "trusted_error \<Rightarrow> bool" where
  "trusted_recoverable (OnCache e) = isRecoverableCacheError e"
| "trusted_recoverable (OnTrust (SpawnFailed c)) = (c \<noteq> ''EACCES'' \<and> c \<noteq> ''EPERM'')"
| "trusted_recoverable _ = True"

record trusted_profile = profile +
  tr_authorityName :: "string option"

record trusted_options =
  to_directory :: "string option"
  to_authorityName :: "string option option"
  to_renewBeforeMs :: "milliseconds option"
  to_installTrust :: bool
  to_validityDays :: "js_number option"
  to_certificate :: certificate_options

definition profileFrom :: "trusted_options \<Rightarrow> cache_error + trusted_profile" where
  "profileFrom o' =
     (let c = to_certificate o'; dns = o_dnsNames c; ips = o_ipAddresses c;
          p = \<lparr>pr_commonName = o_commonName c, pr_dnsNames = array_or [TextValue ''localhost''] dns,
               pr_ipAddresses = array_or [TextValue ''127.0.0.1'', TextValue ''::1''] ips,
               pr_validityDays = (case to_validityDays o' of None \<Rightarrow> IntegerNumber 365 | Some n \<Rightarrow> n),
               tr_authorityName = (case to_authorityName o' of None \<Rightarrow> Some ''http3-server development CA'' | Some v \<Rightarrow> v)\<rparr>
      in if dns = NotAnArrayValue then Inl (ArrayExpected ''dnsNames'')
         else if ips = NotAnArrayValue then Inl (ArrayExpected ''ipAddresses'')
         else if length (pr_dnsNames p) + length (pr_ipAddresses p) = 0 then Inl NoNames
         else Inr p)"

definition renewal_margin :: "trusted_options \<Rightarrow> cache_error + int" where
  "renewal_margin o' =
     (case (case to_renewBeforeMs o' of None \<Rightarrow> Milliseconds (30 * day_ms) | Some ms \<Rightarrow> ms) of
        NotFinite \<Rightarrow> Inl BadRenewal
      | Milliseconds ms \<Rightarrow> if ms < 0 then Inl BadRenewal else Inr ms)"

text \<open>A certificate as \<open>X509Certificate\<close> reads it, here with its fingerprint and with the key that verifies it.\<close>

record authority_x509 = x509 +
  x_fingerprint256 :: string

record trusted_crypto =
  tc_parse :: "string \<Rightarrow> authority_x509 option"
  tc_public_key :: "string \<Rightarrow> bytes option"

text \<open>The JSON value of trusted-current.json; a field is \<open>None\<close> when it is not of the kind the code writes.\<close>

record trusted_pointer =
  tp_formatVersion :: "int option"
  tp_authorityCertificateFile :: "string option"
  tp_certificateFile :: "string option"
  tp_fingerprint :: "string option"
  tp_privateKeyFile :: "string option"
  tp_authorityName :: "string option"
  tp_profile :: "trusted_profile option"

datatype trusted_file = TPointer trusted_pointer | TText string | TPartial

type_synonym trusted_files = "string \<Rightarrow> trusted_file option"

record 's trusted_world =
  w_files :: trusted_files
  w_system :: 's
  w_operations :: nat

text \<open>Where a call runs: the working directory, the process, the trust store, the readers of certificates,
  and the failures: the code of the error, and for a write whether the file was created before. \<open>te_partial\<close> is what a half
  written file reads as.\<close>

record 's trusted_env =
  te_cwd :: string
  te_pid :: nat
  te_host :: "'s trust_host"
  te_crypto :: trusted_crypto
  te_fails :: "nat \<Rightarrow> (string \<times> bool) option"
  te_partial :: string

type_synonym ('s, 'a) trusted_effect = "(trusted_error, 's trusted_world, 'a) effect"

section \<open>Operations on files\<close>

definition next_failure :: "'s trusted_env \<Rightarrow> ('s, (string \<times> bool) option) trusted_effect" where
  "next_failure e w = (w\<lparr>w_operations := w_operations w + 1\<rparr>, Inr (te_fails e (w_operations w)))"

definition file_failure :: "string \<Rightarrow> trusted_error" where
  "file_failure c = OnCache (FileFailure c)"

definition read_file :: "'s trusted_env \<Rightarrow> string \<Rightarrow> ('s, trusted_file) trusted_effect" where
  "read_file e path = and_then (next_failure e) (\<lambda>f w. case f of
       Some (c, _) \<Rightarrow> (w, Inl (file_failure c))
     | None \<Rightarrow> (case w_files w path of None \<Rightarrow> (w, Inl (file_failure ''ENOENT'')) | Some x \<Rightarrow> (w, Inr x)))"

text \<open>With the flag \<open>wx\<close>.\<close>

definition write_file :: "'s trusted_env \<Rightarrow> string \<Rightarrow> trusted_file \<Rightarrow> ('s, unit) trusted_effect" where
  "write_file e path content = and_then (next_failure e) (\<lambda>f w. case f of
       Some (c, created) \<Rightarrow>
         (if created \<and> w_files w path = None then w\<lparr>w_files := (w_files w)(path \<mapsto> TPartial)\<rparr> else w, Inl (file_failure c))
     | None \<Rightarrow> if w_files w path \<noteq> None then (w, Inl (file_failure ''EEXIST''))
               else (w\<lparr>w_files := (w_files w)(path \<mapsto> content)\<rparr>, Inr ()))"

definition rename_file :: "'s trusted_env \<Rightarrow> string \<Rightarrow> string \<Rightarrow> ('s, unit) trusted_effect" where
  "rename_file e source target' = and_then (next_failure e) (\<lambda>f w. case f of
       Some (c, _) \<Rightarrow> (w, Inl (file_failure c))
     | None \<Rightarrow> (case w_files w source of
         None \<Rightarrow> (w, Inl (file_failure ''ENOENT''))
       | Some x \<Rightarrow> (w\<lparr>w_files := (w_files w)(source := None, target' := Some x)\<rparr>, Inr ())))"

text \<open>With the option \<open>force\<close>: a file that is not there is no error.\<close>

definition remove_file :: "'s trusted_env \<Rightarrow> string \<Rightarrow> ('s, unit) trusted_effect" where
  "remove_file e path = and_then (next_failure e) (\<lambda>f w. case f of
       Some (c, _) \<Rightarrow> (w, Inl (file_failure c))
     | None \<Rightarrow> (w\<lparr>w_files := (w_files w)(path := None)\<rparr>, Inr ()))"

definition make_directory :: "'s trusted_env \<Rightarrow> ('s, unit) trusted_effect" where
  "make_directory e = and_then (next_failure e) (\<lambda>f. case f of Some (c, _) \<Rightarrow> fails_with (file_failure c) | None \<Rightarrow> gives ())"

text \<open>\<open>Promise.all\<close> of operations that are all started: each is carried out, and the first error is the result.\<close>

fun all_of :: "('s, unit) trusted_effect list \<Rightarrow> ('s, unit) trusted_effect" where
  "all_of [] w = (w, Inr ())"
| "all_of (m # ms) w =
     (case m w of (w1, r1) \<Rightarrow> case all_of ms w1 of (w2, r2) \<Rightarrow> (w2, case r1 of Inl err \<Rightarrow> Inl err | Inr _ \<Rightarrow> r2))"

definition trusted_writeAtomically :: "'s trusted_env \<Rightarrow> string \<Rightarrow> string \<Rightarrow> trusted_file \<Rightarrow> ('s, unit) trusted_effect" where
  "trusted_writeAtomically e unique_id path content w =
     (let temporaryPath = path @ ''.'' @ decimal (te_pid e) @ ''.'' @ unique_id @ ''.tmp''
      in case and_then (write_file e temporaryPath content) (\<lambda>_. rename_file e temporaryPath path) w of
           (w1, r) \<Rightarrow> (fst (remove_file e temporaryPath w1), r))"

text \<open>The trust store is changed by its own effects.\<close>

definition on_system :: "(trust_error, 's, 'a) effect \<Rightarrow> ('s, 'a) trusted_effect" where
  "on_system m w = (case m (w_system w) of (t, r) \<Rightarrow> (w\<lparr>w_system := t\<rparr>, map_sum OnTrust (\<lambda>x. x) r))"

definition file_text :: "'s trusted_env \<Rightarrow> trusted_file \<Rightarrow> string" where
  "file_text e f = (case f of TText t \<Rightarrow> t | _ \<Rightarrow> te_partial e)"

section \<open>Reading the cache\<close>

definition trusted_cachePath :: "string \<Rightarrow> string \<Rightarrow> string option \<Rightarrow> trusted_error + string" where
  "trusted_cachePath cwd directory path =
     (case path of
        None \<Rightarrow> Inl (OnCache (CacheProblem ''invalid path''))
      | Some p \<Rightarrow> let r = resolve cwd p
                 in if dirname r \<noteq> directory then Inl (OnCache (CacheProblem ''outside its directory'')) else Inr r)"

record trusted_cache =
  ta_authority :: string
  ta_certificate :: string
  ta_fingerprint :: string
  ta_key :: string
  ta_authorityName :: "string option"
  ta_profile :: "trusted_profile option"

definition trusted_pointer_path :: "string \<Rightarrow> string" where
  "trusted_pointer_path directory = join_path directory ''trusted-current.json''"

definition parse_trusted_cache :: "string \<Rightarrow> string \<Rightarrow> trusted_file \<Rightarrow> trusted_error + trusted_cache" where
  "parse_trusted_cache cwd directory f =
     (case f of
        TPointer p \<Rightarrow>
          if tp_formatVersion p \<noteq> Some 1 then Inl (OnCache (CacheProblem ''unsupported format''))
          else bind_result (trusted_cachePath cwd directory (tp_authorityCertificateFile p)) (\<lambda>a.
               bind_result (trusted_cachePath cwd directory (tp_certificateFile p)) (\<lambda>c.
               bind_result (map_sum OnTrust (\<lambda>x. x) (normalizeFingerprint (tp_fingerprint p))) (\<lambda>fp.
               bind_result (trusted_cachePath cwd directory (tp_privateKeyFile p)) (\<lambda>k.
               Inr \<lparr>ta_authority = a, ta_certificate = c, ta_fingerprint = fp, ta_key = k,
                    ta_authorityName = tp_authorityName p, ta_profile = tp_profile p\<rparr>))))
      | _ \<Rightarrow> Inl (OnCache (CacheProblem ''not JSON'')))"

definition read_trusted_cache :: "'s trusted_env \<Rightarrow> string \<Rightarrow> ('s, trusted_cache) trusted_effect" where
  "read_trusted_cache e directory =
     and_then (read_file e (trusted_pointer_path directory)) (\<lambda>f. lift_result (parse_trusted_cache (te_cwd e) directory f))"

definition read_certificate :: "'s trusted_env \<Rightarrow> string \<Rightarrow> ('s, authority_x509) trusted_effect" where
  "read_certificate e path =
     and_then (read_file e path) (\<lambda>f. case tc_parse (te_crypto e) (file_text e f) of
       None \<Rightarrow> fails_with (OnCache (CacheProblem ''certificate'')) | Some x \<Rightarrow> gives x)"

text \<open>Returns the name of the authority; the rest of the result are fields of the cache.\<close>

definition validateCachedAuthority :: "'s trusted_env \<Rightarrow> trusted_cache \<Rightarrow> ('s, string) trusted_effect" where
  "validateCachedAuthority e c =
     and_then (read_certificate e (ta_authority c)) (\<lambda>x.
       if \<not> x_ca x \<or> normalized_fingerprint (x_fingerprint256 x) \<noteq> ta_fingerprint c
       then fails_with (OnCache (CacheProblem ''does not match its authority''))
       else (case ta_authorityName c of
               Some name \<Rightarrow> if name = [] then fails_with (OnCache (CacheProblem ''invalid authority name'')) else gives name
             | None \<Rightarrow> fails_with (OnCache (CacheProblem ''invalid authority name''))))"

record trusted_certificate =
  tu_authorityCertificateFile :: string
  tu_certificateFile :: string
  tu_privateKeyFile :: string
  tu_fingerprint :: string
  tu_reused :: bool
  tu_trusted :: bool
  tu_validFrom :: int
  tu_validTo :: int

definition trusted_usable ::
  "trusted_crypto \<Rightarrow> int option \<Rightarrow> int \<Rightarrow> trusted_profile \<Rightarrow> string \<Rightarrow> authority_x509 \<Rightarrow> authority_x509 \<Rightarrow> string \<Rightarrow> bool" where
  "trusted_usable k now ms p fingerprint authority x key_text \<longleftrightarrow>
     (case now of None \<Rightarrow> False | Some t \<Rightarrow> x_validFrom x \<le> t \<and> x_validTo x - t > ms)
     \<and> x_ca authority \<and> \<not> x_ca x \<and> x_verify x (x_publicKey authority)
     \<and> tc_public_key k key_text = Some (x_publicKey x)
     \<and> all_names (x_checkHost x) (pr_dnsNames p) \<and> all_names (x_checkIP x) (pr_ipAddresses p)
     \<and> normalized_fingerprint (x_fingerprint256 authority) = fingerprint"

definition readStoredTrusted ::
  "'s trusted_env \<Rightarrow> int \<Rightarrow> given_date \<Rightarrow> int \<Rightarrow> trusted_profile \<Rightarrow> trusted_cache \<Rightarrow> ('s, trusted_certificate) trusted_effect" where
  "readStoredTrusted e clock now_option ms p c =
     and_then (read_file e (ta_authority c)) (\<lambda>fa.
     and_then (read_file e (ta_certificate c)) (\<lambda>fc.
     and_then (read_file e (ta_key c)) (\<lambda>fk.
       case (tc_parse (te_crypto e) (file_text e fa), tc_parse (te_crypto e) (file_text e fc)) of
         (Some authority, Some x) \<Rightarrow>
           let now = (case now_option of NoDate \<Rightarrow> Some clock | InvalidDate \<Rightarrow> None | DateAt t \<Rightarrow> Some t)
           in if \<not> trusted_usable (te_crypto e) now ms p (ta_fingerprint c) authority x (file_text e fk)
              then fails_with (OnCache (CacheProblem ''not reusable''))
              else gives \<lparr>tu_authorityCertificateFile = ta_authority c, tu_certificateFile = ta_certificate c,
                     tu_privateKeyFile = ta_key c, tu_fingerprint = normalized_fingerprint (x_fingerprint256 authority),
                     tu_reused = True, tu_trusted = False, tu_validFrom = x_validFrom x, tu_validTo = x_validTo x\<rparr>
       | _ \<Rightarrow> fails_with (OnCache (CacheProblem ''certificate'')))))"

definition authority_name :: "trusted_profile \<Rightarrow> string" where
  "authority_name p = (case tr_authorityName p of None \<Rightarrow> [] | Some n \<Rightarrow> n)"

text \<open>\<open>installTrust ? await ensureAuthorityTrusted(...) : false\<close>.\<close>

definition trust_authority :: "'s trusted_env \<Rightarrow> bool \<Rightarrow> string \<Rightarrow> string \<Rightarrow> ('s, bool) trusted_effect" where
  "trust_authority e installTrust file name =
     (if installTrust
      then and_then (read_certificate e file) (\<lambda>x. on_system (ensureAuthorityTrusted (te_host e) (Some (x_fingerprint256 x)) file name))
      else gives False)"

section \<open>One call of ensureTrustedDevelopmentCertificate\<close>

text \<open>What a call draws and reads beside the files: the answers of the crypto API for the two certificates,
  the clock, and two identifiers.\<close>

record trusted_draws =
  td_authorityCrypto :: crypto
  td_serverCrypto :: crypto
  td_clock :: int
  td_identifier :: string
  td_temporary :: string

definition generate_trusted :: "trusted_draws \<Rightarrow> trusted_profile \<Rightarrow> given_date \<Rightarrow> der_error + certificate_chain" where
  "generate_trusted t p now_option =
     createDevelopmentCertificateChain (td_authorityCrypto t) (td_serverCrypto t) (td_clock t) (td_clock t)
       (Some (map_option text_points (tr_authorityName p))) (Some (pr_validityDays p))
       \<lparr>o_authority = False, o_dnsNames = ArrayOf (pr_dnsNames p), o_ipAddresses = ArrayOf (pr_ipAddresses p),
        o_commonName = pr_commonName p, o_issuerCommonName = None, o_validityDays = pr_validityDays p,
        o_maximumValidityDays = 397, o_now = now_option, o_signingKey = None\<rparr>"

definition trusted_file_path :: "string \<Rightarrow> string \<Rightarrow> string \<Rightarrow> string" where
  "trusted_file_path directory kind identifier = join_path directory (kind @ identifier @ ''.pem'')"

abbreviation authority_path :: "string \<Rightarrow> string \<Rightarrow> string" where
  "authority_path d i \<equiv> trusted_file_path d ''authority-'' i"

abbreviation certificate_path :: "string \<Rightarrow> string \<Rightarrow> string" where
  "certificate_path d i \<equiv> trusted_file_path d ''certificate-'' i"

abbreviation private_key_path :: "string \<Rightarrow> string \<Rightarrow> string" where
  "private_key_path d i \<equiv> trusted_file_path d ''private-key-'' i"

text \<open>The \<open>try\<close> block: the cache with its validated authority, when it got that far, and the outcome.\<close>

definition cached_attempt ::
  "'s trusted_env \<Rightarrow> trusted_draws \<Rightarrow> given_date \<Rightarrow> int \<Rightarrow> bool \<Rightarrow> trusted_profile \<Rightarrow> string \<Rightarrow> 's trusted_world
    \<Rightarrow> 's trusted_world \<times> (trusted_cache \<times> string) option \<times> (trusted_error + trusted_certificate)" where
  "cached_attempt e d now_option ms installTrust p directory w =
     (case read_trusted_cache e directory w of
        (w1, Inl err) \<Rightarrow> (w1, None, Inl err)
      | (w1, Inr c) \<Rightarrow> (case validateCachedAuthority e c w1 of
          (w2, Inl err) \<Rightarrow> (w2, None, Inl err)
        | (w2, Inr name) \<Rightarrow>
            if ta_profile c \<noteq> Some p then (w2, Some (c, name), Inl (OnCache (CacheProblem ''different profile'')))
            else (case and_then (readStoredTrusted e (td_clock d) now_option ms p c) (\<lambda>reused.
                    and_then (trust_authority e installTrust (tu_authorityCertificateFile reused) (authority_name p))
                      (\<lambda>trusted. gives (reused\<lparr>tu_trusted := trusted\<rparr>))) w2 of
                    (w3, r) \<Rightarrow> (w3, Some (c, name), r))))"

definition new_pointer :: "string \<Rightarrow> string \<Rightarrow> string \<Rightarrow> trusted_profile \<Rightarrow> trusted_file" where
  "new_pointer directory identifier fingerprint p =
     TPointer \<lparr>tp_formatVersion = Some 1, tp_authorityCertificateFile = Some (authority_path directory identifier),
       tp_certificateFile = Some (certificate_path directory identifier), tp_fingerprint = Some fingerprint,
       tp_privateKeyFile = Some (private_key_path directory identifier), tp_authorityName = tr_authorityName p,
       tp_profile = Some p\<rparr>"

text \<open>After the \<open>catch\<close>: generating, writing, trusting, forgetting the previous authority, moving the pointer,
  and removing the previous files.\<close>

definition store_chain ::
  "'s trusted_env \<Rightarrow> trusted_draws \<Rightarrow> bool \<Rightarrow> trusted_profile \<Rightarrow> string \<Rightarrow> (trusted_cache \<times> string) option \<Rightarrow> certificate_chain
    \<Rightarrow> ('s, trusted_certificate) trusted_effect" where
  "store_chain e d installTrust p directory previous ch =
     (let a = authority_path directory (td_identifier d); c = certificate_path directory (td_identifier d);
          k = private_key_path directory (td_identifier d)
      in and_then (all_of [write_file e a (TText (ch_authorityPEM ch)), write_file e c (TText (ch_certificatePEM ch)),
                           write_file e k (TText (ch_privateKeyPEM ch))]) (\<lambda>_.
         case tc_parse (te_crypto e) (ch_authorityPEM ch) of
           None \<Rightarrow> fails_with (OnCache (CacheProblem ''certificate''))
         | Some x \<Rightarrow>
             let fingerprint = normalized_fingerprint (x_fingerprint256 x)
             in and_then (trust_authority e installTrust a (authority_name p)) (\<lambda>trusted.
                and_then (case previous of
                    Some (old, name) \<Rightarrow>
                      if trusted \<and> ta_fingerprint old \<noteq> fingerprint
                      then on_system (removeAuthorityTrust (te_host e) (ta_authority old) (ta_fingerprint old) name)
                      else gives ()
                  | None \<Rightarrow> gives ()) (\<lambda>_.
                and_then (trusted_writeAtomically e (td_temporary d) (trusted_pointer_path directory)
                    (new_pointer directory (td_identifier d) fingerprint p)) (\<lambda>_.
                and_then (case previous of
                    Some (old, name) \<Rightarrow> all_of [remove_file e (ta_authority old), remove_file e (ta_certificate old), remove_file e (ta_key old)]
                  | None \<Rightarrow> gives ()) (\<lambda>_.
                gives \<lparr>tu_authorityCertificateFile = a, tu_certificateFile = c, tu_privateKeyFile = k,
                  tu_fingerprint = fingerprint, tu_reused = False, tu_trusted = trusted,
                  tu_validFrom = ch_validFrom ch, tu_validTo = ch_validTo ch\<rparr>))))))"

definition ensureTrustedOnce ::
  "'s trusted_env \<Rightarrow> trusted_draws \<Rightarrow> trusted_options \<Rightarrow> string \<Rightarrow> ('s, trusted_certificate) trusted_effect" where
  "ensureTrustedOnce e d o' directory =
     and_then (lift_result (map_sum OnCache (\<lambda>x. x) (profileFrom o'))) (\<lambda>p.
     and_then (lift_result (map_sum OnCache (\<lambda>x. x) (renewal_margin o'))) (\<lambda>ms.
     and_then (make_directory e) (\<lambda>_ w.
       case cached_attempt e d (o_now (to_certificate o')) ms (to_installTrust o') p directory w of
         (w1, previous, Inr x) \<Rightarrow> (w1, Inr x)
       | (w1, previous, Inl err) \<Rightarrow>
           if \<not> trusted_recoverable err then (w1, Inl err)
           else (case generate_trusted d p (o_now (to_certificate o')) of
                   Inl g \<Rightarrow> (w1, Inl (OnCache (GenerationFailed g)))
                 | Inr ch \<Rightarrow> store_chain e d (to_installTrust o') p directory previous ch w1))))"

section \<open>removeTrustedDevelopmentCertificate\<close>

definition removeTrusted :: "'s trusted_env \<Rightarrow> string option \<Rightarrow> ('s, bool) trusted_effect" where
  "removeTrusted e given_directory w =
     (case given_directory of
        None \<Rightarrow> (w, Inl (OnCache DirectoryRequired))
      | Some g \<Rightarrow>
          if g = [] then (w, Inl (OnCache DirectoryRequired))
          else let directory = resolve (te_cwd e) g
          in case read_trusted_cache e directory w of
               (w1, Inl err) \<Rightarrow> if trusted_recoverable err then (w1, Inr False) else (w1, Inl err)
             | (w1, Inr c) \<Rightarrow>
                 and_then (validateCachedAuthority e c) (\<lambda>name.
                 and_then (on_system (removeAuthorityTrust (te_host e) (ta_authority c) (ta_fingerprint c) name)) (\<lambda>_.
                 and_then (all_of [remove_file e (ta_authority c), remove_file e (ta_certificate c), remove_file e (ta_key c),
                             remove_file e (trusted_pointer_path directory)]) (\<lambda>_. gives True))) w1)"

section \<open>What an operation may touch\<close>

definition touches :: "string set \<Rightarrow> ('s, 'a) trusted_effect \<Rightarrow> bool" where
  "touches S m \<longleftrightarrow> (\<forall>w x. x \<notin> S \<longrightarrow> w_files (fst (m w)) x = w_files w x)"

named_theorems touch_intros "which files an effect may touch"

lemma touchesD: "touches S m \<Longrightarrow> m w = (w', r) \<Longrightarrow> x \<notin> S \<Longrightarrow> w_files w' x = w_files w x"
  unfolding touches_def by (metis fst_conv)

lemma touches_none: "touches {} m \<Longrightarrow> m w = (w', r) \<Longrightarrow> w_files w' = w_files w"
  by (auto dest: touchesD)

lemma touches_mono: "touches S m \<Longrightarrow> S \<subseteq> T \<Longrightarrow> touches T m"
  by (auto simp: touches_def)

lemma touches_and_then [touch_intros]: "touches S m \<Longrightarrow> (\<And>x. touches S (f x)) \<Longrightarrow> touches S (and_then m f)"
  unfolding touches_def and_then_def by (auto split: prod.split sum.split) (metis fst_conv)+

lemma touches_pure [touch_intros]:
  "touches S (gives x)" "touches S (fails_with err)" "touches S (lift_result r)" "touches S (next_failure e)" "touches S (on_system s)"
  by (simp_all add: touches_def lift_result_def next_failure_def on_system_def split: prod.split)

lemma touches_read [touch_intros]: "touches S (read_file e p)"
  unfolding read_file_def by (intro touch_intros) (auto simp: touches_def split: option.split)

lemma touches_write: "touches {p} (write_file e p f)"
  unfolding write_file_def by (intro touch_intros) (auto simp: touches_def split: option.split)

lemma touches_rename: "touches {p, q} (rename_file e p q)"
  unfolding rename_file_def by (intro touch_intros) (auto simp: touches_def split: option.split)

lemma touches_remove: "touches {p} (remove_file e p)"
  unfolding remove_file_def by (intro touch_intros) (auto simp: touches_def split: option.split)

lemma touches_directory [touch_intros]: "touches S (make_directory e)"
  unfolding make_directory_def by (intro touch_intros) (auto simp: touches_def split: option.split)

lemma touches_all_of: "(\<And>m. m \<in> set ms \<Longrightarrow> touches S m) \<Longrightarrow> touches S (all_of ms)"
proof (induction ms)
  case Nil
  show ?case by (simp add: touches_def)
next
  case (Cons m ms)
  show ?case
    unfolding touches_def
  proof (intro allI impI)
    fix w x
    assume x: "x \<notin> S"
    obtain w1 r1 where m: "m w = (w1, r1)" by fastforce
    obtain w2 r2 where ms: "all_of ms w1 = (w2, r2)" by fastforce
    have "touches S m" and "touches S (all_of ms)" using Cons by auto
    from touchesD [OF this(1) m x] touchesD [OF this(2) ms x]
    show "w_files (fst (all_of (m # ms) w)) x = w_files w x" by (simp add: m ms)
  qed
qed

lemma touches_read_cache [touch_intros]: "touches S (read_trusted_cache e d)"
  unfolding read_trusted_cache_def by (intro touch_intros)

lemma touches_read_certificate [touch_intros]: "touches S (read_certificate e p)"
  unfolding read_certificate_def by (intro touch_intros) (auto intro: touch_intros split: option.split)

lemma touches_validate [touch_intros]: "touches S (validateCachedAuthority e c)"
  unfolding validateCachedAuthority_def by (intro touch_intros) (auto intro: touch_intros split: option.split)

lemma touches_read_stored [touch_intros]: "touches S (readStoredTrusted e clock n ms p c)"
  unfolding readStoredTrusted_def Let_def
  by (intro touch_intros) (auto intro: touch_intros split: option.split)

lemma touches_trust [touch_intros]: "touches S (trust_authority e b f n)"
  unfolding trust_authority_def by (auto intro!: touch_intros)

lemma cached_attempt_files: "cached_attempt e d n ms b p dir w = (w', prev, r) \<Longrightarrow> w_files w' = w_files w"
proof -
  assume c: "cached_attempt e d n ms b p dir w = (w', prev, r)"
  obtain w1 r1 where m1: "read_trusted_cache e dir w = (w1, r1)" by fastforce
  have f1: "w_files w1 = w_files w" by (rule touches_none [OF touches_read_cache m1])
  show ?thesis
  proof (cases r1)
    case (Inr cc)
    obtain w2 r2 where m2: "validateCachedAuthority e cc w1 = (w2, r2)" by fastforce
    have f2: "w_files w2 = w_files w1" by (rule touches_none [OF touches_validate m2])
    let ?m = "and_then (readStoredTrusted e (td_clock d) n ms p cc) (\<lambda>reused.
        and_then (trust_authority e b (tu_authorityCertificateFile reused) (authority_name p)) (\<lambda>trusted. gives (reused\<lparr>tu_trusted := trusted\<rparr>)))"
    obtain w3 r3 where m3: "?m w2 = (w3, r3)" by fastforce
    have "touches {} ?m" by (intro touch_intros)
    from touches_none [OF this m3] have "w_files w3 = w_files w2" .
    then show ?thesis using c f1 f2 m1 m2 m3 Inr by (auto simp: cached_attempt_def split: sum.splits if_splits)
  qed (use c f1 m1 in \<open>simp add: cached_attempt_def\<close>)
qed

section \<open>The pointer names files that are there\<close>

lemma file_result:
  "read_file e p w = (w', Inr f) \<Longrightarrow> w_files w p = Some f"
  "write_file e p f w = (w', Inr u) \<Longrightarrow> w_files w' = (w_files w)(p \<mapsto> f)"
  "rename_file e p q w = (w', Inr u) \<Longrightarrow> w_files w' = (w_files w)(p := None, q := w_files w p)"
  "rename_file e p q w = (w', Inl err) \<Longrightarrow> w_files w' = w_files w"
  by (auto simp: read_file_def write_file_def rename_file_def and_then_def next_failure_def split: option.splits if_splits)

definition generated_chain :: "trusted_profile \<Rightarrow> certificate_chain \<Rightarrow> bool" where
  "generated_chain p ch \<longleftrightarrow> (\<exists>d n. generate_trusted d p n = Inr ch)"

text \<open>Three files hold what one call of \<open>createDevelopmentCertificateChain\<close> made for the profile.\<close>

definition chain_at :: "trusted_files \<Rightarrow> trusted_profile \<Rightarrow> string \<Rightarrow> string \<Rightarrow> string \<Rightarrow> bool" where
  "chain_at files p a c k \<longleftrightarrow>
     (\<exists>ch. generated_chain p ch \<and> files a = Some (TText (ch_authorityPEM ch)) \<and> files c = Some (TText (ch_certificatePEM ch))
        \<and> files k = Some (TText (ch_privateKeyPEM ch)))"

definition trusted_pointer_ok :: "string \<Rightarrow> string \<Rightarrow> trusted_files \<Rightarrow> bool" where
  "trusted_pointer_ok cwd directory files \<longleftrightarrow>
     (case files (trusted_pointer_path directory) of
        None \<Rightarrow> True
      | Some f \<Rightarrow> (case parse_trusted_cache cwd directory f of
          Inl _ \<Rightarrow> False
        | Inr t \<Rightarrow> (case ta_profile t of None \<Rightarrow> False
            | Some p \<Rightarrow> chain_at files p (ta_authority t) (ta_certificate t) (ta_key t))))"

lemma trusted_pointer_kept:
  assumes "trusted_pointer_ok cwd directory files" and "\<And>x. x \<notin> S \<Longrightarrow> files' x = files x"
    and "\<And>x. x \<in> S \<Longrightarrow> files x = None" and "trusted_pointer_path directory \<notin> S"
  shows "trusted_pointer_ok cwd directory files'"
proof -
  have same: "files' x = Some f" if "files x = Some f" for x f using assms(2) [of x] assms(3) [of x] that by (cases "x \<in> S") auto
  have "files' (trusted_pointer_path directory) = files (trusted_pointer_path directory)" by (rule assms(2) [OF assms(4)])
  then show ?thesis
    using assms(1) same by (auto simp: trusted_pointer_ok_def chain_at_def split: option.splits sum.splits) blast
qed

lemma last_differs: "last x \<noteq> last y \<Longrightarrow> x \<noteq> y"
  by blast

lemma trusted_lasts [simp]:
  "last (trusted_file_path d kind i) = CHR ''m''" "last (trusted_pointer_path d) = CHR ''n''"
  by (simp_all add: trusted_file_path_def trusted_pointer_path_def)

lemma trusted_paths [simp]:
  "trusted_file_path d kind i \<noteq> trusted_pointer_path d'" "trusted_pointer_path d' \<noteq> trusted_file_path d kind i"
  by (rule last_differs, simp)+

lemma trusted_paths_differ [simp]:
  "authority_path d i \<noteq> certificate_path d i" "certificate_path d i \<noteq> authority_path d i"
  "authority_path d i \<noteq> private_key_path d i" "private_key_path d i \<noteq> authority_path d i"
  "certificate_path d i \<noteq> private_key_path d i" "private_key_path d i \<noteq> certificate_path d i"
  by (simp_all add: trusted_file_path_def join_path_inject)

definition trusted_temporary :: "'s trusted_env \<Rightarrow> trusted_draws \<Rightarrow> string \<Rightarrow> string" where
  "trusted_temporary e d directory =
     trusted_pointer_path directory @ ''.'' @ decimal (te_pid e) @ ''.'' @ td_temporary d @ ''.tmp''"

lemma last_temporary [simp]: "last (trusted_temporary e d directory) = CHR ''p''"
  by (simp add: trusted_temporary_def)

lemma temporary_differs [simp]:
  "trusted_temporary e d directory \<noteq> trusted_file_path directory' kind i" "trusted_temporary e d directory \<noteq> trusted_pointer_path directory'"
  "trusted_file_path directory' kind i \<noteq> trusted_temporary e d directory" "trusted_pointer_path directory' \<noteq> trusted_temporary e d directory"
  by (rule last_differs, simp)+

lemma writeAtomically_result:
  assumes "trusted_writeAtomically e i path f w = (w', r)" and "tmp = path @ ''.'' @ decimal (te_pid e) @ ''.'' @ i @ ''.tmp''"
  shows "(x \<noteq> tmp \<and> x \<noteq> path \<longrightarrow> w_files w' x = w_files w x)
    \<and> w_files w' path = (case r of Inl _ \<Rightarrow> w_files w path | Inr _ \<Rightarrow> Some f)"
proof -
  have ne: "path \<noteq> tmp" by (simp add: assms(2))
  obtain w1 r1 where m1: "write_file e tmp f w = (w1, r1)" by fastforce
  note t1 = touchesD [OF touches_write m1]
  obtain w2 r2 where m2: "and_then (write_file e tmp f) (\<lambda>_. rename_file e tmp path) w = (w2, r2)" by fastforce
  have w2: "(x \<noteq> tmp \<and> x \<noteq> path \<longrightarrow> w_files w2 x = w_files w x)
      \<and> w_files w2 path = (case r2 of Inl _ \<Rightarrow> w_files w path | Inr _ \<Rightarrow> Some f)"
  proof (cases r1)
    case (Inl err)
    then have "w2 = w1" "r2 = Inl err" using m1 m2 by (simp_all add: and_then_def)
    then show ?thesis using t1 ne by simp
  next
    case (Inr u)
    then have m3: "rename_file e tmp path w1 = (w2, r2)" using m1 m2 by (simp add: and_then_def)
    have "w_files w1 = (w_files w)(tmp \<mapsto> f)" using file_result(2) m1 Inr by blast
    then show ?thesis using file_result(3,4) [of e tmp path w1 w2] m3 ne by (cases r2) auto
  qed
  have "w' = fst (remove_file e tmp w2)" "r = r2"
    using assms(1) m2 unfolding trusted_writeAtomically_def Let_def assms(2) [symmetric] by simp_all
  then show ?thesis
    using w2 ne touchesD [OF touches_remove, of e tmp w2 w' "snd (remove_file e tmp w2)"] by simp
qed

lemma write_three:
  assumes "all_of [write_file e a fa, write_file e c fc, write_file e k fk] w = (w', r)" and "a \<noteq> c" "a \<noteq> k" "c \<noteq> k"
  shows "(x \<notin> {a, c, k} \<longrightarrow> w_files w' x = w_files w x)
    \<and> (r = Inr u \<longrightarrow> w_files w' a = Some fa \<and> w_files w' c = Some fc \<and> w_files w' k = Some fk)"
proof -
  obtain w1 r1 where m1: "write_file e a fa w = (w1, r1)" by fastforce
  obtain w2 r2 where m2: "write_file e c fc w1 = (w2, r2)" by fastforce
  obtain w3 r3 where m3: "write_file e k fk w2 = (w3, r3)" by fastforce
  have w': "w' = w3" "r = (case r1 of Inl err \<Rightarrow> Inl err | Inr _ \<Rightarrow> case r2 of Inl err \<Rightarrow> Inl err | Inr _ \<Rightarrow> case r3 of Inl err \<Rightarrow> Inl err | Inr _ \<Rightarrow> Inr ())"
    using assms(1) m1 m2 m3 by (auto split: sum.splits)
  note t = touchesD [OF touches_write m1] touchesD [OF touches_write m2] touchesD [OF touches_write m3]
  show ?thesis
  proof (intro conjI impI)
    show "w_files w' x = w_files w x" if "x \<notin> {a, c, k}" using that t w' by simp
    assume "r = Inr u"
    then obtain u1 u2 u3 where r: "r1 = Inr u1" "r2 = Inr u2" "r3 = Inr u3" using w'(2) by (auto split: sum.splits)
    have "w_files w1 = (w_files w)(a \<mapsto> fa)" "w_files w2 = (w_files w1)(c \<mapsto> fc)" "w_files w3 = (w_files w2)(k \<mapsto> fk)"
      using file_result(2) m1 m2 m3 r by blast+
    then show "w_files w' a = Some fa" "w_files w' c = Some fc" "w_files w' k = Some fk" using assms(2-4) w'(1) by simp_all
  qed
qed

lemma remove_three: "touches {a, c, k} (all_of [remove_file e a, remove_file e c, remove_file e k])"
  by (rule touches_all_of) (auto intro: touches_mono [OF touches_remove])

lemma new_pointer_parsed:
  assumes "resolved directory" and "uuid i"
  shows "parse_trusted_cache cwd directory (new_pointer directory i fp p) =
    Inr \<lparr>ta_authority = authority_path directory i, ta_certificate = certificate_path directory i,
         ta_fingerprint = normalized_fingerprint fp, ta_key = private_key_path directory i,
         ta_authorityName = tr_authorityName p, ta_profile = Some p\<rparr>"
proof -
  have "plain (''authority-'' @ i @ ''.pem'')" "plain (''certificate-'' @ i @ ''.pem'')" "plain (''private-key-'' @ i @ ''.pem'')"
    using assms(2) by (auto simp: plain_def uuid_def)
  then have "trusted_cachePath cwd directory (Some (authority_path directory i)) = Inr (authority_path directory i)"
    "trusted_cachePath cwd directory (Some (certificate_path directory i)) = Inr (certificate_path directory i)"
    "trusted_cachePath cwd directory (Some (private_key_path directory i)) = Inr (private_key_path directory i)"
    using assms(1) by (simp_all add: trusted_cachePath_def trusted_file_path_def resolve_resolved del: append_Cons)
  then show ?thesis by (simp add: parse_trusted_cache_def new_pointer_def normalizeFingerprint_def)
qed

text \<open>The state in which a call may store a new chain: the pointer is in order, the previous cache is the one
  it names, and the new files are not there yet.\<close>

definition ready_to_store :: "'s trusted_env \<Rightarrow> trusted_draws \<Rightarrow> string \<Rightarrow> (trusted_cache \<times> string) option \<Rightarrow> trusted_files \<Rightarrow> bool" where
  "ready_to_store e d directory previous files \<longleftrightarrow>
     trusted_pointer_ok (te_cwd e) directory files \<and> resolved directory \<and> uuid (td_identifier d)
     \<and> (\<forall>x \<in> {authority_path directory (td_identifier d), certificate_path directory (td_identifier d),
               private_key_path directory (td_identifier d), trusted_temporary e d directory}. files x = None)
     \<and> (case previous of None \<Rightarrow> True | Some (t, name) \<Rightarrow>
          (\<exists>f. files (trusted_pointer_path directory) = Some f \<and> parse_trusted_cache (te_cwd e) directory f = Inr t))"

lemma previous_files:
  assumes "ready_to_store e d directory (Some (t, name)) files" and "x \<in> {ta_authority t, ta_certificate t, ta_key t}"
  shows "\<exists>s. files x = Some (TText s)"
  using assms by (auto simp: ready_to_store_def trusted_pointer_ok_def chain_at_def split: option.splits)

lemma clean_keeps:
  assumes ready: "ready_to_store e d directory previous files"
    and m: "(case previous of
        Some (old, name) \<Rightarrow> all_of [remove_file e (ta_authority old), remove_file e (ta_certificate old), remove_file e (ta_key old)]
      | None \<Rightarrow> gives ()) w = (w', r)"
  shows "w_files w' (authority_path directory (td_identifier d)) = w_files w (authority_path directory (td_identifier d))"
    "w_files w' (certificate_path directory (td_identifier d)) = w_files w (certificate_path directory (td_identifier d))"
    "w_files w' (private_key_path directory (td_identifier d)) = w_files w (private_key_path directory (td_identifier d))"
    "w_files w' (trusted_pointer_path directory) = w_files w (trusted_pointer_path directory)"
proof -
  have own: "w_files w' x = w_files w x" if x: "files x = None \<or> (\<exists>q. files x = Some (TPointer q))" for x
  proof (cases previous)
    case None
    then show ?thesis using m by (simp add: gives_def)
  next
    case (Some q)
    then obtain old name where q: "previous = Some (old, name)" by (cases q) auto
    have "x \<notin> {ta_authority old, ta_certificate old, ta_key old}"
      using previous_files [OF ready [unfolded q], of x] x by (cases "x \<in> {ta_authority old, ta_certificate old, ta_key old}") auto
    then show ?thesis using touchesD [OF remove_three, of e "ta_authority old" "ta_certificate old" "ta_key old" w w' r x] m q by simp
  qed
  have new: "files (authority_path directory (td_identifier d)) = None" "files (certificate_path directory (td_identifier d)) = None"
    "files (private_key_path directory (td_identifier d)) = None"
    using ready by (simp_all add: ready_to_store_def)
  have "files (trusted_pointer_path directory) = None \<or> (\<exists>q. files (trusted_pointer_path directory) = Some (TPointer q))"
    using ready by (auto simp: ready_to_store_def trusted_pointer_ok_def parse_trusted_cache_def split: option.splits sum.splits trusted_file.splits)
  then show "w_files w' (authority_path directory (td_identifier d)) = w_files w (authority_path directory (td_identifier d))"
    "w_files w' (certificate_path directory (td_identifier d)) = w_files w (certificate_path directory (td_identifier d))"
    "w_files w' (private_key_path directory (td_identifier d)) = w_files w (private_key_path directory (td_identifier d))"
    "w_files w' (trusted_pointer_path directory) = w_files w (trusted_pointer_path directory)"
    using own new by blast+
qed

lemma store_chain_result:
  assumes ready: "ready_to_store e d directory previous (w_files w)" and ch: "generated_chain p ch"
    and s: "store_chain e d installTrust p directory previous ch w = (w', r)"
  shows "trusted_pointer_ok (te_cwd e) directory (w_files w')
    \<and> (case r of Inl _ \<Rightarrow> True | Inr x \<Rightarrow> chain_at (w_files w') p (tu_authorityCertificateFile x) (tu_certificateFile x) (tu_privateKeyFile x))"
proof -
  let ?a = "authority_path directory (td_identifier d)" and ?c = "certificate_path directory (td_identifier d)"
    and ?k = "private_key_path directory (td_identifier d)" and ?tmp = "trusted_temporary e d directory"
    and ?ptr = "trusted_pointer_path directory"
  have ok: "trusted_pointer_ok (te_cwd e) directory (w_files w)" and dir: "resolved directory" "uuid (td_identifier d)"
    and fresh: "w_files w ?a = None" "w_files w ?c = None" "w_files w ?k = None" "w_files w ?tmp = None"
    using ready by (simp_all add: ready_to_store_def)
  have keep: "trusted_pointer_ok (te_cwd e) directory (w_files v)"
    if "\<And>x. x \<notin> {?a, ?c, ?k, ?tmp} \<Longrightarrow> w_files v x = w_files w x" for v
  proof (rule trusted_pointer_kept [OF ok that])
    fix x assume "x \<in> {?a, ?c, ?k, ?tmp}"
    then show "w_files w x = None" by (elim insertE emptyE) (simp_all only: fresh)
  qed (assumption, simp)
  obtain w1 r1 where m1: "all_of [write_file e ?a (TText (ch_authorityPEM ch)), write_file e ?c (TText (ch_certificatePEM ch)),
      write_file e ?k (TText (ch_privateKeyPEM ch))] w = (w1, r1)" by fastforce
  note w1 = write_three [OF m1, simplified]
  show ?thesis
  proof (cases "\<exists>u x. r1 = Inr u \<and> tc_parse (te_crypto e) (ch_authorityPEM ch) = Some x")
    case False
    then have "w' = w1 \<and> (\<exists>err. r = Inl err)"
      using s m1 by (auto simp: store_chain_def and_then_def Let_def split: sum.splits option.splits)
    then show ?thesis using keep [of w1] w1 by auto
  next
    case True
    then obtain x where r1: "r1 = Inr ()" and x: "tc_parse (te_crypto e) (ch_authorityPEM ch) = Some x" by auto
    let ?fp = "normalized_fingerprint (x_fingerprint256 x)"
    have new: "chain_at (w_files w1) p ?a ?c ?k" using w1 r1 ch by (auto simp: chain_at_def)
    let ?trust = "trust_authority e installTrust ?a (authority_name p)"
    let ?forget = "\<lambda>trusted. case previous of
        Some (old, name) \<Rightarrow> if trusted \<and> ta_fingerprint old \<noteq> ?fp
          then on_system (removeAuthorityTrust (te_host e) (ta_authority old) (ta_fingerprint old) name) else gives ()
      | None \<Rightarrow> gives ()"
    let ?point = "trusted_writeAtomically e (td_temporary d) ?ptr (new_pointer directory (td_identifier d) ?fp p)"
    let ?clean = "case previous of
        Some (old, name) \<Rightarrow> all_of [remove_file e (ta_authority old), remove_file e (ta_certificate old), remove_file e (ta_key old)]
      | None \<Rightarrow> gives ()"
    let ?result = "\<lambda>trusted. \<lparr>tu_authorityCertificateFile = ?a, tu_certificateFile = ?c, tu_privateKeyFile = ?k,
        tu_fingerprint = ?fp, tu_reused = False, tu_trusted = trusted, tu_validFrom = ch_validFrom ch, tu_validTo = ch_validTo ch\<rparr>"
    have s1: "and_then ?trust (\<lambda>trusted. and_then (?forget trusted) (\<lambda>_. and_then ?point (\<lambda>_. and_then ?clean (\<lambda>_. gives (?result trusted))))) w1 = (w', r)"
      using s m1 r1 x by (simp add: store_chain_def and_then_def [of "all_of _"] Let_def)
    obtain w2 r2 where m2: "?trust w1 = (w2, r2)" by fastforce
    have f2: "w_files w2 = w_files w1" by (rule touches_none [OF touches_trust m2])
    show ?thesis
    proof (cases r2)
      case (Inl err)
      then have "w' = w2 \<and> r = Inl err" using s1 m2 by (simp add: and_then_def [of ?trust])
      then show ?thesis using keep [of w2] w1 f2 by auto
    next
      case r2: (Inr trusted)
      obtain w3 r3 where m3: "?forget trusted w2 = (w3, r3)" by fastforce
      have t: "touches {} (?forget trusted)" by (auto intro: touch_intros split: option.split)
      have f3: "w_files w3 = w_files w1" using touches_none [OF t m3] f2 by simp
      have s2: "and_then (?forget trusted) (\<lambda>_. and_then ?point (\<lambda>_. and_then ?clean (\<lambda>_. gives (?result trusted)))) w2 = (w', r)"
        using s1 m2 r2 by (simp add: and_then_def [of ?trust])
      show ?thesis
      proof (cases r3)
        case (Inl err)
        then have "w' = w3 \<and> r = Inl err" using s2 m3 by (simp add: and_then_def [of "?forget trusted"])
        then show ?thesis using keep [of w3] w1 f3 by auto
      next
        case r3: (Inr u)
        obtain w4 r4 where m4: "?point w3 = (w4, r4)" by fastforce
        have s3: "and_then ?point (\<lambda>_. and_then ?clean (\<lambda>_. gives (?result trusted))) w3 = (w', r)"
          using s2 m3 r3 by (simp add: and_then_def [of "?forget trusted"])
        note w4 = writeAtomically_result [OF m4 refl, folded trusted_temporary_def]
        show ?thesis
        proof (cases r4)
          case (Inl err)
          then have e: "w' = w4 \<and> r = Inl err" using s3 m4 by (simp add: and_then_def [of ?point])
          have "w_files w4 x = w_files w x" if "x \<notin> {?a, ?c, ?k, ?tmp}" for x
            using that w4 [of x] w1 [of x] f3 Inl by (cases "x = ?ptr") auto
          then show ?thesis using keep [of w4] e by auto
        next
          case r4: (Inr u4)
          have s4: "and_then ?clean (\<lambda>_. gives (?result trusted)) w4 = (w', r)"
            using s3 m4 r4 by (simp add: and_then_def [of ?point])
          then obtain w5 r5 where m5: "?clean w4 = (w5, r5)" and e: "w' = w5" "r = (case r5 of Inl err \<Rightarrow> Inl err | Inr _ \<Rightarrow> Inr (?result trusted))"
            by (cases "?clean w4") (auto simp: and_then_def split: sum.splits)
          note own = clean_keeps [OF ready m5]
          have new5: "chain_at (w_files w5) p ?a ?c ?k"
            using new own(1-3) w4 [of ?a] w4 [of ?c] w4 [of ?k] f3 by (simp add: chain_at_def)
          have "w_files w5 ?ptr = Some (new_pointer directory (td_identifier d) ?fp p)"
            using own(4) w4 [of ?ptr] r4 by simp
          then have "trusted_pointer_ok (te_cwd e) directory (w_files w5)"
            using new5 by (simp add: trusted_pointer_ok_def new_pointer_parsed [OF dir])
          then show ?thesis using new5 e by (simp split: sum.split)
        qed
      qed
    qed
  qed
qed

text \<open>What the \<open>try\<close> block found.\<close>

lemma read_cache_result:
  "read_trusted_cache e directory w = (w', Inr t) \<Longrightarrow>
     \<exists>f. w_files w (trusted_pointer_path directory) = Some f \<and> parse_trusted_cache (te_cwd e) directory f = Inr t"
  by (auto simp: read_trusted_cache_def and_then_def lift_result_def dest!: file_result(1) split: sum.splits prod.splits)

lemma read_stored_result:
  assumes "readStoredTrusted e clock n ms p t w = (w', Inr x)"
  shows "tu_authorityCertificateFile x = ta_authority t \<and> tu_certificateFile x = ta_certificate t \<and> tu_privateKeyFile x = ta_key t
    \<and> tu_reused x"
  using assms
  by (auto simp: readStoredTrusted_def Let_def dest!: and_then_result [THEN iffD1] split: option.splits if_splits)

lemma cached_attempt_found:
  assumes "cached_attempt e d n ms b p directory w = (w', previous, r)"
  shows "(case previous of None \<Rightarrow> True | Some (t, name) \<Rightarrow>
           (\<exists>f. w_files w (trusted_pointer_path directory) = Some f \<and> parse_trusted_cache (te_cwd e) directory f = Inr t))
    \<and> (case r of Inl _ \<Rightarrow> True | Inr x \<Rightarrow>
           (\<exists>t name. previous = Some (t, name) \<and> ta_profile t = Some p \<and> tu_authorityCertificateFile x = ta_authority t
              \<and> tu_certificateFile x = ta_certificate t \<and> tu_privateKeyFile x = ta_key t))"
proof (cases "\<exists>t w1. read_trusted_cache e directory w = (w1, Inr t)")
  case False
  then show ?thesis using assms by (auto simp: cached_attempt_def split: prod.splits sum.splits)
next
  case True
  then obtain t w1 where m1: "read_trusted_cache e directory w = (w1, Inr t)" by blast
  note found = read_cache_result [OF m1]
  obtain w2 r2 where m2: "validateCachedAuthority e t w1 = (w2, r2)" by fastforce
  show ?thesis
  proof (cases r2)
    case (Inl err)
    then show ?thesis using assms m1 m2 by (auto simp: cached_attempt_def)
  next
    case (Inr name)
    note a = assms [unfolded cached_attempt_def, simplified m1 m2 Inr prod.case sum.case]
    show ?thesis
    proof (cases "ta_profile t = Some p")
      case False
      then show ?thesis using a found by auto
    next
      case True
      obtain w3 r3 where m3: "and_then (readStoredTrusted e (td_clock d) n ms p t) (\<lambda>reused.
          and_then (trust_authority e b (tu_authorityCertificateFile reused) (authority_name p))
            (\<lambda>trusted. gives (reused\<lparr>tu_trusted := trusted\<rparr>))) w2 = (w3, r3)" by fastforce
      then have p: "previous = Some (t, name)" "r = r3" using a True by simp_all
      show ?thesis
      proof (cases r3)
        case (Inl err)
        then show ?thesis using p found by simp
      next
        case (Inr x)
        obtain y w4 where "readStoredTrusted e (td_clock d) n ms p t w2 = (w4, Inr y)"
          and "\<exists>trusted. x = y\<lparr>tu_trusted := trusted\<rparr>"
          using m3 [unfolded Inr] by (auto dest!: and_then_result [THEN iffD1]) blast
        from read_stored_result [OF this(1)] this(2)
        show ?thesis using p found True Inr by auto
      qed
    qed
  qed
qed

text \<open>The state in which a call may be made: the pointer is in order and the new names are not used yet.\<close>

definition call_ready :: "'s trusted_env \<Rightarrow> trusted_draws \<Rightarrow> string \<Rightarrow> trusted_files \<Rightarrow> bool" where
  "call_ready e d directory files \<longleftrightarrow>
     trusted_pointer_ok (te_cwd e) directory files \<and> resolved directory \<and> uuid (td_identifier d)
     \<and> files (authority_path directory (td_identifier d)) = None \<and> files (certificate_path directory (td_identifier d)) = None
     \<and> files (private_key_path directory (td_identifier d)) = None \<and> files (trusted_temporary e d directory) = None"

text \<open>C13: One call of ensureTrustedDevelopmentCertificate keeps a pointer in order. When trusted-current.json is in order before the call (it is
  missing, or it names an authority certificate, a certificate and a private key that one call of
  createDevelopmentCertificateChain made for the recorded profile) and the names the call makes are unused, then it is in order after
  the call, whatever operation on the file system fails and whatever the trust store answers; and when the call returns a
  certificate, its three files are such a chain, for the requested profile. A removal that fails is another matter: it can leave the pointer
  behind the files (\<open>interrupted_removal_stuck\<close>).
\<close>

theorem trusted_pointer_safe:
  assumes "call_ready e d directory (w_files w)" and "profileFrom o' = Inr p"
    and "ensureTrustedOnce e d o' directory w = (w', r)"
  shows "trusted_pointer_ok (te_cwd e) directory (w_files w')
    \<and> (case r of Inl _ \<Rightarrow> True
        | Inr x \<Rightarrow> chain_at (w_files w') p (tu_authorityCertificateFile x) (tu_certificateFile x) (tu_privateKeyFile x))"
proof -
  have ok: "trusted_pointer_ok (te_cwd e) directory (w_files w)" using assms(1) by (simp add: call_ready_def)
  obtain rm where rm: "renewal_margin o' = rm" by simp
  obtain w0 r0 where m0: "make_directory e w = (w0, r0)" by fastforce
  have f0: "w_files w0 = w_files w" by (rule touches_none [OF touches_directory m0])
  show ?thesis
  proof (cases "(\<exists>err. rm = Inl err) \<or> (\<exists>err. r0 = Inl err)")
    case True
    then have "w_files w' = w_files w \<and> (\<exists>err. r = Inl err)"
      using assms(2,3) rm m0 f0 by (cases rm) (auto simp: ensureTrustedOnce_def and_then_def lift_result_def)
    then show ?thesis using ok by auto
  next
    case False
    then obtain ms where ms: "renewal_margin o' = Inr ms" and r0: "r0 = Inr ()" using rm by (cases rm; cases r0) auto
    obtain w1 previous r1 where m1: "cached_attempt e d (o_now (to_certificate o')) ms (to_installTrust o') p directory w0 = (w1, previous, r1)"
      by (metis prod_cases3)
    have f1: "w_files w1 = w_files w" using cached_attempt_files [OF m1] f0 by simp
    note found = cached_attempt_found [OF m1, unfolded f0]
    note run = assms(3) [unfolded ensureTrustedOnce_def and_then_def, simplified assms(2) ms m0 r0 m1 lift_result_def sum.case prod.case map_sum.simps]
    show ?thesis
    proof (cases r1)
      case (Inr x)
      then have "w' = w1" "r = Inr x" using run by (simp_all add: lift_result_def)
      then show ?thesis
        using found ok f1 Inr by (auto simp: trusted_pointer_ok_def)
    next
      case (Inl err)
      have ready: "ready_to_store e d directory previous (w_files w1)"
        using assms(1) found f1 by (auto simp: ready_to_store_def call_ready_def)
      show ?thesis
      proof (cases "trusted_recoverable err \<and> (\<exists>ch. generate_trusted d p (o_now (to_certificate o')) = Inr ch)")
        case True
        then obtain ch where ch: "generate_trusted d p (o_now (to_certificate o')) = Inr ch" and "trusted_recoverable err" by blast
        then have "store_chain e d (to_installTrust o') p directory previous ch w1 = (w', r)"
          using run Inl by (simp add: lift_result_def)
        moreover have "generated_chain p ch" using ch by (auto simp: generated_chain_def)
        ultimately show ?thesis using store_chain_result [OF ready] by blast
      next
        case False
        then have "w' = w1 \<and> (\<exists>err. r = Inl err)" using run Inl by (auto simp: lift_result_def split: sum.splits if_splits)
        then show ?thesis using ok f1 by auto
      qed
    qed
  qed
qed

end
