(* ===== verification/Dev_Cache_Use.thy ===== *)
theory Dev_Cache_Use
  imports Dev_Cache
begin

text \<open>
  What callers of \<open>ensureDevelopmentCertificate\<close> can rely on: matching pairs under any overlap, paths
  inside the directory, and reuse by later calls.
\<close>

section \<open>Properties\<close>

text \<open>C12: However calls of any processes overlap, fail or stop in the middle, a call that returns names a
  certificate and a private key that were written completely and come from one generation for the
  profile the call asked for, and they stay so whatever happens later; and the pointer of a
  directory is never half written: when it exists it names such a pair. The identifiers drawn
  by \<open>randomUUID\<close> are assumed to be distinct.\<close>

theorem cached_pairs_match:
  assumes "list_all uuid (all_drawn (es @ fs))" and "distinct (all_drawn (es @ fs))"
    and "i < length (cs_calls (cache_run cwd api empty_cache es))"
    and "ec_phase (cs_calls (cache_run cwd api empty_cache es) ! i) = Finished (Inr x)"
    and "resolved d" and "cs_files (cache_run cwd api empty_cache (es @ fs)) (pointer_path d) = Some f"
  shows "pair_at api (cs_files (cache_run cwd api empty_cache (es @ fs)))
           (ec_profile (cs_calls (cache_run cwd api empty_cache es) ! i)) (cc_certificateFile x) (cc_privateKeyFile x)
    \<and> pointer_ok api (cs_files (cache_run cwd api empty_cache (es @ fs))) d f"
proof -
  let ?s = "cache_run cwd api empty_cache es" and ?t = "cache_run cwd api empty_cache (es @ fs)"
  have "cache_inv api ?s" using cache_reachable [of es] assms(1,2) by simp
  then have "call_ok api (cs_files ?s) (cs_calls ?s ! i)" using assms(3) by (simp add: cache_inv_def)
  then have "pair_at api (cs_files ?s) (ec_profile (cs_calls ?s ! i)) (cc_certificateFile x) (cc_privateKeyFile x)"
    using assms(4) by (simp add: call_ok_def phase_ok_def result_ok_def)
  moreover have "files_ok api (cs_files ?t)" using cache_reachable [of "es @ fs"] assms(1,2) by (simp add: cache_inv_def)
  ultimately show ?thesis
    using pair_at_kept [OF cache_texts_kept [OF assms(1,2)]] assms(5,6) by (simp add: files_ok_def)
qed

text \<open>The path of a cached file is accepted exactly when the name is one plain segment, so a pointer
  cannot name a file outside the directory of the cache; in the root directory the names that
  resolve to the root itself are accepted too.\<close>

theorem cache_path_exact:
  assumes "resolved d"
  shows "cachePath d (Some f) = Inr p \<longleftrightarrow>
    (if plain f then p = join_path d f else d = ''/'' \<and> p = ''/'' \<and> f \<in> {'''', ''.'', ''..''})"
proof -
  obtain segs where d: "d = path_of segs" "list_all plain segs" using assms by (auto simp: resolved_def)
  show ?thesis
  proof (cases "plain f")
    case True
    then show ?thesis using cachePath_plain [OF assms True] by auto
  next
    case False
    show ?thesis
    proof (cases "CHR ''/'' \<in> set f")
      case True
      then show ?thesis using False by (auto simp: cachePath_def basename_same)
    next
      case no: False
      then have f: "f \<in> {'''', ''.'', ''..''}" using False by (auto simp: plain_def)
      have up: "list_all plain (butlast segs)" "list_all plain (butlast (butlast segs))"
        using d(2) by (auto simp: list_all_iff dest: in_set_butlastD)
      have shorter: "path_of (butlast segs) = path_of segs \<longleftrightarrow> segs = []"
        "path_of (butlast (butlast segs)) = path_of segs \<longleftrightarrow> segs = []"
        using path_of_inject [OF up(1) d(2)] path_of_inject [OF up(2) d(2)] by (cases segs; simp add: butlast_shorter)+
      have b: "basename f = f" using no by (simp add: basename_same)
      show ?thesis
        using f False dirname_path_of [of "[]"] unfolding cachePath_def d(1)
        by (auto simp: Let_def b resolve_name [OF d(2) no] dirname_path_of d(2) up shorter split: if_splits)
    qed
  qed
qed

theorem cache_path_exact_witness: "cachePath ''/a'' (Some ''..'') \<noteq> Inr ''/''"
proof -
  have "resolved ''/a''" unfolding resolved_def by (rule exI [of _ "[''a'']"]) (simp add: path_of_def plain_def)
  from cache_path_exact [OF this, of "''..''" "''/''"] show ?thesis by (simp add: plain_def)
qed

section \<open>One call without interference\<close>

text \<open>All that a call may wait for, in the order it waits; what does not apply has no effect.\<close>

definition uninterrupted :: "crypto \<Rightarrow> int \<Rightarrow> string \<Rightarrow> string \<Rightarrow> call_event list" where
  "uninterrupted k clock u v =
     [DirectoryMade Succeeds, PointerRead Succeeds, PairRead False clock [] Succeeds, PairRead True clock [] Succeeds,
      CertificateGenerated k clock u v, WriteMoves KeyTarget Succeeds, WriteMoves KeyTarget Succeeds,
      WriteMoves CertificateTarget Succeeds, WriteMoves CertificateTarget Succeeds,
      WriteMoves TemporaryTarget Succeeds, WriteMoves TemporaryTarget Succeeds, RenameDone Succeeds,
      TemporaryRemoved Succeeds]"

definition ensure_alone ::
  "string \<Rightarrow> node_crypto \<Rightarrow> nat \<Rightarrow> ensure_options \<Rightarrow> crypto \<Rightarrow> int \<Rightarrow> string \<Rightarrow> string \<Rightarrow> cache_files \<Rightarrow> cache_files \<times> ensure_call" where
  "ensure_alone cwd api pid e k clock u v files =
     foldl (\<lambda>s ev. call_step api ev s) (files, begin_ensure cwd pid e) (uninterrupted k clock u v)"

lemmas call_step_defs = directory_made_def pointer_read_def recover_def certificate_generated_def rename_done_def
  temporary_removed_def write_done_def

lemma begin_ensure_Inr:
  assumes "ensure_arguments e = Inr (dir, ms, p)"
  shows "begin_ensure cwd pid e =
    \<lparr>ec_directory = resolve cwd dir, ec_pid = pid, ec_profile = p, ec_options = generation_options p (eo_certificate e),
     ec_renewBeforeMs = ms, ec_phase = MakingDirectory, ec_identifier = [], ec_temporary = [],
     ec_generated = None, ec_writes = (\<lambda>t. NotOpen)\<rparr>"
  using assms ensure_arguments_profile [OF assms] by (simp add: begin_ensure_def)

text \<open>A stored pair that is usable ends the call.\<close>

lemma usable_pair_reused:
  assumes "ensure_arguments e = Inr (dir, ms, p)" and d: "d = resolve cwd dir"
    and "files (pointer_path d) = Some (Pointer \<lparr>pt_formatVersion = Some 1, pt_certificateFile = Some cn,
           pt_privateKeyFile = Some kn, pt_profile = Some p\<rparr>)" and "plain cn" and "plain kn"
    and "files (join_path d cn) = Some (TextFile ct)" and "files (join_path d kn) = Some (TextFile kt)"
    and "readStoredCertificate api clock (join_path d cn) (join_path d kn) (generation_options p (eo_certificate e)) p ms ct kt = Inr x"
  shows "fst (ensure_alone cwd api pid e k clock u v files) = files
    \<and> ec_phase (snd (ensure_alone cwd api pid e k clock u v files)) = Finished (Inr x)"
proof -
  have "resolved d" by (simp add: d)
  then have paths: "cachePath d (Some cn) = Inr (join_path d cn)" "cachePath d (Some kn) = Inr (join_path d kn)"
    using assms(4,5) by (simp_all add: cachePath_plain)
  show ?thesis
    unfolding ensure_alone_def begin_ensure_Inr [OF assms(1)] uninterrupted_def d [symmetric]
    using assms paths
    by (simp add: call_step_defs readCache_def pair_read_def write_moves_def d [symmetric])
qed

text \<open>Without a pointer the call generates a pair and stores it: three files more, and nothing else.\<close>

lemma new_pair_stored:
  assumes "ensure_arguments e = Inr (dir, ms, p)" and d: "d = resolve cwd dir"
    and "files (pointer_path d) = None"
    and g: "createDevelopmentCertificate k (sha256_of api) clock (Some (pr_validityDays p)) (generation_options p (eo_certificate e)) = Inr g"
    and c: "c = (begin_ensure cwd pid e)\<lparr>ec_identifier := u, ec_temporary := v, ec_generated := Some g\<rparr>"
    and free: "\<And>t. files (target_path c t) = None"
  shows "fst (ensure_alone cwd api pid e k clock u v files) =
      files(target_path c KeyTarget \<mapsto> target_content c KeyTarget, target_path c CertificateTarget \<mapsto> target_content c CertificateTarget,
            target_path c TemporaryTarget := None, pointer_path d \<mapsto> target_content c TemporaryTarget)
    \<and> ec_phase (snd (ensure_alone cwd api pid e k clock u v files)) = Finished (new_certificate c)"
proof -
  let ?c0 = "begin_ensure cwd pid e"
  let ?w = "(\<lambda>t. if t = TemporaryTarget then NotOpen else Opening)"
  let ?c1 = "c\<lparr>ec_phase := WritingPair, ec_writes := ?w\<rparr>"
  let ?run = "foldl (\<lambda>s ev. call_step api ev s)"
  have d': "ec_directory ?c0 = d" and p: "ec_profile ?c0 = p" and o': "ec_options ?c0 = generation_options p (eo_certificate e)"
    by (simp_all add: begin_ensure_Inr [OF assms(1)] d)
  have c1: "?c1 = ?c0\<lparr>ec_phase := WritingPair, ec_identifier := u, ec_temporary := v, ec_generated := Some g, ec_writes := ?w\<rparr>"
    by (simp add: c)
  have gen: "?run (files, ?c0) (take 5 (uninterrupted k clock u v)) = (files, ?c1)"
    unfolding c1 uninterrupted_def using assms(3) g
    by (simp add: call_step_defs pair_read_def begin_ensure_Inr [OF assms(1)] d [symmetric])
  have d'': "ec_directory c = d" using d' by (simp add: c)
  have new: "new_certificate (b\<lparr>ec_phase := ph\<rparr>) = new_certificate b" "new_certificate (b\<lparr>ec_writes := w\<rparr>) = new_certificate b" for b ph w
    by (simp_all add: new_certificate_def split: option.split)
  have "(?w(KeyTarget := Written, CertificateTarget := Written, TemporaryTarget := Written)) t = Written" for t
    by (cases t) simp_all
  then have all: "?w(KeyTarget := Written, CertificateTarget := Written, TemporaryTarget := Written) = (\<lambda>t. Written)" by (rule ext)
  have rest: "?run (files, ?c1) (drop 5 (uninterrupted k clock u v)) =
    (files(target_path c KeyTarget \<mapsto> target_content c KeyTarget, target_path c CertificateTarget \<mapsto> target_content c CertificateTarget,
            target_path c TemporaryTarget := None, pointer_path d \<mapsto> target_content c TemporaryTarget),
     c\<lparr>ec_phase := Finished (new_certificate c), ec_writes := (\<lambda>t. Written)\<rparr>)"
    unfolding uninterrupted_def using free
    by (simp add: write_moves_def write_done_def rename_done_def temporary_removed_def d'' new all Let_def)
  have "ensure_alone cwd api pid e k clock u v files
      = ?run (files, ?c0) (take 5 (uninterrupted k clock u v) @ drop 5 (uninterrupted k clock u v))"
    by (simp add: ensure_alone_def)
  then show ?thesis unfolding foldl_append gen rest by simp
qed

section \<open>Caching\<close>

text \<open>What \<open>node:crypto\<close> documents for the text of a certificate this code made, at a time \<open>now\<close>: it reads
  the certificate back, with its dates, its P-256 key and its own signature; the private key belongs
  to it; and it is valid for the names it was made for.\<close>

definition crypto_reads :: "node_crypto \<Rightarrow> profile \<Rightarrow> development_certificate \<Rightarrow> bool" where
  "crypto_reads api p g \<longleftrightarrow>
     (case parse_x509 api (certificatePEM (dc_certificate g)) of
        None \<Rightarrow> False
      | Some x \<Rightarrow> x_raw x = certificateDER (dc_certificate g) \<and> \<not> x_ca x \<and> x_keyType x = ''ec''
          \<and> x_namedCurve x = Some ''prime256v1'' \<and> x_verify x (x_publicKey x)
          \<and> x_validFrom x = validFrom (dc_certificate g) \<and> x_validTo x = validTo (dc_certificate g)
          \<and> all_names (x_checkHost x) (pr_dnsNames p) \<and> all_names (x_checkIP x) (pr_ipAddresses p)
          \<and> public_key_of api (privateKeyPEM (dc_certificate g)) = Some (x_publicKey x))"

lemma generated_hash:
  "createDevelopmentCertificate k sha clock days o' = Inr g \<Longrightarrow>
   dc_certificateHash g = sha (certificateDER (dc_certificate g))
   \<and> dc_serverCertificateHashes g = [(''sha-256'', sha (certificateDER (dc_certificate g)))]"
  by (auto simp: createDevelopmentCertificate_def bind_result_Inr_iff)

lemma development_certificate_dates:
  assumes "createDevelopmentCertificate k sha clock days o' = Inr g"
  shows "validTo (dc_certificate g) - validFrom (dc_certificate g) < 14 * day_ms"
proof -
  let ?now = "case o_now o' of DateAt t \<Rightarrow> t | _ \<Rightarrow> clock" and ?n = "integer_value (case days of None \<Rightarrow> IntegerNumber 10 | Some n \<Rightarrow> n)"
  note dates = development_dates [OF assms refl refl]
  have "?n * day_ms \<le> 13 * day_ms" using dates(4) by (simp add: day_ms_def)
  then show ?thesis
    unfolding dates(1,2)
    using floor_second_bounds [of "?now - clock_skew"] floor_second_bounds [of "?now + ?n * day_ms"]
    unfolding day_ms_def clock_skew_def by linarith
qed

lemma stored_certificate_read:
  assumes "createDevelopmentCertificate k (sha256_of api) clock days o1 = Inr g" and "crypto_reads api p g"
    and "now = (case o_now o' of DateAt t \<Rightarrow> t | _ \<Rightarrow> clock')" and "o_now o' \<noteq> InvalidDate"
    and "validFrom (dc_certificate g) \<le> now" and "ms < validTo (dc_certificate g) - now"
  shows "readStoredCertificate api clock' cp kp o' p ms (certificatePEM (dc_certificate g)) (privateKeyPEM (dc_certificate g))
    = Inr \<lparr>cc_certificateFile = cp, cc_privateKeyFile = kp, cc_certificateHash = dc_certificateHash g,
          cc_serverCertificateHashes = dc_serverCertificateHashes g, cc_reused = True,
          cc_validFrom = validFrom (dc_certificate g), cc_validTo = validTo (dc_certificate g)\<rparr>"
proof -
  obtain x where x: "parse_x509 api (certificatePEM (dc_certificate g)) = Some x"
    using assms(2) by (auto simp: crypto_reads_def split: option.splits)
  have "validTo (dc_certificate g) - validFrom (dc_certificate g) < 14 * day_ms"
    using development_certificate_dates [OF assms(1)] .
  then show ?thesis
    using assms(2-) x generated_hash [OF assms(1)]
    by (cases "o_now o'") (simp_all add: crypto_reads_def readStoredCertificate_def hashes_def cached_certificate_usable_def matchesPrivateKey_def Let_def)
qed

text \<open>A second call, in any process, gets the pair of the first: in an empty cache the first call returns
  a new certificate, and a call with the same options while that is valid for longer than the margin
  returns the same files, hash and dates, marked as reused, and changes no file.\<close>

theorem second_call_reuses:
  assumes "ensure_arguments e = Inr (dir, ms, p)" and "uuid u" and "uuid v"
    and "createDevelopmentCertificate k (sha256_of api) clock (Some (pr_validityDays p)) (generation_options p (eo_certificate e)) = Inr g"
    and "crypto_reads api p g" and "o_now (eo_certificate e) = NoDate"
    and "validFrom (dc_certificate g) \<le> clock'" and "ms < validTo (dc_certificate g) - clock'"
  shows "\<exists>files c c' x. ensure_alone cwd api pid e k clock u v (\<lambda>x. None) = (files, c) \<and> ec_phase c = Finished (Inr x)
    \<and> \<not> cc_reused x \<and> ensure_alone cwd api pid' e k' clock' u' v' files = (files, c')
    \<and> ec_phase c' = Finished (Inr (x\<lparr>cc_reused := True\<rparr>))"
proof -
  define d where d: "d = resolve cwd dir"
  define c where c: "c = (begin_ensure cwd pid e)\<lparr>ec_identifier := u, ec_temporary := v, ec_generated := Some g\<rparr>"
  obtain files c1 where run: "ensure_alone cwd api pid e k clock u v (\<lambda>x. None) = (files, c1)" by fastforce
  from new_pair_stored [OF assms(1) d refl assms(4) c refl] run
  have files: "files = (\<lambda>x. None)(target_path c KeyTarget \<mapsto> target_content c KeyTarget,
      target_path c CertificateTarget \<mapsto> target_content c CertificateTarget,
      target_path c TemporaryTarget := None, pointer_path d \<mapsto> target_content c TemporaryTarget)"
    and first: "ec_phase c1 = Finished (new_certificate c)" by simp_all
  have fields: "ec_directory c = d" "ec_profile c = p" "ec_generated c = Some g"
    by (simp_all add: c begin_ensure_Inr [OF assms(1)] d)
  obtain x where x: "new_certificate c = Inr x" "\<not> cc_reused x"
    "x\<lparr>cc_reused := True\<rparr> = \<lparr>cc_certificateFile = target_path c CertificateTarget, cc_privateKeyFile = target_path c KeyTarget,
       cc_certificateHash = dc_certificateHash g, cc_serverCertificateHashes = dc_serverCertificateHashes g, cc_reused = True,
       cc_validFrom = validFrom (dc_certificate g), cc_validTo = validTo (dc_certificate g)\<rparr>"
    by (simp add: new_certificate_def fields)
  have "plain (target_name c t)" for t using assms(2,3) by (intro plain_target) (simp_all add: c)
  from this [of CertificateTarget] this [of KeyTarget] this
  have plain: "plain (target_name c CertificateTarget)" "plain (target_name c KeyTarget)" "\<And>t. plain (target_name c t)" .
  have path: "join_path d (target_name c t) = target_path c t" for t by (simp add: target_path_def fields)
  have name: "basename (target_path c t) = target_name c t" for t unfolding path [symmetric] using plain(3) by simp
  have read: "readStoredCertificate api clock' (join_path d (target_name c CertificateTarget)) (join_path d (target_name c KeyTarget))
      (generation_options p (eo_certificate e)) p ms (certificatePEM (dc_certificate g)) (privateKeyPEM (dc_certificate g))
    = Inr (x\<lparr>cc_reused := True\<rparr>)"
    unfolding x(3) path using assms(5-8)
    by (intro stored_certificate_read [OF assms(4)]) (simp_all add: generation_options_def)
  have pointer: "files (pointer_path d) = Some (Pointer \<lparr>pt_formatVersion = Some 1,
      pt_certificateFile = Some (target_name c CertificateTarget), pt_privateKeyFile = Some (target_name c KeyTarget), pt_profile = Some p\<rparr>)"
    by (simp add: files name fields del: target_name.simps)
  have texts: "files (join_path d (target_name c CertificateTarget)) = Some (TextFile (certificatePEM (dc_certificate g)))"
    "files (join_path d (target_name c KeyTarget)) = Some (TextFile (privateKeyPEM (dc_certificate g)))"
    unfolding path by (simp_all add: files fields)
  have "fst (ensure_alone cwd api pid' e k' clock' u' v' files) = files"
    "ec_phase (snd (ensure_alone cwd api pid' e k' clock' u' v' files)) = Finished (Inr (x\<lparr>cc_reused := True\<rparr>))"
    using usable_pair_reused [OF assms(1) d pointer plain(1,2) texts read] by simp_all
  then show ?thesis using run first x(1,2) by (metis prod.collapse)
qed

text \<open>With the options \<open>validityDays: 1\<close> and the default margin of one day no certificate is ever reused: the
  one that was stored is refused at any later time, so every call makes and stores another pair.\<close>

theorem one_day_never_reused:
  assumes "createDevelopmentCertificate k (sha256_of api) clock (Some (IntegerNumber 1)) o1 = Inr g"
    and "parse_x509 api (certificatePEM (dc_certificate g)) = Some x" and "x_validTo x = validTo (dc_certificate g)"
    and "o_now o1 = NoDate" and "o_now o2 = NoDate" and "clock \<le> clock'"
  shows "readStoredCertificate api clock' cp kp o2 p day_ms (certificatePEM (dc_certificate g)) kt
    = Inl (CacheProblem ''not reusable'')"
proof -
  have "validTo (dc_certificate g) = floor_second (clock + 1 * day_ms)"
    using development_dates(2) [OF assms(1) refl refl] assms(4) by simp
  then have "validTo (dc_certificate g) - clock' \<le> day_ms"
    using floor_second_bounds [of "clock + 1 * day_ms"] assms(6) by simp
  then show ?thesis using assms by (simp add: readStoredCertificate_def hashes_def cached_certificate_usable_def)
qed

section \<open>A concrete cache\<close>

lemma certificate_names_same:
  "o_authority o1 = o_authority o2 \<Longrightarrow> o_dnsNames o1 = o_dnsNames o2 \<Longrightarrow> o_ipAddresses o1 = o_ipAddresses o2 \<Longrightarrow>
   certificate_names o1 = certificate_names o2"
  by (simp add: certificate_names_def cong: if_cong)

lemma no_date_names: "certificate_names (o'\<lparr>o_now := x\<rparr>) = certificate_names o'"
  by (rule certificate_names_same) simp_all

lemma no_date_certificate: "createCertificate c clock (o'\<lparr>o_now := NoDate\<rparr>) = createCertificate c 0 (o'\<lparr>o_now := DateAt clock\<rparr>)"
  unfolding createCertificate_def Let_def no_date_names by (simp cong: if_cong)

lemma no_date:
  "createDevelopmentCertificate c sha clock days (o'\<lparr>o_now := NoDate\<rparr>) = createDevelopmentCertificate c sha 0 days (o'\<lparr>o_now := DateAt clock\<rparr>)"
  unfolding createDevelopmentCertificate_def
  using no_date_certificate [of c clock "o'\<lparr>o_maximumValidityDays := 13, o_validityDays := (case days of None \<Rightarrow> IntegerNumber 10 | Some n \<Rightarrow> n)\<rparr>"]
  by (cases o') simp

lemma next_day: "floor_second (1700000000000 + day_ms) = 1700086400000"
  "(1700086400000 :: int) div 86400000 + 719468 = 739144" "(739144 :: int) mod 146097 = 8659"
  by (simp_all add: floor_second_def day_ms_def)

lemma next_day_year: "d_year (utc_fields 1700086400000) = 2023"
  unfolding utc_fields_def Let_def next_day utc_date.select_convs
  by (simp add: year_of_era_def day_of_year_def month_of_year_def)

lemma toy_generated:
  assumes "n = 1 \<or> n = 10"
  shows "\<exists>d. createDevelopmentCertificate toy_crypto sha 1700000000000 (Some (IntegerNumber n)) (toy_options\<lparr>o_now := NoDate\<rparr>) = Inr d"
proof -
  let ?o = "toy_options\<lparr>o_maximumValidityDays := 13, o_validityDays := IntegerNumber n\<rparr>"
  have names: "certificate_names ?o = Inr ([''a.b''], [], [])"
    unfolding toy_names [symmetric] by (rule certificate_names_same) simp_all
  have "\<exists>cert. createCertificate toy_crypto 0 ?o = Inr cert"
  proof (rule created_certificate [OF names])
    show "normalizedCommonName (chosen_name (o_commonName ?o) [''a.b''] []) = Inr [97, 46, 98]"
      using toy_subject by (simp add: toy_options_def)
    show "normalizedCommonName (case o_issuerCommonName ?o of None \<Rightarrow> Some [97, 46, 98] | Some v \<Rightarrow> v) = Inr [97, 46, 98]"
      by (simp add: toy_options_def toy_common)
    show "list_all (\<lambda>t. 1950 \<le> d_year (utc_fields (floor_second t)) \<and> d_year (utc_fields (floor_second t)) \<le> 2049)
           [1700000000000 - clock_skew, 1700000000000 + n * day_ms]"
      using assms next_day_year by (auto simp: toy_years toy_times next_day)
    show "1 \<le> n" "n \<le> o_maximumValidityDays ?o" using assms by auto
  qed (simp_all add: toy_options_def toy_crypto_def)
  moreover have "toy_options\<lparr>o_now := DateAt 1700000000000\<rparr> = toy_options" by (simp add: toy_options_def)
  ultimately show ?thesis unfolding no_date by (auto simp: createDevelopmentCertificate_def)
qed

definition toy_ensure :: ensure_options where
  "toy_ensure = \<lparr>eo_directory = Some ''/c'', eo_renewBeforeMs = None, eo_validityDays = None,
     eo_certificate = toy_options\<lparr>o_now := NoDate\<rparr>\<rparr>"

lemma toy_ensure_arguments: "ensure_arguments toy_ensure = Inr (''/c'', day_ms, cache_profile toy_ensure)"
  by (simp add: ensure_arguments_def toy_ensure_def cache_profile_def toy_options_def day_ms_def Let_def)

lemma toy_ensure_generated:
  obtains g where "createDevelopmentCertificate toy_crypto sha 1700000000000 (Some (pr_validityDays (cache_profile toy_ensure)))
    (generation_options (cache_profile toy_ensure) (eo_certificate toy_ensure)) = Inr g"
proof -
  have "generation_options (cache_profile toy_ensure) (eo_certificate toy_ensure) = toy_options\<lparr>o_now := NoDate\<rparr>"
    by (simp add: toy_ensure_def generation_options_def cache_profile_def toy_options_def)
  then show ?thesis using toy_generated [of 10 sha] that by (auto simp: toy_ensure_def cache_profile_def)
qed

definition toy_api :: "development_certificate \<Rightarrow> node_crypto" where
  "toy_api g = \<lparr>parse_x509 = (\<lambda>t. Some \<lparr>x_raw = certificateDER (dc_certificate g), x_ca = False, x_keyType = ''ec'',
       x_namedCurve = Some ''prime256v1'', x_publicKey = [4], x_verify = (\<lambda>k. k = [4]), x_checkHost = (\<lambda>s. s = ''a.b''),
       x_checkIP = (\<lambda>s. False), x_validFrom = validFrom (dc_certificate g), x_validTo = validTo (dc_certificate g)\<rparr>),
     public_key_of = (\<lambda>t. Some [4]), sha256_of = (\<lambda>bs. take 32 bs)\<rparr>"

definition toy_uuid :: "char \<Rightarrow> string" where
  "toy_uuid c = replicate 36 c"

lemma toy_uuid_ok: "c \<noteq> CHR ''/'' \<Longrightarrow> uuid (toy_uuid c)"
  by (simp add: uuid_def toy_uuid_def)

lemma toy_pair:
  obtains g where "createDevelopmentCertificate toy_crypto (sha256_of (toy_api g)) 1700000000000
      (Some (pr_validityDays (cache_profile toy_ensure))) (generation_options (cache_profile toy_ensure) (eo_certificate toy_ensure)) = Inr g"
    and "crypto_reads (toy_api g) (cache_profile toy_ensure) g"
    and "validFrom (dc_certificate g) \<le> 1700000000000" and "day_ms < validTo (dc_certificate g) - 1700000000000"
proof -
  obtain g where g: "createDevelopmentCertificate toy_crypto (\<lambda>bs. take 32 bs) 1700000000000
      (Some (pr_validityDays (cache_profile toy_ensure))) (generation_options (cache_profile toy_ensure) (eo_certificate toy_ensure)) = Inr g"
    by (rule toy_ensure_generated)
  have "validFrom (dc_certificate g) = 1699999700000" "validTo (dc_certificate g) = 1700864000000"
    using development_dates(1,2) [OF g refl refl] toy_times
    by (simp_all add: toy_ensure_def generation_options_def cache_profile_def)
  moreover have "crypto_reads (toy_api g) (cache_profile toy_ensure) g"
    by (simp add: crypto_reads_def toy_api_def cache_profile_def toy_ensure_def toy_options_def all_names_def)
  moreover have "sha256_of (toy_api g) = (\<lambda>bs. take 32 bs)" by (simp add: toy_api_def)
  ultimately show ?thesis using that [of g] g by (simp add: day_ms_def)
qed

theorem second_call_reuses_witness:
  "\<exists>g files c c'. ensure_alone ''/'' (toy_api g) 1 toy_ensure toy_crypto 1700000000000 (toy_uuid CHR ''a'') (toy_uuid CHR ''b'') (\<lambda>x. None)
      = (files, c) \<and> ensure_alone ''/'' (toy_api g) 2 toy_ensure toy_crypto 1700000000000 (toy_uuid CHR ''c'') (toy_uuid CHR ''d'') files
      = (files, c')"
proof -
  obtain g where g: "createDevelopmentCertificate toy_crypto (sha256_of (toy_api g)) 1700000000000
      (Some (pr_validityDays (cache_profile toy_ensure))) (generation_options (cache_profile toy_ensure) (eo_certificate toy_ensure)) = Inr g"
    "crypto_reads (toy_api g) (cache_profile toy_ensure) g"
    "validFrom (dc_certificate g) \<le> 1700000000000" "day_ms < validTo (dc_certificate g) - 1700000000000"
    by (rule toy_pair)
  have now: "o_now (eo_certificate toy_ensure) = NoDate" by (simp add: toy_ensure_def)
  have "\<exists>files c c' x. ensure_alone ''/'' (toy_api g) 1 toy_ensure toy_crypto 1700000000000 (toy_uuid CHR ''a'') (toy_uuid CHR ''b'') (\<lambda>x. None)
      = (files, c) \<and> ec_phase c = Finished (Inr x) \<and> \<not> cc_reused x
      \<and> ensure_alone ''/'' (toy_api g) 2 toy_ensure toy_crypto 1700000000000 (toy_uuid CHR ''c'') (toy_uuid CHR ''d'') files
      = (files, c') \<and> ec_phase c' = Finished (Inr (x\<lparr>cc_reused := True\<rparr>))"
    by (rule second_call_reuses [OF toy_ensure_arguments toy_uuid_ok toy_uuid_ok g(1,2) now g(3,4)]) simp_all
  then show ?thesis by blast
qed

lemma alone_run:
  "cache_run cwd api empty_cache (StartEnsure pid e # map (CallGoesOn 0) evs) =
     (case foldl (\<lambda>s ev. call_step api ev s) (\<lambda>x. None, begin_ensure cwd pid e) evs of
        (files, c) \<Rightarrow> \<lparr>cs_files = files, cs_calls = [c]\<rparr>)"
proof (induction evs rule: rev_induct)
  case Nil
  show ?case by (simp add: cache_run_def cache_step_def empty_cache_def)
next
  case (snoc ev evs)
  obtain files c where "foldl (\<lambda>s ev. call_step api ev s) (\<lambda>x. None, begin_ensure cwd pid e) evs = (files, c)" by fastforce
  then show ?case using snoc by (cases "call_step api ev (files, c)") (simp add: cache_run_def cache_step_def)
qed

definition toy_run :: "cache_event list" where
  "toy_run = StartEnsure 1 toy_ensure # map (CallGoesOn 0) (uninterrupted toy_crypto 1700000000000 (toy_uuid CHR ''a'') (toy_uuid CHR ''b''))"

theorem cached_pairs_match_witness:
  "\<exists>g x f. ec_phase (cs_calls (cache_run ''/'' (toy_api g) empty_cache toy_run) ! 0) = Finished (Inr x)
      \<and> pointer_ok (toy_api g) (cs_files (cache_run ''/'' (toy_api g) empty_cache toy_run)) ''/c'' f"
proof -
  obtain g where g: "createDevelopmentCertificate toy_crypto (sha256_of (toy_api g)) 1700000000000
      (Some (pr_validityDays (cache_profile toy_ensure))) (generation_options (cache_profile toy_ensure) (eo_certificate toy_ensure)) = Inr g"
    by (rule toy_pair)
  have d: "''/c'' = resolve ''/'' ''/c''" by (simp add: resolve_def starts_with_def path_of_def)
  define c where c: "c = (begin_ensure ''/'' 1 toy_ensure)\<lparr>ec_identifier := toy_uuid CHR ''a'', ec_temporary := toy_uuid CHR ''b'', ec_generated := Some g\<rparr>"
  define r where r: "r = ensure_alone ''/'' (toy_api g) 1 toy_ensure toy_crypto 1700000000000 (toy_uuid CHR ''a'') (toy_uuid CHR ''b'') (\<lambda>x. None)"
  have run: "cache_run ''/'' (toy_api g) empty_cache toy_run = \<lparr>cs_files = fst r, cs_calls = [snd r]\<rparr>"
    unfolding toy_run_def alone_run r ensure_alone_def by (simp split: prod.split)
  note n = new_pair_stored [OF toy_ensure_arguments d refl g c refl, folded r]
  have "ec_generated c = Some g" by (simp add: c)
  then obtain x where x: "ec_phase (snd r) = Finished (Inr x)" using n by (simp add: new_certificate_def)
  obtain f where f: "fst r (pointer_path ''/c'') = Some f" using n by simp
  have "all_drawn (toy_run @ []) = [toy_uuid CHR ''a'', toy_uuid CHR ''b'']" by (simp add: toy_run_def uninterrupted_def)
  moreover have "toy_uuid CHR ''a'' \<noteq> toy_uuid CHR ''b''" by (simp add: toy_uuid_def)
  ultimately have drawn: "list_all uuid (all_drawn (toy_run @ []))" "distinct (all_drawn (toy_run @ []))" by (simp_all add: toy_uuid_ok)
  have "resolved (resolve ''/'' ''/c'')" by simp
  then have "resolved ''/c''" by (simp only: d [symmetric])
  then have "pointer_ok (toy_api g) (cs_files (cache_run ''/'' (toy_api g) empty_cache (toy_run @ []))) ''/c'' f"
    using cached_pairs_match [OF drawn, of 0 "''/''" "toy_api g" x "''/c''" f] x f unfolding append_Nil2 run by simp
  then have "ec_phase (cs_calls (cache_run ''/'' (toy_api g) empty_cache toy_run) ! 0) = Finished (Inr x)
      \<and> pointer_ok (toy_api g) (cs_files (cache_run ''/'' (toy_api g) empty_cache toy_run)) ''/c'' f"
    using x unfolding append_Nil2 run by simp
  then show ?thesis by blast
qed

theorem one_day_never_reused_witness:
  "\<exists>g. readStoredCertificate (toy_api g) 1700000000001 [] [] (toy_options\<lparr>o_now := NoDate\<rparr>) (cache_profile toy_ensure) day_ms
     (certificatePEM (dc_certificate g)) [] = Inl (CacheProblem ''not reusable'')"
proof -
  obtain g where g: "createDevelopmentCertificate toy_crypto (\<lambda>bs. take 32 bs) 1700000000000 (Some (IntegerNumber 1)) (toy_options\<lparr>o_now := NoDate\<rparr>) = Inr g"
    using toy_generated [of 1] by blast
  have sha: "sha256_of (toy_api g) = (\<lambda>bs. take 32 bs)" by (simp add: toy_api_def)
  obtain x where x: "parse_x509 (toy_api g) (certificatePEM (dc_certificate g)) = Some x" "x_validTo x = validTo (dc_certificate g)"
    by (simp add: toy_api_def)
  have "readStoredCertificate (toy_api g) 1700000000001 [] [] (toy_options\<lparr>o_now := NoDate\<rparr>) (cache_profile toy_ensure) day_ms
     (certificatePEM (dc_certificate g)) [] = Inl (CacheProblem ''not reusable'')"
    by (rule one_day_never_reused [OF g [folded sha] x]) simp_all
  then show ?thesis by blast
qed

end
