(* ===== verification/Trusted_Use.thy ===== *)
theory Trusted_Use
  imports Trusted_Cache Dev_Cache_Use
begin

text \<open>
  What a failed trust installation and a removal leave in the directory of trusted.js, and calls on a concrete system.
\<close>

section \<open>A trust installation that fails\<close>

lemma write_free:
  "te_fails e = (\<lambda>n. None) \<Longrightarrow> w_files w a = None \<Longrightarrow>
   write_file e a f w = (w\<lparr>w_operations := w_operations w + 1, w_files := (w_files w)(a \<mapsto> f)\<rparr>, Inr ())"
  by (simp add: write_file_def and_then_def next_failure_def)

lemma trust_error_from:
  assumes "trust_authority e b f name w = (w', Inl (OnTrust err))"
  shows "b"
  using assms by (simp add: trust_authority_def split: if_splits)

lemma no_trust_error:
  "read_file e q w = (w', r) \<Longrightarrow> r \<noteq> Inl (OnTrust err)" "write_file e q f w = (w', r') \<Longrightarrow> r' \<noteq> Inl (OnTrust err)"
  "rename_file e q q' w = (w', r') \<Longrightarrow> r' \<noteq> Inl (OnTrust err)" "make_directory e w = (w', r') \<Longrightarrow> r' \<noteq> Inl (OnTrust err)"
  "remove_file e q w = (w', r') \<Longrightarrow> r' \<noteq> Inl (OnTrust err)"
  by (auto simp: read_file_def write_file_def rename_file_def remove_file_def make_directory_def and_then_def next_failure_def
      file_failure_def split: option.splits if_splits)

lemma writeAtomically_no_trust_error: "trusted_writeAtomically e i path f w = (w', r) \<Longrightarrow> r \<noteq> Inl (OnTrust err)"
  by (auto simp: trusted_writeAtomically_def Let_def and_then_def split: prod.splits sum.splits
      dest: no_trust_error(2) no_trust_error(3))

lemma store_trust_fails:
  assumes "te_fails e = (\<lambda>n. None)" and "generated_chain p ch"
    and fresh: "w_files w (authority_path directory (td_identifier d)) = None"
      "w_files w (certificate_path directory (td_identifier d)) = None" "w_files w (private_key_path directory (td_identifier d)) = None"
    and s: "store_chain e d b p directory None ch w = (w', Inl (OnTrust err))"
  shows "chain_at (w_files w') p (authority_path directory (td_identifier d)) (certificate_path directory (td_identifier d))
      (private_key_path directory (td_identifier d))
    \<and> w_files w' (trusted_pointer_path directory) = w_files w (trusted_pointer_path directory)"
proof -
  let ?a = "authority_path directory (td_identifier d)" and ?c = "certificate_path directory (td_identifier d)"
    and ?k = "private_key_path directory (td_identifier d)"
  let ?w1 = "w\<lparr>w_operations := w_operations w + 3, w_files := (w_files w)(?a \<mapsto> TText (ch_authorityPEM ch),
      ?c \<mapsto> TText (ch_certificatePEM ch), ?k \<mapsto> TText (ch_privateKeyPEM ch))\<rparr>"
  have "all_of [write_file e ?a (TText (ch_authorityPEM ch)), write_file e ?c (TText (ch_certificatePEM ch)),
      write_file e ?k (TText (ch_privateKeyPEM ch))] w = (?w1, Inr ())"
    using fresh by (simp add: write_free [OF assms(1)] eval_nat_numeral)
  note s1 = s [unfolded store_chain_def Let_def, unfolded and_then_def [of "all_of _"] this prod.case sum.case]
  show ?thesis
  proof (cases "tc_parse (te_crypto e) (ch_authorityPEM ch)")
    case None
    then show ?thesis using s1 by simp
  next
    case (Some x)
    obtain w2 r2 where m2: "trust_authority e b ?a (authority_name p) ?w1 = (w2, r2)" by fastforce
    have f2: "w_files w2 = w_files ?w1" by (rule touches_none [OF touches_trust m2])
    show ?thesis
    proof (cases r2)
      case (Inl er)
      then have "w' = w2" using s1 Some m2 by (simp add: and_then_def)
      then show ?thesis using f2 assms(2) by (auto simp: chain_at_def)
    next
      case (Inr u)
      then show ?thesis
        using s1 Some m2 by (auto simp: and_then_def [of "trust_authority e b ?a (authority_name p)"])
          (auto simp: and_then_def dest: writeAtomically_no_trust_error split: prod.splits sum.splits)
    qed
  qed
qed

lemma empty_attempt:
  assumes "te_fails e = (\<lambda>n. None)" and "w_files w (trusted_pointer_path directory) = None"
  shows "cached_attempt e d n ms b p directory w = (w\<lparr>w_operations := w_operations w + 1\<rparr>, None, Inl (file_failure ''ENOENT''))"
  using assms by (simp add: cached_attempt_def read_trusted_cache_def read_file_def and_then_def next_failure_def)

text \<open>when the trust store refuses the new authority, the new files stay behind. In a directory without a
  trusted-current.json, if ensureTrustedDevelopmentCertificate throws an error of the trust store, the authority
  certificate, the certificate and the unprotected private key are on the disk and no trusted-current.json names them:
  removeTrustedDevelopmentCertificate returns false and removes none of them.
\<close>

theorem failed_trust_leaves_key:
  assumes "call_ready e d directory (w_files w)" and "w_files w (trusted_pointer_path directory) = None"
    and "te_fails e = (\<lambda>n. None)" and "ensureTrustedOnce e d o' directory w = (w', Inl (OnTrust err))"
  shows "\<exists>p u. profileFrom o' = Inr p
    \<and> chain_at (w_files w') p (authority_path directory (td_identifier d)) (certificate_path directory (td_identifier d))
        (private_key_path directory (td_identifier d))
    \<and> removeTrusted e (Some directory) w' = (u, Inr False) \<and> w_files u = w_files w'"
proof -
  have dir: "resolved directory" using assms(1) by (simp add: call_ready_def)
  obtain p ms where p: "profileFrom o' = Inr p" and ms: "renewal_margin o' = Inr ms"
    using assms(4) by (cases "profileFrom o'"; cases "renewal_margin o'") (auto simp: ensureTrustedOnce_def and_then_def lift_result_def)
  let ?w0 = "w\<lparr>w_operations := w_operations w + 1\<rparr>"
  have m0: "make_directory e w = (?w0, Inr ())" by (simp add: make_directory_def and_then_def next_failure_def assms(3))
  have m1: "cached_attempt e d (o_now (to_certificate o')) ms (to_installTrust o') p directory ?w0
      = (?w0\<lparr>w_operations := w_operations ?w0 + 1\<rparr>, None, Inl (file_failure ''ENOENT''))"
    by (rule empty_attempt) (simp_all add: assms)
  note run = assms(4) [unfolded ensureTrustedOnce_def and_then_def, simplified p ms m0 m1 lift_result_def sum.case prod.case map_sum.simps]
  obtain ch where ch: "generate_trusted d p (o_now (to_certificate o')) = Inr ch"
    using run by (auto simp: lift_result_def file_failure_def split: sum.splits if_splits)
  then have s: "store_chain e d (to_installTrust o') p directory None ch (w\<lparr>w_operations := w_operations w + 2\<rparr>) = (w', Inl (OnTrust err))"
    using run by (auto simp: lift_result_def file_failure_def eval_nat_numeral split: if_splits)
  have left: "chain_at (w_files w') p (authority_path directory (td_identifier d)) (certificate_path directory (td_identifier d))
        (private_key_path directory (td_identifier d)) \<and> w_files w' (trusted_pointer_path directory) = None"
    using store_trust_fails [OF assms(3) _ _ _ _ s] ch assms(1,2) by (auto simp: generated_chain_def call_ready_def)
  have "directory \<noteq> []" using dir by (auto simp: resolved_def path_of_def)
  then have "removeTrusted e (Some directory) w' = (w'\<lparr>w_operations := w_operations w' + 1\<rparr>, Inr False)"
    using left dir assms(3)
    by (simp add: removeTrusted_def read_trusted_cache_def read_file_def and_then_def next_failure_def resolve_resolved file_failure_def)
  then show ?thesis using p left by simp
qed

section \<open>Removal\<close>

lemma remove_result:
  "remove_file e q w = (w', Inr u) \<Longrightarrow> w_files w' = (w_files w)(q := None)"
  "remove_file e q w = (w', Inl err) \<Longrightarrow> w_files w' = w_files w"
  by (auto simp: remove_file_def and_then_def next_failure_def split: option.splits)

lemma system_result:
  assumes "on_system m w = (w', Inr x)"
  obtains u where "m (w_system w) = (u, Inr x)" and "w' = w\<lparr>w_system := u\<rparr>"
proof -
  obtain u r where m: "m (w_system w) = (u, r)" by fastforce
  then show thesis using assms that by (cases r) (auto simp: on_system_def)
qed

lemma all_removed:
  "all_of (map (remove_file e) qs) w = (w', Inr ()) \<Longrightarrow> w_files w' x = (if x \<in> set qs then None else w_files w x)"
proof (induction qs arbitrary: w)
  case (Cons q qs)
  obtain w1 r1 where m1: "remove_file e q w = (w1, r1)" by fastforce
  obtain w2 r2 where m2: "all_of (map (remove_file e) qs) w1 = (w2, r2)" by fastforce
  have "w' = w2" "r1 = Inr ()" "r2 = Inr ()" using Cons.prems m1 m2 by (auto split: sum.splits)
  then show ?case using Cons.IH [of w1] m2 remove_result(1) [of e q w w1 "()"] m1 by auto
qed simp

lemma systems_kept: "all_of (map (remove_file e) qs) w = (w', r) \<Longrightarrow> w_system w' = w_system w"
proof (induction qs arbitrary: w r)
  case (Cons q qs)
  obtain w1 r1 where m1: "remove_file e q w = (w1, r1)" by fastforce
  obtain w2 r2 where m2: "all_of (map (remove_file e) qs) w1 = (w2, r2)" by fastforce
  have "w_system w1 = w_system w" using m1 by (auto simp: remove_file_def and_then_def next_failure_def split: option.splits)
  then show ?case using Cons m1 m2 by auto
qed simp

text \<open>The four files a removal takes.\<close>

definition removed_files :: "string \<Rightarrow> trusted_cache \<Rightarrow> string list" where
  "removed_files directory t = [ta_authority t, ta_certificate t, ta_key t, trusted_pointer_path directory]"

lemma removal_parts:
  assumes "removeTrusted e (Some g) w = (w', Inr True)"
  obtains f t w1 w2 name where "w_files w (trusted_pointer_path (resolve (te_cwd e) g)) = Some f"
    and "parse_trusted_cache (te_cwd e) (resolve (te_cwd e) g) f = Inr t" and "w_files w1 = w_files w"
    and "on_system (removeAuthorityTrust (te_host e) (ta_authority t) (ta_fingerprint t) name) w1 = (w2, Inr ())"
    and "all_of (map (remove_file e) (removed_files (resolve (te_cwd e) g) t)) w2 = (w', Inr ())"
proof -
  let ?d = "resolve (te_cwd e) g"
  obtain w0 r0 where m0: "read_trusted_cache e ?d w = (w0, r0)" by fastforce
  have "g \<noteq> []" using assms by (auto simp: removeTrusted_def)
  then obtain t where r0: "r0 = Inr t"
    using assms m0 by (cases r0) (auto simp: removeTrusted_def Let_def split: if_splits)
  with \<open>g \<noteq> []\<close> assms m0 have "and_then (validateCachedAuthority e t) (\<lambda>name.
       and_then (on_system (removeAuthorityTrust (te_host e) (ta_authority t) (ta_fingerprint t) name)) (\<lambda>_.
       and_then (all_of (map (remove_file e) (removed_files ?d t))) (\<lambda>_. gives True))) w0 = (w', Inr True)"
    by (simp add: removeTrusted_def Let_def removed_files_def)
  then obtain name w1 w2 where v: "validateCachedAuthority e t w0 = (w1, Inr name)"
    and "on_system (removeAuthorityTrust (te_host e) (ta_authority t) (ta_fingerprint t) name) w1 = (w2, Inr ())"
    and "all_of (map (remove_file e) (removed_files ?d t)) w2 = (w', Inr ())"
    by (auto dest!: and_then_result [THEN iffD1])
  moreover have "w_files w1 = w_files w"
    using touches_none [OF touches_validate v] touches_none [OF touches_read_cache m0] by simp
  ultimately show thesis using read_cache_result [OF m0 [unfolded r0]] that by blast
qed

text \<open>C32: when removeTrustedDevelopmentCertificate returns true, on a Linux that keeps its anchors in a
  directory (Debian, Fedora) where they can be read (\<open>directory_host\<close>), the authority is no longer trusted, the authority certificate, the certificate, the private key and
  trusted-current.json are gone, and no other file has changed; a second call returns false.
\<close>

theorem removal_complete:
  assumes "directory_host (te_host e)" and "removeTrusted e (Some g) w = (w', Inr True)"
  shows "\<exists>f t. w_files w (trusted_pointer_path (resolve (te_cwd e) g)) = Some f
    \<and> parse_trusted_cache (te_cwd e) (resolve (te_cwd e) g) f = Inr t
    \<and> \<not> anchored (te_host e) (w_system w') (ta_fingerprint t)
    \<and> w_files w' = (\<lambda>x. if x \<in> set (removed_files (resolve (te_cwd e) g) t) then None else w_files w x)
    \<and> (te_fails e (w_operations w') = None \<longrightarrow> snd (removeTrusted e (Some g) w') = Inr False)"
proof -
  obtain f t w1 w2 name where p: "w_files w (trusted_pointer_path (resolve (te_cwd e) g)) = Some f"
    "parse_trusted_cache (te_cwd e) (resolve (te_cwd e) g) f = Inr t" and f1: "w_files w1 = w_files w"
    and s: "on_system (removeAuthorityTrust (te_host e) (ta_authority t) (ta_fingerprint t) name) w1 = (w2, Inr ())"
    and a: "all_of (map (remove_file e) (removed_files (resolve (te_cwd e) g) t)) w2 = (w', Inr ())"
    by (rule removal_parts [OF assms(2)])
  obtain u where u: "removeAuthorityTrust (te_host e) (ta_authority t) (ta_fingerprint t) name (w_system w1) = (u, Inr ())"
    and w2: "w2 = w1\<lparr>w_system := u\<rparr>"
    by (rule system_result [OF s])
  have files: "w_files w' = (\<lambda>x. if x \<in> set (removed_files (resolve (te_cwd e) g) t) then None else w_files w x)"
    using all_removed [OF a] f1 w2 by auto
  have "w_system w' = u" using systems_kept [OF a] w2 by simp
  then have "\<not> anchored (te_host e) (w_system w') (ta_fingerprint t)" using directory_removed [OF assms(1) u] by simp
  moreover have "snd (removeTrusted e (Some g) w') = Inr False" if "te_fails e (w_operations w') = None"
  proof -
    have "g \<noteq> []" using assms(2) by (auto simp: removeTrusted_def)
    moreover have "w_files w' (trusted_pointer_path (resolve (te_cwd e) g)) = None" by (simp add: files removed_files_def)
    ultimately show ?thesis
      by (simp add: removeTrusted_def Let_def read_trusted_cache_def read_file_def and_then_def next_failure_def that file_failure_def)
  qed
  ultimately show ?thesis by (intro exI [of _ f] exI [of _ t] conjI impI p files)
qed

lemma parse_error: "parse_trusted_cache cwd directory f = Inl err \<Longrightarrow> trusted_recoverable err"
  by (auto simp: parse_trusted_cache_def trusted_cachePath_def normalizeFingerprint_def Let_def
      split: trusted_file.splits option.splits if_splits sum.splits)

lemma validated_parts:
  assumes "and_then (validateCachedAuthority e t) k w = (w', Inl (file_failure c))"
    and "te_fails e (w_operations w) = None" and "c \<noteq> ''ENOENT''"
  obtains name where "k name (w\<lparr>w_operations := w_operations w + 1\<rparr>) = (w', Inl (file_failure c))"
  using assms
  by (auto simp: validateCachedAuthority_def read_certificate_def read_file_def and_then_def next_failure_def file_failure_def
      split: option.splits if_splits prod.splits)


lemma trust_not_cache [simp]: "map_sum OnTrust f r \<noteq> Inl (OnCache x)"
  by (cases r) simp_all

lemma remove_calm:
  "te_fails e (w_operations w) = None \<Longrightarrow>
   remove_file e q w = (w\<lparr>w_operations := w_operations w + 1, w_files := (w_files w)(q := None)\<rparr>, Inr ())"
  by (simp add: remove_file_def and_then_def next_failure_def)

lemma interrupted_parts:
  assumes "te_fails e = (\<lambda>n. if n = w_operations w + 5 then Some (c, False) else None)" and "c \<noteq> ''ENOENT''"
    and "removeTrusted e (Some g) w = (w', Inl (file_failure c))"
  obtains f t where "w_files w (trusted_pointer_path (resolve (te_cwd e) g)) = Some f"
    and "parse_trusted_cache (te_cwd e) (resolve (te_cwd e) g) f = Inr t"
    and "w_files w' = (w_files w)(ta_authority t := None, ta_certificate t := None, ta_key t := None)"
proof -
  let ?d = "resolve (te_cwd e) g"
  have calm: "te_fails e (w_operations w) = None" "te_fails e (Suc (w_operations w)) = None"
    by (simp_all add: assms(1))
  have g: "g \<noteq> []" using assms(3) by (auto simp: removeTrusted_def file_failure_def)
  let ?w1 = "w\<lparr>w_operations := w_operations w + 1\<rparr>"
  obtain f where f: "w_files w (trusted_pointer_path ?d) = Some f"
    using assms(3) g
    by (cases "w_files w (trusted_pointer_path ?d)")
      (auto simp: removeTrusted_def Let_def read_trusted_cache_def read_file_def and_then_def next_failure_def calm file_failure_def)
  have m: "read_trusted_cache e ?d w = (?w1, parse_trusted_cache (te_cwd e) ?d f)"
    by (simp add: read_trusted_cache_def read_file_def and_then_def next_failure_def calm f lift_result_def)
  obtain t where t: "parse_trusted_cache (te_cwd e) ?d f = Inr t"
    using assms(3) g m parse_error [of "te_cwd e" ?d f]
    by (cases "parse_trusted_cache (te_cwd e) ?d f") (auto simp: removeTrusted_def)
  note run = assms(3) [unfolded removeTrusted_def, simplified g m t option.case Let_def if_False prod.case sum.case]
  obtain name where run2: "and_then (on_system (removeAuthorityTrust (te_host e) (ta_authority t) (ta_fingerprint t) name)) (\<lambda>_.
       and_then (all_of (map (remove_file e) (removed_files ?d t))) (\<lambda>_. gives True)) (?w1\<lparr>w_operations := w_operations ?w1 + 1\<rparr>)
       = (w', Inl (file_failure c))"
    using run validated_parts [of e t _ ?w1 w' c, OF _ _ assms(2)] calm by (auto simp: removed_files_def)
  then obtain u where "and_then (all_of (map (remove_file e) (removed_files ?d t))) (\<lambda>_. gives True)
       (w\<lparr>w_operations := w_operations w + 2, w_system := u\<rparr>) = (w', Inl (file_failure c))"
    by (auto simp: and_then_def [of "on_system _"] on_system_def file_failure_def split: prod.splits sum.splits)
  then have "w_files w' = (w_files w)(ta_authority t := None, ta_certificate t := None, ta_key t := None)"
    by (auto simp: removed_files_def and_then_def remove_calm assms(1) remove_file_def next_failure_def)
  then show thesis using f t that by blast
qed

text \<open>an interrupted removal cannot be finished. When the removal of trusted-current.json fails after the other three
  files were removed, removeTrustedDevelopmentCertificate throws that error, and each later call throws ENOENT, since
  the authority certificate is read before anything is removed: it changes no file, so trusted-current.json stays.
\<close>

theorem interrupted_removal_stuck:
  assumes "te_fails e = (\<lambda>n. if n = w_operations w + 5 then Some (c, False) else None)" and "c \<noteq> ''ENOENT''"
    and "removeTrusted e (Some g) w = (w1, Inl (file_failure c))"
    and "ta_authority t \<noteq> trusted_pointer_path (resolve (te_cwd e) g)" "ta_certificate t \<noteq> trusted_pointer_path (resolve (te_cwd e) g)"
      "ta_key t \<noteq> trusted_pointer_path (resolve (te_cwd e) g)"
    and "w_files w (trusted_pointer_path (resolve (te_cwd e) g)) = Some f"
      "parse_trusted_cache (te_cwd e) (resolve (te_cwd e) g) f = Inr t"
    and "removeTrusted (e\<lparr>te_fails := \<lambda>n. None\<rparr>) (Some g) w1 = (w2, r)"
  shows "w_files w1 = (w_files w)(ta_authority t := None, ta_certificate t := None, ta_key t := None)
    \<and> w_files w2 = w_files w1 \<and> r = Inl (file_failure ''ENOENT'')"
proof -
  let ?d = "resolve (te_cwd e) g"
  have f1: "w_files w1 = (w_files w)(ta_authority t := None, ta_certificate t := None, ta_key t := None)"
  proof (rule interrupted_parts [OF assms(1-3)])
    fix f' t'
    assume p: "w_files w (trusted_pointer_path ?d) = Some f'" "parse_trusted_cache (te_cwd e) ?d f' = Inr t'"
      and "w_files w1 = (w_files w)(ta_authority t' := None, ta_certificate t' := None, ta_key t' := None)"
    moreover have "t' = t" using p assms(7,8) by simp
    ultimately show ?thesis by simp
  qed
  have g: "g \<noteq> []" using assms(3) by (auto simp: removeTrusted_def file_failure_def)
  have "w_files w1 (trusted_pointer_path ?d) = Some f" "w_files w1 (ta_authority t) = None" using f1 assms(4-7) by simp_all
  then have "removeTrusted (e\<lparr>te_fails := \<lambda>n. None\<rparr>) (Some g) w1 = (w1\<lparr>w_operations := w_operations w1 + 2\<rparr>, Inl (file_failure ''ENOENT''))"
    using g assms(8)
    by (simp add: removeTrusted_def Let_def read_trusted_cache_def read_file_def and_then_def next_failure_def lift_result_def
        validateCachedAuthority_def read_certificate_def)
  then show ?thesis using f1 assms(9) by simp
qed

section \<open>Concrete calls\<close>

definition toy_trusted :: "bool \<Rightarrow> trusted_options" where
  "toy_trusted install = \<lparr>to_directory = Some ''/c'', to_authorityName = Some (Some ''a.b''), to_renewBeforeMs = None,
     to_installTrust = install, to_validityDays = Some (IntegerNumber 10), to_certificate = toy_options\<rparr>"

definition toy_trusted_profile :: trusted_profile where
  "toy_trusted_profile = \<lparr>pr_commonName = None, pr_dnsNames = [TextValue ''a.b''], pr_ipAddresses = [],
     pr_validityDays = IntegerNumber 10, tr_authorityName = Some ''a.b''\<rparr>"

definition toy_draws :: trusted_draws where
  "toy_draws = \<lparr>td_authorityCrypto = toy_crypto, td_serverCrypto = toy_crypto, td_clock = 1700000000000,
     td_identifier = toy_uuid CHR ''a'', td_temporary = toy_uuid CHR ''b''\<rparr>"

definition toy_x509 :: authority_x509 where
  "toy_x509 = \<lparr>x_raw = [], x_ca = True, x_keyType = ''ec'', x_namedCurve = Some ''prime256v1'', x_publicKey = [],
     x_verify = (\<lambda>k. True), x_checkHost = (\<lambda>n. True), x_checkIP = (\<lambda>n. True), x_validFrom = 0, x_validTo = 0,
     x_fingerprint256 = ''B''\<rparr>"

definition toy_env :: "bool \<Rightarrow> (nat \<Rightarrow> (string \<times> bool) option) \<Rightarrow> (string \<rightharpoonup> string) trusted_env" where
  "toy_env refreshes fails = \<lparr>te_cwd = ''/'', te_pid = 1, te_host = toy_host refreshes,
     te_crypto = \<lparr>tc_parse = (\<lambda>t. Some toy_x509), tc_public_key = (\<lambda>t. None)\<rparr>, te_fails = fails, te_partial = []\<rparr>"

definition toy_world :: "trusted_files \<Rightarrow> (string \<rightharpoonup> string) trusted_world" where
  "toy_world files = \<lparr>w_files = files, w_system = (\<lambda>x. None), w_operations = 0\<rparr>"

lemma toy_profile: "profileFrom (toy_trusted b) = Inr toy_trusted_profile"
  by (simp add: profileFrom_def toy_trusted_def toy_options_def toy_trusted_profile_def Let_def)

lemma toy_margin: "renewal_margin (toy_trusted b) = Inr (30 * day_ms)"
  by (simp add: renewal_margin_def toy_trusted_def day_ms_def)

lemma toy_window: "list_all (\<lambda>t. 1950 \<le> d_year (utc_fields (floor_second t)) \<and> d_year (utc_fields (floor_second t)) \<le> 2049)
    [1700000000000 - clock_skew, 1700000000000 + 10 * day_ms]"
  by (simp add: toy_years toy_times)

lemma toy_chain: "\<exists>ch. generate_trusted toy_draws toy_trusted_profile (DateAt 1700000000000) = Inr ch"
proof -
  let ?oa = "\<lparr>o_authority = True, o_dnsNames = NotGiven, o_ipAddresses = NotGiven, o_commonName = Some (Some [97, 46, 98]),
      o_issuerCommonName = None, o_validityDays = IntegerNumber 10, o_maximumValidityDays = 397, o_now = DateAt 1700000000000,
      o_signingKey = None\<rparr>"
  have p: "text_points ''a.b'' = [97, 46, 98]" by (simp add: text_points_def code_def)
  have na: "certificate_names ?oa = Inr ([], [], [])" by (simp add: certificate_names_def maximum_names_def)
  obtain ca where ca: "createCertificate toy_crypto 1700000000000 ?oa = Inr ca"
    using created_certificate [OF na, where subject = "[97, 46, 98]" and issuer = "[97, 46, 98]" and now = 1700000000000 and days = 10
        and c = toy_crypto and clock = 1700000000000]
      toy_common toy_window by (auto simp: chosen_name_def toy_crypto_def)
  let ?os = "\<lparr>o_authority = False, o_dnsNames = ArrayOf [TextValue ''a.b''], o_ipAddresses = ArrayOf [], o_commonName = None,
      o_issuerCommonName = Some (Some [97, 46, 98]), o_validityDays = IntegerNumber 10, o_maximumValidityDays = 397,
      o_now = DateAt 1700000000000, o_signingKey = Some (privateKey ca)\<rparr>"
  have ns: "certificate_names ?os = Inr ([''a.b''], [], [])"
    unfolding toy_names [symmetric] by (rule certificate_names_same) (simp_all add: toy_options_def)
  have "\<exists>cs. createCertificate toy_crypto 1700000000000 ?os = Inr cs"
    using created_certificate [OF ns, where subject = "[97, 46, 98]" and issuer = "[97, 46, 98]" and now = 1700000000000 and days = 10
        and c = toy_crypto and clock = 1700000000000]
      toy_common toy_subject toy_window by (auto simp: toy_crypto_def)
  then show ?thesis
    using ca by (auto simp: generate_trusted_def createDevelopmentCertificateChain_def toy_draws_def toy_trusted_profile_def p)
qed

lemma resolved_c: "resolved ''/c''"
  unfolding resolved_def by (rule exI [of _ "[''c'']"]) (simp add: path_of_def plain_def)

lemma toy_ready: "call_ready (toy_env b fails) toy_draws ''/c'' (\<lambda>x. None)"
  by (simp add: call_ready_def trusted_pointer_ok_def resolved_c toy_draws_def toy_uuid_ok)

lemma toy_now: "o_now (to_certificate (toy_trusted b)) = DateAt 1700000000000"
  by (simp add: toy_trusted_def toy_options_def)

lemma toy_attempt:
  "cached_attempt (toy_env b (\<lambda>n. None)) d n ms i p ''/c'' (toy_world (\<lambda>x. None)\<lparr>w_operations := 1\<rparr>)
    = (toy_world (\<lambda>x. None)\<lparr>w_operations := 2\<rparr>, None, Inl (file_failure ''ENOENT''))"
  by (subst empty_attempt) (simp_all add: toy_env_def toy_world_def)

lemma toy_ensured:
  assumes "generate_trusted toy_draws toy_trusted_profile (DateAt 1700000000000) = Inr ch"
  shows "ensureTrustedOnce (toy_env b (\<lambda>n. None)) toy_draws (toy_trusted i) ''/c'' (toy_world (\<lambda>x. None))
    = store_chain (toy_env b (\<lambda>n. None)) toy_draws i toy_trusted_profile ''/c'' None ch (toy_world (\<lambda>x. None)\<lparr>w_operations := 2\<rparr>)"
proof -
  have m0: "make_directory (toy_env b (\<lambda>n. None)) (toy_world (\<lambda>x. None)) = (toy_world (\<lambda>x. None)\<lparr>w_operations := 1\<rparr>, Inr ())"
    by (simp add: make_directory_def and_then_def next_failure_def toy_env_def toy_world_def)
  have i: "to_installTrust (toy_trusted i) = i" by (simp add: toy_trusted_def)
  show ?thesis
    unfolding ensureTrustedOnce_def and_then_def toy_profile toy_margin lift_result_def map_sum.simps prod.case sum.case m0 toy_attempt
      toy_now assms i
    by (simp add: file_failure_def)
qed

lemma calm_atomically:
  assumes "te_fails e = (\<lambda>n. None)" and "w_files w (path @ ''.'' @ decimal (te_pid e) @ ''.'' @ i @ ''.tmp'') = None"
  shows "\<exists>w'. trusted_writeAtomically e i path f w = (w', Inr ()) \<and> w_files w' path = Some f"
proof -
  define tmp where tmp: "tmp = path @ ''.'' @ decimal (te_pid e) @ ''.'' @ i @ ''.tmp''"
  have "path \<noteq> tmp" by (simp add: tmp)
  then show ?thesis
    unfolding trusted_writeAtomically_def Let_def tmp [symmetric]
    using write_free [OF assms(1) assms(2) [folded tmp], of f]
    by (simp add: and_then_def rename_file_def remove_file_def next_failure_def assms(1))
qed

lemma toy_written:
  "\<exists>w'. store_chain (toy_env True (\<lambda>n. None)) toy_draws False p ''/c'' None ch (toy_world (\<lambda>x. None)\<lparr>w_operations := 2\<rparr>) = (w', Inr
     \<lparr>tu_authorityCertificateFile = authority_path ''/c'' (td_identifier toy_draws),
      tu_certificateFile = certificate_path ''/c'' (td_identifier toy_draws),
      tu_privateKeyFile = private_key_path ''/c'' (td_identifier toy_draws), tu_fingerprint = normalized_fingerprint ''B'',
      tu_reused = False, tu_trusted = False, tu_validFrom = ch_validFrom ch, tu_validTo = ch_validTo ch\<rparr>)
    \<and> w_files w' (trusted_pointer_path ''/c'') \<noteq> None"
proof -
  let ?e = "toy_env True (\<lambda>n. None)"
  let ?w = "toy_world (\<lambda>x. None)\<lparr>w_operations := 5, w_files := [authority_path ''/c'' (td_identifier toy_draws) \<mapsto> TText (ch_authorityPEM ch),
      certificate_path ''/c'' (td_identifier toy_draws) \<mapsto> TText (ch_certificatePEM ch),
      private_key_path ''/c'' (td_identifier toy_draws) \<mapsto> TText (ch_privateKeyPEM ch)]\<rparr>"
  have calm: "te_fails ?e = (\<lambda>n. None)" "tc_parse (te_crypto ?e) t = Some toy_x509" for t by (simp_all add: toy_env_def)
  have "all_of [write_file ?e (authority_path ''/c'' (td_identifier toy_draws)) (TText (ch_authorityPEM ch)),
      write_file ?e (certificate_path ''/c'' (td_identifier toy_draws)) (TText (ch_certificatePEM ch)),
      write_file ?e (private_key_path ''/c'' (td_identifier toy_draws)) (TText (ch_privateKeyPEM ch))] (toy_world (\<lambda>x. None)\<lparr>w_operations := 2\<rparr>)
      = (?w, Inr ())"
    by (simp add: write_free toy_env_def toy_world_def)
  moreover have "w_files ?w (trusted_temporary ?e toy_draws ''/c'') = None" by simp
  from calm_atomically [OF calm(1) this [unfolded trusted_temporary_def], of "new_pointer ''/c'' (td_identifier toy_draws) (normalized_fingerprint ''B'') p"]
  obtain w' where "trusted_writeAtomically ?e (td_temporary toy_draws) (trusted_pointer_path ''/c'')
      (new_pointer ''/c'' (td_identifier toy_draws) (normalized_fingerprint ''B'') p) ?w = (w', Inr ())"
    "w_files w' (trusted_pointer_path ''/c'') \<noteq> None" by auto
  moreover have "x_fingerprint256 toy_x509 = ''B''" by (simp add: toy_x509_def)
  ultimately show ?thesis
    by (simp add: store_chain_def Let_def trust_authority_def and_then_def calm(2))
qed

theorem trusted_pointer_safe_witness:
  "\<exists>w' x. ensureTrustedOnce (toy_env True (\<lambda>n. None)) toy_draws (toy_trusted False) ''/c'' (toy_world (\<lambda>x. None)) = (w', Inr x)
    \<and> w_files w' (trusted_pointer_path ''/c'') \<noteq> None \<and> trusted_pointer_ok ''/'' ''/c'' (w_files w')"
proof -
  obtain ch where ch: "generate_trusted toy_draws toy_trusted_profile (DateAt 1700000000000) = Inr ch" using toy_chain by blast
  obtain w' r where m: "ensureTrustedOnce (toy_env True (\<lambda>n. None)) toy_draws (toy_trusted False) ''/c'' (toy_world (\<lambda>x. None)) = (w', r)"
    by fastforce
  have "(\<exists>x. r = Inr x) \<and> w_files w' (trusted_pointer_path ''/c'') \<noteq> None"
    using m [unfolded toy_ensured [OF ch]]
    using toy_written [of toy_trusted_profile ch] by auto
  moreover have "te_cwd (toy_env True (\<lambda>n. None)) = ''/''" by (simp add: toy_env_def)
  ultimately show ?thesis
    using trusted_pointer_safe [OF _ toy_profile m] toy_ready m by (auto simp: toy_world_def)
qed

lemma toy_refused:
  assumes "generate_trusted toy_draws toy_trusted_profile (DateAt 1700000000000) = Inr ch"
  shows "\<exists>w' err. ensureTrustedOnce (toy_env False (\<lambda>n. None)) toy_draws (toy_trusted True) ''/c'' (toy_world (\<lambda>x. None)) = (w', Inl (OnTrust err))"
proof -
  let ?e = "toy_env False (\<lambda>n. None)" and ?a = "authority_path ''/c'' (td_identifier toy_draws)"
  let ?w = "toy_world (\<lambda>x. None)\<lparr>w_operations := 5, w_files := [?a \<mapsto> TText (ch_authorityPEM ch),
      certificate_path ''/c'' (td_identifier toy_draws) \<mapsto> TText (ch_certificatePEM ch),
      private_key_path ''/c'' (td_identifier toy_draws) \<mapsto> TText (ch_privateKeyPEM ch)]\<rparr>"
  have "all_of [write_file ?e ?a (TText (ch_authorityPEM ch)),
      write_file ?e (certificate_path ''/c'' (td_identifier toy_draws)) (TText (ch_certificatePEM ch)),
      write_file ?e (private_key_path ''/c'' (td_identifier toy_draws)) (TText (ch_privateKeyPEM ch))] (toy_world (\<lambda>x. None)\<lparr>w_operations := 2\<rparr>)
      = (?w, Inr ())"
    by (simp add: write_free toy_env_def toy_world_def)
  moreover obtain w' err where "trust_authority ?e True ?a (authority_name toy_trusted_profile) ?w = (w', Inl (OnTrust err))"
    by (simp add: trust_authority_def read_certificate_def and_then_def read_file_def next_failure_def toy_env_def toy_world_def on_system_def
        toy_x509_def toy_steps)
  moreover have "tc_parse (te_crypto ?e) t = Some toy_x509" for t by (simp add: toy_env_def)
  ultimately show ?thesis
    unfolding toy_ensured [OF assms] store_chain_def Let_def
    by (simp add: and_then_def [of "all_of _"] and_then_def [of "trust_authority _ _ _ _"])
qed

theorem failed_trust_leaves_key_witness:
  "\<exists>w' err. ensureTrustedOnce (toy_env False (\<lambda>n. None)) toy_draws (toy_trusted True) ''/c'' (toy_world (\<lambda>x. None)) = (w', Inl (OnTrust err))
    \<and> w_files w' (private_key_path ''/c'' (toy_uuid CHR ''a'')) \<noteq> None"
proof -
  obtain ch where ch: "generate_trusted toy_draws toy_trusted_profile (DateAt 1700000000000) = Inr ch" using toy_chain by blast
  obtain w' err where m: "ensureTrustedOnce (toy_env False (\<lambda>n. None)) toy_draws (toy_trusted True) ''/c'' (toy_world (\<lambda>x. None)) = (w', Inl (OnTrust err))"
    using toy_refused [OF ch] by blast
  have "\<exists>p u. chain_at (w_files w') p (authority_path ''/c'' (td_identifier toy_draws)) (certificate_path ''/c'' (td_identifier toy_draws))
        (private_key_path ''/c'' (td_identifier toy_draws))"
    using failed_trust_leaves_key [OF _ _ _ m] toy_ready by (auto simp: toy_world_def toy_env_def)
  then have "w_files w' (private_key_path ''/c'' (toy_uuid CHR ''a'')) \<noteq> None" by (auto simp: chain_at_def toy_draws_def)
  then show ?thesis using m by blast
qed

definition toy_cache :: trusted_cache where
  "toy_cache = \<lparr>ta_authority = ''/c/x'', ta_certificate = ''/c/y'', ta_fingerprint = ''B'', ta_key = ''/c/z'',
     ta_authorityName = Some ''ca'', ta_profile = Some toy_trusted_profile\<rparr>"

definition toy_pointer :: trusted_file where
  "toy_pointer = TPointer \<lparr>tp_formatVersion = Some 1, tp_authorityCertificateFile = Some ''/c/x'', tp_certificateFile = Some ''/c/y'',
     tp_fingerprint = Some ''B'', tp_privateKeyFile = Some ''/c/z'', tp_authorityName = Some ''ca'', tp_profile = Some toy_trusted_profile\<rparr>"

definition toy_files :: trusted_files where
  "toy_files = [''/c/trusted-current.json'' \<mapsto> toy_pointer, ''/c/x'' \<mapsto> TText ''x'', ''/c/y'' \<mapsto> TText ''y'', ''/c/z'' \<mapsto> TText ''z'']"

lemma toy_cache_paths: "resolve ''/'' ''/c'' = ''/c''" "trusted_pointer_path ''/c'' = ''/c/trusted-current.json''"
  "trusted_cachePath ''/'' ''/c'' (Some ''/c/x'') = Inr ''/c/x''" "trusted_cachePath ''/'' ''/c'' (Some ''/c/y'') = Inr ''/c/y''"
  "trusted_cachePath ''/'' ''/c'' (Some ''/c/z'') = Inr ''/c/z''"
  by code_simp+

lemma toy_parsed: "parse_trusted_cache ''/'' ''/c'' toy_pointer = Inr toy_cache"
  by (simp add: parse_trusted_cache_def toy_pointer_def toy_cache_paths normalizeFingerprint_def toy_normal toy_cache_def)

lemma toy_removal:
  assumes "fails 0 = None" "fails (Suc 0) = None"
  shows "removeTrusted (toy_env True fails) (Some ''/c'') (toy_world toy_files) =
    and_then (all_of (map (remove_file (toy_env True fails)) (removed_files ''/c'' toy_cache))) (\<lambda>_. gives True)
      (toy_world toy_files\<lparr>w_operations := 2\<rparr>)"
proof -
  let ?e = "toy_env True fails"
  have p: "w_files (toy_world toy_files) ''/c/trusted-current.json'' = Some toy_pointer" "w_files (toy_world toy_files) ''/c/x'' = Some (TText ''x'')"
    by (simp_all add: toy_world_def toy_files_def)
  have r: "read_trusted_cache ?e ''/c'' (toy_world toy_files) = (toy_world toy_files\<lparr>w_operations := 1\<rparr>, Inr toy_cache)"
    using p by (simp add: read_trusted_cache_def and_then_def read_file_def next_failure_def toy_cache_paths toy_env_def toy_parsed lift_result_def
        toy_world_def assms)
  have v: "validateCachedAuthority ?e toy_cache (toy_world toy_files\<lparr>w_operations := 1\<rparr>) = (toy_world toy_files\<lparr>w_operations := 2\<rparr>, Inr ''ca'')"
    using p by (simp add: validateCachedAuthority_def read_certificate_def and_then_def read_file_def next_failure_def toy_env_def toy_cache_def
        toy_world_def toy_x509_def toy_normal assms)
  have s: "on_system (removeAuthorityTrust (te_host ?e) ''/c/x'' ''B'' ''ca'') (toy_world toy_files\<lparr>w_operations := 2\<rparr>) = (toy_world toy_files\<lparr>w_operations := 2\<rparr>, Inr ())"
    by (simp add: on_system_def toy_env_def toy_world_def toy_steps)
  have c: "te_cwd ?e = ''/''" by (simp add: toy_env_def)
  have a: "ta_authority toy_cache = ''/c/x''" "ta_fingerprint toy_cache = ''B''" by (simp_all add: toy_cache_def)
  show ?thesis
    unfolding removeTrusted_def Let_def option.case list.distinct if_False c toy_cache_paths r prod.case sum.case
    by (simp only: and_then_def [of "validateCachedAuthority _ _"] v prod.case sum.case and_then_def [of "on_system _"] a s removed_files_def list.map
        toy_cache_paths list.distinct if_False)
qed

theorem removal_complete_witness:
  "\<exists>w'. removeTrusted (toy_env True (\<lambda>n. None)) (Some ''/c'') (toy_world toy_files) = (w', Inr True)
    \<and> snd (removeTrusted (toy_env True (\<lambda>n. None)) (Some ''/c'') w') = Inr False"
proof -
  obtain w' where w: "removeTrusted (toy_env True (\<lambda>n. None)) (Some ''/c'') (toy_world toy_files) = (w', Inr True)"
    unfolding toy_removal [OF refl refl] removed_files_def
    by (simp add: and_then_def remove_file_def next_failure_def toy_env_def)
  have "directory_host (te_host (toy_env True (\<lambda>n. None)))" "te_fails (toy_env True (\<lambda>n. None)) = (\<lambda>n. None)"
    by (simp_all add: toy_env_def toy_directory_host)
  from removal_complete [OF this(1) w] this(2) show ?thesis using w by auto
qed

theorem interrupted_removal_stuck_witness:
  "\<exists>w1 w2. removeTrusted (toy_env True (\<lambda>n. if n = 5 then Some (''EBUSY'', False) else None)) (Some ''/c'') (toy_world toy_files)
      = (w1, Inl (file_failure ''EBUSY''))
    \<and> removeTrusted (toy_env True (\<lambda>n. None)) (Some ''/c'') w1 = (w2, Inl (file_failure ''ENOENT''))"
proof -
  let ?f = "\<lambda>n :: nat. if n = 5 then Some (''EBUSY'', False) else None"
  obtain w1 where w1: "removeTrusted (toy_env True ?f) (Some ''/c'') (toy_world toy_files) = (w1, Inl (file_failure ''EBUSY''))"
    unfolding toy_removal [of ?f, simplified] removed_files_def
    by (simp add: and_then_def remove_file_def next_failure_def toy_env_def toy_world_def)
  have e: "toy_env True ?f\<lparr>te_fails := \<lambda>n. None\<rparr> = toy_env True (\<lambda>n. None)" "te_cwd (toy_env True ?f) = ''/''"
    "te_fails (toy_env True ?f) = (\<lambda>n. if n = w_operations (toy_world toy_files) + 5 then Some (''EBUSY'', False) else None)"
    by (simp_all add: toy_env_def toy_world_def)
  obtain w2 r where w2: "removeTrusted (toy_env True (\<lambda>n. None)) (Some ''/c'') w1 = (w2, r)" by fastforce
  have "r = Inl (file_failure ''ENOENT'')"
    using interrupted_removal_stuck [OF e(3) _ w1, unfolded e toy_cache_paths, of toy_cache toy_pointer w2 r] toy_parsed w2
    by (simp add: toy_cache_def toy_world_def toy_files_def)
  then show ?thesis using w1 w2 by blast
qed

end
