(* ===== verification/Trusted_Queue.thy ===== *)
theory Trusted_Queue
  imports Js_Path Prelude
begin

text \<open>
  \<open>ensureTrustedDevelopmentCertificate\<close> of packages/dev-certificates/trusted.js: the calls for one
  directory wait for one another through the map \<open>pending\<close>. A call is its number; what it does once
  it runs is the model of Trusted_Cache.
\<close>

section \<open>State\<close>

datatype call_status = Waiting | Running | Settled bool

record queued_call =
  qc_directory :: string
  qc_previous :: "nat option"
  qc_status :: call_status
  qc_cleaned :: bool

record trusted_queue =
  tq_calls :: "queued_call list"
  tq_pending :: "string \<rightharpoonup> nat"
  tq_rejections :: nat

definition empty_queue :: trusted_queue where
  "empty_queue = \<lparr>tq_calls = [], tq_pending = Map.empty, tq_rejections = 0\<rparr>"

section \<open>Operations\<close>

text \<open>The call itself, up to its \<open>return\<close>: \<open>None\<close> is a directory that is no string.\<close>

definition call_ensure :: "string \<Rightarrow> string option \<Rightarrow> trusted_queue \<Rightarrow> trusted_queue" where
  "call_ensure cwd given q =
     (case given of
        None \<Rightarrow> q\<lparr>tq_rejections := tq_rejections q + 1\<rparr>
      | Some g \<Rightarrow>
          if g = [] then q\<lparr>tq_rejections := tq_rejections q + 1\<rparr>
          else let directory = resolve cwd g; previous = tq_pending q directory
               in q\<lparr>tq_calls := tq_calls q @ [\<lparr>qc_directory = directory, qc_previous = previous, qc_status = Waiting, qc_cleaned = False\<rparr>],
                    tq_pending := (tq_pending q)(directory \<mapsto> length (tq_calls q))\<rparr>)"

definition is_settled :: "trusted_queue \<Rightarrow> nat \<Rightarrow> bool" where
  "is_settled q n \<longleftrightarrow> n < length (tq_calls q) \<and> (\<exists>ok. qc_status (tq_calls q ! n) = Settled ok)"

text \<open>\<open>previous.catch(...).then(...)\<close>: the call runs once the previous one has settled, either way.\<close>

definition begin_call :: "nat \<Rightarrow> trusted_queue \<Rightarrow> trusted_queue" where
  "begin_call n q =
     (if n < length (tq_calls q) \<and> qc_status (tq_calls q ! n) = Waiting
         \<and> (case qc_previous (tq_calls q ! n) of None \<Rightarrow> True | Some p \<Rightarrow> is_settled q p)
      then q\<lparr>tq_calls := (tq_calls q)[n := (tq_calls q ! n)\<lparr>qc_status := Running\<rparr>]\<rparr> else q)"

definition end_call :: "nat \<Rightarrow> bool \<Rightarrow> trusted_queue \<Rightarrow> trusted_queue" where
  "end_call n ok q =
     (if n < length (tq_calls q) \<and> qc_status (tq_calls q ! n) = Running
      then q\<lparr>tq_calls := (tq_calls q)[n := (tq_calls q ! n)\<lparr>qc_status := Settled ok\<rparr>]\<rparr> else q)"

text \<open>\<open>next.then(cleanup, cleanup)\<close>.\<close>

definition clean_call :: "nat \<Rightarrow> trusted_queue \<Rightarrow> trusted_queue" where
  "clean_call n q =
     (if is_settled q n \<and> \<not> qc_cleaned (tq_calls q ! n)
      then let c = tq_calls q ! n; q1 = q\<lparr>tq_calls := (tq_calls q)[n := c\<lparr>qc_cleaned := True\<rparr>]\<rparr>
           in if tq_pending q (qc_directory c) = Some n
              then q1\<lparr>tq_pending := (tq_pending q)(qc_directory c := None)\<rparr> else q1
      else q)"

datatype queue_event = CallEnsure string "string option" | BeginCall nat | EndCall nat bool | CleanCall nat

fun queue_step :: "trusted_queue \<Rightarrow> queue_event \<Rightarrow> trusted_queue" where
  "queue_step q (CallEnsure cwd g) = call_ensure cwd g q"
| "queue_step q (BeginCall n) = begin_call n q"
| "queue_step q (EndCall n ok) = end_call n ok q"
| "queue_step q (CleanCall n) = clean_call n q"

definition queue_run :: "queue_event list \<Rightarrow> trusted_queue" where
  "queue_run es = foldl queue_step empty_queue es"

section \<open>Invariant\<close>

text \<open>\<open>same_directory q m n\<close>: the call \<open>m\<close> was made before \<open>n\<close>, for the same directory.\<close>

definition same_directory :: "trusted_queue \<Rightarrow> nat \<Rightarrow> nat \<Rightarrow> bool" where
  "same_directory q m n \<longleftrightarrow> m < n \<and> n < length (tq_calls q) \<and> qc_directory (tq_calls q ! m) = qc_directory (tq_calls q ! n)"

definition queue_inv :: "trusted_queue \<Rightarrow> bool" where
  "queue_inv q \<longleftrightarrow>
     (\<forall>n < length (tq_calls q).
        (qc_status (tq_calls q ! n) \<noteq> Waiting \<longrightarrow> (\<forall>m. same_directory q m n \<longrightarrow> is_settled q m))
        \<and> (case qc_previous (tq_calls q ! n) of
             None \<Rightarrow> \<forall>m. same_directory q m n \<longrightarrow> is_settled q m
           | Some p \<Rightarrow> same_directory q p n \<and> (\<forall>m. same_directory q m n \<longrightarrow> m \<le> p))
        \<and> (\<not> is_settled q n \<longrightarrow> tq_pending q (qc_directory (tq_calls q ! n)) \<noteq> None))
     \<and> (\<forall>d n. tq_pending q d = Some n \<longrightarrow> n < length (tq_calls q) \<and> qc_directory (tq_calls q ! n) = d
          \<and> \<not> qc_cleaned (tq_calls q ! n) \<and> (\<forall>m < length (tq_calls q). qc_directory (tq_calls q ! m) = d \<longrightarrow> m \<le> n))"

lemma queue_invD:
  assumes "queue_inv q" and "n < length (tq_calls q)"
  shows "qc_status (tq_calls q ! n) \<noteq> Waiting \<Longrightarrow> same_directory q m n \<Longrightarrow> is_settled q m"
    and "qc_previous (tq_calls q ! n) = None \<Longrightarrow> same_directory q m n \<Longrightarrow> is_settled q m"
    and "qc_previous (tq_calls q ! n) = Some p \<Longrightarrow> same_directory q p n"
    and "qc_previous (tq_calls q ! n) = Some p \<Longrightarrow> same_directory q m n \<Longrightarrow> m \<le> p"
    and "\<not> is_settled q n \<Longrightarrow> tq_pending q (qc_directory (tq_calls q ! n)) \<noteq> None"
  using assms(1) [unfolded queue_inv_def, THEN conjunct1, rule_format, OF assms(2)] by auto

lemma pendingD:
  assumes "queue_inv q" and "tq_pending q d = Some n"
  shows "n < length (tq_calls q)" "qc_directory (tq_calls q ! n) = d" "\<not> qc_cleaned (tq_calls q ! n)"
    "m < length (tq_calls q) \<Longrightarrow> qc_directory (tq_calls q ! m) = d \<Longrightarrow> m \<le> n"
  using assms(1) [unfolded queue_inv_def, THEN conjunct2, rule_format, OF assms(2)] by auto

lemma empty_queue_inv: "queue_inv empty_queue"
  by (simp add: queue_inv_def empty_queue_def)

text \<open>The last settled call, and so all calls before it.\<close>

lemma earlier_settled:
  assumes "queue_inv q" and "n < length (tq_calls q)" and "case qc_previous (tq_calls q ! n) of None \<Rightarrow> True | Some p \<Rightarrow> is_settled q p"
    and "same_directory q m n"
  shows "is_settled q m"
proof (cases "qc_previous (tq_calls q ! n)")
  case None
  then show ?thesis using queue_invD(2) [OF assms(1,2)] assms(4) by blast
next
  case (Some p)
  note p = queue_invD(3,4) [OF assms(1,2) Some]
  have s: "is_settled q p" using assms(3) Some by simp
  show ?thesis
  proof (cases "m = p")
    case False
    then have "same_directory q m p" using p(1) p(2) [OF assms(4)] assms(4) by (auto simp: same_directory_def)
    moreover have "p < length (tq_calls q)" "qc_status (tq_calls q ! p) \<noteq> Waiting" using s by (auto simp: is_settled_def)
    ultimately show ?thesis using queue_invD(1) [OF assms(1)] by blast
  qed (use s in simp)
qed

text \<open>A change of the status or the flag of one call.\<close>

lemma status_change:
  assumes inv: "queue_inv q" and n: "n < length (tq_calls q)" and "c = tq_calls q ! n"
    and c': "qc_directory c' = qc_directory c" "qc_previous c' = qc_previous c" "is_settled q n \<Longrightarrow> \<exists>ok. qc_status c' = Settled ok"
    and w: "qc_status c' \<noteq> Waiting \<Longrightarrow> qc_status c = Waiting \<Longrightarrow> \<forall>m. same_directory q m n \<longrightarrow> is_settled q m"
    and q': "tq_calls q' = (tq_calls q)[n := c']"
    and p: "tq_pending q' = tq_pending q \<or> (tq_pending q (qc_directory c) = Some n \<and> is_settled q n \<and> tq_pending q' = (tq_pending q)(qc_directory c := None))"
    and u: "qc_cleaned c' \<noteq> qc_cleaned c \<Longrightarrow> tq_pending q' (qc_directory c) \<noteq> Some n"
  shows "queue_inv q'"
proof -
  have nth: "tq_calls q' ! m = (if m = n then c' else tq_calls q ! m)" if "m < length (tq_calls q)" for m
    using that by (simp add: q' nth_list_update)
  have dir: "qc_directory (tq_calls q' ! m) = qc_directory (tq_calls q ! m)" "qc_previous (tq_calls q' ! m) = qc_previous (tq_calls q ! m)"
    if "m < length (tq_calls q)" for m
    using nth [OF that] c' assms(3) by auto
  have len: "length (tq_calls q') = length (tq_calls q)" by (simp add: q')
  have same: "same_directory q' m k = same_directory q m k" for m k
    using dir by (auto simp: same_directory_def len)
  have kept: "is_settled q m \<Longrightarrow> is_settled q' m" for m
    using nth [of m] c'(3) by (auto simp: is_settled_def len split: if_splits)
  have calls: "(qc_status (tq_calls q' ! k) \<noteq> Waiting \<longrightarrow> (\<forall>m. same_directory q' m k \<longrightarrow> is_settled q' m))
      \<and> (case qc_previous (tq_calls q' ! k) of
           None \<Rightarrow> \<forall>m. same_directory q' m k \<longrightarrow> is_settled q' m
         | Some p \<Rightarrow> same_directory q' p k \<and> (\<forall>m. same_directory q' m k \<longrightarrow> m \<le> p))
      \<and> (\<not> is_settled q' k \<longrightarrow> tq_pending q' (qc_directory (tq_calls q' ! k)) \<noteq> None)" if k: "k < length (tq_calls q)" for k
  proof (intro conjI impI allI)
    fix m assume "qc_status (tq_calls q' ! k) \<noteq> Waiting" and "same_directory q' m k"
    then show "is_settled q' m"
      using nth [OF k] w queue_invD(1) [OF inv k, of m] kept [of m] same [of m k] assms(3) by (cases "k = n") auto
  next
    show "case qc_previous (tq_calls q' ! k) of
           None \<Rightarrow> \<forall>m. same_directory q' m k \<longrightarrow> is_settled q' m
         | Some p \<Rightarrow> same_directory q' p k \<and> (\<forall>m. same_directory q' m k \<longrightarrow> m \<le> p)"
      using dir(2) [OF k] queue_invD(2,3,4) [OF inv k] kept same by (auto split: option.splits)
  next
    assume "\<not> is_settled q' k"
    then have k': "\<not> is_settled q k" using kept by blast
    then have some: "tq_pending q (qc_directory (tq_calls q ! k)) \<noteq> None" by (rule queue_invD(5) [OF inv k])
    have "qc_directory (tq_calls q ! k) \<noteq> qc_directory c" if l: "tq_pending q (qc_directory c) = Some n" "is_settled q n"
    proof
      assume d: "qc_directory (tq_calls q ! k) = qc_directory c"
      then have "k \<le> n" using pendingD(4) [OF inv l(1) k] by simp
      moreover have "k \<noteq> n" using k' l(2) by blast
      ultimately have "same_directory q k n" using d n assms(3) by (simp add: same_directory_def)
      moreover have "qc_status (tq_calls q ! n) \<noteq> Waiting" using l(2) by (auto simp: is_settled_def)
      ultimately show False using queue_invD(1) [OF inv n] k' by blast
    qed
    then show "tq_pending q' (qc_directory (tq_calls q' ! k)) \<noteq> None" using p some dir(1) [OF k] by auto
  qed
  have pend: "k < length (tq_calls q') \<and> qc_directory (tq_calls q' ! k) = d \<and> \<not> qc_cleaned (tq_calls q' ! k)
      \<and> (\<forall>m < length (tq_calls q'). qc_directory (tq_calls q' ! m) = d \<longrightarrow> m \<le> k)" if d: "tq_pending q' d = Some k" for d k
  proof -
    have old: "tq_pending q d = Some k" using p d by (auto split: if_splits)
    note l = pendingD [OF inv old]
    have "\<not> qc_cleaned (tq_calls q' ! k)" using nth [OF l(1)] l(2,3) u d assms(3) by auto
    then show ?thesis using l dir by (auto simp: len)
  qed
  show ?thesis unfolding queue_inv_def using calls pend by (simp add: len)
qed

lemma rejection_inv [simp]: "queue_inv (q\<lparr>tq_rejections := k\<rparr>) = queue_inv q"
proof -
  have "same_directory (q\<lparr>tq_rejections := k\<rparr>) = same_directory q" "is_settled (q\<lparr>tq_rejections := k\<rparr>) = is_settled q"
    by (simp_all add: same_directory_def is_settled_def fun_eq_iff)
  moreover have fields: "tq_calls (q\<lparr>tq_rejections := k\<rparr>) = tq_calls q" "tq_pending (q\<lparr>tq_rejections := k\<rparr>) = tq_pending q" by simp_all
  ultimately show ?thesis unfolding queue_inv_def by (simp only: fields)
qed

lemma call_ensure_inv: "queue_inv q \<Longrightarrow> queue_inv (call_ensure cwd given q)"
proof -
  assume inv: "queue_inv q"
  show "queue_inv (call_ensure cwd given q)"
  proof (cases "given = None \<or> given = Some []")
    case True
    then show ?thesis using inv by (auto simp: call_ensure_def)
  next
    case False
    then obtain g where g: "given = Some g" "g \<noteq> []" by auto
    define d where "d = resolve cwd g"
    let ?l = "length (tq_calls q)"
    let ?c = "\<lparr>qc_directory = d, qc_previous = tq_pending q d, qc_status = Waiting, qc_cleaned = False\<rparr>"
    define q' where q': "q' = q\<lparr>tq_calls := tq_calls q @ [?c], tq_pending := (tq_pending q)(d \<mapsto> ?l)\<rparr>"
    have len: "length (tq_calls q') = Suc ?l" by (simp add: q')
    have old: "k < ?l \<Longrightarrow> tq_calls q' ! k = tq_calls q ! k" for k by (simp add: q' nth_append)
    have new: "tq_calls q' ! ?l = ?c" by (simp add: q')
    have settled: "k < ?l \<Longrightarrow> is_settled q' k = is_settled q k" for k using old by (simp add: is_settled_def len)
    have same: "k < ?l \<Longrightarrow> same_directory q' m k = same_directory q m k" for m k using old by (auto simp: same_directory_def len)
    have last: "same_directory q' m ?l \<longleftrightarrow> m < ?l \<and> qc_directory (tq_calls q ! m) = d" for m
      using old new by (auto simp: same_directory_def len)
    have calls: "(qc_status (tq_calls q' ! n) \<noteq> Waiting \<longrightarrow> (\<forall>m. same_directory q' m n \<longrightarrow> is_settled q' m))
        \<and> (case qc_previous (tq_calls q' ! n) of
             None \<Rightarrow> \<forall>m. same_directory q' m n \<longrightarrow> is_settled q' m
           | Some p \<Rightarrow> same_directory q' p n \<and> (\<forall>m. same_directory q' m n \<longrightarrow> m \<le> p))
        \<and> (\<not> is_settled q' n \<longrightarrow> tq_pending q' (qc_directory (tq_calls q' ! n)) \<noteq> None)" if "n < Suc ?l" for n
    proof (cases "n = ?l")
      case True
      have none: "is_settled q' m" if "tq_pending q d = None" "m < ?l" "qc_directory (tq_calls q ! m) = d" for m
        using queue_invD(5) [OF inv that(2)] that settled by auto
      have some: "p < ?l \<and> qc_directory (tq_calls q ! p) = d \<and> (\<forall>m. m < ?l \<and> qc_directory (tq_calls q ! m) = d \<longrightarrow> m \<le> p)"
        if "tq_pending q d = Some p" for p
        using pendingD [OF inv that] by auto
      show ?thesis unfolding True new using none some last by (auto simp: q' split: option.split)
    next
      case False
      then have n: "n < ?l" using that by simp
      have "is_settled q' m" if "same_directory q m n" "is_settled q m" for m
        using that n settled by (auto simp: same_directory_def)
      then show ?thesis
        using queue_invD [OF inv n] old [OF n] settled [OF n] same [OF n] by (auto simp: q' split: option.split)
    qed
    have pend: "n < length (tq_calls q') \<and> qc_directory (tq_calls q' ! n) = e \<and> \<not> qc_cleaned (tq_calls q' ! n)
        \<and> (\<forall>m < length (tq_calls q'). qc_directory (tq_calls q' ! m) = e \<longrightarrow> m \<le> n)" if e: "tq_pending q' e = Some n" for e n
    proof (cases "e = d")
      case True
      then have "n = ?l" using e by (simp add: q')
      then show ?thesis using new True by (auto simp: len)
    next
      case False
      then have "tq_pending q e = Some n" using e by (simp add: q')
      note l = pendingD [OF inv this]
      show ?thesis using l old [OF l(1)] new False by (auto simp: len less_Suc_eq old)
    qed
    have "queue_inv q'" unfolding queue_inv_def using calls pend by (simp add: len)
    then show ?thesis using g by (simp add: call_ensure_def Let_def q' d_def)
  qed
qed

lemma begin_call_inv:
  assumes inv: "queue_inv q"
  shows "queue_inv (begin_call n q)"
proof (cases "n < length (tq_calls q) \<and> qc_status (tq_calls q ! n) = Waiting
    \<and> (case qc_previous (tq_calls q ! n) of None \<Rightarrow> True | Some p \<Rightarrow> is_settled q p)")
  case True
  then have eq: "begin_call n q = q\<lparr>tq_calls := (tq_calls q)[n := (tq_calls q ! n)\<lparr>qc_status := Running\<rparr>]\<rparr>"
    by (simp add: begin_call_def)
  have settled: "same_directory q m n \<Longrightarrow> is_settled q m" for m using earlier_settled [OF inv] True by blast
  show ?thesis
    unfolding eq
    by (rule status_change [OF inv, of n _ "(tq_calls q ! n)\<lparr>qc_status := Running\<rparr>"])
      (use True settled in \<open>auto simp: is_settled_def\<close>)
next
  case False
  then have "begin_call n q = q" unfolding begin_call_def by (rule if_not_P)
  then show ?thesis using inv by simp
qed

lemma end_call_inv:
  assumes inv: "queue_inv q"
  shows "queue_inv (end_call n ok q)"
proof (cases "n < length (tq_calls q) \<and> qc_status (tq_calls q ! n) = Running")
  case True
  then have eq: "end_call n ok q = q\<lparr>tq_calls := (tq_calls q)[n := (tq_calls q ! n)\<lparr>qc_status := Settled ok\<rparr>]\<rparr>"
    by (simp add: end_call_def)
  show ?thesis
    unfolding eq
    by (rule status_change [OF inv, of n _ "(tq_calls q ! n)\<lparr>qc_status := Settled ok\<rparr>"]) (use True in \<open>auto simp: is_settled_def\<close>)
next
  case False
  then have "end_call n ok q = q" unfolding end_call_def by (rule if_not_P)
  then show ?thesis using inv by simp
qed

lemma clean_call_inv:
  assumes inv: "queue_inv q"
  shows "queue_inv (clean_call n q)"
proof (cases "is_settled q n \<and> \<not> qc_cleaned (tq_calls q ! n)")
  case True
  then have n: "n < length (tq_calls q)" "\<exists>ok. qc_status (tq_calls q ! n) = Settled ok" by (simp_all add: is_settled_def)
  show ?thesis
    by (rule status_change [OF inv, of n _ "(tq_calls q ! n)\<lparr>qc_cleaned := True\<rparr>"])
      (use True n in \<open>auto simp: clean_call_def Let_def\<close>)
next
  case False
  then have "clean_call n q = q" unfolding clean_call_def by (rule if_not_P)
  then show ?thesis using inv by simp
qed

lemma queue_step_inv: "queue_inv q \<Longrightarrow> queue_inv (queue_step q e)"
  by (cases e) (simp_all add: call_ensure_inv begin_call_inv end_call_inv clean_call_inv)

interpretation tq: invariant_machine queue_step queue_inv
  by unfold_locales (rule queue_step_inv)

lemma queue_reachable: "queue_inv (queue_run es)"
  unfolding queue_run_def by (rule tq.run_inv [OF empty_queue_inv])

section \<open>Properties\<close>

text \<open>C24: the calls for one directory run one at a time, in the order they were made. In every run, when a call is running or has
  settled, all earlier calls for its directory have settled, so two running calls are for different directories.
\<close>

theorem calls_run_in_order:
  assumes "n < length (tq_calls (queue_run es))" and "qc_status (tq_calls (queue_run es) ! n) \<noteq> Waiting"
    and "m < n" and "qc_directory (tq_calls (queue_run es) ! m) = qc_directory (tq_calls (queue_run es) ! n)"
  shows "is_settled (queue_run es) m"
  using queue_invD(1) [OF queue_reachable assms(1,2)] assms by (simp add: same_directory_def)

definition toy_queue_events :: "queue_event list" where
  "toy_queue_events = [CallEnsure ''/'' (Some ''c''), CallEnsure ''/x'' (Some ''/c''), CallEnsure ''/'' (Some ''d''), BeginCall 1, BeginCall 2,
     BeginCall 0, EndCall 0 False, BeginCall 1]"

lemma toy_queue: "map qc_status (tq_calls (queue_run toy_queue_events)) = [Settled False, Running, Running]"
  "map qc_directory (tq_calls (queue_run toy_queue_events)) = [''/c'', ''/c'', ''/d'']"
  by code_simp+

theorem calls_run_in_order_witness: "is_settled (queue_run toy_queue_events) 0"
proof (rule calls_run_in_order [of 1])
  have len: "length (tq_calls (queue_run toy_queue_events)) = 3" using arg_cong [OF toy_queue(1), of length] by simp
  then show "1 < length (tq_calls (queue_run toy_queue_events))" by simp
  have "map qc_status (tq_calls (queue_run toy_queue_events)) ! 1 = Running" by (simp only: toy_queue) simp
  then show "qc_status (tq_calls (queue_run toy_queue_events) ! 1) \<noteq> Waiting" using len by simp
  have "map qc_directory (tq_calls (queue_run toy_queue_events)) ! 0 = map qc_directory (tq_calls (queue_run toy_queue_events)) ! 1"
    by (simp only: toy_queue) simp
  then show "qc_directory (tq_calls (queue_run toy_queue_events) ! 0) = qc_directory (tq_calls (queue_run toy_queue_events) ! 1)" using len by simp
qed simp

text \<open>no call waits for ever and the map does not grow. A waiting call can begin as soon as the earlier calls for its directory have
  settled, whether they succeeded or not; and once every call has settled and its cleanup has run, the map is empty.
\<close>

theorem queue_drains:
  "(\<forall>n < length (tq_calls (queue_run es)). qc_status (tq_calls (queue_run es) ! n) = Waiting \<longrightarrow>
      (\<forall>m < n. qc_directory (tq_calls (queue_run es) ! m) = qc_directory (tq_calls (queue_run es) ! n) \<longrightarrow> is_settled (queue_run es) m) \<longrightarrow>
      qc_status (tq_calls (begin_call n (queue_run es)) ! n) = Running)
   \<and> ((\<forall>c \<in> set (tq_calls (queue_run es)). qc_cleaned c) \<longrightarrow> tq_pending (queue_run es) = Map.empty)"
proof (intro conjI impI allI)
  let ?q = "queue_run es"
  fix n
  assume n: "n < length (tq_calls ?q)" "qc_status (tq_calls ?q ! n) = Waiting"
    and settled: "\<forall>m < n. qc_directory (tq_calls ?q ! m) = qc_directory (tq_calls ?q ! n) \<longrightarrow> is_settled ?q m"
  have "case qc_previous (tq_calls ?q ! n) of None \<Rightarrow> True | Some p \<Rightarrow> is_settled ?q p"
    using queue_invD(3) [OF queue_reachable n(1)] settled by (auto simp: same_directory_def split: option.split)
  then show "qc_status (tq_calls (begin_call n ?q) ! n) = Running" using n by (simp add: begin_call_def)
next
  let ?q = "queue_run es"
  assume cleaned: "\<forall>c \<in> set (tq_calls ?q). qc_cleaned c"
  show "tq_pending ?q = Map.empty"
  proof
    fix d
    show "tq_pending ?q d = None"
      using pendingD(1,3) [OF queue_reachable, of es d] cleaned by (cases "tq_pending ?q d") auto
  qed
qed

theorem queue_drains_witness:
  "qc_status (tq_calls (begin_call 0 (queue_run [CallEnsure ''/'' (Some ''c'')])) ! 0) = Running"
proof -
  have q: "length (tq_calls (queue_run [CallEnsure ''/'' (Some ''c'')])) = 1"
    "qc_status (tq_calls (queue_run [CallEnsure ''/'' (Some ''c'')]) ! 0) = Waiting"
    by (simp_all add: queue_run_def empty_queue_def call_ensure_def Let_def)
  show ?thesis using queue_drains [of "[CallEnsure ''/'' (Some ''c'')]", THEN conjunct1, rule_format, of 0] q by simp
qed

end
