(* ===== verification/Tcp_Listener.thy ===== *)
theory Tcp_Listener
  imports Js_Map Http_Lifecycle
begin

text \<open>
  The listeners that \<open>start\<close> of packages/server/HTTPServer.js puts on the TCP server: which of them
  answers a request, in which order they run, which connections and sessions are open, and how errors are reported. The
  events come from Node's HTTP/2 server; streams, sessions and sockets are numbered.
\<close>

section \<open>Events and actions\<close>

text \<open>Where a request or a CONNECT comes from: \<open>httpVersion\<close> is 2.0 exactly for an HTTP/2 stream.\<close>

datatype request_source = OnStream nat | OnSocket nat

datatype listener_event =
    StreamArrives nat string "string option" "string option"
  | RequestOnSocket nat
  | ConnectOnSocket nat
  | UpgradeMade nat
  | SessionOpened nat
  | SessionClosed nat
  | SocketOpened nat
  | SocketClosed nat
  | ServerFailed

datatype listener_action =
    AcceptH2WebSocket nat
  | RefuseStream nat nat
  | ContinueStream nat
  | RefuseByNode nat nat
  | AnswerRequest request_source
  | RefuseConnect nat nat
  | RefuseSocket nat nat
  | AcceptH1WebSocket nat
  | ReportServerFailure

text \<open>The server of \<open>createSecureServer\<close> emits \<open>stream\<close> alone. When the first listener for
  \<open>request\<close> is put on it, Node adds a \<open>stream\<close> listener of its own, behind those that are there, which emits
  \<open>request\<close> or \<open>connect\<close> (the compatibility layer of \<open>node:http2\<close>). Listeners run in the order in which they were
  added.\<close>

datatype stream_listener = OwnStream | CompatStream

record node_emitter =
  streamListeners :: "stream_listener list"
  requestListener :: bool
  connectListener :: bool

definition tcp_on :: "node_emitter \<Rightarrow> string \<Rightarrow> node_emitter" where
  "tcp_on em event_name =
     (if event_name = ''stream'' then em\<lparr>streamListeners := streamListeners em @ [OwnStream]\<rparr>
      else if event_name = ''request''
      then em\<lparr>streamListeners := streamListeners em @ (if requestListener em then [] else [CompatStream]), requestListener := True\<rparr>
      else if event_name = ''connect'' then em\<lparr>connectListener := True\<rparr>
      else em)"

definition start_listens :: node_emitter where
  "start_listens = foldl tcp_on \<lparr>streamListeners = [], requestListener = False, connectListener = False\<rparr>
     [''stream'', ''request'', ''connect'', ''upgrade'', ''session'', ''connection'', ''error'']"

record tcp_listeners =
  emitter :: node_emitter
  claimedH2Streams :: "nat list"
  tcpSessions :: "nat list"
  tcpSockets :: "nat list"
  serverState :: server_state
  webSocketHandler :: bool
  upgradeListeners :: nat

section \<open>The listeners\<close>

definition on_stream :: "nat \<Rightarrow> string \<Rightarrow> string option \<Rightarrow> tcp_listeners \<Rightarrow> tcp_listeners \<times> listener_action list" where
  "on_stream i verb protocol s =
     (if verb \<noteq> ''CONNECT'' \<or> protocol = None then (s, [])
      else (s\<lparr>claimedH2Streams := set_add (claimedH2Streams s) i\<rparr>,
            if protocol = Some ''websocket'' then [AcceptH2WebSocket i] else [RefuseStream i 501]))"

definition on_request :: "request_source \<Rightarrow> tcp_listeners \<Rightarrow> listener_action list" where
  "on_request r s =
     (case r of
        OnStream i \<Rightarrow> if i \<in> set (claimedH2Streams s) then [] else [AnswerRequest r]
      | OnSocket _ \<Rightarrow> [AnswerRequest r])"

definition on_connect :: "request_source \<Rightarrow> tcp_listeners \<Rightarrow> listener_action list" where
  "on_connect r s =
     (case r of
        OnStream i \<Rightarrow> if i \<in> set (claimedH2Streams s) then [] else [RefuseConnect i 501]
      | OnSocket k \<Rightarrow> [RefuseSocket k 501])"

text \<open>Another listener for \<open>upgrade\<close> may be on the server, put there by the application.\<close>

definition on_upgrade :: "nat \<Rightarrow> tcp_listeners \<Rightarrow> listener_action list" where
  "on_upgrade k s =
     (if \<not> webSocketHandler s \<and> upgradeListeners s > 1 then [] else [AcceptH1WebSocket k])"

text \<open>The listener of Node: a CONNECT is emitted as \<open>connect\<close>, and ended with 405 when nobody listens; a request whose
  \<open>expect\<close> field names something else than 100-continue is ended with 417; any other is emitted as \<open>request\<close>.\<close>

definition on_compat_stream :: "nat \<Rightarrow> string \<Rightarrow> string option \<Rightarrow> tcp_listeners \<Rightarrow> listener_action list" where
  "on_compat_stream i verb expect s =
     (if verb = ''CONNECT''
      then (if connectListener (emitter s) then on_connect (OnStream i) s else [RefuseByNode i 405])
      else case expect of
        None \<Rightarrow> on_request (OnStream i) s
      | Some e \<Rightarrow> if e = ''100-continue'' then ContinueStream i # on_request (OnStream i) s else [RefuseByNode i 417])"

definition run_stream_listener ::
  "nat \<Rightarrow> string \<Rightarrow> string option \<Rightarrow> string option \<Rightarrow> tcp_listeners \<Rightarrow> stream_listener \<Rightarrow> tcp_listeners \<times> listener_action list" where
  "run_stream_listener i verb protocol expect s l =
     (case l of OwnStream \<Rightarrow> on_stream i verb protocol s | CompatStream \<Rightarrow> (s, on_compat_stream i verb expect s))"

text \<open>Emitting \<open>stream\<close> runs its listeners one after the other.\<close>

fun emit_stream ::
  "nat \<Rightarrow> string \<Rightarrow> string option \<Rightarrow> string option \<Rightarrow> stream_listener list \<Rightarrow> tcp_listeners \<Rightarrow> tcp_listeners \<times> listener_action list" where
  "emit_stream i verb protocol expect [] s = (s, [])"
| "emit_stream i verb protocol expect (l # ls) s =
     (case run_stream_listener i verb protocol expect s l of
        (s1, as) \<Rightarrow> case emit_stream i verb protocol expect ls s1 of (s2, bs) \<Rightarrow> (s2, as @ bs))"

fun listener_step :: "tcp_listeners \<Rightarrow> listener_event \<Rightarrow> tcp_listeners \<times> listener_action list" where
  "listener_step s (StreamArrives i verb protocol expect) =
     emit_stream i verb protocol expect (streamListeners (emitter s)) s"
| "listener_step s (RequestOnSocket k) = (s, on_request (OnSocket k) s)"
| "listener_step s (ConnectOnSocket k) = (s, on_connect (OnSocket k) s)"
| "listener_step s (UpgradeMade k) = (s, on_upgrade k s)"
| "listener_step s (SessionOpened n) = (s\<lparr>tcpSessions := set_add (tcpSessions s) n\<rparr>, [])"
| "listener_step s (SessionClosed n) = (s\<lparr>tcpSessions := set_delete (tcpSessions s) n\<rparr>, [])"
| "listener_step s (SocketOpened k) = (s\<lparr>tcpSockets := set_add (tcpSockets s) k\<rparr>, [])"
| "listener_step s (SocketClosed k) = (s\<lparr>tcpSockets := set_delete (tcpSockets s) k\<rparr>, [])"
| "listener_step s ServerFailed = (s, if serverState s = Started then [ReportServerFailure] else [])"

fun listener_run :: "tcp_listeners \<Rightarrow> listener_event list \<Rightarrow> tcp_listeners \<times> listener_action list" where
  "listener_run s [] = (s, [])"
| "listener_run s (e # es) =
     (case listener_step s e of (s1, as) \<Rightarrow> case listener_run s1 es of (s2, bs) \<Rightarrow> (s2, as @ bs))"

definition new_listeners :: "bool \<Rightarrow> nat \<Rightarrow> tcp_listeners" where
  "new_listeners handler n = \<lparr>emitter = start_listens, claimedH2Streams = [], tcpSessions = [], tcpSockets = [], serverState = Starting,
     webSocketHandler = handler, upgradeListeners = n\<rparr>"

section \<open>Errors\<close>

text \<open>\<open>HTTPServerError\<close> with its details, and what the application's error handler does when it is called.\<close>

record tcp_error =
  te_code :: string
  te_message :: string
  te_operation :: string
  te_id :: "string option"
  te_protocol :: "string option"

definition tcp_server_failure :: tcp_error where
  "tcp_server_failure = \<lparr>te_code = ''ERR_HTTP_TCP_SERVER'', te_message = ''The TCP HTTP server failed'',
     te_operation = ''tcp-server'', te_id = None, te_protocol = Some ''TCP''\<rparr>"

definition webSocketFailure :: "string \<Rightarrow> string option \<Rightarrow> string option \<Rightarrow> tcp_error" where
  "webSocketFailure sid operation' protocol' =
     \<lparr>te_code = ''ERR_HTTP_HANDLER_FAILURE'', te_message = ''WebSocket handler failed'',
      te_operation = (case operation' of None \<Rightarrow> ''websocket'' | Some op' \<Rightarrow> op'), te_id = Some sid, te_protocol = protocol'\<rparr>"

datatype tcp_error_handler = Absent | Settles | Rejects | Throws

datatype report_action = CallErrorHandler tcp_error | ConsoleError string

definition reportTcpError :: "tcp_error_handler \<Rightarrow> tcp_error \<Rightarrow> report_action list" where
  "reportTcpError h err =
     (case h of
        Absent \<Rightarrow> []
      | Settles \<Rightarrow> [CallErrorHandler err]
      | Rejects \<Rightarrow> [CallErrorHandler err, ConsoleError ''HTTP server error handler rejected'']
      | Throws \<Rightarrow> [CallErrorHandler err, ConsoleError ''HTTP server error handler threw''])"

section \<open>One stream in a run\<close>

text \<open>What the events and the actions are about.\<close>

fun event_stream :: "listener_event \<Rightarrow> nat option" where
  "event_stream (StreamArrives i _ _ _) = Some i"
| "event_stream _ = None"

fun answered_stream :: "listener_action \<Rightarrow> nat option" where
  "answered_stream (AcceptH2WebSocket i) = Some i"
| "answered_stream (RefuseStream i _) = Some i"
| "answered_stream (AnswerRequest (OnStream i)) = Some i"
| "answered_stream (RefuseConnect i _) = Some i"
| "answered_stream (RefuseByNode i _) = Some i"
| "answered_stream _ = None"

abbreviation about_stream :: "nat \<Rightarrow> listener_event list \<Rightarrow> listener_event list" where
  "about_stream i \<equiv> filter (\<lambda>e. event_stream e = Some i)"

abbreviation answers_to :: "nat \<Rightarrow> listener_action list \<Rightarrow> listener_action list" where
  "answers_to i \<equiv> filter (\<lambda>a. answered_stream a = Some i)"

lemma start_listens_order [simp]: "streamListeners start_listens = [OwnStream, CompatStream]" "connectListener start_listens"
  by (simp_all add: start_listens_def tcp_on_def)

lemma own_stream [simp]: "emitter (fst (on_stream i verb protocol s)) = emitter s"
  by (simp add: on_stream_def)

text \<open>Both listeners, the one of the server first.\<close>

lemma stream_arrives:
  assumes "emitter s = start_listens"
  shows "listener_step s (StreamArrives i verb protocol expect)
    = (case on_stream i verb protocol s of (t, as) \<Rightarrow> (t, as @ on_compat_stream i verb expect t))"
  using assms by (simp add: run_stream_listener_def split: prod.split)

lemma emitter_kept: "emitter s = start_listens \<Longrightarrow> emitter (fst (listener_step s e)) = start_listens"
  by (cases e) (auto simp: stream_arrives on_stream_def split: prod.split simp del: listener_step.simps(1) emit_stream.simps)

lemma other_stream_step:
  assumes "event_stream e \<noteq> Some i" and "emitter s = start_listens"
  shows "answers_to i (snd (listener_step s e)) = []"
    "i \<in> set (claimedH2Streams (fst (listener_step s e))) \<longleftrightarrow> i \<in> set (claimedH2Streams s)"
proof -
  have "answers_to i (snd (listener_step s e)) = []
    \<and> (i \<in> set (claimedH2Streams (fst (listener_step s e))) \<longleftrightarrow> i \<in> set (claimedH2Streams s))"
  proof (cases e)
    case (StreamArrives j verb protocol expect)
    then show ?thesis
      using assms
      by (auto simp: stream_arrives on_stream_def on_compat_stream_def on_request_def on_connect_def split: option.split
          simp del: listener_step.simps(1))
  qed (use assms in \<open>simp_all add: on_request_def on_connect_def on_upgrade_def\<close>)
  then show "answers_to i (snd (listener_step s e)) = []"
    "i \<in> set (claimedH2Streams (fst (listener_step s e))) \<longleftrightarrow> i \<in> set (claimedH2Streams s)" by blast+
qed

lemma same_stream_step:
  assumes "event_stream e = Some i" and "emitter s = start_listens" and "emitter t = start_listens"
    and "i \<in> set (claimedH2Streams s) \<longleftrightarrow> i \<in> set (claimedH2Streams t)"
  shows "snd (listener_step s e) = snd (listener_step t e)
    \<and> (i \<in> set (claimedH2Streams (fst (listener_step s e))) \<longleftrightarrow> i \<in> set (claimedH2Streams (fst (listener_step t e))))"
proof (cases e)
  case (StreamArrives j verb protocol expect)
  then show ?thesis
    using assms
    by (auto simp: stream_arrives on_stream_def on_compat_stream_def on_request_def on_connect_def split: option.split
        simp del: listener_step.simps(1))
qed (use assms in simp_all)

lemma listener_run_Cons:
  "snd (listener_run s (e # es)) = snd (listener_step s e) @ snd (listener_run (fst (listener_step s e)) es)"
  "fst (listener_run s (e # es)) = fst (listener_run (fst (listener_step s e)) es)"
  by (simp_all split: prod.split)

lemma stream_alone:
  "emitter s = start_listens \<Longrightarrow> emitter t = start_listens \<Longrightarrow>
   i \<in> set (claimedH2Streams s) \<longleftrightarrow> i \<in> set (claimedH2Streams t) \<Longrightarrow>
   answers_to i (snd (listener_run s es)) = answers_to i (snd (listener_run t (about_stream i es)))"
proof (induction es arbitrary: s t)
  case (Cons e es)
  note kept = emitter_kept [OF Cons.prems(1)] emitter_kept [OF Cons.prems(2)]
  show ?case
  proof (cases "event_stream e = Some i")
    case True
    note step = same_stream_step [OF True Cons.prems]
    from Cons.IH [OF kept(1,2)] step True show ?thesis
      by (simp add: listener_run_Cons(1) del: listener_run.simps(2) listener_step.simps)
  next
    case False
    note step = other_stream_step [OF False Cons.prems(1)]
    have "i \<in> set (claimedH2Streams (fst (listener_step s e))) \<longleftrightarrow> i \<in> set (claimedH2Streams t)"
      using step(2) Cons.prems by blast
    from Cons.IH [OF kept(1) Cons.prems(2) this] step(1) False show ?thesis
      by (simp add: listener_run_Cons(1) del: listener_run.simps(2) listener_step.simps)
  qed
qed simp

text \<open>What the listeners are to do with a request: one answer.\<close>

definition stream_answer :: "nat \<Rightarrow> string \<Rightarrow> string option \<Rightarrow> string option \<Rightarrow> listener_action" where
  "stream_answer i verb protocol expect =
     (if verb \<noteq> ''CONNECT''
      then (if expect = None \<or> expect = Some ''100-continue'' then AnswerRequest (OnStream i) else RefuseByNode i 417)
      else case protocol of
        None \<Rightarrow> RefuseConnect i 501
      | Some p \<Rightarrow> if p = ''websocket'' then AcceptH2WebSocket i else RefuseStream i 501)"

section \<open>Properties\<close>

text \<open>C14: An HTTP/2 stream, which arrives once, is answered exactly once, however its arrival is mixed with other streams, sockets and sessions: a request goes to the stream handler (one that expects something else than
  100-continue is refused by Node), an extended CONNECT for WebSocket to the WebSocket handler, and every other CONNECT gets 501. It rests
  on the order in which \<open>start\<close> adds its listeners: the one that claims a stream is there before Node's own, which emits
  \<open>request\<close> and \<open>connect\<close>.\<close>

theorem each_stream_answered_once:
  assumes "about_stream i es = [StreamArrives i verb protocol expect]"
  shows "answers_to i (snd (listener_run (new_listeners handler n) es)) = [stream_answer i verb protocol expect]"
proof -
  have e: "emitter (new_listeners handler n) = start_listens" by (simp add: new_listeners_def)
  have "answers_to i (snd (listener_run (new_listeners handler n) es))
      = answers_to i (snd (listener_run (new_listeners handler n) [StreamArrives i verb protocol expect]))"
    using stream_alone [OF e e, of i es] assms by simp
  also have "\<dots> = [stream_answer i verb protocol expect]"
    using stream_arrives [OF e, of i verb protocol expect]
    by (cases protocol; cases expect)
      (auto simp: listener_run_Cons stream_answer_def new_listeners_def on_stream_def on_compat_stream_def on_request_def on_connect_def
        simp del: listener_step.simps(1) listener_run.simps(2))
  finally show ?thesis .
qed

theorem each_stream_answered_once_witness:
  "answers_to 1 (snd (listener_run (new_listeners True 1)
     [SocketOpened 7, StreamArrives 3 ''GET'' None None, StreamArrives 1 ''CONNECT'' (Some ''websocket'') None,
      StreamArrives 5 ''CONNECT'' None None])) = [AcceptH2WebSocket 1]"
proof -
  have "about_stream 1 [SocketOpened 7, StreamArrives 3 ''GET'' None None, StreamArrives 1 ''CONNECT'' (Some ''websocket'') None,
      StreamArrives 5 ''CONNECT'' None None] = [StreamArrives 1 ''CONNECT'' (Some ''websocket'') None]"
    by simp
  from each_stream_answered_once [OF this, of True 1] show ?thesis by (simp add: stream_answer_def)
qed

lemma emit_sockets [simp]: "tcpSockets (fst (emit_stream i verb protocol expect ls s)) = tcpSockets s"
proof (induction ls arbitrary: s)
  case (Cons l ls)
  have "tcpSockets (fst (run_stream_listener i verb protocol expect s l)) = tcpSockets s"
    by (simp add: run_stream_listener_def on_stream_def split: stream_listener.split)
  then show ?case using Cons.IH [of "fst (run_stream_listener i verb protocol expect s l)"] by (auto split: prod.split)
qed simp

lemma sockets_open:
  "k \<in> set (tcpSockets (fst (listener_run s es))) \<longleftrightarrow>
     (\<exists>as bs. es = as @ SocketOpened k # bs \<and> SocketClosed k \<notin> set bs) \<or> (k \<in> set (tcpSockets s) \<and> SocketClosed k \<notin> set es)"
proof (induction es arbitrary: s)
  case (Cons e es)
  have step: "k \<in> set (tcpSockets (fst (listener_step s e))) \<longleftrightarrow> e = SocketOpened k \<or> k \<in> set (tcpSockets s) \<and> e \<noteq> SocketClosed k"
    by (cases e) auto
  have "(\<exists>as bs. e # es = as @ SocketOpened k # bs \<and> SocketClosed k \<notin> set bs) \<longleftrightarrow>
      (\<exists>as bs. es = as @ SocketOpened k # bs \<and> SocketClosed k \<notin> set bs) \<or> (e = SocketOpened k \<and> SocketClosed k \<notin> set es)"
    by (auto simp: Cons_eq_append_conv)
  then show ?case using Cons.IH [of "fst (listener_step s e)"] step by (auto simp: listener_run_Cons(2) simp del: listener_run.simps(2))
qed simp

text \<open>a stop reaches every open connection. When the TCP side is closed without a grace period, or the grace
  period ends first, the sockets that are destroyed are exactly those that were opened and have not been closed since.
\<close>

theorem stop_destroys_open_sockets:
  assumes "grace = 0 \<or> \<not> closed_in_time"
  shows "DestroySocket k \<in> set (closeTCP grace closed_in_time (tcpSessions (fst (listener_run (new_listeners handler n) es)))
           (tcpSockets (fst (listener_run (new_listeners handler n) es))))
    \<longleftrightarrow> (\<exists>as bs. es = as @ SocketOpened k # bs \<and> SocketClosed k \<notin> set bs)"
  using closeTCP_reaches [OF assms] sockets_open [of k "new_listeners handler n" es] by (auto simp: new_listeners_def)

theorem stop_destroys_open_sockets_witness:
  "DestroySocket 2 \<in> set (closeTCP 0 True (tcpSessions (fst (listener_run (new_listeners True 1) [SocketOpened 1, SocketOpened 2, SocketClosed 1])))
           (tcpSockets (fst (listener_run (new_listeners True 1) [SocketOpened 1, SocketOpened 2, SocketClosed 1]))))"
  using stop_destroys_open_sockets [of 0 True 2 True 1 "[SocketOpened 1, SocketOpened 2, SocketClosed 1]"]
  by (auto simp: Cons_eq_append_conv)

end
