(* ===== verification/Tcp_Failures.thy ===== *)
theory Tcp_Failures
  imports Http_Upgrade
begin

text \<open>
  What goes wrong on the TCP side of packages/server/HTTPServer.js around an upgrade: a routing handler that closes the WebSocket it is
  asked about, and an HTTP/2 stream that refuses its response.
\<close>

section \<open>Closing while routing\<close>

text \<open>A routing handler that closes the socket and returns nothing.\<close>

definition close_router :: router where
  "close_router sys = (ws_step sys (CallClose (IntegerNumber 1000) (Some [])), RouteOther)"

lemma close_router_ok: "well_behaved close_router"
  unfolding well_behaved_def
proof
  fix sys
  have "fst (close_router sys) = ws_run sys [CallClose (IntegerNumber 1000) (Some [])]" by (simp add: close_router_def)
  then show "\<exists>calls. fst (close_router sys) = ws_run sys calls" by blast
qed

section \<open>Lemmas\<close>

lemma close_routed:
  "conn (fst (close_router (new_system limit offered)))
    = (new_connection limit offered)\<lparr>sentClose := True, readyState := CLOSING, frames := [encodeFrame 8 [3, 232]]\<rparr>"
proof -
  have "validateCloseCode (IntegerNumber 1000)" by code_simp
  moreover have "be_bytes 2 1000 = [3, 232]" by code_simp
  moreover have "utf8_encode [] = []" by code_simp
  ultimately show ?thesis
    by (simp add: close_router_def conn_spawn new_system_def start_close_def writeFrame_def new_connection_def Let_def)
qed

section \<open>Properties\<close>

definition upgrade_request :: h1_request where
  "upgrade_request = \<lparr>reqMethod = ''GET'', reqHeaders = [(''host'', One ''h''), (''upgrade'', One ''websocket''), (''connection'', One ''Upgrade''),
     (''sec-websocket-version'', One ''13''), (''sec-websocket-key'', One ''dGhlIHNhbXBsZSBub25jZQ=='')], reqUrl = ''/''\<rparr>"

text \<open>A routing handler that closes the WebSocket over HTTP/1.1: the close frame is written to the socket before the response line, the
  upgrade is answered with 101 all the same, and the connection is never opened.\<close>

theorem close_while_routing_precedes_response:
  assumes "validateH1Handshake request = Inr ()" and "webSocketMetadata (h1_target_headers request) = Inr m" and "hasWebSocketHandler s"
  shows "\<exists>s1 socket actions sys. createWebSocket close_router sid (h1_target_headers request) s = (s1, Inr (Some socket))
      \<and> frames (conn socket) = [encodeFrame 8 [3, 232]]
      \<and> handleH1WebSocket digest close_router sid request gone s = (s1, actions, Some sys)
      \<and> answered_statuses actions = [101] \<and> readyState (conn sys) = CLOSING \<and> sid \<in> set (webSockets s1)"
proof -
  let ?sys = "new_system (maxWebSocketMessageBytes s) (wsOfferedProtocols m)"
  obtain sock where sock: "close_router ?sys = (sock, RouteOther)" by (simp add: close_router_def)
  have c: "conn sock = (new_connection (maxWebSocketMessageBytes s) (wsOfferedProtocols m))\<lparr>sentClose := True, readyState := CLOSING,
      frames := [encodeFrame 8 [3, 232]]\<rparr>"
    using close_routed [of "maxWebSocketMessageBytes s" "wsOfferedProtocols m"] sock by simp
  let ?socket = "sock\<lparr>conn := conn sock\<lparr>protocol := []\<rparr>\<rparr>"
  let ?s1 = "s\<lparr>webSockets := set_add (webSockets s) sid\<rparr>"
  have create: "createWebSocket close_router sid (h1_target_headers request) s = (?s1, Inr (Some ?socket))"
    using assms(2,3) sock by (simp add: createWebSocket_def Let_def selectProtocol_def)
  have closing: "readyState (conn (ws_step ?socket (CallAccept None))) = CLOSING"
    by (simp add: conn_spawn start_accept_def c)
  show ?thesis
    using create closing assms(1) c
    by (auto simp: handleH1WebSocket_def Let_def answered_statuses_def answered_status_def)
qed

theorem close_while_routing_precedes_response_witness:
  "\<exists>actions sys s1. handleH1WebSocket (\<lambda>k. k) close_router ''1'' upgrade_request False example_tcp = (s1, actions, Some sys)
     \<and> readyState (conn sys) = CLOSING"
proof -
  have v: "validateH1Handshake upgrade_request = Inr ()" by code_simp
  obtain m where m: "webSocketMetadata (h1_target_headers upgrade_request) = Inr m"
  proof (cases "webSocketMetadata (h1_target_headers upgrade_request)")
    case (Inl e)
    have "isl (webSocketMetadata (h1_target_headers upgrade_request)) = False" by code_simp
    then show thesis using Inl by simp
  qed (rule that)
  have h: "hasWebSocketHandler example_tcp" by (simp add: example_tcp_def)
  show ?thesis using close_while_routing_precedes_response [OF v m h, of "''1''" "\<lambda>k. k" False] by blast
qed

section \<open>HTTP/2 streams whose respond throws\<close>

text \<open>The \<open>catch\<close> block of \<open>#handleH2WebSocket\<close>: what it does to the stream, and whether an exception leaves the listener.
  \<open>sent\<close> is \<open>stream.headersSent\<close> there, \<open>again_ok\<close> tells whether the second \<open>respond\<close> is taken.\<close>

definition h2_open_failed :: "bool \<Rightarrow> bool \<Rightarrow> upgrade_action list \<times> bool" where
  "h2_open_failed sent again_ok =
     (if sent then ([ReportFailure ''websocket-open'', EndStream], False)
      else if again_ok then ([ReportFailure ''websocket-open'', Respond 400 [], EndStream], False)
      else ([ReportFailure ''websocket-open''], True))"

text \<open>\<open>#handleH2WebSocket\<close> with the outcome of \<open>respond\<close> in the \<open>try\<close> block. A connection whose response is refused stays attached to its
  stream without being accepted.\<close>

definition handleH2WebSocket_respond ::
  "router \<Rightarrow> string \<Rightarrow> node_headers \<Rightarrow> tcp_state \<Rightarrow> bool \<Rightarrow> bool \<Rightarrow> bool \<Rightarrow> tcp_state \<times> upgrade_action list \<times> ws_system option \<times> bool" where
  "handleH2WebSocket_respond handler sid hs s respond_ok sent again_ok =
     (let (failure, thrown) = h2_open_failed sent again_ok
      in case createWebSocket handler sid hs s of
           (s1, Inl e) \<Rightarrow> (s1, failure, None, thrown)
         | (s1, Inr None) \<Rightarrow>
             if respond_ok then (s1, [Respond (if hasWebSocketHandler s then 403 else 501) [], EndStream], None, False)
             else (s1, failure, None, thrown)
         | (s1, Inr (Some socket)) \<Rightarrow>
             if respond_ok then (s1, [Attach, Respond 200 (h2_response_headers s1 socket)], Some (ws_step socket (CallAccept None)), False)
             else (s1\<lparr>webSockets := set_delete (webSockets s1) sid\<rparr>, Attach # failure, Some socket, thrown))"

lemma h2_open_failed_effect:
  assumes "h2_open_failed sent again_ok = (failure, thrown)"
  shows "answered_statuses failure = (if sent \<or> \<not> again_ok then [] else [400])" "EndStream \<in> set failure \<longleftrightarrow> \<not> thrown"
    "thrown \<longleftrightarrow> \<not> sent \<and> \<not> again_ok" "ReportFailure ''websocket-open'' \<in> set failure"
  using assms by (auto simp: h2_open_failed_def answered_statuses_def answered_status_def split: if_splits)

text \<open>With a stream that takes its response, and no response before it, this is the handler above.\<close>

lemma h2_respond_taken:
  "handleH2WebSocket_respond handler sid hs s True False True
    = (let (s1, actions, socket) = handleH2WebSocket handler sid hs s in (s1, actions, socket, False))"
  by (auto simp: handleH2WebSocket_respond_def handleH2WebSocket_def h2_open_failed_def Let_def split: prod.split sum.split option.split)

text \<open>C35: Whatever \<open>respond\<close> does, a WebSocket request over HTTP/2 gets at most one response. A connection stays registered exactly when its
  response was taken; after a refusal the set of WebSockets is as it was. An exception leaves the listener only when the second
  \<open>respond\<close> is refused as well, and otherwise the stream is ended or the connection is accepted.\<close>

theorem refused_response_forgotten:
  assumes "well_behaved handler" and "sid \<notin> set (webSockets s)"
    and run: "handleH2WebSocket_respond handler sid hs s respond_ok sent again_ok = (s1, actions, socket, thrown)"
  shows "length (answered_statuses actions) \<le> 1
    \<and> (200 \<in> set (answered_statuses actions) \<longleftrightarrow> sid \<in> set (webSockets s1))
    \<and> set (webSockets s1) \<subseteq> insert sid (set (webSockets s)) \<and> set (webSockets s) \<subseteq> set (webSockets s1)
    \<and> (thrown \<longrightarrow> \<not> sent \<and> \<not> again_ok) \<and> (\<not> thrown \<longrightarrow> EndStream \<in> set actions \<or> 200 \<in> set (answered_statuses actions))"
proof -
  obtain s2 r where create: "createWebSocket handler sid hs s = (s2, r)" by (meson surj_pair)
  obtain failure t where f: "h2_open_failed sent again_ok = (failure, t)" by (meson surj_pair)
  note reg = createWebSocket_registers(1) [OF assms(1,2) create]
  note effect = h2_open_failed_effect [OF f]
  note run' = run [unfolded handleH2WebSocket_respond_def create f Let_def prod.case]
  have attach: "answered_statuses (Attach # as) = answered_statuses as" for as
    by (simp add: answered_statuses_def answered_status_def)
  consider "r = Inr None \<or> (\<exists>e. r = Inl e)" | sock where "r = Inr (Some sock)" by (cases r) auto
  then show ?thesis
  proof cases
    case 1
    then have s: "s1 = s2" and a: "actions = failure \<and> thrown = t
        \<or> (\<exists>n. (n = 403 \<or> n = 501) \<and> actions = [Respond n [], EndStream] \<and> \<not> thrown)"
      using run' by (fastforce split: if_split_asm)+
    from 1 have "set (webSockets s1) = set (webSockets s)" using reg s by (elim disjE exE) simp_all
    with a show ?thesis
      using assms(2) effect by (elim disjE exE conjE) (simp_all add: answered_statuses_def answered_status_def subset_insertI)
  next
    case 2
    then have w: "set (webSockets s2) = insert sid (set (webSockets s))" using reg by simp
    show ?thesis
    proof (cases respond_ok)
      case True
      then have "s1 = s2 \<and> actions = [Attach, Respond 200 (h2_response_headers s1 sock)] \<and> \<not> thrown" using run' 2 by auto
      then show ?thesis using w by (auto simp: answered_statuses_def answered_status_def)
    next
      case False
      then have a: "actions = Attach # failure" and t: "thrown = t" and s: "s1 = s2\<lparr>webSockets := set_delete (webSockets s2) sid\<rparr>"
        using run' 2 by simp_all
      have "set (webSockets s1) = set (webSockets s)" using w assms(2) by (auto simp: s)
      then show ?thesis using assms(2) effect by (simp add: a t attach subset_insertI)
    qed
  qed
qed

theorem refused_response_forgotten_witness:
  "answered_statuses (fst (snd (handleH2WebSocket_respond accept_all ''1'' [] example_tcp False False True))) = [400]
   \<and> ''1'' \<notin> set (webSockets (fst (handleH2WebSocket_respond accept_all ''1'' [] example_tcp False False True)))"
proof -
  have "webSocketMetadata [] = Inl InvalidTarget" by code_simp
  then have r: "handleH2WebSocket_respond accept_all ''1'' [] example_tcp False False True =
      (example_tcp, [ReportFailure ''websocket-open'', Respond 400 [], EndStream], None, False)"
    by (simp add: handleH2WebSocket_respond_def h2_open_failed_def createWebSocket_def example_tcp_def)
  with refused_response_forgotten [OF accept_all_ok _ r] show ?thesis
    by (simp add: example_tcp_def answered_statuses_def answered_status_def)
qed

end
