(* ===== verification/Vite_Bridge.thy ===== *)
theory Vite_Bridge
  imports Fetch_Adapter
begin

text \<open>
  examples/vite-webtransport/vite-bridge.js: a Fetch handler made of a middleware for Node.js. The middleware calls
  methods of a response that collects what it writes; the promise of the handler is settled by the events of that
  response. The URL parser is a parameter: the parts of the URL are given.
\<close>

section \<open>The request\<close>

record url_parts =
  up_host :: string
  up_pathname :: string
  up_search :: string

record middleware_request =
  mq_headers :: "(string, string) js_map"
  mq_method :: string
  mq_originalUrl :: string
  mq_url :: string
  mq_body :: bool

text \<open>\<open>Object.fromEntries\<close> of the headers, and the host.\<close>

definition createMiddlewareRequest :: "fetch_request \<Rightarrow> url_parts \<Rightarrow> middleware_request" where
  "createMiddlewareRequest request url =
     (let path = up_pathname url @ up_search url
      in \<lparr>mq_headers = js_set (foldl (\<lambda>m (k, v). js_set m k v) [] (headers_entries (frHeaders request))) ''host'' (up_host url),
          mq_method = frMethod request, mq_originalUrl = path, mq_url = path, mq_body = frBody request\<rparr>)"

section \<open>The response of the middleware\<close>

record middleware_response =
  mr_headersSent :: bool
  mr_statusCode :: nat
  mr_statusMessage :: string
  mr_chunks :: "bytes list"
  mr_headers :: node_headers
  mr_writableEnded :: bool

definition new_middleware_response :: middleware_response where
  "new_middleware_response = \<lparr>mr_headersSent = False, mr_statusCode = 200, mr_statusMessage = '''', mr_chunks = [], mr_headers = [],
     mr_writableEnded = False\<rparr>"

text \<open>\<open>[existing, value].flat()\<close> is an array.\<close>

definition appendHeader :: "string \<Rightarrow> node_value \<Rightarrow> middleware_response \<Rightarrow> middleware_response" where
  "appendHeader name value r =
     (let key = toLowerCase name
      in case js_get (mr_headers r) key of
           None \<Rightarrow> r\<lparr>mr_headers := js_set (mr_headers r) key value\<rparr>
         | Some existing \<Rightarrow> r\<lparr>mr_headers := js_set (mr_headers r) key (Many (entries_of existing @ entries_of value))\<rparr>)"

definition getHeader :: "string \<Rightarrow> middleware_response \<Rightarrow> node_value option" where
  "getHeader name r = js_get (mr_headers r) (toLowerCase name)"

definition getHeaderNames :: "middleware_response \<Rightarrow> string list" where
  "getHeaderNames r = js_keys (mr_headers r)"

definition hasHeader :: "string \<Rightarrow> middleware_response \<Rightarrow> bool" where
  "hasHeader name r = js_has (mr_headers r) (toLowerCase name)"

definition removeHeader :: "string \<Rightarrow> middleware_response \<Rightarrow> middleware_response" where
  "removeHeader name r = r\<lparr>mr_headers := js_delete (mr_headers r) (toLowerCase name)\<rparr>"

definition setHeader :: "string \<Rightarrow> node_value \<Rightarrow> middleware_response \<Rightarrow> middleware_response" where
  "setHeader name value r = r\<lparr>mr_headers := js_set (mr_headers r) (toLowerCase name) value\<rparr>"

text \<open>The second argument of \<open>writeHead\<close>: a message, nothing, or the fields themselves. A field may be undefined.\<close>

type_synonym head_fields = "(string \<times> node_value option) list"

datatype head_message = StatusMessage string | NoMessage | FieldsInstead head_fields

definition writeHead :: "nat \<Rightarrow> head_message \<Rightarrow> head_fields \<Rightarrow> middleware_response \<Rightarrow> middleware_response" where
  "writeHead statusCode message given r =
     (let used = (case message of FieldsInstead fs \<Rightarrow> fs | _ \<Rightarrow> given);
          r1 = r\<lparr>mr_statusCode := statusCode, mr_statusMessage := (case message of StatusMessage t \<Rightarrow> t | _ \<Rightarrow> '''')\<rparr>;
          r2 = foldl (\<lambda>t (name, value). case value of None \<Rightarrow> t | Some v \<Rightarrow> setHeader name v t) r1 used
      in r2\<lparr>mr_headersSent := True\<rparr>)"

definition write_chunk :: "bytes \<Rightarrow> middleware_response \<Rightarrow> middleware_response" where
  "write_chunk chunk r = r\<lparr>mr_headersSent := True, mr_chunks := mr_chunks r @ [chunk]\<rparr>"

definition bridge_nullBodyStatuses :: "nat list" where
  "bridge_nullBodyStatuses = [101, 204, 205, 304]"

text \<open>The constructor of \<open>Response\<close> takes the statuses from 200 to 599.\<close>

datatype bridge_error = BadResponseField header_error | BadStatus nat

definition toResponse :: "string \<Rightarrow> middleware_response \<Rightarrow> bridge_error + fetch_response" where
  "toResponse verb r =
     (case regular_headers (\<lambda>name. False) (mr_headers r) [] of
        Inl e \<Rightarrow> Inl (BadResponseField e)
      | Inr hs \<Rightarrow>
          let body = (if verb = ''HEAD'' \<or> mr_statusCode r \<in> set bridge_nullBodyStatuses then None else Some [concat (mr_chunks r)])
          in if mr_statusCode r < 200 \<or> 599 < mr_statusCode r then Inl (BadStatus (mr_statusCode r))
             else Inr \<lparr>rsStatus = mr_statusCode r, rsHeaders = hs, rsBody = body\<rparr>)"

section \<open>The handler\<close>

text \<open>What the middleware does with the response, the call of \<open>next\<close>, and the events of the response. A
  thrown value is given by its text.\<close>

datatype bridge_event =
    AssignStatus nat
  | AppendField string node_value
  | SetField string node_value
  | RemoveField string
  | CallWriteHead nat head_message head_fields
  | CallWrite bytes
  | CallEnd "bytes option"
  | CallNext "string option"
  | Finished
  | Failed string
  | Closed

datatype bridge_answer = Resolved fetch_response | Rejected string

record bridge =
  br_verb :: string
  br_pathname :: string
  br_response :: middleware_response
  br_finished :: bool
  br_answer :: "bridge_answer option"
  br_uncaught :: "bridge_error option"

definition new_bridge :: "fetch_request \<Rightarrow> url_parts \<Rightarrow> bridge" where
  "new_bridge request url = \<lparr>br_verb = frMethod request, br_pathname = up_pathname url, br_response = new_middleware_response,
     br_finished = False, br_answer = None, br_uncaught = None\<rparr>"

definition settle_bridge :: "bridge_answer \<Rightarrow> bridge \<Rightarrow> bridge" where
  "settle_bridge answer b = (if br_answer b \<noteq> None then b else b\<lparr>br_answer := Some answer\<rparr>)"

definition on_response :: "(middleware_response \<Rightarrow> middleware_response) \<Rightarrow> bridge \<Rightarrow> bridge" where
  "on_response f b = b\<lparr>br_response := f (br_response b)\<rparr>"

text \<open>A write after the end adds nothing; a second end does nothing.\<close>

definition end_response :: "bytes option \<Rightarrow> middleware_response \<Rightarrow> middleware_response" where
  "end_response chunk r =
     (if mr_writableEnded r then r
      else (case chunk of None \<Rightarrow> r | Some bs \<Rightarrow> write_chunk bs r)\<lparr>mr_writableEnded := True\<rparr>)"

text \<open>\<open>finish\<close> comes once, after the end. When \<open>toResponse\<close> throws there, nothing catches it.\<close>

fun bridge_step :: "bridge \<Rightarrow> bridge_event \<Rightarrow> bridge" where
  "bridge_step b (AssignStatus n) = on_response (mr_statusCode_update (\<lambda>_. n)) b"
| "bridge_step b (AppendField name value) = on_response (appendHeader name value) b"
| "bridge_step b (SetField name value) = on_response (setHeader name value) b"
| "bridge_step b (RemoveField name) = on_response (removeHeader name) b"
| "bridge_step b (CallWriteHead n message given) = on_response (writeHead n message given) b"
| "bridge_step b (CallWrite chunk) = (if mr_writableEnded (br_response b) then b else on_response (write_chunk chunk) b)"
| "bridge_step b (CallEnd chunk) = on_response (end_response chunk) b"
| "bridge_step b (CallNext (Some err)) = settle_bridge (Rejected err) b"
| "bridge_step b (CallNext None) = on_response (end_response None \<circ> mr_statusCode_update (\<lambda>_. 404)) b"
| "bridge_step b Finished =
     (if \<not> mr_writableEnded (br_response b) \<or> br_finished b then b
      else let b1 = b\<lparr>br_finished := True\<rparr>
           in case toResponse (br_verb b) (br_response b) of
                Inl err \<Rightarrow> b1\<lparr>br_uncaught := Some err\<rparr>
              | Inr r \<Rightarrow> settle_bridge (Resolved r) b1)"
| "bridge_step b (Failed err) = settle_bridge (Rejected err) b"
| "bridge_step b Closed =
     (if br_finished b then b
      else settle_bridge (Rejected (''The response for '' @ br_pathname b @ '' closed before completing'')) b)"

definition bridge_run :: "fetch_request \<Rightarrow> url_parts \<Rightarrow> bridge_event list \<Rightarrow> bridge" where
  "bridge_run request url es = foldl bridge_step (new_bridge request url) es"

section \<open>Lemmas\<close>

text \<open>What the middleware has written before it ended the response.\<close>

fun written_chunks :: "bridge_event list \<Rightarrow> bytes list" where
  "written_chunks [] = []"
| "written_chunks (CallWrite bs # es) = bs # written_chunks es"
| "written_chunks (CallEnd (Some bs) # es) = [bs]"
| "written_chunks (CallEnd None # es) = []"
| "written_chunks (CallNext None # es) = []"
| "written_chunks (_ # es) = written_chunks es"

lemma setter_frame [simp]:
  "mr_chunks (appendHeader name v r) = mr_chunks r" "mr_writableEnded (appendHeader name v r) = mr_writableEnded r"
  "mr_chunks (setHeader name v r) = mr_chunks r" "mr_writableEnded (setHeader name v r) = mr_writableEnded r"
  "mr_chunks (removeHeader name r) = mr_chunks r" "mr_writableEnded (removeHeader name r) = mr_writableEnded r"
  "mr_chunks (write_chunk bs r) = mr_chunks r @ [bs]" "mr_writableEnded (write_chunk bs r) = mr_writableEnded r"
  by (simp_all add: appendHeader_def setHeader_def removeHeader_def write_chunk_def Let_def split: option.split)

lemma set_all_frame:
  "mr_chunks (foldl (\<lambda>t (name, value). case value of None \<Rightarrow> t | Some v \<Rightarrow> setHeader name v t) r fs) = mr_chunks r
   \<and> mr_writableEnded (foldl (\<lambda>t (name, value). case value of None \<Rightarrow> t | Some v \<Rightarrow> setHeader name v t) r fs) = mr_writableEnded r"
proof (induction fs arbitrary: r)
  case (Cons f fs)
  obtain name v where f: "f = (name, v)" by fastforce
  show ?case by (cases v) (simp_all add: f Cons.IH)
qed simp

lemma writeHead_frame [simp]:
  "mr_chunks (writeHead n msg given r) = mr_chunks r" "mr_writableEnded (writeHead n msg given r) = mr_writableEnded r"
  by (simp_all add: writeHead_def Let_def set_all_frame)

lemma bridge_frame [simp]:
  "br_response (settle_bridge a b) = br_response b" "br_verb (settle_bridge a b) = br_verb b" "br_finished (settle_bridge a b) = br_finished b"
  "br_response (on_response f b) = f (br_response b)" "br_verb (on_response f b) = br_verb b" "br_finished (on_response f b) = br_finished b"
  "br_answer (on_response f b) = br_answer b" "br_uncaught (on_response f b) = br_uncaught b"
  by (simp_all add: settle_bridge_def on_response_def)

lemma answer_stays: "br_answer b = Some a \<Longrightarrow> br_answer (foldl bridge_step b es) = Some a"
proof (induction es arbitrary: b)
  case (Cons e es)
  have "br_answer (bridge_step b e) = Some a"
    using Cons.prems by (cases "(b, e)" rule: bridge_step.cases) (auto simp: settle_bridge_def Let_def split: sum.split)
  then show ?case using Cons.IH by simp
qed simp

lemma ended_chunks:
  "mr_writableEnded (br_response b) \<Longrightarrow> mr_writableEnded (br_response (foldl bridge_step b es))
    \<and> mr_chunks (br_response (foldl bridge_step b es)) = mr_chunks (br_response b)"
proof (induction es arbitrary: b)
  case (Cons e es)
  have "mr_writableEnded (br_response (bridge_step b e)) \<and> mr_chunks (br_response (bridge_step b e)) = mr_chunks (br_response b)"
    using Cons.prems by (cases "(b, e)" rule: bridge_step.cases) (auto simp: end_response_def Let_def split: sum.split)
  then show ?case using Cons.IH [of "bridge_step b e"] by simp
qed simp

lemma run_chunks:
  "\<not> mr_writableEnded (br_response b) \<Longrightarrow>
   mr_chunks (br_response (foldl bridge_step b es)) = mr_chunks (br_response b) @ written_chunks es"
proof (induction es arbitrary: b rule: written_chunks.induct)
qed (auto simp: ended_chunks end_response_def Let_def split: sum.split)

lemma run_verb: "br_verb (foldl bridge_step b es) = br_verb b"
proof (induction es arbitrary: b)
  case (Cons e es)
  have "br_verb (bridge_step b e) = br_verb b" by (cases "(b, e)" rule: bridge_step.cases) (auto simp: Let_def split: sum.split)
  then show ?case using Cons.IH by simp
qed simp

lemma resolved_by:
  assumes "br_answer b \<noteq> Some (Resolved r)" and "br_answer (bridge_step b e) = Some (Resolved r)"
  shows "e = Finished \<and> br_answer b = None \<and> mr_writableEnded (br_response b) \<and> toResponse (br_verb b) (br_response b) = Inr r"
  using assms by (cases "(b, e)" rule: bridge_step.cases) (auto simp: settle_bridge_def Let_def split: if_splits sum.splits)

lemma resolved_split:
  assumes "br_answer b \<noteq> Some (Resolved r)" and "br_answer (foldl bridge_step b es) = Some (Resolved r)"
  shows "\<exists>es1 es2. es = es1 @ Finished # es2 \<and> br_answer (foldl bridge_step b es1) = None
    \<and> mr_writableEnded (br_response (foldl bridge_step b es1)) \<and> toResponse (br_verb b) (br_response (foldl bridge_step b es1)) = Inr r"
  using assms
proof (induction es arbitrary: b)
  case (Cons e es)
  show ?case
  proof (cases "br_answer (bridge_step b e) = Some (Resolved r)")
    case True
    from resolved_by [OF Cons.prems(1) this] have "e # es = [] @ Finished # es \<and> br_answer (foldl bridge_step b []) = None
        \<and> mr_writableEnded (br_response (foldl bridge_step b [])) \<and> toResponse (br_verb b) (br_response (foldl bridge_step b [])) = Inr r"
      by simp
    then show ?thesis by blast
  next
    case False
    obtain es1 es2 where "es = es1 @ Finished # es2 \<and> br_answer (foldl bridge_step (bridge_step b e) es1) = None
        \<and> mr_writableEnded (br_response (foldl bridge_step (bridge_step b e) es1))
        \<and> toResponse (br_verb (bridge_step b e)) (br_response (foldl bridge_step (bridge_step b e) es1)) = Inr r"
      using Cons.IH [OF False] Cons.prems(2) by auto
    moreover have "br_verb (bridge_step b e) = br_verb b" using run_verb [of b "[e]"] by simp
    ultimately have "e # es = (e # es1) @ Finished # es2 \<and> br_answer (foldl bridge_step b (e # es1)) = None
        \<and> mr_writableEnded (br_response (foldl bridge_step b (e # es1)))
        \<and> toResponse (br_verb b) (br_response (foldl bridge_step b (e # es1))) = Inr r"
      by simp
    then show ?thesis by blast
  qed
qed simp

section \<open>Properties\<close>

text \<open>C30: the promise of the handler is settled once, and with what the middleware wrote. When it is resolved, that happened at the event
  finish, after the end of the response and before anything else settled it; the status is one a Response can have, and the
  body holds what was written up to the end, in order, unless the method or the status allows none. Whatever comes later, the answer stays.
\<close>

theorem bridge_answers_with_what_was_written:
  assumes "br_answer (bridge_run request url es) = Some (Resolved r)"
  shows "\<exists>es1 es2. es = es1 @ Finished # es2 \<and> br_answer (bridge_run request url es1) = None
    \<and> mr_writableEnded (br_response (bridge_run request url es1))
    \<and> rsStatus r = mr_statusCode (br_response (bridge_run request url es1)) \<and> 200 \<le> rsStatus r \<and> rsStatus r \<le> 599
    \<and> rsBody r = (if frMethod request = ''HEAD'' \<or> rsStatus r \<in> {204, 205, 304} then None else Some [concat (written_chunks es1)])
    \<and> (\<forall>later. br_answer (bridge_run request url (es @ later)) = Some (Resolved r))"
proof -
  have "br_answer (new_bridge request url) \<noteq> Some (Resolved r)" by (simp add: new_bridge_def)
  from resolved_split [OF this assms [unfolded bridge_run_def]] obtain es1 es2 where
    e: "es = es1 @ Finished # es2" "br_answer (bridge_run request url es1) = None" "mr_writableEnded (br_response (bridge_run request url es1))"
    and r: "toResponse (frMethod request) (br_response (bridge_run request url es1)) = Inr r"
    by (auto simp: bridge_run_def new_bridge_def)
  have chunks: "mr_chunks (br_response (bridge_run request url es1)) = written_chunks es1"
    using run_chunks [of "new_bridge request url" es1] by (simp add: bridge_run_def new_bridge_def new_middleware_response_def)
  have "rsStatus r = mr_statusCode (br_response (bridge_run request url es1)) \<and> 200 \<le> rsStatus r \<and> rsStatus r \<le> 599
    \<and> rsBody r = (if frMethod request = ''HEAD'' \<or> rsStatus r \<in> {204, 205, 304} then None else Some [concat (written_chunks es1)])"
    using r by (auto simp: toResponse_def bridge_nullBodyStatuses_def chunks Let_def split: sum.splits if_splits)
  moreover have "\<forall>later. br_answer (bridge_run request url (es @ later)) = Some (Resolved r)"
    using assms answer_stays by (simp add: bridge_run_def)
  ultimately show ?thesis using e by blast
qed

definition toy_fetch_request :: fetch_request where
  "toy_fetch_request = \<lparr>frUrl = ''https://h/a'', frMethod = ''GET'', frHeaders = [], frBody = False, frProtocol = ''HTTP/2'', frSignalAborted = False\<rparr>"

definition toy_url :: url_parts where
  "toy_url = \<lparr>up_host = ''h'', up_pathname = ''/a'', up_search = ''''\<rparr>"

definition toy_bridge_events :: "bridge_event list" where
  "toy_bridge_events = [SetField ''Vary'' (One ''a''), AppendField ''vary'' (One ''b''), CallWrite [1], CallEnd (Some [2, 3]), CallWrite [4], Finished, Closed]"

lemma toy_bridge_run:
  "br_answer (bridge_run toy_fetch_request toy_url toy_bridge_events)
    = Some (Resolved \<lparr>rsStatus = 200, rsHeaders = [(''vary'', ''a''), (''vary'', ''b'')], rsBody = Some [[1, 2, 3]]\<rparr>)"
  by code_simp

theorem bridge_answers_with_what_was_written_witness:
  "br_answer (bridge_run toy_fetch_request toy_url (toy_bridge_events @ [Failed ''late'']))
    = Some (Resolved \<lparr>rsStatus = 200, rsHeaders = [(''vary'', ''a''), (''vary'', ''b'')], rsBody = Some [[1, 2, 3]]\<rparr>)"
  using bridge_answers_with_what_was_written [OF toy_bridge_run] by blast

text \<open>A status that the list of statuses without a body names and a Response cannot have: the listener throws, and the promise is
  never settled.\<close>

theorem informational_status_never_answered:
  "br_uncaught (bridge_run toy_fetch_request toy_url [CallWriteHead 101 NoMessage [], CallEnd None, Finished, Closed]) = Some (BadStatus 101)
   \<and> br_answer (bridge_run toy_fetch_request toy_url [CallWriteHead 101 NoMessage [], CallEnd None, Finished, Closed]) = None"
  by code_simp

end
