(* ===== verification/Pack_Run.thy ===== *)
theory Pack_Run
  imports Candidate_Example Candidate_Swap Js_Path "HOL-Library.Sublist"
begin

text \<open>
  scripts/pack-release.js from its arguments to its end: the check of the destination, the commands it
  runs, and what is left behind. A command is given by what comes of it; a command that ends with a status other than
  0 ends the script with \<open>process.exit\<close>, which runs no \<open>finally\<close> block.
\<close>

section \<open>The destination\<close>

definition segments :: "string \<Rightarrow> string list" where
  "segments p = filter (\<lambda>s. s \<noteq> []) (split_on (CHR ''/'') p)"

text \<open>\<open>path.relative\<close> of resolved paths.\<close>

definition relative :: "string \<Rightarrow> string \<Rightarrow> string" where
  "relative from_dir to_path =
     (let f = segments from_dir; t = segments to_path; n = length (longest_common_prefix f t)
      in join_with ''/'' (replicate (length f - n) ''..'' @ drop n t))"

definition checked_destination :: "string \<Rightarrow> string \<Rightarrow> string \<Rightarrow> string option" where
  "checked_destination root cwd argument =
     (let destination = resolve cwd argument; destinationRelative = relative root destination
      in if destinationRelative = [] \<or> starts_with destinationRelative ''..'' then None else Some destination)"

section \<open>Commands\<close>

datatype 'a command = Printed 'a | ExitsWith "nat option" | CannotStart

datatype pack_failure =
  NoNpm | OutsideRoot | NotMade | CandidateNotMade | PackError pack_error | NoSuchCommand | SwapFailed | NotRemoved

datatype pack_stop = Throws pack_failure | Exits nat

text \<open>\<open>command\<close>: a status of null, after a signal, counts as 1.\<close>

definition command_result :: "'a command \<Rightarrow> pack_stop + 'a" where
  "command_result r = (case r of Printed x \<Rightarrow> Inr x | ExitsWith n \<Rightarrow> Inl (Exits (case n of None \<Rightarrow> 1 | Some k \<Rightarrow> k)) | CannotStart \<Rightarrow> Inl (Throws NoSuchCommand))"

section \<open>The script\<close>

record pack_options =
  po_dryRun :: bool
  po_local :: bool
  po_browser :: bool
  po_protocol :: bool
  po_destination :: "string option"

text \<open>What the script runs in: \<open>npm_execpath\<close> of its environment; what npm prints, which parses or not; what comes of a script
  (for verify-candidate.js, of running it at all); whether the parent directory, the temporary directory and the candidate directory in
  it are made; which operations of the swap fail; and whether the temporary directory is removed.\<close>

record pack_host =
  ph_npm_execpath :: "string option"
  ph_root :: string
  ph_cwd :: string
  ph_os :: string
  ph_cpu :: string
  ph_report :: report
  ph_npm :: "string \<Rightarrow> packed option command"
  ph_git :: "string command"
  ph_script :: "string \<Rightarrow> unit command"
  ph_parent :: bool
  ph_temporary :: bool
  ph_candidate :: bool
  ph_fails :: "nat \<Rightarrow> bool"
  ph_removes :: bool

definition npm_output :: "pack_host \<Rightarrow> string \<Rightarrow> packed option" where
  "npm_output h path = (case ph_npm h path of Printed out \<Rightarrow> out | _ \<Rightarrow> None)"

text \<open>An uncaught exception ends verify-candidate.js with the status 1.\<close>

definition verify_script :: "pack_host \<Rightarrow> file_reader \<Rightarrow> directory \<Rightarrow> packed_manifest \<Rightarrow> unit command" where
  "verify_script h rd dir m =
     (case ph_script h ''verify-candidate.js'' of
        Printed _ \<Rightarrow> (case verify_candidate rd dir m of Inl _ \<Rightarrow> ExitsWith (Some 1) | Inr _ \<Rightarrow> Printed ())
      | stopped \<Rightarrow> stopped)"

definition candidate_scripts :: "pack_options \<Rightarrow> string list" where
  "candidate_scripts run =
     [''test-candidate.js''] @ (if po_protocol run then [''test-candidate-protocol.js''] else [])
     @ (if po_browser run then [''test-candidate-browser.js''] else [])"

fun run_scripts :: "(string \<Rightarrow> unit command) \<Rightarrow> string list \<Rightarrow> pack_stop + unit" where
  "run_scripts script [] = Inr ()"
| "run_scripts script (x # xs) = bind_result (command_result (script x)) (\<lambda>_. run_scripts script xs)"

text \<open>The body of the outer \<open>try\<close>, up to the swap.\<close>

definition pack_stage ::
  "file_reader \<Rightarrow> workspace \<Rightarrow> bytes option \<Rightarrow> pack_host \<Rightarrow> pack_options \<Rightarrow> platform list \<Rightarrow> pack_stop + packed_manifest" where
  "pack_stage rd w security h run selected =
     (case pack_candidate rd (npm_output h) w (po_local run) selected (case ph_git h of Printed c \<Rightarrow> c | _ \<Rightarrow> []) security of
        Inl (PackFailed path) \<Rightarrow>
          (case command_result (ph_npm h path) of Inl stop \<Rightarrow> Inl stop | Inr _ \<Rightarrow> Inl (Throws (PackError (PackFailed path))))
      | Inl e \<Rightarrow> Inl (Throws (PackError e))
      | Inr (dir, m) \<Rightarrow>
          bind_result (command_result (ph_git h)) (\<lambda>_.
          bind_result (command_result (verify_script h rd dir m)) (\<lambda>_.
          bind_result (run_scripts (ph_script h) (candidate_scripts run)) (\<lambda>_. Inr m))))"

text \<open>The directories of a run, and whether its temporary directory is there.\<close>

record pack_state =
  ps_slots :: swap_state
  ps_temporary :: bool

text \<open>\<open>try\<close> with \<open>finally\<close>: \<open>process.exit\<close> leaves at once, and what the \<open>finally\<close> block throws replaces the outcome.\<close>

definition try_finally ::
  "(pack_state \<Rightarrow> (pack_stop + 'a) \<times> pack_state) \<Rightarrow> (pack_state \<Rightarrow> (pack_stop + unit) \<times> pack_state) \<Rightarrow> pack_state
    \<Rightarrow> (pack_stop + 'a) \<times> pack_state" where
  "try_finally body cleanup s =
     (case body s of
        (Inl (Exits n), t) \<Rightarrow> (Inl (Exits n), t)
      | (outcome, t) \<Rightarrow> (case cleanup t of (Inl stop, u) \<Rightarrow> (Inl stop, u) | (Inr _, u) \<Rightarrow> (outcome, u)))"

definition remove_temporary :: "pack_host \<Rightarrow> pack_state \<Rightarrow> (pack_stop + unit) \<times> pack_state" where
  "remove_temporary h s =
     (if ph_removes h then (Inr (), s\<lparr>ps_slots := (ps_slots s)\<lparr>sw_candidate := None\<rparr>, ps_temporary := False\<rparr>)
      else (Inl (Throws NotRemoved), s))"

text \<open>The candidate that is packed has the number \<open>c\<close>.\<close>

definition pack_and_place ::
  "file_reader \<Rightarrow> workspace \<Rightarrow> bytes option \<Rightarrow> pack_host \<Rightarrow> nat \<Rightarrow> pack_options \<Rightarrow> platform list \<Rightarrow> pack_state
    \<Rightarrow> (pack_stop + packed_manifest) \<times> pack_state" where
  "pack_and_place rd w security h c run selected s =
     (case pack_stage rd w security h run selected of
        Inl stop \<Rightarrow> (Inl stop, s)
      | Inr m \<Rightarrow>
          if po_destination run \<noteq> None \<and> \<not> po_dryRun run
          then (case put_in_place (ph_fails h) ((ps_slots s)\<lparr>sw_candidate := Some (Whole c)\<rparr>) of
              (slots, ok) \<Rightarrow> (if ok then Inr m else Inl (Throws SwapFailed), s\<lparr>ps_slots := slots\<rparr>))
          else (Inr m, s))"

text \<open>The whole script: how it ends, the directories, and whether its temporary directory is there at the end.\<close>

definition pack_release ::
  "file_reader \<Rightarrow> workspace \<Rightarrow> bytes option \<Rightarrow> pack_host \<Rightarrow> nat \<Rightarrow> pack_options \<Rightarrow> swap_state
    \<Rightarrow> (pack_stop + packed_manifest) \<times> pack_state" where
  "pack_release rd w security h c run slots =
     (let selected = selected_platforms (po_local run) (ph_os h) (ph_cpu h) (ph_report h);
          before = \<lparr>ps_slots = slots, ps_temporary = False\<rparr>;
          made = before\<lparr>ps_temporary := True\<rparr>
      in if ph_npm_execpath h = None \<or> ph_npm_execpath h = Some '''' then (Inl (Throws NoNpm), before)
         else if (case po_destination run of None \<Rightarrow> False | Some a \<Rightarrow> checked_destination (ph_root h) (ph_cwd h) a = None)
         then (Inl (Throws OutsideRoot), before)
         else if selected = [] then (Inl (Throws (PackError NoPlatform)), before)
         else if \<not> ph_parent h \<or> \<not> ph_temporary h then (Inl (Throws NotMade), before)
         else if \<not> ph_candidate h then (Inl (Throws CandidateNotMade), made)
         else try_finally (pack_and_place rd w security h c run selected) (remove_temporary h) made)"

section \<open>Lemmas\<close>

lemma segments_path_of [simp]: "list_all plain segs \<Longrightarrow> segments (path_of segs) = segs"
proof (cases "segs = []")
  case True
  then show ?thesis by (simp add: segments_def)
next
  case False
  assume "list_all plain segs"
  then show ?thesis using False by (auto simp: segments_def split_path_of plain_def list_all_iff intro: filter_True)
qed

lemma join_with_Cons: "join_with sep (x # xs) = x @ (if xs = [] then [] else sep @ join_with sep xs)"
  by (cases xs) auto

lemma join_plain_empty: "list_all plain xs \<Longrightarrow> join_with ''/'' xs = [] \<longleftrightarrow> xs = []"
  by (cases xs) (auto simp: join_with_Cons plain_def)

lemma starts_dots:
  assumes "plain x"
  shows "starts_with (join_with ''/'' (x # xs)) ''..'' \<longleftrightarrow> starts_with x ''..''"
proof (cases x)
  case (Cons a as)
  then show ?thesis by (cases as) (auto simp: join_with_Cons starts_with_def)
qed (use assms in \<open>simp add: plain_def\<close>)

lemma relative_resolved:
  assumes "list_all plain rs" and "list_all plain ts"
  shows "relative (path_of rs) (path_of ts)
    = (let n = length (longest_common_prefix rs ts) in join_with ''/'' (replicate (length rs - n) ''..'' @ drop n ts))"
  using assms by (simp add: relative_def)

lemma prefix_common: "longest_common_prefix rs (rs @ xs) = rs"
  by (induction rs) auto

lemma common_shorter: "length (longest_common_prefix rs ts) < length rs \<or> (\<exists>xs. ts = rs @ xs)"
proof (induction rs ts rule: longest_common_prefix.induct)
qed auto

lemma climbing: "starts_with (join_with ''/'' (replicate (Suc n) ''..'' @ xs)) ''..''"
  by (simp add: join_with_Cons starts_with_def)

section \<open>Properties\<close>

text \<open>The destinations the script takes are the paths strictly below the root of the repository whose first name there does not begin with
  two dots.\<close>

theorem destination_below_root:
  assumes "list_all plain rs" and "list_all plain ts" and "resolve cwd argument = path_of ts"
  shows "checked_destination (path_of rs) cwd argument = Some d
    \<longleftrightarrow> d = path_of ts \<and> (\<exists>x xs. ts = rs @ x # xs \<and> \<not> starts_with x ''..'')"
proof (cases "\<exists>xs. ts = rs @ xs")
  case True
  then obtain xs where ts: "ts = rs @ xs" by blast
  then have xs: "list_all plain xs" using assms(2) by simp
  have r: "relative (path_of rs) (path_of ts) = join_with ''/'' xs"
    using assms(1,2) by (simp add: relative_resolved ts prefix_common)
  show ?thesis
  proof (cases xs)
    case Nil
    then show ?thesis using r by (simp add: checked_destination_def assms(3) ts)
  next
    case (Cons x ys)
    then have "plain x" using xs by simp
    then have "join_with ''/'' xs \<noteq> []" "starts_with (join_with ''/'' xs) ''..'' \<longleftrightarrow> starts_with x ''..''"
      using join_plain_empty [OF xs] starts_dots [of x ys] Cons by auto
    then show ?thesis using r by (auto simp: checked_destination_def assms(3) ts Cons)
  qed
next
  case False
  let ?n = "length (longest_common_prefix rs ts)"
  have "?n < length rs" using common_shorter [of rs ts] False by blast
  then obtain k where k: "length rs - ?n = Suc k" by (metis Suc_diff_Suc)
  have "relative (path_of rs) (path_of ts) = join_with ''/'' (replicate (Suc k) ''..'' @ drop ?n ts)"
    using assms(1,2) by (simp only: relative_resolved Let_def k)
  then have "starts_with (relative (path_of rs) (path_of ts)) ''..''" using climbing by simp
  then show ?thesis using False by (auto simp: checked_destination_def assms(3))
qed

section \<open>From the workspace to the destination\<close>

text \<open>What must have happened before a candidate is accepted.\<close>

definition candidate_accepted ::
  "file_reader \<Rightarrow> workspace \<Rightarrow> bytes option \<Rightarrow> pack_host \<Rightarrow> pack_options \<Rightarrow> packed_manifest \<Rightarrow> bool" where
  "candidate_accepted rd w security h run m \<longleftrightarrow>
     (\<exists>dir commit. ph_git h = Printed commit
        \<and> pack_candidate rd (npm_output h) w (po_local run) (selected_platforms (po_local run) (ph_os h) (ph_cpu h) (ph_report h)) commit security
            = Inr (dir, m)
        \<and> verify_candidate rd dir m = Inr ())
     \<and> ph_script h ''verify-candidate.js'' = Printed () \<and> ph_script h ''test-candidate.js'' = Printed ()
     \<and> (po_protocol run \<longrightarrow> ph_script h ''test-candidate-protocol.js'' = Printed ())
     \<and> (po_browser run \<longrightarrow> ph_script h ''test-candidate-browser.js'' = Printed ())"

lemma candidate_scripts_pass:
  "list_all (\<lambda>t. script t = Printed ()) (candidate_scripts run) \<longleftrightarrow> script ''test-candidate.js'' = Printed ()
     \<and> (po_protocol run \<longrightarrow> script ''test-candidate-protocol.js'' = Printed ())
     \<and> (po_browser run \<longrightarrow> script ''test-candidate-browser.js'' = Printed ())"
  by (simp add: candidate_scripts_def)

lemma command_result_Inr [result_simps]: "command_result r = Inr x \<longleftrightarrow> r = Printed x"
  by (cases r) (simp_all add: command_result_def)

lemma run_scripts_Inr [result_simps]: "run_scripts script xs = Inr () \<longleftrightarrow> list_all (\<lambda>t. script t = Printed ()) xs"
  by (induction xs) (simp_all add: result_simps)

lemma verify_script_Inr [result_simps]:
  "verify_script h rd dir m = Printed () \<longleftrightarrow> ph_script h ''verify-candidate.js'' = Printed () \<and> verify_candidate rd dir m = Inr ()"
  by (simp add: verify_script_def split: sum.split command.split)

lemma pack_stage_accepted:
  "pack_stage rd w security h run (selected_platforms (po_local run) (ph_os h) (ph_cpu h) (ph_report h)) = Inr m
    \<longleftrightarrow> candidate_accepted rd w security h run m"
proof -
  let ?p = "\<lambda>commit. pack_candidate rd (npm_output h) w (po_local run) (selected_platforms (po_local run) (ph_os h) (ph_cpu h) (ph_report h))
    commit security"
  show ?thesis
  proof (cases "\<exists>commit. ph_git h = Printed commit")
    case True
    then obtain commit where git: "ph_git h = Printed commit" by blast
    show ?thesis
    proof (cases "?p commit")
      case (Inl e)
      then show ?thesis
        by (cases e) (simp_all add: pack_stage_def candidate_accepted_def git split: sum.split)
    next
      case (Inr x)
      obtain dir m' where x: "x = (dir, m')" by fastforce
      show ?thesis
        by (auto simp: pack_stage_def candidate_accepted_def git Inr x result_simps candidate_scripts_pass)
    qed
  next
    case False
    then have no: "command_result (ph_git h) \<noteq> Inr c" for c by (simp add: result_simps)
    have "pack_stage rd w security h run (selected_platforms (po_local run) (ph_os h) (ph_cpu h) (ph_report h)) \<noteq> Inr m"
    proof
      assume "pack_stage rd w security h run (selected_platforms (po_local run) (ph_os h) (ph_cpu h) (ph_report h)) = Inr m"
      then show False using no
        by (auto simp: pack_stage_def result_simps split: sum.splits prod.splits pack_error.splits)
    qed
    then show ?thesis using False by (simp add: candidate_accepted_def)
  qed
qed

lemma bind_result_Inl: "bind_result r f = Inl e \<longleftrightarrow> r = Inl e \<or> (\<exists>x. r = Inr x \<and> f x = Inl e)"
  by (cases r) auto

lemma command_stops: "command_result r = Inl stop \<Longrightarrow> stop \<noteq> Throws CandidateNotMade \<and> stop \<noteq> Throws NotRemoved"
  by (cases r) (auto simp: command_result_def)

lemma scripts_stop: "run_scripts script xs = Inl stop \<Longrightarrow> stop \<noteq> Throws CandidateNotMade \<and> stop \<noteq> Throws NotRemoved"
  by (induction xs) (auto simp: bind_result_Inl dest: command_stops)

lemma stage_stops: "pack_stage rd w security h run selected = Inl stop \<Longrightarrow> stop \<noteq> Throws CandidateNotMade \<and> stop \<noteq> Throws NotRemoved"
  by (auto simp: pack_stage_def bind_result_Inl dest: command_stops scripts_stop split: sum.splits prod.splits pack_error.splits)

text \<open>The script ends before its \<open>try\<close> block, or comes to it with a destination that was checked.\<close>

lemma pack_release_cases:
  obtains (early) e where "pack_release rd w security h c run s = (Inl (Throws e), \<lparr>ps_slots = s, ps_temporary = (e = CandidateNotMade)\<rparr>)"
      "e \<noteq> NotRemoved"
  | (body) "pack_release rd w security h c run s
      = try_finally (pack_and_place rd w security h c run (selected_platforms (po_local run) (ph_os h) (ph_cpu h) (ph_report h)))
          (remove_temporary h) \<lparr>ps_slots = s, ps_temporary = True\<rparr>"
      "\<not> (case po_destination run of None \<Rightarrow> False | Some a \<Rightarrow> checked_destination (ph_root h) (ph_cwd h) a = None)"
proof -
  let ?npm = "ph_npm_execpath h = None \<or> ph_npm_execpath h = Some ''''"
  let ?bad = "case po_destination run of None \<Rightarrow> False | Some a \<Rightarrow> checked_destination (ph_root h) (ph_cwd h) a = None"
  let ?sel = "selected_platforms (po_local run) (ph_os h) (ph_cpu h) (ph_report h)"
  note code = pack_release_def Let_def
  consider "?npm" | "\<not> ?npm" "?bad" | "\<not> ?npm" "\<not> ?bad" "?sel = []" | "\<not> ?npm" "\<not> ?bad" "?sel \<noteq> []" "\<not> ph_parent h \<or> \<not> ph_temporary h"
    | "\<not> ?npm" "\<not> ?bad" "?sel \<noteq> []" "ph_parent h \<and> ph_temporary h" "\<not> ph_candidate h"
    | "\<not> ?npm" "\<not> ?bad" "?sel \<noteq> []" "ph_parent h \<and> ph_temporary h" "ph_candidate h" by argo
  then show thesis
  proof cases
    case 1
    then show thesis by (intro early [of NoNpm]) (simp_all only: code if_True, simp_all)
  next
    case 2
    then show thesis by (intro early [of OutsideRoot]) (simp_all only: code if_True if_False, simp_all)
  next
    case 3
    then show thesis by (intro early [of "PackError NoPlatform"]) (simp_all only: code if_True if_False, simp_all)
  next
    case 4
    then show thesis by (intro early [of NotMade]) (simp_all only: code if_True if_False, simp_all)
  next
    case 5
    then show thesis by (intro early [of CandidateNotMade]) (simp_all only: code if_True if_False simp_thms, simp_all)
  next
    case 6
    then show thesis by (intro body) (simp_all only: code if_True if_False simp_thms, simp_all)
  qed
qed

lemma selected_nonempty: "candidate_accepted rd w security h run m \<Longrightarrow>
  selected_platforms (po_local run) (ph_os h) (ph_cpu h) (ph_report h) \<noteq> []"
  by (auto simp: candidate_accepted_def pack_candidate_def)


text \<open>A release that check-release.js takes is packed and put in place, whatever was there before, when npm and git succeed, the test scripts
  pass and the file system does not fail.\<close>

lemma swap_succeeds:
  assumes "\<And>n. \<not> fails n" and "sw_candidate s = Some (Whole c)" and "sw_backup s = None"
  shows "\<exists>t. put_in_place fails s = (t, True) \<and> sw_destination t = Some (Whole c) \<and> sw_next t = None \<and> sw_backup t = None"
proof -
  obtain a x d b n where s: "s = \<lparr>sw_candidate = a, sw_next = x, sw_destination = d, sw_backup = b, sw_operations = n\<rparr>" by (cases s)
  show ?thesis using assms by (cases d) (simp_all add: s swap_code)
qed

theorem clean_release_put_in_place:
  assumes clean: "check_release rd nb True False w = Inr []" "sound_inputs rd nb w" "named_packages w"
    and packed: "pack_candidate rd (npm_output h) w False platforms commit security = Inr (dir, m)"
    and apart: "distinct (map cp_filename (pm_packages m))" "''SECURITY.md'' \<notin> cp_filename ` set (pm_packages m)"
    and host: "ph_git h = Printed commit" "\<And>t. ph_script h t = Printed ()" "\<And>n. \<not> ph_fails h n"
      "ph_npm_execpath h = Some npm" "npm \<noteq> ''''" "ph_parent h" "ph_temporary h" "ph_candidate h" "ph_removes h"
    and run: "\<not> po_local run" "\<not> po_dryRun run" "po_destination run = Some a" "checked_destination (ph_root h) (ph_cwd h) a \<noteq> None"
    and start: "sw_backup s = None"
  shows "\<exists>s'. pack_release rd w security h c run s = (Inr m, \<lparr>ps_slots = s', ps_temporary = False\<rparr>)
    \<and> sw_destination s' = Some (Whole c) \<and> sw_next s' = None \<and> sw_backup s' = None"
proof -
  let ?sel = "selected_platforms (po_local run) (ph_os h) (ph_cpu h) (ph_report h)"
  have sel: "?sel = platforms" by (simp add: selected_platforms_def run)
  have "verify_candidate rd dir m = Inr ()" by (rule clean_candidate_verifies [OF clean packed apart])
  then have "candidate_accepted rd w security h run m"
    using packed host by (auto simp: candidate_accepted_def run(1) sel list_all_iff) (simp add: selected_platforms_def)
  then have stage: "pack_stage rd w security h run ?sel = Inr m" and "?sel \<noteq> []"
    by (simp_all add: pack_stage_accepted selected_nonempty)
  obtain t where t: "put_in_place (ph_fails h) (s\<lparr>sw_candidate := Some (Whole c)\<rparr>) = (t, True)"
    "sw_destination t = Some (Whole c)" "sw_next t = None" "sw_backup t = None"
    using swap_succeeds [of "ph_fails h" "s\<lparr>sw_candidate := Some (Whole c)\<rparr>" c] host(3) start by auto
  have "pack_release rd w security h c run s = (Inr m, \<lparr>ps_slots = t\<lparr>sw_candidate := None\<rparr>, ps_temporary = False\<rparr>)"
    using stage \<open>?sel \<noteq> []\<close> run host
    by (simp add: pack_release_def Let_def t(1) try_finally_def pack_and_place_def remove_temporary_def)
  then show ?thesis using t(2-4) by (intro exI [of _ "t\<lparr>sw_candidate := None\<rparr>"]) simp
qed

section \<open>Witnesses\<close>

theorem destination_below_root_witness:
  "checked_destination (path_of [''repo'']) ''/repo'' ''out/./a'' = Some (path_of [''repo'', ''out'', ''a''])
   \<and> checked_destination (path_of [''repo'']) ''/repo'' ''../other'' \<noteq> Some (path_of [''other''])"
proof -
  have "list_all plain [''repo'']" "list_all plain [''repo'', ''out'', ''a'']" "list_all plain [''other'']" by code_simp+
  moreover have "resolve ''/repo'' ''out/./a'' = path_of [''repo'', ''out'', ''a'']" "resolve ''/repo'' ''../other'' = path_of [''other'']"
    by code_simp+
  ultimately show ?thesis
    using destination_below_root [of "[''repo'']" "[''repo'', ''out'', ''a'']" "''/repo''" "''out/./a''"]
      destination_below_root [of "[''repo'']" "[''other'']" "''/repo''" "''../other''"]
    by (simp add: starts_with_def)
qed

definition toy_pack_host :: "unit command \<Rightarrow> pack_host" where
  "toy_pack_host outcome = \<lparr>ph_npm_execpath = Some ''npm'', ph_root = ''/repo'', ph_cwd = ''/repo'', ph_os = ''linux'', ph_cpu = ''x64'', ph_report = ReportThrows,
     ph_npm = (\<lambda>p. Printed (example_npm p)), ph_git = Printed ''commit'', ph_script = (\<lambda>t. if t = ''verify-candidate.js'' then Printed () else outcome), ph_parent = True,
     ph_temporary = True, ph_candidate = True, ph_fails = (\<lambda>n. False), ph_removes = True\<rparr>"

definition toy_pack_options :: pack_options where
  "toy_pack_options = \<lparr>po_dryRun = False, po_local = False, po_browser = True, po_protocol = True, po_destination = Some ''out''\<rparr>"

definition toy_slots :: swap_state where
  "toy_slots = \<lparr>sw_candidate = None, sw_next = None, sw_destination = Some (Whole 1), sw_backup = None, sw_operations = 0\<rparr>"

lemma toy_npm: "npm_output (toy_pack_host outcome) = example_npm"
  by (simp add: npm_output_def toy_pack_host_def fun_eq_iff)

lemma toy_pack_fields:
  "ph_root (toy_pack_host outcome) = ''/repo''" "ph_cwd (toy_pack_host outcome) = ''/repo''" "ph_git (toy_pack_host outcome) = Printed ''commit''"
  "ph_script (toy_pack_host outcome) t = (if t = ''verify-candidate.js'' then Printed () else outcome)" "\<not> ph_fails (toy_pack_host outcome) n"
 "ph_npm_execpath (toy_pack_host outcome) = Some ''npm''" "''npm'' \<noteq> ''''"
  "ph_parent (toy_pack_host outcome)" "ph_temporary (toy_pack_host outcome)" "ph_candidate (toy_pack_host outcome)" "ph_removes (toy_pack_host outcome)"
  "\<not> po_local toy_pack_options" "\<not> po_dryRun toy_pack_options" "po_destination toy_pack_options = Some ''out''"
  by (simp_all add: toy_pack_host_def toy_pack_options_def)

lemma toy_destination: "checked_destination ''/repo'' ''/repo'' ''out'' = Some ''/repo/out''"
  by code_simp


theorem clean_release_put_in_place_witness:
  "\<exists>m s'. pack_release example_reader example_workspace (Some [7]) (toy_pack_host (Printed ())) 2 toy_pack_options toy_slots
    = (Inr m, \<lparr>ps_slots = s', ps_temporary = False\<rparr>)
    \<and> sw_destination s' = Some (Whole 2)"
proof -
  obtain dir m where m: "pack_candidate example_reader (npm_output (toy_pack_host (Printed ()))) example_workspace False platforms ''commit'' (Some [7]) = Inr (dir, m)"
    "distinct (map cp_filename (pm_packages m))" "''SECURITY.md'' \<notin> cp_filename ` set (pm_packages m)"
    unfolding toy_npm by (rule example_candidate)
  have d: "checked_destination (ph_root (toy_pack_host (Printed ()))) (ph_cwd (toy_pack_host (Printed ()))) ''out'' \<noteq> None"
    by (simp add: toy_pack_fields toy_destination)
  have "sw_backup toy_slots = None" by (simp add: toy_slots_def)
  moreover have "ph_script (toy_pack_host (Printed ())) t = Printed ()" for t by (simp add: toy_pack_fields)
  ultimately show ?thesis
    using clean_release_put_in_place [OF example_clean example_inputs m toy_pack_fields(3) _ toy_pack_fields(5-14) d] by blast
qed

end
