(* ===== verification/Spec2Isabelle.thy ===== *)
theory Spec2Isabelle
  imports H3_Sockets H3_Api Ws_Attach Http_Upgrade Http_Lifecycle Certificate Import_Run Publication_Run Candidate_Install Candidate_Swap Trusted_Use Trusted_Queue Tcp_Listener Tcp_Failures Vite_Bridge Pack_Run
begin

text \<open>
  A verification library of the repository http3-server: an HTTP/3 and WebTransport server for Node.js with a TCP
  fallback, the development certificates for it, the loader of its native addon, and the scripts that
  release it. All paths below are under src/.

  \<^bold>\<open>The program.\<close> packages/server/HTTP3Server.js turns the callbacks of a native addon (msh3) into requests,
  sessions, streams and WebSockets, keeps maps of them, and sends responses. packages/server/HTTPServer.js puts
  the same handlers behind HTTP/2 and HTTP/1.1 on the TCP port of the same number, and upgrades WebSocket
  requests there. Both drive packages/server/WebSocketConnection.js, the RFC 6455 state machine of one WebSocket.
  packages/dev-certificates writes X.509 certificates byte by byte (x509.js), caches them on disk (node.js), and
  caches a chain whose authority it installs into the trust store of the machine (trusted.js).
  packages/native/resolve.js finds the addon of the machine. The scripts import the binaries of the addon, check the
  workspace, pack a candidate, verify it, publish it and promote it.

  \<^bold>\<open>How it is modelled.\<close> Definitions keep the names of the code where they can. A class is a record, a method a function
  from the state to the state and a result; an exception is the left side of a sum. An asynchronous method is
  cut at its awaits: what runs up to the first await is one function (the names begin with \<open>start_\<close>, \<open>begin_\<close> or
  \<open>call_\<close>), what runs after an await is another, and what the await may give is a parameter. The return of an awaited
  method of the code and the going on of its caller are two microtasks, so they are two steps. An event type lists the calls,
  callbacks, timers and settled promises; a step function takes an event, and a run is a list of events, so a theorem about
  every run is about every interleaving the event loop may choose. Bytes are words of 8 bits; other integers
  of the code stay within its exact integers and are naturals or integers, with the bounds the code checks.
  What is not in the repository (the native addon, the Web Crypto API, npm, git, the URL parser, commands of the operating
  system, a failing file system) is an argument of the definitions; where a theorem needs more of
  it, a named predicate states what is documented (\<open>publish_contract\<close>, \<open>tag_contract\<close>, \<open>directory_host\<close>, \<open>sound_inputs\<close> and others)
  and a witness instantiates it.

  \<^bold>\<open>Shared theories.\<close> Prelude (types, results, big-endian fields, the locales \<open>invariant_machine\<close> and \<open>monotone_machine\<close>
  which the components interpret on their step functions), Js_Map (Map and Set in insertion order, the locale
  \<open>map_store\<close>), Js_Text (string operations), Js_Path (node:path on POSIX), Utf8 (TextEncoder, TextDecoder).

  \<^bold>\<open>WebSockets\<close> (packages/server/WebSocketConnection.js). Ws_Frame: encodeFrame and the frame reader, which is shown to
  return a frame exactly for the layout of RFC 6455 and to read on where more bytes follow (locale
  \<open>segmented_reader\<close>). Ws_Connection: every method, with two ghost fields, the bytes that have joined the buffer and the frames
  read from it. Ws_Safety: the invariant of all runs. Ws_Input: the frames a run handles are those of its input, however it is cut and
  whatever happens between them. Ws_Handshake: the abstract closing
  handshake and the refinement of it. Ws_Runs: the runs of interest one by one. Ws_Attach: the promise chain of
  attachWebSocketStream in HTTPServer.js.

  \<^bold>\<open>HTTP/3\<close> (packages/server/HTTP3Server.js and the classes beside it). Http_Headers, H3_Stream: the Request of a stream and
  what is sent on it. H3_Receive: delivery of received bytes with its timers. H3_Response: answers to requests and sessions,
  across awaits and with sessions deleted meanwhile; what a call sends is one head, chunks and one FIN, unless its session was deleted (the ids are
  kept in a ghost field). H3_Server: all callbacks with the maps the server keeps;
  H3_Consistency: the maps agree in every run; H3_Sockets: a WebSocket inside the server reads the bytes of its own stream
  and no others; H3_Api: start, datagrams and the error hook.

  \<^bold>\<open>TCP\<close> (packages/server/HTTPServer.js, internal/fetch-adapter.js). Fetch_Adapter: requests and responses between Node.js and
  Fetch. Http_Upgrade: routing and answers of WebSocket requests, with the run of an HTTP/1.1 upgrade after its response line
  until it is open or has failed, and of plain ones, whose head, body and end may each fail. Tcp_Listener: the order in which the listeners of a
  stream run, Node's own among them, and what each does; sessions and sockets. Tcp_Failures: a routing handler that
  closes, streams that refuse a response.
  Http_Lifecycle: start and stop. Vite_Bridge: examples/vite-webtransport/vite-bridge.js, a middleware for Node.js behind the same
  Fetch handler.

  \<^bold>\<open>Certificates.\<close> Der, Cert_Names, Certificate: x509.js with a strict DER reader as the reference. Dev_Cache and
  Dev_Cache_Use: node.js, calls side by side on one file system whose operations may fail and whose writes may be
  seen half done. Trust_Store: the commands of trusted.js on each platform. Trusted_Cache and Trusted_Use: one call of
  ensureTrustedDevelopmentCertificate or of the removal. Trusted_Queue: the queue that runs the calls for a directory one by one.

  \<^bold>\<open>Loader and release.\<close> Native_Resolve: packages/native/resolve.js. Release_Scripts: platforms, publication, promotion plan,
  convergence of tags, output of npm pack. Publication_Run: publish-candidate.js; Promotion_Run: promote-release.js. Release_Checks: check-release.js, set-version.js
  and the checks of import-binaries.js. Import_Transaction and Import_Run: import-binaries.js. Candidate,
  Candidate_Example, Candidate_Swap, Pack_Run: pack-release.js and verify-candidate.js; Candidate_Install: candidate.js. The theorems join the scripts: what the import accepts
  the check accepts, what the check accepts is packed into a candidate that verifies, a verified candidate
  can be published and gives npm the right packages on every supported machine, and what is published can be promoted.

  \<^bold>\<open>Bounds and termination.\<close> There is no fuel: every definition is a total function. The readers recurse on what is left of the
  input (Ws_Frame, Utf8, the DER reader), the check of the tags on the attempts left, the loops over packages and
  platforms on lists. The limits of the code (1 to 64 bytes of a common name, 125 bytes of a control frame, the
  message limit, 397 days) are literal in the definitions.

  \<^bold>\<open>Not modelled.\<close> The native addon (no source). Getters and the inspection methods for the console; the text of messages.
  Mode bits of files; paths of Windows. The helpers that make a transport of a Node.js stream. The parsing of JSON text, and the order of keys it prints. The drivers of tests and measurements
  (scripts/test-*.js, run-*.js, baseline.js, integration-*.js), which start programs and read what they print;
  netlog-diagnostics.js, a filter over a log of Chrome; the rest of the Vite example; tests; type declarations.
\<close>

end
